(* ===== verification/Prelude.thy ===== *)
theory Prelude
  imports Main "HOL-Library.Char_ord" "HOL-Library.List_Lexorder" "HOL-Library.Sublist"
begin

text \<open>
  What the components share: the fact collections of the development, generic lemmas on
  lists and pointers into a buffer, and the reading of a C++ \<open>const char*\<close>.

  A pointer into the source buffer is modelled by the text from the pointer to the end of
  the buffer: \<open>*p\<close> is the head of that list, \<open>++p\<close> is its tail, the null pointer (which
  the lexer stores as soon as it reaches the end) is \<open>[]\<close>, and
  \<open>llvm::StringRef(p, n)\<close> is \<open>take n p\<close>.
\<close>

text \<open>Rules that show a scanner only ever reads on in the buffer.\<close>

named_theorems scan_reads "a scanner only reads on"

text \<open>Rules that show a parsing step keeps the contract of a parser.\<close>

named_theorems parse_ok "introduction rules of the parser contract"

named_theorems parse_defs "definitions of the parse methods"

type_synonym pointer = string

definition string_ref :: "pointer \<Rightarrow> nat \<Rightarrow> string" where
  "string_ref p n = take n p"

lemma string_ref_Nil [simp]: "string_ref [] n = []"
  and string_ref_0 [simp]: "string_ref p 0 = []"
  by (simp_all add: string_ref_def)

lemma string_ref_Cons [simp]: "string_ref (c # p) (Suc n) = c # string_ref p n"
  by (simp add: string_ref_def)

lemma tl_shorter: "tl xs = y # ys \<Longrightarrow> Suc (length ys) < length xs"
  by (cases xs) auto

lemma suffix_length_less: "suffix xs ys \<Longrightarrow> xs \<noteq> ys \<Longrightarrow> length xs < length ys"
  by (auto simp: suffix_def)

lemma suffix_drop_length: "suffix xs ys \<Longrightarrow> xs = drop (length ys - length xs) ys"
  by (auto simp: suffix_def)

section \<open>Maps in the order of their keys\<close>

text \<open>A \<open>std::map\<close> is the list of its entries in ascending order of the keys: \<open>find\<close> is \<open>map_of\<close>,
  \<open>m[k] = v\<close> is \<open>map_put k v m\<close>, and a loop over the map is a loop over the list.\<close>

fun map_put :: "'k::linorder \<Rightarrow> 'v \<Rightarrow> ('k \<times> 'v) list \<Rightarrow> ('k \<times> 'v) list" where
  "map_put k v [] = [(k, v)]"
| "map_put k v ((k', v') # m) =
     (if k < k' then (k, v) # (k', v') # m
      else if k = k' then (k, v) # m
      else (k', v') # map_put k v m)"

definition map_erase :: "'k \<Rightarrow> ('k \<times> 'v) list \<Rightarrow> ('k \<times> 'v) list" where
  "map_erase k m = filter (\<lambda>(k', v). k' \<noteq> k) m"

abbreviation ordered :: "('k::linorder \<times> 'v) list \<Rightarrow> bool" where
  "ordered m \<equiv> sorted_wrt (<) (map fst m)"

lemma map_of_put [simp]: "map_of (map_put k v m) = (map_of m)(k \<mapsto> v)"
  by (induction m) auto

lemma keys_put [simp]: "fst ` set (map_put k v m) = insert k (fst ` set m)"
  by (induction k v m rule: map_put.induct) (simp_all add: insert_commute)

lemma keys_put_all: "(\<forall>e\<in>set (map_put k v m). P (fst e)) \<longleftrightarrow> P k \<and> (\<forall>e\<in>set m. P (fst e))"
  using ball_simps(9) [of fst "set (map_put k v m)" P] ball_simps(9) [of fst "set m" P] by simp

lemma ordered_put: "ordered m \<Longrightarrow> ordered (map_put k v m)"
  by (induction k v m rule: map_put.induct) (auto simp: keys_put_all)

lemma set_put: "set (map_put k v m) \<subseteq> insert (k, v) (set m)"
  by (induction k v m rule: map_put.induct) (auto split: if_splits)

lemma map_of_erase [simp]: "map_of (map_erase k m) = (map_of m)(k := None)"
  by (induction m) (auto simp: map_erase_def)

lemma ordered_distinct: "ordered m \<Longrightarrow> distinct (map fst m)"
  by (induction m) auto

lemma map_of_ordered: "ordered m \<Longrightarrow> (k, v) \<in> set m \<Longrightarrow> map_of m k = Some v"
  by (simp add: ordered_distinct)

section \<open>Numbers in decimal\<close>

text \<open>\<open>std::to_string\<close> of an unsigned number.\<close>

fun to_string :: "nat \<Rightarrow> string" where
  "to_string n = (if n < 10 then [char_of (48 + n)]
     else to_string (n div 10) @ [char_of (48 + n mod 10)])"

declare to_string.simps [simp del]

definition decimal_digit :: "char \<Rightarrow> bool" where
  "decimal_digit C \<longleftrightarrow> CHR ''0'' \<le> C \<and> C \<le> CHR ''9''"

definition digit_value :: "char \<Rightarrow> nat" where
  "digit_value C = of_char C - 48"

definition read_decimal :: "string \<Rightarrow> nat" where
  "read_decimal s = foldl (\<lambda>n C. 10 * n + digit_value C) 0 s"

lemma digit_char [simp]:
  assumes "d < 10"
  shows "digit_value (char_of (48 + d)) = d" "decimal_digit (char_of (48 + d))"
  using assms by (simp_all add: digit_value_def decimal_digit_def less_eq_char_def)

lemma to_string_digits: "C \<in> set (to_string n) \<Longrightarrow> decimal_digit C"
proof (induction n arbitrary: C rule: to_string.induct)
  case (1 n)
  then show ?case by (subst (asm) to_string.simps) (auto split: if_splits)
qed

lemma to_string_nonempty [simp]: "to_string n \<noteq> []"
  by (simp add: to_string.simps [of n])

lemma read_to_string [simp]: "read_decimal (to_string n) = n"
proof (induction n rule: to_string.induct)
  case (1 n)
  then show ?case
    by (subst to_string.simps) (simp add: read_decimal_def)
qed

lemma to_string_inj [simp]: "to_string m = to_string n \<longleftrightarrow> m = n"
  by (metis read_to_string)

end
