(* ===== verification/Lexer.thy ===== *)
theory Lexer
  imports Prelude
begin

text \<open>
  The lexer of the stage-0 compiler: retired/scalyc0/Lexer.h and Lexer.cpp. Tokens and
  literals are the variants of Lexer.h; the record \<open>lexer\<close> has the fields of class
  \<open>Lexer\<close>; every method is a function from the lexer to the lexer, with what it returns.
  \<open>Current\<close> is the pointer \<open>Current_\<close>, read as the rest of the source (see Prelude), so
  \<open>End_\<close> needs no field. \<open>NestingLevel_\<close> is an \<open>int\<close> that never drops below 0
  (every decrement is guarded) and counts opening brackets of the source, so a \<open>nat\<close>.
\<close>

section \<open>Tokens\<close>

datatype literal =
    StringLiteral string
  | CharacterLiteral string
  | FragmentLiteral string
  | IntegerLiteral string
  | BooleanLiteral bool
  | FloatingPointLiteral string
  | HexLiteral string

datatype token =
    EmptyToken
  | InvalidToken
  | ColonToken
  | IdentifierToken string
  | AttributeToken string
  | PunctuationToken char
  | LiteralToken literal

record lexer =
  Source :: string
  Current :: pointer
  Token :: token
  Position :: nat
  PreviousPosition :: nat
  NestingLevel :: nat

section \<open>Characters\<close>

definition is_letter :: "char \<Rightarrow> bool" where
  "is_letter C \<longleftrightarrow> (CHR ''a'' \<le> C \<and> C \<le> CHR ''z'') \<or> (CHR ''A'' \<le> C \<and> C \<le> CHR ''Z'')"

definition is_digit :: "char \<Rightarrow> bool" where
  "is_digit C \<longleftrightarrow> CHR ''0'' \<le> C \<and> C \<le> CHR ''9''"

definition is_word_char :: "char \<Rightarrow> bool" where
  "is_word_char C \<longleftrightarrow>
     (CHR ''a'' \<le> C \<and> C \<le> CHR ''z'') \<or> (CHR ''A'' \<le> C \<and> C \<le> CHR ''Z'') \<or>
     (CHR ''0'' \<le> C \<and> C \<le> CHR ''9'') \<or> C = CHR ''_''"

definition is_hex_char :: "char \<Rightarrow> bool" where
  "is_hex_char C \<longleftrightarrow>
     (CHR ''0'' \<le> C \<and> C \<le> CHR ''9'') \<or> (CHR ''a'' \<le> C \<and> C \<le> CHR ''f'') \<or>
     (CHR ''A'' \<le> C \<and> C \<le> CHR ''F'')"

text \<open>The characters that start an operator, and those that continue one: the caret
  continues an operator but is punctuation at its start.\<close>

definition operator_start :: "string" where
  "operator_start = ''+-*/=%&|~<>''"

definition operator_continue :: "string" where
  "operator_continue = ''+-*/=%&|^~<>''"

definition escapable :: "string" where
  "escapable = [CHR 0x22, CHR 0x5C, CHR 0x27, CHR ''n'', CHR ''r'', CHR ''t'', CHR ''0'']"

definition fragment_escapable :: "string" where
  "fragment_escapable = [CHR 0x60, CHR 0x5C, CHR 0x27, CHR ''n'', CHR ''r'', CHR ''t'', CHR ''0'']"

section \<open>Reading\<close>

definition readCharacter :: "lexer \<Rightarrow> lexer" where
  "readCharacter lx = (case Current lx of
       [] \<Rightarrow> lx
     | _ # rest \<Rightarrow> lx\<lparr>Current := rest, Position := Suc (Position lx)\<rparr>)"

definition empty :: "lexer \<Rightarrow> lexer" where
  "empty lx = lx\<lparr>Token := EmptyToken\<rparr>"

lemma Current_readCharacter [simp]: "Current (readCharacter lx) = tl (Current lx)"
  by (simp add: readCharacter_def split: list.split)

lemma readCharacter_frame [simp]:
  "Source (readCharacter lx) = Source lx"
  "Token (readCharacter lx) = Token lx"
  "PreviousPosition (readCharacter lx) = PreviousPosition lx"
  "NestingLevel (readCharacter lx) = NestingLevel lx"
  by (simp_all add: readCharacter_def split: list.split)

text \<open>Every scanner only ever reads on: \<open>reads lx lx'\<close> says that \<open>lx'\<close> is \<open>lx\<close> after some
  number of calls of \<open>readCharacter\<close>. What such a run leaves alone and what it bounds is
  proved here once, by induction on the run.\<close>

inductive reads :: "lexer \<Rightarrow> lexer \<Rightarrow> bool" where
  reads_refl: "reads lx lx"
| reads_step: "reads lx lx' \<Longrightarrow> reads lx (readCharacter lx')"

lemmas [scan_reads] = reads_refl reads_step

lemma reads_trans: "reads lx lx' \<Longrightarrow> reads lx' lx'' \<Longrightarrow> reads lx lx''"
  by (rotate_tac, induction rule: reads.induct) (auto intro: scan_reads)

lemma reads_frame:
  assumes "reads lx lx'"
  shows "Source lx' = Source lx" "Token lx' = Token lx"
    "PreviousPosition lx' = PreviousPosition lx" "NestingLevel lx' = NestingLevel lx"
  using assms by (induction) simp_all

lemma reads_suffix: "reads lx lx' \<Longrightarrow> suffix (Current lx') (Current lx)"
  by (induction rule: reads.induct) (auto intro: suffix_order.order_trans [OF suffix_tl])

lemma reads_length: "reads lx lx' \<Longrightarrow> length (Current lx') \<le> length (Current lx)"
  by (simp add: reads_suffix suffix_length_le)

lemma reads_Position:
  "reads lx lx' \<Longrightarrow> Position lx' + length (Current lx') = Position lx + length (Current lx)"
  by (induction rule: reads.induct) (auto simp: readCharacter_def split: list.splits)

text \<open>Induction on what is left of the buffer.\<close>

lemma buffer_cases [case_names null last more]:
  obtains "Current lx = []"
  | C where "Current lx = [C]"
  | C D rest where "Current lx = C # D # rest"
  by (metis list.exhaust)

lemmas buffer_induct = measure_induct_rule [of "\<lambda>lx. length (Current lx)", case_names less]

section \<open>Comments and white space\<close>

function handleSingleLineComment :: "lexer \<Rightarrow> lexer" where
  "handleSingleLineComment lx = (case Current lx of
       [] \<Rightarrow> lx
     | C # _ \<Rightarrow> if C = CHR ''\<newline>'' then lx else handleSingleLineComment (readCharacter lx))"
  by pat_completeness auto
termination by (relation "measure (\<lambda>lx. length (Current lx))") auto

declare handleSingleLineComment.simps [simp del]

text \<open>The comment may nest: the handler calls itself after each inner opener, and goes on
  from where the inner call stopped.\<close>

function (domintros) handleMultiLineComment :: "lexer \<Rightarrow> lexer" where
  "handleMultiLineComment lx = (case Current lx of
       [] \<Rightarrow> lx
     | C # _ \<Rightarrow>
         if C = CHR '';'' then
           (let lx = readCharacter lx in
            case Current lx of
              [] \<Rightarrow> lx
            | D # _ \<Rightarrow>
                if D = CHR ''*''
                then handleMultiLineComment (handleMultiLineComment (readCharacter lx))
                else handleMultiLineComment lx)
         else if C = CHR ''*'' then
           (let lx = readCharacter lx in
            case Current lx of
              [] \<Rightarrow> lx
            | D # _ \<Rightarrow>
                if D = CHR '';'' then readCharacter lx
                else handleMultiLineComment lx)
         else handleMultiLineComment (readCharacter lx))"
  by pat_completeness auto


lemma length_handleMultiLineComment_dom:
  "handleMultiLineComment_dom lx \<Longrightarrow>
     length (Current (handleMultiLineComment lx)) \<le> length (Current lx)"
proof (induction lx rule: handleMultiLineComment.pinduct)
  case (1 lx)
  show ?case
    using "1.IH"
    by (fastforce simp: handleMultiLineComment.psimps [OF "1.hyps"] Let_def split: list.split)
qed

termination handleMultiLineComment
  by (relation "measure (\<lambda>lx. length (Current lx))") (auto dest!: length_handleMultiLineComment_dom)

lemma handleMultiLineComment_total: "handleMultiLineComment_dom lx"
  by (rule HOL.spec, relation "measure (\<lambda>lx. length (Current lx))")
    (auto dest!: length_handleMultiLineComment_dom)

declare handleMultiLineComment.simps [simp del]

lemma reads_handleMultiLineComment [scan_reads]:
  "reads lx0 lx \<Longrightarrow> reads lx0 (handleMultiLineComment lx)"
proof (induction lx rule: buffer_induct)
  case (less lx)
  have "length (Current (handleMultiLineComment (readCharacter (readCharacter lx))))
      \<le> length (Current lx) - 2"
    using length_handleMultiLineComment_dom [of "readCharacter (readCharacter lx)"]
      handleMultiLineComment_total by simp
  with less.prems show ?case
    by (subst handleMultiLineComment.simps)
      (auto simp: Let_def split: list.split intro!: less.IH reads_step)
qed

lemma reads_handleSingleLineComment [scan_reads]:
  "reads lx0 lx \<Longrightarrow> reads lx0 (handleSingleLineComment lx)"
proof (induction lx rule: buffer_induct)
  case (less lx)
  from less.prems show ?case
    by (subst handleSingleLineComment.simps)
      (auto split: list.split intro!: less.IH reads_step)
qed

lemmas length_handleMultiLineComment = reads_length [OF reads_handleMultiLineComment [OF reads_refl]]
lemmas length_handleSingleLineComment = reads_length [OF reads_handleSingleLineComment [OF reads_refl]]

text \<open>A backslash before a line break joins the two lines. Before anything else it is
  skipped without a trace, and the loop stops.\<close>

function skipWhitespace :: "bool \<Rightarrow> lexer \<Rightarrow> lexer" where
  "skipWhitespace SkipLineFeed lx = (case Current lx of
       [] \<Rightarrow> lx
     | C # _ \<Rightarrow>
         if C = CHR '' '' \<or> C = CHR 0x09 \<or> C = CHR 0x0D
         then skipWhitespace SkipLineFeed (readCharacter lx)
         else if C = CHR ''\<newline>'' then
           (if SkipLineFeed \<or> NestingLevel lx > 0
            then skipWhitespace SkipLineFeed (readCharacter lx)
            else lx)
         else if C = CHR 0x5C then
           (let lx = readCharacter lx in
            case Current lx of
              [] \<Rightarrow> lx
            | D # _ \<Rightarrow>
                if D = CHR 0x0D
                then skipWhitespace SkipLineFeed (readCharacter (readCharacter lx))
                else if D = CHR ''\<newline>''
                then skipWhitespace SkipLineFeed (readCharacter lx)
                else lx)
         else if C = CHR '';'' then
           (let lx = readCharacter lx in
            case Current lx of
              [] \<Rightarrow> lx
            | D # _ \<Rightarrow>
                if D \<noteq> CHR ''*''
                then skipWhitespace SkipLineFeed (handleSingleLineComment lx)
                else skipWhitespace SkipLineFeed (handleMultiLineComment (readCharacter lx)))
         else lx)"
  by pat_completeness auto
termination
proof (relation "measure (\<lambda>(_, lx). length (Current lx))", goal_cases)
  case (6 b lx C rest lx' D rest')
  then show ?case using length_handleSingleLineComment [of "readCharacter lx"] by simp
next
  case (7 b lx C rest lx' D rest')
  then show ?case using length_handleMultiLineComment [of "readCharacter (readCharacter lx)"] by simp
qed auto

declare skipWhitespace.simps [simp del]

lemma reads_skipWhitespace [scan_reads]:
  "reads lx0 lx \<Longrightarrow> reads lx0 (skipWhitespace b lx)"
proof (induction lx arbitrary: b rule: buffer_induct)
  case (less lx)
  note intros = less.IH reads_step reads_handleSingleLineComment reads_handleMultiLineComment
    less.prems
  have bounds: "length (Current (handleSingleLineComment (readCharacter lx))) \<le> length (Current lx) - 1"
    "length (Current (handleMultiLineComment (readCharacter (readCharacter lx)))) \<le> length (Current lx) - 2"
    using length_handleSingleLineComment [of "readCharacter lx"]
      length_handleMultiLineComment [of "readCharacter (readCharacter lx)"] by simp_all
  show ?case
  proof (cases lx rule: buffer_cases)
    case null
    with less.prems show ?thesis by (simp add: skipWhitespace.simps [of b lx])
  next
    case last
    then show ?thesis using bounds
      by (simp add: skipWhitespace.simps [of b lx] Let_def) (intro conjI impI; simp add: intros)
  next
    case more
    then show ?thesis using bounds
      by (simp add: skipWhitespace.simps [of b lx] Let_def) (intro conjI impI; simp add: intros)
  qed
qed

lemmas length_skipWhitespace = reads_length [OF reads_skipWhitespace [OF reads_refl]]

section \<open>Scanners\<close>

function scanIdentifierLoop :: "pointer \<Rightarrow> nat \<Rightarrow> lexer \<Rightarrow> token \<times> lexer" where
  "scanIdentifierLoop Start Length lx = (case Current lx of
       [] \<Rightarrow> (if Length = 0 then InvalidToken else IdentifierToken (string_ref Start Length), lx)
     | C # _ \<Rightarrow>
         if is_word_char C then scanIdentifierLoop Start (Suc Length) (readCharacter lx)
         else (IdentifierToken (string_ref Start Length), lx))"
  by pat_completeness auto
termination by (relation "measure (\<lambda>(_, _, lx). length (Current lx))") auto

definition scanIdentifier :: "lexer \<Rightarrow> token \<times> lexer" where
  "scanIdentifier lx = scanIdentifierLoop (Current lx) 0 lx"

function scanAttributeLoop :: "pointer \<Rightarrow> nat \<Rightarrow> lexer \<Rightarrow> token \<times> lexer" where
  "scanAttributeLoop Start Length lx = (case Current lx of
       [] \<Rightarrow> (if Length = 0 then InvalidToken else AttributeToken (string_ref Start Length), lx)
     | C # _ \<Rightarrow>
         if is_word_char C then scanAttributeLoop Start (Suc Length) (readCharacter lx)
         else (AttributeToken (string_ref Start Length), lx))"
  by pat_completeness auto
termination by (relation "measure (\<lambda>(_, _, lx). length (Current lx))") auto

definition scanAttribute :: "lexer \<Rightarrow> token \<times> lexer" where
  "scanAttribute lx = scanAttributeLoop (Current lx) 0 lx"

function scanOperatorLoop :: "pointer \<Rightarrow> nat \<Rightarrow> lexer \<Rightarrow> token \<times> lexer" where
  "scanOperatorLoop Start Length lx =
     (let lx = readCharacter lx; Length = Suc Length in
      case Current lx of
        [] \<Rightarrow> (if Length = 1 then InvalidToken else IdentifierToken (string_ref Start Length), lx)
      | C # _ \<Rightarrow>
          if C \<in> set operator_continue then scanOperatorLoop Start Length lx
          else (IdentifierToken (string_ref Start Length), lx))"
  by pat_completeness auto
termination
  by (relation "measure (\<lambda>(_, _, lx). length (Current lx))") (auto simp: tl_shorter)

definition scanOperator :: "lexer \<Rightarrow> token \<times> lexer" where
  "scanOperator lx = scanOperatorLoop (Current lx) 0 lx"

declare scanIdentifierLoop.simps [simp del] scanAttributeLoop.simps [simp del]
  scanOperatorLoop.simps [simp del]

function scanLineFeedLoop :: "lexer \<Rightarrow> token \<times> lexer" where
  "scanLineFeedLoop lx =
     (let lx = skipWhitespace False lx in
      case Current lx of
        [] \<Rightarrow> (ColonToken, lx)
      | C # _ \<Rightarrow>
          if C = CHR ''\<newline>'' then scanLineFeedLoop (readCharacter lx)
          else if C = CHR '';'' then
            (let lx = readCharacter lx in
             case Current lx of
               D # _ \<Rightarrow>
                 if D = CHR ''*''
                 then scanLineFeedLoop (handleMultiLineComment (readCharacter lx))
                 else scanLineFeedLoop (handleSingleLineComment lx)
             | [] \<Rightarrow> scanLineFeedLoop (handleSingleLineComment lx))
          else (ColonToken, lx))"
  by pat_completeness auto
termination
proof (relation "measure (\<lambda>lx. length (Current lx))", goal_cases)
  case (2 lx)
  then show ?case using length_skipWhitespace [of False lx] by simp
next
  case (3 lx lx1 C)
  then show ?case
    using length_skipWhitespace [of False lx] length_handleSingleLineComment [of "readCharacter lx1"]
    by (cases "Current lx") auto
next
  case (4 lx lx1 C)
  then show ?case
    using length_skipWhitespace [of False lx]
      length_handleMultiLineComment [of "readCharacter (readCharacter lx1)"] by simp
next
  case (5 lx lx1 C)
  then show ?case
    using length_skipWhitespace [of False lx] length_handleSingleLineComment [of "readCharacter lx1"]
    by simp
qed simp

declare scanLineFeedLoop.simps [simp del]

definition scanLineFeed :: "lexer \<Rightarrow> token \<times> lexer" where
  "scanLineFeed lx = scanLineFeedLoop (readCharacter lx)"

text \<open>The four hexadecimal digits of a \<open>u\<close> escape: \<open>None\<close> when the text ends or another
  character comes first, else the new length.\<close>

fun scanHexDigits :: "nat \<Rightarrow> nat \<Rightarrow> lexer \<Rightarrow> nat option \<times> lexer" where
  "scanHexDigits 0 Length lx = (Some Length, lx)"
| "scanHexDigits (Suc i) Length lx =
     (let lx = readCharacter lx in
      case Current lx of
        [] \<Rightarrow> (None, lx)
      | H # _ \<Rightarrow> if is_hex_char H then scanHexDigits i (Suc Length) lx else (None, lx))"

lemma reads_scanHexDigits [scan_reads]:
  "reads lx0 lx \<Longrightarrow> reads lx0 (snd (scanHexDigits i n lx))"
  by (induction i n lx rule: scanHexDigits.induct)
    (auto simp: Let_def split: list.split intro: reads_step)

lemma length_scanHexDigits:
  "(r, lx') = scanHexDigits i n lx \<Longrightarrow> length (Current lx') \<le> length (Current lx)"
  using reads_length [OF reads_scanHexDigits [OF reads_refl [of lx], of i n]]
  by (cases "scanHexDigits i n lx") simp

text \<open>The loop that string literals and quoted identifiers share: \<open>quote\<close> is the closing
  character, \<open>finish\<close> makes the token.\<close>

function scanQuotedLoop ::
    "char \<Rightarrow> (string \<Rightarrow> token) \<Rightarrow> pointer \<Rightarrow> nat \<Rightarrow> lexer \<Rightarrow> token \<times> lexer" where
  "scanQuotedLoop quote finish Start Length lx =
     (let lx = readCharacter lx; Length = Suc Length in
      case Current lx of
        [] \<Rightarrow> (InvalidToken, lx)
      | C # _ \<Rightarrow>
          if C = quote then (finish (string_ref Start (Length - 1)), readCharacter lx)
          else if C = CHR 0x5C then
            (let lx = readCharacter lx; Length = Suc Length in
             case Current lx of
               [] \<Rightarrow> (InvalidToken, lx)
             | D # _ \<Rightarrow>
                 if D \<in> set escapable then scanQuotedLoop quote finish Start Length lx
                 else if D = CHR ''u'' then
                   (case scanHexDigits 4 Length lx of
                      (None, lx) \<Rightarrow> (InvalidToken, lx)
                    | (Some Length, lx) \<Rightarrow> scanQuotedLoop quote finish Start Length lx)
                 else (InvalidToken, lx))
          else scanQuotedLoop quote finish Start Length lx)"
  by pat_completeness auto

termination
  by (relation "measure (\<lambda>(_, _, _, _, lx). length (Current lx))")
    (auto dest!: tl_shorter length_scanHexDigits)

declare scanQuotedLoop.simps [simp del]

definition scanStringLiteral :: "lexer \<Rightarrow> token \<times> lexer" where
  "scanStringLiteral lx =
     scanQuotedLoop (CHR 0x22) (\<lambda>s. LiteralToken (StringLiteral s)) (tl (Current lx)) 0 lx"

definition scanStringIdentifier :: "lexer \<Rightarrow> token \<times> lexer" where
  "scanStringIdentifier lx =
     scanQuotedLoop (CHR 0x27) IdentifierToken (tl (Current lx)) 0 lx"

function scanFragmentLoop :: "pointer \<Rightarrow> nat \<Rightarrow> lexer \<Rightarrow> token \<times> lexer" where
  "scanFragmentLoop Start Length lx =
     (let lx = readCharacter lx; Length = Suc Length in
      case Current lx of
        [] \<Rightarrow> (InvalidToken, lx)
      | C # _ \<Rightarrow>
          if C = CHR 0x60
          then (LiteralToken (FragmentLiteral (string_ref Start (Length - 1))), readCharacter lx)
          else if C = CHR 0x5C then
            (let lx = readCharacter lx; Length = Suc Length in
             case Current lx of
               [] \<Rightarrow> (InvalidToken, lx)
             | D # _ \<Rightarrow>
                 if D \<in> set fragment_escapable then scanFragmentLoop Start Length lx
                 else (InvalidToken, lx))
          else scanFragmentLoop Start Length lx)"
  by pat_completeness auto
termination
  by (relation "measure (\<lambda>(_, _, lx). length (Current lx))") (auto dest!: tl_shorter)

declare scanFragmentLoop.simps [simp del]

definition scanFragmentLiteral :: "lexer \<Rightarrow> token \<times> lexer" where
  "scanFragmentLiteral lx = scanFragmentLoop (tl (Current lx)) 0 lx"

text \<open>Numbers. Each scanner is entered on the character its loop steps over.\<close>

function scanExponent :: "pointer \<Rightarrow> nat \<Rightarrow> lexer \<Rightarrow> token \<times> lexer" where
  "scanExponent Start Length lx =
     (let lx = readCharacter lx; Length = Suc Length in
      case Current lx of
        [] \<Rightarrow> (LiteralToken (FloatingPointLiteral (string_ref Start Length)), lx)
      | C # _ \<Rightarrow>
          if is_digit C then scanExponent Start Length lx
          else (LiteralToken (FloatingPointLiteral (string_ref Start Length)), lx))"
  by pat_completeness auto
termination
  by (relation "measure (\<lambda>(_, _, lx). length (Current lx))") (auto simp: tl_shorter)

function scanFraction :: "pointer \<Rightarrow> nat \<Rightarrow> lexer \<Rightarrow> token \<times> lexer" where
  "scanFraction Start Length lx =
     (let lx = readCharacter lx; Length = Suc Length in
      case Current lx of
        [] \<Rightarrow> (LiteralToken (FloatingPointLiteral (string_ref Start Length)), lx)
      | C # _ \<Rightarrow>
          if is_digit C then scanFraction Start Length lx
          else if C = CHR ''E'' \<or> C = CHR ''e'' then scanExponent Start Length lx
          else (LiteralToken (FloatingPointLiteral (string_ref Start Length)), lx))"
  by pat_completeness auto
termination
  by (relation "measure (\<lambda>(_, _, lx). length (Current lx))") (auto simp: tl_shorter)

function scanIntegerLiteral :: "pointer \<Rightarrow> nat \<Rightarrow> lexer \<Rightarrow> token \<times> lexer" where
  "scanIntegerLiteral Start Length lx =
     (let lx = readCharacter lx; Length = Suc Length in
      case Current lx of
        [] \<Rightarrow> (LiteralToken (IntegerLiteral (string_ref Start Length)), lx)
      | C # _ \<Rightarrow>
          if is_digit C then scanIntegerLiteral Start Length lx
          else if C = CHR ''.'' then scanFraction Start Length lx
          else if C = CHR ''E'' \<or> C = CHR ''e'' then scanExponent Start Length lx
          else (LiteralToken (IntegerLiteral (string_ref Start Length)), lx))"
  by pat_completeness auto
termination
  by (relation "measure (\<lambda>(_, _, lx). length (Current lx))") (auto simp: tl_shorter)

function scanHexLiteral :: "pointer \<Rightarrow> nat \<Rightarrow> lexer \<Rightarrow> token \<times> lexer" where
  "scanHexLiteral Start Length lx =
     (let lx = readCharacter lx; Length = Suc Length in
      case Current lx of
        [] \<Rightarrow> (LiteralToken (HexLiteral (string_ref Start Length)), lx)
      | C # _ \<Rightarrow>
          if is_hex_char C then scanHexLiteral Start Length lx
          else (LiteralToken (HexLiteral (string_ref Start Length)), lx))"
  by pat_completeness auto
termination
  by (relation "measure (\<lambda>(_, _, lx). length (Current lx))") (auto simp: tl_shorter)

declare scanExponent.simps [simp del] scanFraction.simps [simp del]
  scanIntegerLiteral.simps [simp del] scanHexLiteral.simps [simp del]

definition scanBooleanLiteral :: "lexer \<Rightarrow> token \<times> lexer" where
  "scanBooleanLiteral lx =
     (let lx = readCharacter lx in
      case Current lx of
        [] \<Rightarrow> (InvalidToken, lx)
      | C # _ \<Rightarrow>
          if C \<noteq> CHR ''0'' \<and> C \<noteq> CHR ''1'' then (InvalidToken, lx)
          else (LiteralToken (BooleanLiteral (C = CHR ''1'')), readCharacter lx))"

definition scanNumericLiteral :: "lexer \<Rightarrow> token \<times> lexer" where
  "scanNumericLiteral lx =
     (let Start = Current lx; lx = readCharacter lx; Length = 1 in
      case Current lx of
        [] \<Rightarrow> (LiteralToken (IntegerLiteral (string_ref Start Length)), lx)
      | C # _ \<Rightarrow>
          if is_digit C then scanIntegerLiteral Start Length lx
          else if C = CHR ''.'' then scanFraction Start Length lx
          else if C = CHR ''E'' \<or> C = CHR ''e'' then scanExponent Start Length lx
          else if C = CHR ''x'' then scanHexLiteral Start Length lx
          else if C = CHR ''B'' then scanBooleanLiteral lx
          else (LiteralToken (IntegerLiteral (string_ref Start Length)), lx))"

section \<open>Advancing\<close>

text \<open>\<open>Token_ = scan...();\<close>\<close>

definition set_token :: "token \<times> lexer \<Rightarrow> lexer" where
  "set_token r = (snd r)\<lparr>Token := fst r\<rparr>"

definition advance :: "lexer \<Rightarrow> lexer" where
  "advance lx0 =
     (let lx = lx0\<lparr>PreviousPosition := Position lx0\<rparr> in
      case Current lx of
        [] \<Rightarrow> lx
      | C # _ \<Rightarrow>
          if is_letter C then skipWhitespace False (set_token (scanIdentifier lx))
          else if CHR ''1'' \<le> C \<and> C \<le> CHR ''9''
            then skipWhitespace False (set_token (scanIntegerLiteral (Current lx) 0 lx))
          else if C \<in> set operator_start
            then skipWhitespace False (set_token (scanOperator lx))
          else if C = CHR '')'' \<or> C = CHR '']'' then
            (let lx = (if NestingLevel lx > 0
                       then lx\<lparr>NestingLevel := NestingLevel lx - 1\<rparr> else lx) in
             skipWhitespace False (readCharacter (lx\<lparr>Token := PunctuationToken C\<rparr>)))
          else if C \<in> set ''}.?!$#^''
            then skipWhitespace False (readCharacter (lx\<lparr>Token := PunctuationToken C\<rparr>))
          else if C = CHR ''('' \<or> C = CHR ''['' then
            skipWhitespace True (readCharacter
              (lx\<lparr>NestingLevel := Suc (NestingLevel lx), Token := PunctuationToken C\<rparr>))
          else if C = CHR ''{'' \<or> C = CHR '',''
            then skipWhitespace True (readCharacter (lx\<lparr>Token := PunctuationToken C\<rparr>))
          else if C = CHR ''\<newline>'' then skipWhitespace False (set_token (scanLineFeed lx))
          else if C = CHR '':''
            then skipWhitespace False ((readCharacter lx)\<lparr>Token := ColonToken\<rparr>)
          else if C = CHR ''0'' then skipWhitespace False (set_token (scanNumericLiteral lx))
          else if C = CHR ''@''
            then skipWhitespace False (set_token (scanAttribute (readCharacter lx)))
          else if C = CHR 0x22 then skipWhitespace False (set_token (scanStringLiteral lx))
          else if C = CHR 0x27 then skipWhitespace False (set_token (scanStringIdentifier lx))
          else if C = CHR 0x60 then skipWhitespace False (set_token (scanFragmentLiteral lx))
          else skipWhitespace False (lx\<lparr>Token := InvalidToken\<rparr>))"

definition newLexer :: "string \<Rightarrow> lexer" where
  "newLexer src =
     (let lx = \<lparr>Source = src, Current = src, Token = EmptyToken, Position = 0,
                PreviousPosition = 0, NestingLevel = 0\<rparr> in
      if Current lx \<noteq> [] then skipWhitespace True lx else lx)"

definition isAtEnd :: "lexer \<Rightarrow> bool" where
  "isAtEnd lx \<longleftrightarrow> Current lx = []"

section \<open>What the parser asks the lexer\<close>

text \<open>Every helper first makes sure there is a token to look at.\<close>

definition peek :: "lexer \<Rightarrow> lexer" where
  "peek lx = (if Token lx = EmptyToken then advance lx else lx)"

definition parseKeyword :: "string \<Rightarrow> lexer \<Rightarrow> bool \<times> lexer" where
  "parseKeyword Keyword lx0 =
     (let lx = peek lx0 in
      case Token lx of
        IdentifierToken Name \<Rightarrow> if Name = Keyword then (True, empty lx) else (False, lx)
      | _ \<Rightarrow> (False, lx))"

definition parseIdentifier :: "lexer \<Rightarrow> string \<times> lexer" where
  "parseIdentifier lx0 =
     (let lx = peek lx0 in
      case Token lx of
        IdentifierToken Name \<Rightarrow> (Name, empty lx)
      | _ \<Rightarrow> ([], lx))"

definition peekIdentifier :: "lexer \<Rightarrow> string \<times> lexer" where
  "peekIdentifier lx0 =
     (let lx = peek lx0 in
      case Token lx of
        IdentifierToken Name \<Rightarrow> (Name, lx)
      | _ \<Rightarrow> ([], lx))"

definition parseAttributeName :: "lexer \<Rightarrow> string \<times> lexer" where
  "parseAttributeName lx0 =
     (let lx = peek lx0 in
      case Token lx of
        AttributeToken Name \<Rightarrow> (Name, empty lx)
      | _ \<Rightarrow> ([], lx))"

definition parsePunctuation :: "char \<Rightarrow> lexer \<Rightarrow> bool \<times> lexer" where
  "parsePunctuation C lx0 =
     (let lx = peek lx0 in
      case Token lx of
        PunctuationToken Sign \<Rightarrow> if Sign = C then (True, empty lx) else (False, lx)
      | _ \<Rightarrow> (False, lx))"

definition parseColon :: "lexer \<Rightarrow> bool \<times> lexer" where
  "parseColon lx0 =
     (let lx = peek lx0 in
      case Token lx of
        ColonToken \<Rightarrow> (True, empty lx)
      | _ \<Rightarrow> (False, lx))"

text \<open>Backtracking: \<open>Lexer::State\<close> has every field but the source, so that a saved state is
  the lexer itself.\<close>

definition restore :: "lexer \<Rightarrow> lexer \<Rightarrow> lexer" where
  "restore S lx = lx\<lparr>Current := Current S, Token := Token S, Position := Position S,
     PreviousPosition := PreviousPosition S, NestingLevel := NestingLevel S\<rparr>"

end
