(* ===== verification/Syntax.thy ===== *)
theory Syntax
  imports Prelude Lexer
begin

text \<open>
  The syntax tree of the stage-0 compiler: retired/scalyc0/Syntax.h. Every struct is a
  datatype with one constructor of the struct's name, its arguments the fields in the order
  of the struct, so that the model of \<open>return ClassSyntax{Start, End, ...}\<close> is
  \<open>ClassSyntax Start End ...\<close>; every \<open>std::variant\<close> is a datatype with a constructor for
  each alternative. A node pointer is an \<open>option\<close> (\<open>None\<close> the null pointer), a pointer to a
  vector a \<open>list option\<close>, \<open>size_t\<close> a \<open>nat\<close> (offsets into the source).

  The structs of the header refer to each other in three cycles. A struct on a cycle takes
  the node that closes it as a type parameter (\<open>'ty\<close> a type, \<open>'op\<close> an operand, \<open>'at\<close> an
  attribute, \<open>'de\<close> a definition) and is named \<open>..._of\<close>; \<open>type_syntax\<close>, \<open>operand_syntax\<close> with
  \<open>attribute_syntax\<close>, and \<open>definition_syntax\<close> close the cycles, and the synonyms after each give
  the structs themselves.
\<close>

datatype empty_syntax = EmptySyntax nat nat

datatype thrown_syntax = ThrownSyntax nat nat

datatype reference_syntax = ReferenceSyntax nat nat string

datatype call_syntax = CallSyntax nat nat

datatype lifetime_syntax =
    Lifetime_Call call_syntax
  | Lifetime_Reference reference_syntax
  | Lifetime_Thrown thrown_syntax

datatype extension_syntax = ExtensionSyntax nat nat string

datatype name_syntax = NameSyntax nat nat string "extension_syntax list option"

datatype 'ty generic_argument_of = GenericArgumentSyntax nat nat 'ty

datatype 'ty generic_arguments_of = GenericArgumentsSyntax nat nat
      "'ty generic_argument_of list option"

datatype optional_syntax = OptionalSyntax nat nat

datatype type_syntax =
    TypeSyntax nat nat name_syntax "type_syntax generic_arguments_of option"
      "optional_syntax option" "lifetime_syntax option"

type_synonym generic_argument_syntax = "type_syntax generic_argument_of"
type_synonym generic_arguments_syntax = "type_syntax generic_arguments_of"

datatype as_syntax = AsSyntax nat nat type_syntax

datatype is_syntax = IsSyntax nat nat name_syntax

datatype align_of_syntax = AlignOfSyntax nat nat type_syntax

datatype size_of_syntax = SizeOfSyntax nat nat type_syntax

datatype use_syntax = UseSyntax nat nat name_syntax

datatype 'op operation_of = OperationSyntax nat nat "'op list option"

datatype type_annotation_syntax = TypeAnnotationSyntax nat nat type_syntax

datatype 'op initializer_of = InitializerSyntax nat nat "'op list option"

datatype ('op, 'at) property_of = PropertySyntax nat nat string type_annotation_syntax
      "'op initializer_of option" "'at list option"

datatype ('op, 'at) field_of = FieldSyntax nat nat "('op, 'at) property_of"

datatype ('op, 'at) part_of =
    Part_Field "('op, 'at) field_of"
  | Part_Property "('op, 'at) property_of"

datatype ('op, 'at) structure_of = StructureSyntax nat nat "('op, 'at) part_of list option"

datatype array_syntax = ArraySyntax nat nat "type_syntax list option"

datatype ('op, 'at) binding_spec_of =
    BindingSpec_Structure "('op, 'at) structure_of"
  | BindingSpec_Type type_syntax
  | BindingSpec_Array array_syntax

datatype ('op, 'at) binding_annotation_of = BindingAnnotationSyntax nat nat
      "('op, 'at) binding_spec_of"

datatype ('op, 'at) binding_of = BindingSyntax nat nat string
      "('op, 'at) binding_annotation_of option" "'op list option"

datatype ('op, 'at) let_of = LetSyntax nat nat "('op, 'at) binding_of"

datatype ('op, 'at) var_of = VarSyntax nat nat "('op, 'at) binding_of"

datatype ('op, 'at) mutable_of = MutableSyntax nat nat "('op, 'at) binding_of"

datatype 'op set_of = SetSyntax nat nat "'op list option" "'op list option"

datatype loop_syntax = LoopSyntax nat nat string

datatype continue_syntax = ContinueSyntax nat nat "loop_syntax option"

datatype 'op break_of = BreakSyntax nat nat "loop_syntax option" "'op list option"

datatype 'op return_of = ReturnSyntax nat nat "'op list option"

datatype 'op throw_of = ThrowSyntax nat nat "'op list option"

datatype ('op, 'at) statement_of =
    Statement_Empty empty_syntax
  | Statement_Operation "'op operation_of"
  | Statement_Let "('op, 'at) let_of"
  | Statement_Var "('op, 'at) var_of"
  | Statement_Mutable "('op, 'at) mutable_of"
  | Statement_Set "'op set_of"
  | Statement_Continue continue_syntax
  | Statement_Break "'op break_of"
  | Statement_Return "'op return_of"
  | Statement_Throw "'op throw_of"

datatype ('op, 'at) block_of = BlockSyntax nat nat "use_syntax list option"
      "('op, 'at) statement_of list option"

datatype ('op, 'at) action_of =
    Action_Operation "'op operation_of"
  | Action_Set "'op set_of"
  | Action_Block "('op, 'at) block_of"

datatype label_syntax = LabelSyntax nat nat string

datatype ('op, 'at) repeat_of = RepeatSyntax nat nat "label_syntax option"
      "('op, 'at) action_of"

datatype ('op, 'at) for_of = ForSyntax nat nat string "type_annotation_syntax option"
      "'op list option" "label_syntax option" "('op, 'at) action_of"

datatype ('op, 'at) lambda_of = LambdaSyntax nat nat "'op list option" "('op, 'at) action_of"

datatype ('op, 'at) when_of = WhenSyntax nat nat string name_syntax "('op, 'at) statement_of"

datatype ('op, 'at) condition_of =
    Condition_Operation "'op operation_of"
  | Condition_Let "('op, 'at) let_of"

datatype ('op, 'at) else_of = ElseSyntax nat nat "('op, 'at) statement_of"

datatype ('op, 'at) try_of = TrySyntax nat nat "lifetime_syntax option"
      "('op, 'at) condition_of" "('op, 'at) when_of list option" "('op, 'at) else_of option"

datatype ('op, 'at) choose_of = ChooseSyntax nat nat "'op list option"
      "('op, 'at) when_of list option" "('op, 'at) else_of option"

datatype ('op, 'at) while_of = WhileSyntax nat nat "('op, 'at) condition_of"
      "label_syntax option" "('op, 'at) action_of"

datatype 'op case_of = CaseSyntax nat nat "'op list option"

datatype ('op, 'at) branch_of = BranchSyntax nat nat "'op case_of list option"
      "('op, 'at) statement_of"

datatype ('op, 'at) match_of = MatchSyntax nat nat "'op list option"
      "('op, 'at) branch_of list option" "('op, 'at) else_of option"

datatype ('op, 'at) then_of = ThenSyntax nat nat "('op, 'at) statement_of"

datatype ('op, 'at) if_of = IfSyntax nat nat "'op list option" "('op, 'at) then_of"
      "('op, 'at) else_of option"

datatype ('op, 'at) element_of = ElementSyntax nat nat "'op list option" "'at list option"

datatype ('op, 'at) vector_of = VectorSyntax nat nat "('op, 'at) element_of list option"
      "lifetime_syntax option"

datatype ('op, 'at) value_of = ValueSyntax nat nat "'op list option" "'at list option"

datatype ('op, 'at) component_of = ComponentSyntax nat nat "'op list option" "'at list option"
      "('op, 'at) value_of option"

datatype ('op, 'at) object_of = ObjectSyntax nat nat "('op, 'at) component_of list option"

datatype literal_syntax = LiteralSyntax nat nat literal

datatype ('op, 'at) expression_of =
    Expression_Literal literal_syntax
  | Expression_Name name_syntax
  | Expression_Object "('op, 'at) object_of"
  | Expression_Vector "('op, 'at) vector_of"
  | Expression_Block "('op, 'at) block_of"
  | Expression_If "('op, 'at) if_of"
  | Expression_Match "('op, 'at) match_of"
  | Expression_Lambda "('op, 'at) lambda_of"
  | Expression_For "('op, 'at) for_of"
  | Expression_While "('op, 'at) while_of"
  | Expression_Choose "('op, 'at) choose_of"
  | Expression_Try "('op, 'at) try_of"
  | Expression_Repeat "('op, 'at) repeat_of"
  | Expression_SizeOf size_of_syntax
  | Expression_AlignOf align_of_syntax
  | Expression_Is is_syntax
  | Expression_As as_syntax
  | Expression_Lifetime lifetime_syntax

datatype member_access_syntax = MemberAccessSyntax nat nat name_syntax

datatype ('op, 'at) model_of =
    Model_Literal literal_syntax
  | Model_Name name_syntax
  | Model_Object "('op, 'at) object_of"
  | Model_Vector "('op, 'at) vector_of"

datatype operand_syntax =
    OperandSyntax nat nat "(operand_syntax, attribute_syntax) expression_of"
      "member_access_syntax list option"
and attribute_syntax =
    AttributeSyntax nat nat string "(operand_syntax, attribute_syntax) model_of"

type_synonym block_syntax = "(operand_syntax, attribute_syntax) block_of"
type_synonym set_syntax = "operand_syntax set_of"
type_synonym operation_syntax = "operand_syntax operation_of"
type_synonym action_syntax = "(operand_syntax, attribute_syntax) action_of"
type_synonym repeat_syntax = "(operand_syntax, attribute_syntax) repeat_of"
type_synonym for_syntax = "(operand_syntax, attribute_syntax) for_of"
type_synonym lambda_syntax = "(operand_syntax, attribute_syntax) lambda_of"
type_synonym throw_syntax = "operand_syntax throw_of"
type_synonym return_syntax = "operand_syntax return_of"
type_synonym break_syntax = "operand_syntax break_of"
type_synonym property_syntax = "(operand_syntax, attribute_syntax) property_of"
type_synonym field_syntax = "(operand_syntax, attribute_syntax) field_of"
type_synonym part_syntax = "(operand_syntax, attribute_syntax) part_of"
type_synonym structure_syntax = "(operand_syntax, attribute_syntax) structure_of"
type_synonym binding_spec_syntax = "(operand_syntax, attribute_syntax) binding_spec_of"
type_synonym binding_annotation_syntax = "(operand_syntax, attribute_syntax) binding_annotation_of"
type_synonym binding_syntax = "(operand_syntax, attribute_syntax) binding_of"
type_synonym mutable_syntax = "(operand_syntax, attribute_syntax) mutable_of"
type_synonym var_syntax = "(operand_syntax, attribute_syntax) var_of"
type_synonym let_syntax = "(operand_syntax, attribute_syntax) let_of"
type_synonym statement_syntax = "(operand_syntax, attribute_syntax) statement_of"
type_synonym when_syntax = "(operand_syntax, attribute_syntax) when_of"
type_synonym condition_syntax = "(operand_syntax, attribute_syntax) condition_of"
type_synonym try_syntax = "(operand_syntax, attribute_syntax) try_of"
type_synonym choose_syntax = "(operand_syntax, attribute_syntax) choose_of"
type_synonym while_syntax = "(operand_syntax, attribute_syntax) while_of"
type_synonym case_syntax = "operand_syntax case_of"
type_synonym branch_syntax = "(operand_syntax, attribute_syntax) branch_of"
type_synonym match_syntax = "(operand_syntax, attribute_syntax) match_of"
type_synonym else_syntax = "(operand_syntax, attribute_syntax) else_of"
type_synonym then_syntax = "(operand_syntax, attribute_syntax) then_of"
type_synonym if_syntax = "(operand_syntax, attribute_syntax) if_of"
type_synonym element_syntax = "(operand_syntax, attribute_syntax) element_of"
type_synonym vector_syntax = "(operand_syntax, attribute_syntax) vector_of"
type_synonym value_syntax = "(operand_syntax, attribute_syntax) value_of"
type_synonym component_syntax = "(operand_syntax, attribute_syntax) component_of"
type_synonym object_syntax = "(operand_syntax, attribute_syntax) object_of"
type_synonym expression_syntax = "(operand_syntax, attribute_syntax) expression_of"
type_synonym initializer_syntax = "operand_syntax initializer_of"
type_synonym model_syntax = "(operand_syntax, attribute_syntax) model_of"

datatype version_syntax = VersionSyntax nat nat literal literal

datatype package_syntax = PackageSyntax nat nat name_syntax "version_syntax option"

datatype module_syntax = ModuleSyntax nat nat string

datatype macro_syntax = MacroSyntax nat nat string model_syntax "operand_syntax list option"

datatype extend_syntax = ExtendSyntax nat nat type_syntax

datatype extends_syntax = ExtendsSyntax nat nat "extend_syntax list option"

datatype intrinsic_syntax = IntrinsicSyntax nat nat

datatype instruction_syntax = InstructionSyntax nat nat

datatype extern_syntax = ExternSyntax nat nat

datatype implementation_syntax =
    Implementation_Action action_syntax
  | Implementation_Extern extern_syntax
  | Implementation_Instruction instruction_syntax
  | Implementation_Intrinsic intrinsic_syntax

datatype item_syntax = ItemSyntax nat nat string "type_annotation_syntax option"
      "attribute_syntax list option"

datatype parameters_syntax = ParametersSyntax nat nat "item_syntax list option"

datatype parameter_set_syntax =
    ParameterSet_Parameters parameters_syntax
  | ParameterSet_Type type_syntax

datatype returns_syntax = ReturnsSyntax nat nat type_syntax "attribute_syntax list option"

datatype throws_syntax = ThrowsSyntax nat nat type_syntax "attribute_syntax list option"

datatype routine_syntax = RoutineSyntax nat nat "generic_arguments_syntax option"
      "lifetime_syntax option" "parameter_set_syntax option" "attribute_syntax list option"
      "returns_syntax option" "throws_syntax option" implementation_syntax

datatype named_syntax = NamedSyntax nat nat string routine_syntax

datatype target_syntax =
    Target_Named named_syntax
  | Target_Routine routine_syntax

datatype operator_syntax = OperatorSyntax nat nat target_syntax

datatype procedure_syntax = ProcedureSyntax nat nat target_syntax

datatype function_syntax = FunctionSyntax nat nat target_syntax

datatype de_init_syntax = DeInitSyntax nat nat action_syntax

datatype init_syntax = InitSyntax nat nat "lifetime_syntax option"
      "parameter_set_syntax option" action_syntax

datatype method_syntax =
    Method_Function function_syntax
  | Method_Procedure procedure_syntax
  | Method_Operator operator_syntax

datatype trait_syntax = TraitSyntax nat nat name_syntax "extends_syntax option"
      "attribute_syntax list option" "use_syntax list option" "method_syntax list option"

datatype implement_syntax = ImplementSyntax nat nat type_syntax "attribute_syntax list option"
      "use_syntax list option" "method_syntax list option"

datatype delegate_syntax = DelegateSyntax nat nat "parameter_set_syntax option"
      "attribute_syntax list option" "returns_syntax option" "throws_syntax option"

datatype constant_syntax = ConstantSyntax nat nat type_syntax "operand_syntax list option"

datatype variant_syntax = VariantSyntax nat nat string "attribute_syntax list option"
      "type_annotation_syntax option"

datatype 'de member_of =
    Member_Empty empty_syntax
  | Member_Init init_syntax
  | Member_DeInit de_init_syntax
  | Member_Definition 'de
  | Member_Function function_syntax
  | Member_Procedure procedure_syntax
  | Member_Operator operator_syntax
  | Member_Implement implement_syntax
  | Member_Trait trait_syntax
  | Member_Macro macro_syntax
  | Member_Module module_syntax

datatype 'de body_of = BodySyntax nat nat "use_syntax list option" "'de member_of list option"

datatype 'de union_of = UnionSyntax nat nat "variant_syntax list option" "'de body_of option"

datatype 'de export_of =
    Export_Definition 'de
  | Export_Function function_syntax
  | Export_Procedure procedure_syntax
  | Export_Operator operator_syntax
  | Export_Trait trait_syntax
  | Export_Module module_syntax

datatype 'de private_of = PrivateSyntax nat nat "'de export_of"

datatype 'de declaration_of =
    Declaration_Empty empty_syntax
  | Declaration_Package package_syntax
  | Declaration_Use use_syntax
  | Declaration_Private "'de private_of"
  | Declaration_Definition 'de
  | Declaration_Function function_syntax
  | Declaration_Procedure procedure_syntax
  | Declaration_Operator operator_syntax
  | Declaration_Trait trait_syntax
  | Declaration_Macro macro_syntax
  | Declaration_Module module_syntax
  | Declaration_Mutable mutable_syntax

datatype 'de namespace_of = NamespaceSyntax nat nat "use_syntax list option"
      "'de declaration_of list option"

datatype 'de class_of = ClassSyntax nat nat structure_syntax "'de body_of option"

datatype 'de concept_of =
    Concept_Class "'de class_of"
  | Concept_Namespace "'de namespace_of"
  | Concept_Union "'de union_of"
  | Concept_Constant constant_syntax
  | Concept_Delegate delegate_syntax
  | Concept_Intrinsic intrinsic_syntax

datatype generic_parameter_syntax = GenericParameterSyntax nat nat string
      "attribute_syntax list option"

datatype generic_parameters_syntax = GenericParametersSyntax nat nat
      "generic_parameter_syntax list option"

datatype definition_syntax =
    DefinitionSyntax nat nat string "generic_parameters_syntax option"
      "attribute_syntax list option" "definition_syntax concept_of"

type_synonym union_syntax = "definition_syntax union_of"
type_synonym namespace_syntax = "definition_syntax namespace_of"
type_synonym body_syntax = "definition_syntax body_of"
type_synonym class_syntax = "definition_syntax class_of"
type_synonym concept_syntax = "definition_syntax concept_of"
type_synonym member_syntax = "definition_syntax member_of"
type_synonym export_syntax = "definition_syntax export_of"
type_synonym private_syntax = "definition_syntax private_of"
type_synonym declaration_syntax = "definition_syntax declaration_of"

datatype file_syntax = FileSyntax nat nat "declaration_syntax list option"

datatype program_syntax = ProgramSyntax nat nat file_syntax "statement_syntax list option"

end
