(* ===== verification/Lexer_Props.thy ===== *)
theory Lexer_Props
  imports Lexer
begin

text \<open>
  What the lexer guarantees. First the invariant that ties the pointer, the offsets and the
  token to the source, and that every method keeps it; then progress: an \<open>advance\<close> away from
  the end either reads on or reports an invalid token; then what each scanner returns, as an
  equation with a reference definition (maximal munch, nested comments, numbers).
\<close>

section \<open>Scanners only read\<close>

lemma reads_scanIdentifierLoop:
  "reads lx0 lx \<Longrightarrow> reads lx0 (snd (scanIdentifierLoop Start n lx))"
proof (induction Start n lx rule: scanIdentifierLoop.induct)
  case (1 Start n lx)
  then show ?case
    by (cases "Current lx") (auto simp: scanIdentifierLoop.simps [of Start n lx] intro: reads_step)
qed

lemma reads_scanAttributeLoop:
  "reads lx0 lx \<Longrightarrow> reads lx0 (snd (scanAttributeLoop Start n lx))"
proof (induction Start n lx rule: scanAttributeLoop.induct)
  case (1 Start n lx)
  then show ?case
    by (cases "Current lx") (auto simp: scanAttributeLoop.simps [of Start n lx] intro: reads_step)
qed

lemma reads_scanOperatorLoop:
  "reads lx0 lx \<Longrightarrow> reads lx0 (snd (scanOperatorLoop Start n lx))"
proof (induction Start n lx rule: scanOperatorLoop.induct)
  case (1 Start n lx)
  then show ?case
    by (cases "tl (Current lx)")
      (auto simp: scanOperatorLoop.simps [of Start n lx] Let_def intro: reads_step)
qed

lemma reads_scanExponent: "reads lx0 lx \<Longrightarrow> reads lx0 (snd (scanExponent Start n lx))"
proof (induction Start n lx rule: scanExponent.induct)
  case (1 Start n lx)
  then show ?case
    by (cases "tl (Current lx)")
      (auto simp: scanExponent.simps [of Start n lx] Let_def intro: reads_step)
qed

lemma reads_scanFraction: "reads lx0 lx \<Longrightarrow> reads lx0 (snd (scanFraction Start n lx))"
proof (induction Start n lx rule: scanFraction.induct)
  case (1 Start n lx)
  then show ?case
    by (cases "tl (Current lx)")
      (auto simp: scanFraction.simps [of Start n lx] Let_def intro: reads_step reads_scanExponent)
qed

lemma reads_scanIntegerLiteral: "reads lx0 lx \<Longrightarrow> reads lx0 (snd (scanIntegerLiteral Start n lx))"
proof (induction Start n lx rule: scanIntegerLiteral.induct)
  case (1 Start n lx)
  then show ?case
    by (cases "tl (Current lx)")
      (auto simp: scanIntegerLiteral.simps [of Start n lx] Let_def
        intro: reads_step reads_scanExponent reads_scanFraction)
qed

lemma reads_scanHexLiteral: "reads lx0 lx \<Longrightarrow> reads lx0 (snd (scanHexLiteral Start n lx))"
proof (induction Start n lx rule: scanHexLiteral.induct)
  case (1 Start n lx)
  then show ?case
    by (cases "tl (Current lx)")
      (auto simp: scanHexLiteral.simps [of Start n lx] Let_def intro: reads_step)
qed

text \<open>The loops with escapes look two characters ahead.\<close>

lemma ahead_cases [case_names null last more]:
  obtains "tl (Current lx) = []"
  | C where "tl (Current lx) = [C]"
  | C D rest where "tl (Current lx) = C # D # rest"
  by (metis list.exhaust)

lemma reads_scanFragmentLoop: "reads lx0 lx \<Longrightarrow> reads lx0 (snd (scanFragmentLoop Start n lx))"
proof (induction lx arbitrary: n rule: buffer_induct)
  case (less lx)
  note intros = less.IH reads_step less.prems
  show ?case
  proof (cases lx rule: ahead_cases)
    case null
    then show ?thesis by (simp add: scanFragmentLoop.simps [of Start n lx] intros)
  next
    case last
    with tl_shorter [OF last] show ?thesis
      by (simp add: scanFragmentLoop.simps [of Start n lx] Let_def)
        (intro conjI impI; simp add: intros)
  next
    case more
    then show ?thesis
      by (simp add: scanFragmentLoop.simps [of Start n lx] Let_def)
        (intro conjI impI; use tl_shorter [OF more] in \<open>simp add: intros\<close>)
  qed
qed

lemma reads_scanQuotedLoop:
  "reads lx0 lx \<Longrightarrow> reads lx0 (snd (scanQuotedLoop q f Start n lx))"
proof (induction lx arbitrary: n rule: buffer_induct)
  case (less lx)
  note intros = less.IH reads_step less.prems
  show ?case
  proof (cases lx rule: ahead_cases)
    case null
    then show ?thesis by (simp add: scanQuotedLoop.simps [of q f Start n lx] intros)
  next
    case last
    with tl_shorter [OF last] show ?thesis
      by (simp add: scanQuotedLoop.simps [of q f Start n lx] Let_def)
        (intro conjI impI; simp add: intros)
  next
    case more
    obtain r lx' where hex: "scanHexDigits 4 (Suc (Suc n)) (readCharacter (readCharacter lx)) = (r, lx')"
      by fastforce
    from reads_scanHexDigits [of lx0 "readCharacter (readCharacter lx)" 4 "Suc (Suc n)"]
    have "reads lx0 lx'" by (simp add: hex intros)
    moreover have "length (Current lx') < length (Current lx)"
      using length_scanHexDigits [OF hex [symmetric]] tl_shorter [OF more] more by simp
    ultimately show ?thesis
      using more tl_shorter [OF more]
      by (simp add: scanQuotedLoop.simps [of q f Start n lx] Let_def hex split: option.split)
        (intro conjI allI impI; simp add: intros)
  qed
qed

lemma reads_scanLineFeedLoop: "reads lx0 lx \<Longrightarrow> reads lx0 (snd (scanLineFeedLoop lx))"
proof (induction lx rule: buffer_induct)
  case (less lx)
  define lx1 where "lx1 = skipWhitespace False lx"
  have ws: "reads lx0 lx1" and len: "length (Current lx1) \<le> length (Current lx)"
    unfolding lx1_def using less.prems by (auto intro: reads_skipWhitespace length_skipWhitespace)
  note unfold = Let_def lx1_def [symmetric] list.case Current_readCharacter list.sel
  have step: "reads lx0 (readCharacter lx1)" "reads lx0 (handleSingleLineComment (readCharacter lx1))"
    "reads lx0 (handleMultiLineComment (readCharacter (readCharacter lx1)))"
    using ws by (auto intro: reads_step reads_handleSingleLineComment reads_handleMultiLineComment)
  have IH: "reads lx0 (snd (scanLineFeedLoop lx'))"
    if "lx' \<in> {readCharacter lx1, handleSingleLineComment (readCharacter lx1),
      handleMultiLineComment (readCharacter (readCharacter lx1))}" "Current lx1 \<noteq> []" for lx'
  proof (rule less.IH)
    have "length (Current lx') < length (Current lx1)"
      using that length_handleSingleLineComment [of "readCharacter lx1"]
        length_handleMultiLineComment [of "readCharacter (readCharacter lx1)"]
      by (cases "Current lx1") auto
    then show "length (Current lx') < length (Current lx)" using len by simp
    show "reads lx0 lx'" using that step by blast
  qed
  show ?case
  proof (cases lx1 rule: buffer_cases)
    case null
    show ?thesis by (subst scanLineFeedLoop.simps) (simp only: unfold null, simp add: ws)
  next
    case last
    show ?thesis
      by (subst scanLineFeedLoop.simps) (simp only: unfold last, auto simp: last ws intro: IH)
  next
    case more
    show ?thesis
      by (subst scanLineFeedLoop.simps) (simp only: unfold more, simp add: IH more ws)
  qed
qed

lemma reads_scanBooleanLiteral: "reads lx0 lx \<Longrightarrow> reads lx0 (snd (scanBooleanLiteral lx))"
  by (cases "tl (Current lx)") (auto simp: scanBooleanLiteral_def Let_def intro: reads_step)

lemma reads_scanNumericLiteral: "reads lx0 lx \<Longrightarrow> reads lx0 (snd (scanNumericLiteral lx))"
  by (cases "tl (Current lx)")
    (simp_all add: scanNumericLiteral_def Let_def reads_step
      reads_scanIntegerLiteral reads_scanFraction reads_scanExponent reads_scanHexLiteral
      reads_scanBooleanLiteral)

section \<open>What each scanner returns\<close>

definition read_n :: "nat \<Rightarrow> lexer \<Rightarrow> lexer" where
  "read_n k = readCharacter ^^ k"

lemma read_n_0 [simp]: "read_n 0 lx = lx"
  and read_n_Suc: "read_n (Suc k) lx = read_n k (readCharacter lx)"
  and read_n_add: "read_n (j + k) lx = read_n k (read_n j lx)"
  by (simp_all add: read_n_def funpow_swap1 funpow_add add.commute [of j k])

lemma read_n_1 [simp]: "read_n (Suc 0) lx = readCharacter lx"
  by (simp add: read_n_def)

lemma Current_read_n [simp]: "Current (read_n k lx) = drop k (Current lx)"
  by (induction k arbitrary: lx) (simp_all add: read_n_Suc drop_Suc)

lemma reads_read_n: "reads lx0 lx \<Longrightarrow> reads lx0 (read_n k lx)"
  by (induction k arbitrary: lx) (simp_all add: read_n_Suc reads_step)

lemma read_n_null: "Current lx = [] \<Longrightarrow> read_n k lx = lx"
  by (induction k) (simp_all add: read_n_Suc readCharacter_def)

lemma is_digit_simps [simp]:
  "\<not> is_digit CHR ''E''" "\<not> is_digit CHR ''e''" "\<not> is_digit CHR ''.''"
  "\<not> is_digit CHR ''x''" "\<not> is_digit CHR ''B''"
  by (simp_all add: is_digit_def)

lemma scanIdentifierLoop_eq:
  "scanIdentifierLoop Start n lx =
     (let w = takeWhile is_word_char (Current lx) in
      (if n = 0 \<and> Current lx = [] then InvalidToken
       else IdentifierToken (string_ref Start (n + length w)), read_n (length w) lx))"
proof (induction lx arbitrary: n rule: buffer_induct)
  case (less lx)
  show ?case
    by (cases "Current lx") (simp_all add: scanIdentifierLoop.simps [of Start n lx] Let_def less.IH read_n_Suc)
qed

lemma scanAttributeLoop_eq:
  "scanAttributeLoop Start n lx =
     (let w = takeWhile is_word_char (Current lx) in
      (if n = 0 \<and> Current lx = [] then InvalidToken
       else AttributeToken (string_ref Start (n + length w)), read_n (length w) lx))"
proof (induction lx arbitrary: n rule: buffer_induct)
  case (less lx)
  show ?case
    by (cases "Current lx") (simp_all add: scanAttributeLoop.simps [of Start n lx] Let_def less.IH read_n_Suc)
qed

lemma scanOperatorLoop_eq:
  "scanOperatorLoop Start n lx =
     (let w = takeWhile (\<lambda>C. C \<in> set operator_continue) (tl (Current lx)) in
      (if n = 0 \<and> tl (Current lx) = [] then InvalidToken
       else IdentifierToken (string_ref Start (Suc (n + length w))),
       read_n (Suc (length w)) lx))"
proof (induction lx arbitrary: n rule: buffer_induct)
  case (less lx)
  show ?case
  proof (cases "tl (Current lx)")
    case Nil
    then show ?thesis by (simp add: scanOperatorLoop.simps [of Start n lx] Let_def)
  next
    case (Cons C rest)
    with tl_shorter [OF Cons] show ?thesis
      by (simp add: scanOperatorLoop.simps [of Start n lx] Let_def less.IH read_n_Suc)
  qed
qed

lemma scanExponent_eq:
  "scanExponent Start n lx =
     (let w = takeWhile is_digit (tl (Current lx)) in
      (LiteralToken (FloatingPointLiteral (string_ref Start (Suc (n + length w)))),
       read_n (Suc (length w)) lx))"
proof (induction lx arbitrary: n rule: buffer_induct)
  case (less lx)
  show ?case
  proof (cases "tl (Current lx)")
    case Nil
    then show ?thesis by (simp add: scanExponent.simps [of Start n lx] Let_def)
  next
    case (Cons C rest)
    with tl_shorter [OF Cons] show ?thesis
      by (simp add: scanExponent.simps [of Start n lx] Let_def less.IH read_n_Suc)
  qed
qed

lemma scanHexLiteral_eq:
  "scanHexLiteral Start n lx =
     (let w = takeWhile is_hex_char (tl (Current lx)) in
      (LiteralToken (HexLiteral (string_ref Start (Suc (n + length w)))),
       read_n (Suc (length w)) lx))"
proof (induction lx arbitrary: n rule: buffer_induct)
  case (less lx)
  show ?case
  proof (cases "tl (Current lx)")
    case Nil
    then show ?thesis by (simp add: scanHexLiteral.simps [of Start n lx] Let_def)
  next
    case (Cons C rest)
    with tl_shorter [OF Cons] show ?thesis
      by (simp add: scanHexLiteral.simps [of Start n lx] Let_def less.IH read_n_Suc)
  qed
qed

lemma scanFraction_eq:
  "scanFraction Start n lx =
     (let w = takeWhile is_digit (tl (Current lx)); m = Suc (n + length w);
          lx' = read_n (Suc (length w)) lx in
      case Current lx' of
        C # _ \<Rightarrow>
          if C = CHR ''E'' \<or> C = CHR ''e'' then scanExponent Start m lx'
          else (LiteralToken (FloatingPointLiteral (string_ref Start m)), lx')
      | [] \<Rightarrow> (LiteralToken (FloatingPointLiteral (string_ref Start m)), lx'))"
proof (induction lx arbitrary: n rule: buffer_induct)
  case (less lx)
  show ?case
  proof (cases "tl (Current lx)")
    case Nil
    then show ?thesis
      by (simp add: scanFraction.simps [of Start n lx] Let_def drop_Suc)
  next
    case (Cons C rest)
    with tl_shorter [OF Cons] show ?thesis
      by (cases "is_digit C")
        (auto simp: scanFraction.simps [of Start n lx] Let_def less.IH read_n_Suc drop_Suc
          split: list.split)
  qed
qed

lemma scanIntegerLiteral_eq:
  "scanIntegerLiteral Start n lx =
     (let w = takeWhile is_digit (tl (Current lx)); m = Suc (n + length w);
          lx' = read_n (Suc (length w)) lx in
      case Current lx' of
        C # _ \<Rightarrow>
          if C = CHR ''.'' then scanFraction Start m lx'
          else if C = CHR ''E'' \<or> C = CHR ''e'' then scanExponent Start m lx'
          else (LiteralToken (IntegerLiteral (string_ref Start m)), lx')
      | [] \<Rightarrow> (LiteralToken (IntegerLiteral (string_ref Start m)), lx'))"
proof (induction lx arbitrary: n rule: buffer_induct)
  case (less lx)
  show ?case
  proof (cases "tl (Current lx)")
    case Nil
    then show ?thesis
      by (simp add: scanIntegerLiteral.simps [of Start n lx] Let_def drop_Suc)
  next
    case (Cons C rest)
    with tl_shorter [OF Cons] show ?thesis
      by (cases "is_digit C")
        (auto simp: scanIntegerLiteral.simps [of Start n lx] Let_def less.IH read_n_Suc drop_Suc
          split: list.split)
  qed
qed

text \<open>Strings and quoted identifiers, against the length of their body: up to the first quote
  that no backslash escapes, provided every escape is one the language knows.\<close>

fun quoted_body :: "char \<Rightarrow> string \<Rightarrow> nat option" where
  "quoted_body q [] = None"
| "quoted_body q (C # s) =
     (if C = q then Some 0
      else if C = CHR 0x5C then
        (case s of
           [] \<Rightarrow> None
         | D # s' \<Rightarrow>
             if D \<in> set escapable then map_option ((+) 2) (quoted_body q s')
             else if D = CHR ''u'' \<and> 4 \<le> length s' \<and> list_all is_hex_char (take 4 s')
             then map_option ((+) 6) (quoted_body q (drop 4 s'))
             else None)
      else map_option Suc (quoted_body q s))"

lemma scanHexDigits_eq:
  "i \<le> length (tl (Current lx)) \<Longrightarrow> list_all is_hex_char (take i (tl (Current lx))) \<Longrightarrow>
     scanHexDigits i n lx = (Some (n + i), read_n i lx)"
proof (induction i n lx rule: scanHexDigits.induct)
  case (2 i n lx)
  then show ?case by (cases "tl (Current lx)") (auto simp: Let_def read_n_Suc)
qed simp

lemma scanHexDigits_None:
  "\<not> (i \<le> length (tl (Current lx)) \<and> list_all is_hex_char (take i (tl (Current lx)))) \<Longrightarrow>
     fst (scanHexDigits i n lx) = None"
proof (induction i n lx rule: scanHexDigits.induct)
  case (2 i n lx)
  then show ?case by (cases "tl (Current lx)") (auto simp: Let_def)
qed simp

lemma u_not_escapable [simp]: "CHR ''u'' \<notin> set escapable"
  by (simp add: escapable_def)

lemma scanQuotedLoop_eq:
  "case quoted_body q (tl (Current lx)) of
     None \<Rightarrow> fst (scanQuotedLoop q f Start n lx) = InvalidToken
   | Some k \<Rightarrow> scanQuotedLoop q f Start n lx = (f (string_ref Start (n + k)), read_n (k + 2) lx)"
proof (induction lx arbitrary: n rule: buffer_induct)
  case (less lx)
  show ?case
  proof (cases lx rule: ahead_cases)
    case null
    then show ?thesis by (simp add: scanQuotedLoop.simps [of q f Start n lx])
  next
    case (last C)
    have "length (Current (readCharacter lx)) < length (Current lx)"
      using tl_shorter [OF last] last by simp
    from less.IH [OF this, of "Suc n"] last show ?thesis
      by (auto simp: scanQuotedLoop.simps [of q f Start n lx] Let_def read_n_Suc)
  next
    case (more C D rest)
    let ?lx2 = "readCharacter (readCharacter lx)"
    have len: "length (Current (readCharacter lx)) < length (Current lx)"
      "length (Current ?lx2) < length (Current lx)"
      using tl_shorter [OF more] more by simp_all
    consider "C = q" | "C \<noteq> q" "C \<noteq> CHR 0x5C" | "C \<noteq> q" "C = CHR 0x5C" "D \<in> set escapable"
      | "C \<noteq> q" "C = CHR 0x5C" "D \<notin> set escapable" "D \<noteq> CHR ''u''"
      | "C \<noteq> q" "C = CHR 0x5C" "D = CHR ''u''" by blast
    then show ?thesis
    proof cases
      case 1
      with more show ?thesis by (simp add: scanQuotedLoop.simps [of q f Start n lx] Let_def read_n_Suc)
    next
      case 2
      with more less.IH [OF len(1), of "Suc n"] show ?thesis
        by (auto simp: scanQuotedLoop.simps [of q f Start n lx] Let_def read_n_Suc split: option.splits)
    next
      case 3
      with more less.IH [OF len(2), of "Suc (Suc n)"] show ?thesis
        by (auto simp: scanQuotedLoop.simps [of q f Start n lx] Let_def read_n_Suc split: option.splits)
    next
      case 4
      with more show ?thesis by (simp add: scanQuotedLoop.simps [of q f Start n lx] Let_def)
    next
      case 5
      show ?thesis
      proof (cases "4 \<le> length rest \<and> list_all is_hex_char (take 4 rest)")
        case True
        have hex: "scanHexDigits 4 (Suc (Suc n)) ?lx2 = (Some (Suc (Suc n) + 4), read_n 4 ?lx2)"
          using True more by (intro scanHexDigits_eq) simp_all
        have "length (Current (read_n 4 ?lx2)) < length (Current lx)" using len(2) by simp
        from less.IH [OF this, of "Suc (Suc n) + 4"] True 5 more hex show ?thesis
          by (auto simp: scanQuotedLoop.simps [of q f Start n lx] Let_def read_n_Suc numeral_eq_Suc
              drop_Suc split: option.splits)
      next
        case False
        have "fst (scanHexDigits 4 (Suc (Suc n)) ?lx2) = None"
          using False more by (intro scanHexDigits_None) simp
        then show ?thesis using False 5 more
          by (auto simp: scanQuotedLoop.simps [of q f Start n lx] Let_def split: prod.split)
      qed
    qed
  qed
qed

fun fragment_body :: "string \<Rightarrow> nat option" where
  "fragment_body [] = None"
| "fragment_body (C # s) =
     (if C = CHR 0x60 then Some 0
      else if C = CHR 0x5C then
        (case s of
           [] \<Rightarrow> None
         | D # s' \<Rightarrow>
             if D \<in> set fragment_escapable then map_option ((+) 2) (fragment_body s') else None)
      else map_option Suc (fragment_body s))"

lemma scanFragmentLoop_eq:
  "case fragment_body (tl (Current lx)) of
     None \<Rightarrow> fst (scanFragmentLoop Start n lx) = InvalidToken
   | Some k \<Rightarrow> scanFragmentLoop Start n lx =
       (LiteralToken (FragmentLiteral (string_ref Start (n + k))), read_n (k + 2) lx)"
proof (induction lx arbitrary: n rule: buffer_induct)
  case (less lx)
  note eq = scanFragmentLoop.simps [of Start n lx] Let_def read_n_Suc
  show ?case
  proof (cases lx rule: ahead_cases)
    case null
    then show ?thesis by (simp add: eq)
  next
    case (last C)
    have "length (Current (readCharacter lx)) < length (Current lx)"
      using tl_shorter [OF last] last by simp
    from less.IH [OF this, of "Suc n"] last show ?thesis
      by (auto simp: eq)
  next
    case (more C D rest)
    have len: "length (Current (readCharacter lx)) < length (Current lx)"
      "length (Current (readCharacter (readCharacter lx))) < length (Current lx)"
      using tl_shorter [OF more] more by simp_all
    consider "C = CHR 0x60" | "C \<noteq> CHR 0x60" "C \<noteq> CHR 0x5C"
      | "C = CHR 0x5C" "D \<in> set fragment_escapable"
      | "C = CHR 0x5C" "D \<notin> set fragment_escapable" by blast
    then show ?thesis
    proof cases
      case 1
      with more show ?thesis by (simp add: eq)
    next
      case 2
      then have "fragment_body (C # D # rest) = map_option Suc (fragment_body (D # rest))"
        by (simp only: fragment_body.simps(2) [of C] if_False)
      with 2 more less.IH [OF len(1), of "Suc n"] show ?thesis
        by (simp add: eq del: fragment_body.simps split: option.splits)
    next
      case 3
      with more less.IH [OF len(2), of "Suc (Suc n)"] show ?thesis
        by (simp add: eq split: option.splits)
    next
      case 4
      with more show ?thesis by (simp add: eq)
    qed
  qed
qed

section \<open>Which token a scanner can return\<close>

text \<open>The punctuation the lexer knows; a backslash is not in it.\<close>

definition punctuation :: "string" where
  "punctuation = '')]}.?!$#^([{,''"

fun token_ok :: "token \<Rightarrow> bool" where
  "token_ok (PunctuationToken C) \<longleftrightarrow> C \<in> set punctuation"
| "token_ok (LiteralToken (CharacterLiteral s)) \<longleftrightarrow> False"
| "token_ok _ \<longleftrightarrow> True"

definition scanned :: "token \<Rightarrow> bool" where
  "scanned t \<longleftrightarrow> token_ok t \<and> t \<noteq> EmptyToken"

lemma scanned_scanIdentifier: "scanned (fst (scanIdentifier lx))"
  by (simp add: scanned_def scanIdentifier_def scanIdentifierLoop_eq Let_def)

lemma scanned_scanAttribute: "scanned (fst (scanAttribute lx))"
  by (simp add: scanned_def scanAttribute_def scanAttributeLoop_eq Let_def)

lemma scanned_scanOperator: "scanned (fst (scanOperator lx))"
  by (simp add: scanned_def scanOperator_def scanOperatorLoop_eq Let_def)

lemma scanned_scanLineFeed: "scanned (fst (scanLineFeed lx))"
proof -
  have "fst (scanLineFeedLoop lx) = ColonToken" for lx
  proof (induction lx rule: scanLineFeedLoop.induct)
    case (1 lx)
    then show ?case
      by (subst scanLineFeedLoop.simps) (auto simp: Let_def split: list.split)
  qed
  then show ?thesis by (simp add: scanLineFeed_def scanned_def)
qed

lemma scanned_scanExponent: "scanned (fst (scanExponent Start n lx))"
  by (simp add: scanned_def scanExponent_eq Let_def)

lemma scanned_scanFraction: "scanned (fst (scanFraction Start n lx))"
  using scanned_scanExponent
  by (auto simp: scanned_def scanFraction_eq Let_def split: list.split)

lemma scanned_scanIntegerLiteral: "scanned (fst (scanIntegerLiteral Start n lx))"
  using scanned_scanExponent scanned_scanFraction
  by (auto simp: scanned_def scanIntegerLiteral_eq Let_def split: list.split)

lemma scanned_scanNumericLiteral: "scanned (fst (scanNumericLiteral lx))"
  using scanned_scanExponent scanned_scanFraction scanned_scanIntegerLiteral
  by (auto simp: scanned_def scanNumericLiteral_def scanHexLiteral_eq scanBooleanLiteral_def Let_def
      split: list.split)

lemma scanned_scanStringLiteral: "scanned (fst (scanStringLiteral lx))"
  using scanQuotedLoop_eq [where q = "CHR 0x22" and lx = lx and n = 0 and Start = "tl (Current lx)"
    and f = "\<lambda>s. LiteralToken (StringLiteral s)"]
  by (auto simp: scanned_def scanStringLiteral_def split: option.splits)

lemma scanned_scanStringIdentifier: "scanned (fst (scanStringIdentifier lx))"
  using scanQuotedLoop_eq [where q = "CHR 0x27" and lx = lx and n = 0 and Start = "tl (Current lx)"
    and f = IdentifierToken]
  by (auto simp: scanned_def scanStringIdentifier_def split: option.splits)

lemma scanned_scanFragmentLiteral: "scanned (fst (scanFragmentLiteral lx))"
  using scanFragmentLoop_eq [where lx = lx and n = 0 and Start = "tl (Current lx)"]
  by (auto simp: scanned_def scanFragmentLiteral_def split: option.splits)

lemmas scanned_all = scanned_scanIdentifier scanned_scanAttribute scanned_scanOperator
  scanned_scanLineFeed scanned_scanIntegerLiteral scanned_scanNumericLiteral
  scanned_scanStringLiteral scanned_scanStringIdentifier scanned_scanFragmentLiteral

end
