(* ===== verification/Lexer_Inv.thy ===== *)
theory Lexer_Inv
  imports Lexer_Props
begin

text \<open>
  The invariant of the lexer and its progress. \<open>lexer_ok\<close> ties the pointer, the two offsets
  and the token to the source; every method of the class keeps it. \<open>lexMeasure\<close> is what is
  left to do: what is left of the buffer and the token that has been scanned and not yet
  consumed. Looking at a token never raises it, and consuming one lowers it.
\<close>

section \<open>What one call of advance does\<close>

lemma readCharacter_set_token [simp]:
  "readCharacter (lx\<lparr>Token := t\<rparr>) = (readCharacter lx)\<lparr>Token := t\<rparr>"
  by (simp add: readCharacter_def split: list.split)

definition shorter :: "lexer \<Rightarrow> token \<times> lexer \<Rightarrow> bool" where
  "shorter lx r \<longleftrightarrow> fst r = InvalidToken \<or> length (Current (snd r)) < length (Current lx)"

lemma shorter_read_n: "Current lx \<noteq> [] \<Longrightarrow> shorter lx (t, read_n (Suc k) lx)"
  by (cases "Current lx") (auto simp: shorter_def)

lemma is_letter_word: "is_letter C \<Longrightarrow> is_word_char C"
  by (auto simp: is_letter_def is_word_char_def)

lemma shorter_scanIdentifier:
  "Current lx = C # rest \<Longrightarrow> is_letter C \<Longrightarrow> shorter lx (scanIdentifier lx)"
  by (simp add: scanIdentifier_def scanIdentifierLoop_eq Let_def is_letter_word shorter_read_n)

lemma shorter_scanAttribute: "Current lx \<noteq> [] \<Longrightarrow> shorter lx (scanAttribute (readCharacter lx))"
  by (auto simp: scanAttribute_def scanAttributeLoop_eq Let_def read_n_Suc [symmetric] shorter_read_n
      simp del: read_n_1)

lemma shorter_scanOperator: "Current lx \<noteq> [] \<Longrightarrow> shorter lx (scanOperator lx)"
  by (simp add: scanOperator_def scanOperatorLoop_eq Let_def shorter_read_n)

lemma shorter_snd:
  "reads lx1 lx' \<Longrightarrow> length (Current lx1) < length (Current lx) \<Longrightarrow> snd r = lx' \<Longrightarrow> shorter lx r"
  by (auto simp: shorter_def dest: reads_length)

lemma shorter_scanLineFeed: "Current lx \<noteq> [] \<Longrightarrow> shorter lx (scanLineFeed lx)"
  by (rule shorter_snd [OF reads_scanLineFeedLoop [OF reads_refl, of "readCharacter lx"]])
    (simp_all add: scanLineFeed_def)

lemma reads_one_more:
  assumes "Current lx \<noteq> []" "reads (readCharacter lx) (snd r)"
  shows "shorter lx r"
  using assms by (intro shorter_snd [of "readCharacter lx"]) simp_all

text \<open>The loops that start by reading a character.\<close>

lemma reads_loops:
  "reads (readCharacter lx) (snd (scanExponent Start n lx))"
  "reads (readCharacter lx) (snd (scanFraction Start n lx))"
  "reads (readCharacter lx) (snd (scanIntegerLiteral Start n lx))"
  "reads (readCharacter lx) (snd (scanHexLiteral Start n lx))"
proof -
  have "reads (readCharacter lx) (read_n (Suc k) lx)" for k
    by (simp add: read_n_Suc reads_read_n reads_refl)
  then show E: "reads (readCharacter lx) (snd (scanExponent Start n lx))"
    "reads (readCharacter lx) (snd (scanHexLiteral Start n lx))" for n
    by (simp_all add: scanExponent_eq scanHexLiteral_eq Let_def)
  show F: "reads (readCharacter lx) (snd (scanFraction Start n lx))" for n
    by (subst scanFraction.simps)
      (auto simp: Let_def reads_refl reads_scanExponent reads_scanFraction split: list.split)
  show "reads (readCharacter lx) (snd (scanIntegerLiteral Start n lx))"
    by (subst scanIntegerLiteral.simps)
      (auto simp: Let_def reads_refl reads_scanExponent reads_scanFraction reads_scanIntegerLiteral
        split: list.split)
qed

lemma reads_scanQuoted_next:
  "reads (readCharacter lx) (snd (scanQuotedLoop q f Start n lx))"
proof -
  let ?lx1 = "readCharacter lx" and ?lx2 = "readCharacter (readCharacter lx)"
  obtain r lx' where hex: "scanHexDigits 4 (Suc (Suc n)) ?lx2 = (r, lx')" by fastforce
  have h: "reads ?lx1 lx'"
    using reads_scanHexDigits [of ?lx1 ?lx2 4 "Suc (Suc n)"] hex
    by (simp add: reads_step reads_refl)
  note R = reads_scanQuotedLoop [of ?lx1] reads_step reads_refl
  show ?thesis
    by (cases lx rule: ahead_cases)
      (simp_all add: scanQuotedLoop.simps [of q f Start n lx] Let_def hex R h split: option.split)
qed

lemma reads_scanFragment_next:
  "reads (readCharacter lx) (snd (scanFragmentLoop Start n lx))"
  by (cases lx rule: ahead_cases)
    (simp_all add: scanFragmentLoop.simps [of Start n lx] Let_def reads_scanFragmentLoop reads_step
      reads_refl)

lemma reads_scanNumeric_next:
  "reads (readCharacter lx) (snd (scanNumericLiteral lx))"
  by (cases "tl (Current lx)")
    (simp_all add: scanNumericLiteral_def Let_def reads_scanBooleanLiteral reads_step reads_refl
      reads_scanIntegerLiteral reads_scanFraction reads_scanExponent reads_scanHexLiteral)

lemma reads_scanners:
  "reads lx (snd (scanIdentifier lx))"
  "reads lx (snd (scanOperator lx))"
  "reads lx (snd (scanLineFeed lx))"
  "reads lx (snd (scanNumericLiteral lx))"
  "reads lx (snd (scanIntegerLiteral Start n lx))"
  "reads lx (snd (scanAttribute (readCharacter lx)))"
  "reads lx (snd (scanStringLiteral lx))"
  "reads lx (snd (scanStringIdentifier lx))"
  "reads lx (snd (scanFragmentLiteral lx))"
  by (simp_all add: scanIdentifier_def scanAttribute_def scanOperator_def scanLineFeed_def
      scanStringLiteral_def scanStringIdentifier_def scanFragmentLiteral_def
      reads_scanIdentifierLoop reads_scanAttributeLoop reads_scanOperatorLoop
      reads_scanLineFeedLoop reads_step reads_refl reads_scanIntegerLiteral
      reads_scanNumericLiteral reads_scanQuotedLoop reads_scanFragmentLoop)

lemma shorter_scanners:
  assumes "Current lx \<noteq> []"
  shows "shorter lx (scanOperator lx)"
    "shorter lx (scanLineFeed lx)"
    "shorter lx (scanNumericLiteral lx)"
    "shorter lx (scanIntegerLiteral Start n lx)"
    "shorter lx (scanAttribute (readCharacter lx))"
    "shorter lx (scanStringLiteral lx)"
    "shorter lx (scanStringIdentifier lx)"
    "shorter lx (scanFragmentLiteral lx)"
  using assms
  by (simp_all add: shorter_scanOperator shorter_scanLineFeed shorter_scanAttribute
      reads_one_more scanStringLiteral_def scanStringIdentifier_def scanFragmentLiteral_def
      reads_loops reads_scanQuoted_next reads_scanFragment_next reads_scanNumeric_next)

text \<open>In one statement: away from the end, \<open>advance\<close> notes where it is, perhaps counts a
  bracket, reads on to after a token, stores it and skips the blanks behind it.\<close>

lemma advance_shape:
  assumes "Current lx \<noteq> []"
  obtains b n t lx1 where
    "scanned t"
    "reads (lx\<lparr>PreviousPosition := Position lx, NestingLevel := n\<rparr>) lx1"
    "shorter lx (t, lx1)"
    "advance lx = skipWhitespace b (lx1\<lparr>Token := t\<rparr>)"
proof -
  let ?lx = "lx\<lparr>PreviousPosition := Position lx\<rparr>"
  define P where "P lx' \<longleftrightarrow> (\<exists>b n t lx1. scanned t
      \<and> reads (lx\<lparr>PreviousPosition := Position lx, NestingLevel := n\<rparr>) lx1
      \<and> shorter lx (t, lx1) \<and> lx' = skipWhitespace b (lx1\<lparr>Token := t\<rparr>))" for lx'
  have scan: "P (skipWhitespace b (set_token r))"
    if "scanned (fst r)" "reads ?lx (snd r)" "shorter ?lx r" for b r
    using that unfolding P_def
    by (intro exI [of _ b] exI [of _ "NestingLevel lx"] exI [of _ "fst r"]
        exI [of _ "snd r"]) (simp add: set_token_def shorter_def)
  have sign_n: "P (skipWhitespace b ((readCharacter (?lx\<lparr>NestingLevel := n\<rparr>))\<lparr>Token := t\<rparr>))"
    if "scanned t" for b n t
    using that assms unfolding P_def
    by (intro exI [of _ b] exI [of _ n] exI [of _ t]
        exI [of _ "readCharacter (?lx\<lparr>NestingLevel := n\<rparr>)"])
      (auto simp: shorter_def intro: scan_reads)
  have sign: "P (skipWhitespace b ((readCharacter ?lx)\<lparr>Token := t\<rparr>))" if "scanned t" for b t
    using sign_n [OF that, of b "NestingLevel lx"] by simp
  have bad: "P (skipWhitespace b (?lx\<lparr>Token := InvalidToken\<rparr>))" for b
    unfolding P_def
    by (intro exI [of _ b] exI [of _ "NestingLevel lx"] exI [of _ InvalidToken] exI [of _ ?lx])
      (simp add: scanned_def shorter_def reads_refl)
  obtain C rest where C: "Current lx = C # rest" using assms by (cases "Current lx") auto
  then have C': "Current ?lx = C # rest" by simp
  have ne: "Current ?lx \<noteq> []" using C by simp
  have start: "P (skipWhitespace b (set_token (scanIdentifier ?lx)))" if "is_letter C" for b
    using that shorter_scanIdentifier [OF C']
    by (simp add: scan scanned_all reads_scanners)
  have others:
    "P (skipWhitespace b (set_token (scanIntegerLiteral (Current ?lx) 0 ?lx)))"
    "P (skipWhitespace b (set_token (scanOperator ?lx)))"
    "P (skipWhitespace b (set_token (scanLineFeed ?lx)))"
    "P (skipWhitespace b (set_token (scanNumericLiteral ?lx)))"
    "P (skipWhitespace b (set_token (scanAttribute (readCharacter ?lx))))"
    "P (skipWhitespace b (set_token (scanStringLiteral ?lx)))"
    "P (skipWhitespace b (set_token (scanStringIdentifier ?lx)))"
    "P (skipWhitespace b (set_token (scanFragmentLiteral ?lx)))" for b
    using ne by (simp_all only: scan scanned_all reads_scanners shorter_scanners not_False_eq_True)
  have open_close:
    "P (skipWhitespace b (readCharacter (?lx\<lparr>Token := PunctuationToken C\<rparr>)))"
    "P (skipWhitespace b (readCharacter
       (?lx\<lparr>NestingLevel := Suc (NestingLevel ?lx), Token := PunctuationToken C\<rparr>)))"
    "P (skipWhitespace b (readCharacter ((if NestingLevel ?lx > 0
       then ?lx\<lparr>NestingLevel := NestingLevel ?lx - 1\<rparr> else ?lx)\<lparr>Token := PunctuationToken C\<rparr>)))"
    if "C \<in> set punctuation" for b
    using that by (simp_all add: sign sign_n scanned_def)
  have colon: "P (skipWhitespace b ((readCharacter ?lx)\<lparr>Token := ColonToken\<rparr>))" for b
    by (simp add: sign scanned_def)
  have signs: "C = CHR '')'' \<or> C = CHR '']'' \<Longrightarrow> C \<in> set punctuation"
    "C \<in> set ''}.?!$#^'' \<Longrightarrow> C \<in> set punctuation"
    "C = CHR ''('' \<or> C = CHR ''['' \<Longrightarrow> C \<in> set punctuation"
    "C = CHR ''{'' \<or> C = CHR '','' \<Longrightarrow> C \<in> set punctuation"
    by (auto simp: punctuation_def)
  have branch: "(c \<Longrightarrow> P a) \<Longrightarrow> (\<not> c \<Longrightarrow> P b) \<Longrightarrow> P (if c then a else b)" for c a b
    by simp
  have "P (advance lx)"
    unfolding advance_def Let_def C' list.case
    by (intro branch others others [unfolded C'] bad colon open_close start)
      (erule signs | assumption)+
  then show ?thesis using that unfolding P_def by blast
qed

section \<open>The invariant\<close>

definition located :: "string \<Rightarrow> lexer \<Rightarrow> bool" where
  "located src lx \<longleftrightarrow> Source lx = src \<and> Position lx \<le> length src \<and> Current lx = drop (Position lx) src"

text \<open>Inside brackets the lexer never rests on a line feed.\<close>

definition lexer_ok :: "string \<Rightarrow> lexer \<Rightarrow> bool" where
  "lexer_ok src lx \<longleftrightarrow> located src lx \<and> PreviousPosition lx \<le> Position lx \<and> token_ok (Token lx) \<and>
     (NestingLevel lx > 0 \<longrightarrow> Current lx = [] \<or> hd (Current lx) \<noteq> CHR ''\<newline>'')"

lemma located_readCharacter: "located src lx \<Longrightarrow> located src (readCharacter lx)"
proof (cases "Current lx")
  case (Cons C rest)
  assume L: "located src lx"
  then have "Position lx < length src"
    using Cons by (metis drop_all linorder_not_le list.distinct(1) located_def)
  moreover from L Cons have "drop (Suc (Position lx)) src = rest"
    by (metis drop_Suc list.sel(3) located_def tl_drop)
  ultimately show ?thesis
    using L Cons unfolding readCharacter_def Cons list.case by (simp add: located_def)
qed (simp add: readCharacter_def)

lemma located_reads: "reads lx lx' \<Longrightarrow> located src lx \<Longrightarrow> located src lx'"
  by (induction rule: reads.induct) (simp_all add: located_readCharacter)

lemma Position_reads: "reads lx lx' \<Longrightarrow> Position lx \<le> Position lx'"
  using reads_Position [of lx lx'] reads_length [of lx lx'] by simp

lemma located_updates [simp]:
  "located src (lx\<lparr>Token := t\<rparr>) = located src lx"
  "located src (lx\<lparr>PreviousPosition := p\<rparr>) = located src lx"
  "located src (lx\<lparr>PreviousPosition := p, NestingLevel := n\<rparr>) = located src lx"
  by (simp_all add: located_def)

lemma skipWhitespace_frame [simp]:
  "Source (skipWhitespace b lx) = Source lx" "Token (skipWhitespace b lx) = Token lx"
  "PreviousPosition (skipWhitespace b lx) = PreviousPosition lx"
  "NestingLevel (skipWhitespace b lx) = NestingLevel lx"
  using reads_frame [OF reads_skipWhitespace [OF reads_refl]] by blast+

lemma skipWhitespace_no_line_feed:
  "b \<or> NestingLevel lx > 0 \<Longrightarrow>
     Current (skipWhitespace b lx) = [] \<or> hd (Current (skipWhitespace b lx)) \<noteq> CHR ''\<newline>''"
proof (induction lx rule: buffer_induct)
  case (less lx)
  have bounds: "length (Current (handleSingleLineComment (readCharacter lx))) \<le> length (Current lx) - 1"
    "length (Current (handleMultiLineComment (readCharacter (readCharacter lx)))) \<le> length (Current lx) - 2"
    using length_handleSingleLineComment [of "readCharacter lx"]
      length_handleMultiLineComment [of "readCharacter (readCharacter lx)"] by simp_all
  have nest: "NestingLevel (handleSingleLineComment (readCharacter lx)) = NestingLevel lx"
    "NestingLevel (handleMultiLineComment (readCharacter (readCharacter lx))) = NestingLevel lx"
    using reads_frame(4) [OF reads_handleSingleLineComment [OF reads_refl], of "readCharacter lx"]
      reads_frame(4) [OF reads_handleMultiLineComment [OF reads_refl],
        of "readCharacter (readCharacter lx)"] by simp_all
  show ?case
    using less.prems bounds nest
    by (cases lx rule: buffer_cases)
      (simp_all add: skipWhitespace.simps [of b lx] Let_def less.IH)
qed

lemma lexer_ok_newLexer: "lexer_ok src (newLexer src)"
proof -
  let ?lx = "\<lparr>Source = src, Current = src, Token = EmptyToken, Position = 0,
                PreviousPosition = 0, NestingLevel = 0\<rparr>"
  have "located src ?lx" by (simp add: located_def)
  moreover have "located src (skipWhitespace True ?lx)"
    by (rule located_reads [OF reads_skipWhitespace [OF reads_refl] \<open>located src ?lx\<close>])
  ultimately show ?thesis
    by (auto simp: newLexer_def Let_def lexer_ok_def)
qed

lemma lexer_ok_advance:
  assumes "lexer_ok src lx"
  shows "lexer_ok src (advance lx)"
proof (cases "Current lx = []")
  case True
  with assms show ?thesis by (simp add: advance_def lexer_ok_def Let_def)
next
  case False
  then obtain b n t lx1 where A: "scanned t"
    "reads (lx\<lparr>PreviousPosition := Position lx, NestingLevel := n\<rparr>) lx1" "shorter lx (t, lx1)"
    "advance lx = skipWhitespace b (lx1\<lparr>Token := t\<rparr>)"
    by (rule advance_shape)
  have "located src lx1"
    by (rule located_reads [OF A(2)]) (use assms in \<open>simp add: lexer_ok_def\<close>)
  then have L: "located src (skipWhitespace b (lx1\<lparr>Token := t\<rparr>))"
    by (intro located_reads [OF reads_skipWhitespace [OF reads_refl]]) simp
  have "Position lx \<le> Position lx1"
    using Position_reads [OF A(2)] by simp
  moreover have "Position lx1 \<le> Position (skipWhitespace b (lx1\<lparr>Token := t\<rparr>))"
    using Position_reads [OF reads_skipWhitespace [OF reads_refl], of "lx1\<lparr>Token := t\<rparr>" b] by simp
  ultimately show ?thesis
    using L A(1,4) reads_frame(3) [OF A(2)] skipWhitespace_no_line_feed [of b "lx1\<lparr>Token := t\<rparr>"]
    by (simp add: lexer_ok_def scanned_def)
qed

lemma lexer_ok_set_Token: "lexer_ok src lx \<Longrightarrow> token_ok t \<Longrightarrow> lexer_ok src (lx\<lparr>Token := t\<rparr>)"
  by (simp add: lexer_ok_def)

lemma lexer_ok_empty: "lexer_ok src lx \<Longrightarrow> lexer_ok src (empty lx)"
  by (simp add: empty_def lexer_ok_set_Token)

lemma lexer_ok_peek: "lexer_ok src lx \<Longrightarrow> lexer_ok src (peek lx)"
  by (simp add: peek_def lexer_ok_advance)

lemma lexer_ok_restore: "lexer_ok src lx \<Longrightarrow> lexer_ok src S \<Longrightarrow> restore S lx = S"
  by (simp add: restore_def lexer_ok_def located_def)

section \<open>Progress\<close>

definition lexMeasure :: "lexer \<Rightarrow> nat" where
  "lexMeasure lx = 2 * length (Current lx) +
     (if Token lx = EmptyToken \<or> Token lx = InvalidToken then 0 else 1)"

text \<open>Away from the end, \<open>advance\<close> always finds some token, and either reads on or stores
  the invalid token.\<close>

lemma advance_progress_aux:
  assumes "Current lx \<noteq> []"
  shows "Token (advance lx) \<noteq> EmptyToken" "PreviousPosition (advance lx) = Position lx"
    "length (Current (advance lx)) \<le> length (Current lx)"
    "Token (advance lx) = InvalidToken \<or> length (Current (advance lx)) < length (Current lx)"
proof -
  from assms obtain b n t lx1 where A: "scanned t"
    "reads (lx\<lparr>PreviousPosition := Position lx, NestingLevel := n\<rparr>) lx1" "shorter lx (t, lx1)"
    "advance lx = skipWhitespace b (lx1\<lparr>Token := t\<rparr>)"
    by (rule advance_shape)
  have W: "length (Current (advance lx)) \<le> length (Current lx1)"
    using length_skipWhitespace [of b "lx1\<lparr>Token := t\<rparr>"] A(4) by simp
  show "Token (advance lx) \<noteq> EmptyToken" using A(1,4) by (simp add: scanned_def)
  show "PreviousPosition (advance lx) = Position lx"
    using A(4) reads_frame(3) [OF A(2)] by simp
  show "length (Current (advance lx)) \<le> length (Current lx)"
    using W reads_length [OF A(2)] by simp
  show "Token (advance lx) = InvalidToken \<or> length (Current (advance lx)) < length (Current lx)"
    using W A(3,4) by (auto simp: shorter_def)
qed

lemma advance_end: "Current lx = [] \<Longrightarrow> advance lx = lx\<lparr>PreviousPosition := Position lx\<rparr>"
  by (simp add: advance_def Let_def)

lemma peek_idem [simp]: "peek (peek lx) = peek lx"
  by (cases "Current lx = []") (auto simp: peek_def advance_end advance_progress_aux)

lemma lexMeasure_peek: "lexMeasure (peek lx) \<le> lexMeasure lx"
proof (cases "Current lx = []")
  case True
  then show ?thesis by (simp add: peek_def advance_end lexMeasure_def)
next
  case False
  then show ?thesis
    using advance_progress_aux [OF False] by (auto simp: peek_def lexMeasure_def)
qed

lemma lexMeasure_empty:
  "Token lx \<noteq> EmptyToken \<Longrightarrow> Token lx \<noteq> InvalidToken \<Longrightarrow> lexMeasure (empty lx) < lexMeasure lx"
  by (simp add: lexMeasure_def empty_def)

lemma lexMeasure_consume:
  "Token (peek lx) \<noteq> EmptyToken \<Longrightarrow> Token (peek lx) \<noteq> InvalidToken \<Longrightarrow>
     lexMeasure (empty (peek lx)) < lexMeasure lx"
  using lexMeasure_empty [of "peek lx"] lexMeasure_peek [of lx] by simp

lemma lexMeasure_empty_le: "lexMeasure (empty lx) \<le> lexMeasure lx"
  by (simp add: lexMeasure_def empty_def)

text \<open>The helpers of the parser, each in one of two outcomes: the token is consumed, or the
  lexer has only looked.\<close>

lemma parseKeyword_cases:
  "parseKeyword k lx =
     (if Token (peek lx) = IdentifierToken k then (True, empty (peek lx)) else (False, peek lx))"
  by (simp add: parseKeyword_def Let_def split: token.split)

lemma parsePunctuation_cases:
  "parsePunctuation C lx =
     (if Token (peek lx) = PunctuationToken C then (True, empty (peek lx)) else (False, peek lx))"
  by (simp add: parsePunctuation_def Let_def split: token.split)

lemma parseColon_cases:
  "parseColon lx =
     (if Token (peek lx) = ColonToken then (True, empty (peek lx)) else (False, peek lx))"
  by (simp add: parseColon_def Let_def split: token.split)

lemma parseIdentifier_cases:
  "parseIdentifier lx = (case Token (peek lx) of
       IdentifierToken Name \<Rightarrow> (Name, empty (peek lx)) | _ \<Rightarrow> ([], peek lx))"
  by (simp add: parseIdentifier_def Let_def)

lemma parseAttributeName_cases:
  "parseAttributeName lx = (case Token (peek lx) of
       AttributeToken Name \<Rightarrow> (Name, empty (peek lx)) | _ \<Rightarrow> ([], peek lx))"
  by (simp add: parseAttributeName_def Let_def)

lemma peekIdentifier_cases:
  "peekIdentifier lx = (case Token (peek lx) of
       IdentifierToken Name \<Rightarrow> (Name, peek lx) | _ \<Rightarrow> ([], peek lx))"
  by (simp add: peekIdentifier_def Let_def)

lemmas token_helper_cases = parseKeyword_cases parsePunctuation_cases parseColon_cases
  parseIdentifier_cases parseAttributeName_cases peekIdentifier_cases

section \<open>The states the class can be in\<close>

text \<open>The lexers a client can make from a source text: a new one, and whatever the public
  methods make of one; a saved state can be restored.\<close>

inductive reachable_lexer :: "string \<Rightarrow> lexer \<Rightarrow> bool" for src where
  new: "reachable_lexer src (newLexer src)"
| advance: "reachable_lexer src lx \<Longrightarrow> reachable_lexer src (advance lx)"
| kw: "reachable_lexer src lx \<Longrightarrow> reachable_lexer src (snd (parseKeyword k lx))"
| ident: "reachable_lexer src lx \<Longrightarrow> reachable_lexer src (snd (parseIdentifier lx))"
| peekIdent: "reachable_lexer src lx \<Longrightarrow> reachable_lexer src (snd (peekIdentifier lx))"
| attrib: "reachable_lexer src lx \<Longrightarrow> reachable_lexer src (snd (parseAttributeName lx))"
| sign: "reachable_lexer src lx \<Longrightarrow> reachable_lexer src (snd (parsePunctuation C lx))"
| colon: "reachable_lexer src lx \<Longrightarrow> reachable_lexer src (snd (parseColon lx))"
| emptied: "reachable_lexer src lx \<Longrightarrow> reachable_lexer src (empty lx)"
| restored: "reachable_lexer src lx \<Longrightarrow> reachable_lexer src S \<Longrightarrow> reachable_lexer src (restore S lx)"

lemma reachable_lexer_ok: "reachable_lexer src lx \<Longrightarrow> lexer_ok src lx"
  by (induction rule: reachable_lexer.induct)
    (auto simp: token_helper_cases lexer_ok_newLexer lexer_ok_advance lexer_ok_peek lexer_ok_empty
      lexer_ok_restore split: token.split)

end
