(* ===== verification/Parser_Core.thy ===== *)
theory Parser_Core
  imports Syntax Lexer_Inv
begin

text \<open>
  What the parse methods of retired/scalyc0/Parser.cpp are made of. A method is a function
  from the lexer to an error or a node and the lexer it leaves. Each combinator below is one
  of the code's recurring statements, with the rest of the method as its continuation, so that
  a method of the model reads line by line like the method of the class.

  \<open>DifferentSyntax\<close> is \<open>different()\<close> and \<open>InvalidSyntax\<close> is \<open>invalid(...)\<close>; the code tells
  the two apart by the text of the error, which Diagnostics renders. \<open>OutOfFuel\<close> is no error of
  the code: it marks a recursion of the model that was cut off, and is shown never to occur.
\<close>

datatype parser_error =
    DifferentSyntax
  | InvalidSyntax nat nat string
  | OutOfFuel

type_synonym 'a result = "(parser_error + 'a) \<times> lexer"
type_synonym 'a parser = "lexer \<Rightarrow> 'a result"

definition Keywords :: "string list" where
  "Keywords =
     [''alignof'', ''as'', ''break'', ''case'', ''choose'', ''continue'', ''define'', ''deinit'',
      ''delegate'', ''else'', ''extends'', ''extern'', ''for'', ''function'', ''if'',
      ''implement'', ''in'', ''init'', ''instruction'', ''intrinsic'', ''is'', ''label'', ''let'',
      ''loop'', ''macro'', ''match'', ''module'', ''mutable'', ''operator'', ''private'',
      ''procedure'', ''repeat'', ''return'', ''returns'', ''set'', ''sizeof'', ''throw'',
      ''throws'', ''trait'', ''try'', ''union'', ''use'', ''var'', ''when'', ''while'',
      ''package'']"

section \<open>Errors, positions, results\<close>

definition different :: "'a parser" where
  "different lx = (Inl DifferentSyntax, lx)"

text \<open>\<open>return invalid(Lex, Start, Lex.position(), Message);\<close>\<close>

definition invalid :: "nat \<Rightarrow> string \<Rightarrow> 'a parser" where
  "invalid Start Message lx = (Inl (InvalidSyntax Start (Position lx) Message), lx)"

definition success :: "'a \<Rightarrow> 'a parser" where
  "success node lx = (Inr node, lx)"

text \<open>A word of the source in a message, between single quotes.\<close>

definition quoted :: "string \<Rightarrow> string" where
  "quoted w = [CHR 0x27] @ w @ [CHR 0x27]"

text \<open>\<open>size_t Start = Lex.previousPosition();\<close> and \<open>size_t End = Lex.position();\<close>\<close>

definition atStart :: "(nat \<Rightarrow> 'a parser) \<Rightarrow> 'a parser" where
  "atStart k lx = k (PreviousPosition lx) lx"

definition atEnd :: "(nat \<Rightarrow> 'a parser) \<Rightarrow> 'a parser" where
  "atEnd k lx = k (Position lx) lx"

section \<open>Tokens\<close>

text \<open>Ask the lexer for something: with it go on, without it fail.\<close>

definition consume ::
    "(lexer \<Rightarrow> 'r \<times> lexer) \<Rightarrow> ('r \<Rightarrow> bool) \<Rightarrow> ('r \<Rightarrow> 'a parser) \<Rightarrow> ('r \<Rightarrow> 'a parser) \<Rightarrow> 'a parser" where
  "consume ask hit k fail lx = (case ask lx of (r, lx) \<Rightarrow> if hit r then k r lx else fail r lx)"

definition firstKeyword :: "string \<Rightarrow> 'a parser \<Rightarrow> 'a parser" where
  "firstKeyword w k = consume (parseKeyword w) (\<lambda>b. b) (\<lambda>_. k) (\<lambda>_. different)"

definition theKeyword :: "nat \<Rightarrow> string \<Rightarrow> 'a parser \<Rightarrow> 'a parser" where
  "theKeyword Start w k =
     consume (parseKeyword w) (\<lambda>b. b) (\<lambda>_. k) (\<lambda>_. invalid Start (''expected '' @ quoted w))"

definition firstSign :: "char \<Rightarrow> 'a parser \<Rightarrow> 'a parser" where
  "firstSign C k = consume (parsePunctuation C) (\<lambda>b. b) (\<lambda>_. k) (\<lambda>_. different)"

definition sign :: "nat \<Rightarrow> char \<Rightarrow> 'a parser \<Rightarrow> 'a parser" where
  "sign Start C k =
     consume (parsePunctuation C) (\<lambda>b. b) (\<lambda>_. k) (\<lambda>_. invalid Start (''expected '' @ quoted [C]))"

definition skipSign :: "char \<Rightarrow> 'a parser \<Rightarrow> 'a parser" where
  "skipSign C k = consume (parsePunctuation C) (\<lambda>b. b) (\<lambda>_. k) (\<lambda>_. k)"

definition firstColon :: "'a parser \<Rightarrow> 'a parser" where
  "firstColon k = consume parseColon (\<lambda>b. b) (\<lambda>_. k) (\<lambda>_. different)"

definition colon :: "nat \<Rightarrow> 'a parser \<Rightarrow> 'a parser" where
  "colon Start k =
     consume parseColon (\<lambda>b. b) (\<lambda>_. k) (\<lambda>_. invalid Start ''expected colon or newline'')"

definition skipColon :: "'a parser \<Rightarrow> 'a parser" where
  "skipColon k = consume parseColon (\<lambda>b. b) (\<lambda>_. k) (\<lambda>_. k)"

text \<open>A name: peeked at, and consumed only when it is there and no keyword.\<close>

definition proper_name :: "string \<Rightarrow> bool" where
  "proper_name Name \<longleftrightarrow> Name \<noteq> [] \<and> Name \<notin> set Keywords"

definition takeIdentifier :: "lexer \<Rightarrow> string \<times> lexer" where
  "takeIdentifier lx = (case peekIdentifier lx of (Name, lx) \<Rightarrow>
     if proper_name Name then (Name, snd (parseIdentifier lx)) else (Name, lx))"

definition firstName :: "(string \<Rightarrow> 'a parser) \<Rightarrow> 'a parser" where
  "firstName k = consume takeIdentifier proper_name k (\<lambda>_. different)"

definition theName :: "nat \<Rightarrow> (string \<Rightarrow> 'a parser) \<Rightarrow> 'a parser" where
  "theName Start k = consume takeIdentifier proper_name k (\<lambda>Name. invalid Start
     (if Name = [] then ''expected identifier''
      else quoted Name @ '' is a reserved keyword''))"

text \<open>The name of an attribute, which the lexer consumes even when it is empty.\<close>

definition firstAttribute :: "(string \<Rightarrow> 'a parser) \<Rightarrow> 'a parser" where
  "firstAttribute k = consume parseAttributeName (\<lambda>Name. Name \<noteq> []) k (\<lambda>_. different)"

text \<open>\<open>auto Snapshot = Lex.save();\<close> and \<open>Lex.restore(Snapshot); return different();\<close>\<close>

definition saving :: "(lexer \<Rightarrow> 'a parser) \<Rightarrow> 'a parser" where
  "saving k lx = k lx lx"

definition differentAt :: "lexer \<Rightarrow> 'a parser" where
  "differentAt Snapshot lx = different (restore Snapshot lx)"

definition orElse :: "string \<Rightarrow> 'a parser \<Rightarrow> 'a parser \<Rightarrow> 'a parser" where
  "orElse w k fail = consume (parseKeyword w) (\<lambda>b. b) (\<lambda>_. k) (\<lambda>_. fail)"

definition parseLiteralToken :: "literal parser" where
  "parseLiteralToken lx =
     (let lx = peek lx in
      case Token lx of
        LiteralToken Lit \<Rightarrow> (Inr Lit, empty lx)
      | _ \<Rightarrow> different lx)"

section \<open>Other methods\<close>

text \<open>The first part of a method may be another method: its error is the method's own.\<close>

definition first :: "'b parser \<Rightarrow> ('b \<Rightarrow> 'a parser) \<Rightarrow> 'a parser" where
  "first p k lx = (case p lx of
       (Inr node, lx) \<Rightarrow> k node lx
     | (Inl e, lx) \<Rightarrow> (Inl e, lx))"

text \<open>A part that must follow: \<open>different\<close> becomes an error of this method.\<close>

definition required :: "nat \<Rightarrow> 'b parser \<Rightarrow> string \<Rightarrow> ('b \<Rightarrow> 'a parser) \<Rightarrow> 'a parser" where
  "required Start p Message k lx = (case p lx of
       (Inr node, lx) \<Rightarrow> k node lx
     | (Inl DifferentSyntax, lx) \<Rightarrow> invalid Start Message lx
     | (Inl e, lx) \<Rightarrow> (Inl e, lx))"

text \<open>An optional list: only \<open>different\<close> is tolerated.\<close>

definition optionalList :: "'b list parser \<Rightarrow> ('b list option \<Rightarrow> 'a parser) \<Rightarrow> 'a parser" where
  "optionalList p k lx = (case p lx of
       (Inr nodes, lx) \<Rightarrow> k (Some nodes) lx
     | (Inl DifferentSyntax, lx) \<Rightarrow> k None lx
     | (Inl e, lx) \<Rightarrow> (Inl e, lx))"

text \<open>An optional node: \<open>llvm::consumeError\<close> drops whatever the error was.\<close>

definition optional :: "'b parser \<Rightarrow> ('b option \<Rightarrow> 'a parser) \<Rightarrow> 'a parser" where
  "optional p k lx = (case p lx of
       (Inr node, lx) \<Rightarrow> k (Some node) lx
     | (Inl OutOfFuel, lx) \<Rightarrow> (Inl OutOfFuel, lx)
     | (Inl _, lx) \<Rightarrow> k None lx)"

text \<open>An alternative of a variant: the next one is tried on \<open>different\<close> only.\<close>

definition alternative :: "'b parser \<Rightarrow> ('b \<Rightarrow> 'a) \<Rightarrow> 'a parser \<Rightarrow> 'a parser" where
  "alternative p variant next lx = (case p lx of
       (Inr node, lx) \<Rightarrow> (Inr (variant node), lx)
     | (Inl DifferentSyntax, lx) \<Rightarrow> next lx
     | (Inl e, lx) \<Rightarrow> (Inl e, lx))"

text \<open>A list: nodes until one is \<open>different\<close>. A node takes at least a token, so that the
  measure of the lexer bounds the rounds of the loop.\<close>

fun listLoop :: "nat \<Rightarrow> 'a parser \<Rightarrow> 'a list \<Rightarrow> 'a list parser" where
  "listLoop 0 p List lx = (Inl OutOfFuel, lx)"
| "listLoop (Suc n) p List lx = (case p lx of
       (Inr node, lx) \<Rightarrow> listLoop n p (List @ [node]) lx
     | (Inl DifferentSyntax, lx) \<Rightarrow> if List = [] then different lx else (Inr List, lx)
     | (Inl e, lx) \<Rightarrow> (Inl e, lx))"

definition listOf :: "'a parser \<Rightarrow> 'a list parser" where
  "listOf p lx = listLoop (Suc (lexMeasure lx)) p [] lx"

definition outOfFuel :: "'a parser" where
  "outOfFuel lx = (Inl OutOfFuel, lx)"

end
