(* ===== verification/Parser_Contract.thy ===== *)
theory Parser_Contract
  imports Parser_Core
begin

text \<open>
  The contract of a parse method, and one rule for each combinator, so that a method keeps the
  contract by the rules of its parts. The contract compares two versions \<open>p\<close> and \<open>p'\<close> of a
  method (the same method over two versions of the methods it calls, for example with more
  fuel) on the lexers whose measure is at most \<open>n\<close>: they agree, they keep the invariant of
  the lexer, never move back, take a token whenever they return a node, never run out of
  fuel, and an error they report lies in the source.
\<close>

section \<open>The contract\<close>

definition step_ok :: "string \<Rightarrow> bool \<Rightarrow> lexer \<Rightarrow> 'a result \<Rightarrow> bool" where
  "step_ok src strict lx r \<longleftrightarrow> (case r of (res, lx') \<Rightarrow>
     lexer_ok src lx' \<and> Position lx \<le> Position lx' \<and> lexMeasure lx' \<le> lexMeasure lx \<and>
     (case res of
        Inr _ \<Rightarrow> strict \<longrightarrow> lexMeasure lx' < lexMeasure lx
      | Inl DifferentSyntax \<Rightarrow> True
      | Inl (InvalidSyntax Start End _) \<Rightarrow> Start \<le> End \<and> End \<le> length src
      | Inl OutOfFuel \<Rightarrow> False))"

text \<open>\<open>fresh\<close>: nothing has been consumed yet, and the measure may still be \<open>n\<close>.\<close>

definition within :: "bool \<Rightarrow> nat \<Rightarrow> lexer \<Rightarrow> bool" where
  "within fresh n lx \<longleftrightarrow> (if fresh then lexMeasure lx \<le> n else lexMeasure lx < n)"

definition runs :: "string \<Rightarrow> bool \<Rightarrow> nat \<Rightarrow> 'a parser \<Rightarrow> 'a parser \<Rightarrow> bool" where
  "runs src fresh n p p' \<longleftrightarrow> (\<forall>lx. lexer_ok src lx \<and> within fresh n lx \<longrightarrow>
     p lx = p' lx \<and> step_ok src True lx (p lx))"

text \<open>The rest of a method that began at \<open>Start\<close>.\<close>

definition goes_on :: "string \<Rightarrow> bool \<Rightarrow> nat \<Rightarrow> nat \<Rightarrow> 'a parser \<Rightarrow> 'a parser \<Rightarrow> bool" where
  "goes_on src fresh Start n k k' \<longleftrightarrow>
     (\<forall>lx. lexer_ok src lx \<and> Start \<le> Position lx \<and> within fresh n lx \<longrightarrow>
       k lx = k' lx \<and> step_ok src fresh lx (k lx))"

lemma runsI:
  assumes "\<And>lx. lexer_ok src lx \<Longrightarrow> within fresh n lx \<Longrightarrow> p lx = p' lx \<and> step_ok src True lx (p lx)"
  shows "runs src fresh n p p'"
  using assms unfolding runs_def by blast

lemma runsD:
  assumes "runs src fresh n p p'" "lexer_ok src lx" "within fresh n lx"
  shows "p lx = p' lx" "step_ok src True lx (p lx)"
  using assms unfolding runs_def by blast+

lemma goes_onI:
  assumes "\<And>lx. lexer_ok src lx \<Longrightarrow> Start \<le> Position lx \<Longrightarrow> within fresh n lx \<Longrightarrow>
    k lx = k' lx \<and> step_ok src fresh lx (k lx)"
  shows "goes_on src fresh Start n k k'"
  using assms unfolding goes_on_def by blast

lemma goes_onD:
  assumes "goes_on src fresh Start n k k'" "lexer_ok src lx" "Start \<le> Position lx" "within fresh n lx"
  shows "k lx = k' lx" "step_ok src fresh lx (k lx)"
  using assms unfolding goes_on_def by blast+

lemma lexer_ok_bounds: "lexer_ok src lx \<Longrightarrow> PreviousPosition lx \<le> Position lx \<and> Position lx \<le> length src"
  by (simp add: lexer_ok_def located_def)

text \<open>Results chain.\<close>

lemma step_ok_trans:
  assumes "lexer_ok src lx1" "Position lx \<le> Position lx1" "lexMeasure lx1 \<le> lexMeasure lx"
    "step_ok src strict lx1 r" "strict' \<Longrightarrow> strict \<or> lexMeasure lx1 < lexMeasure lx"
  shows "step_ok src strict' lx r"
  using assms by (auto simp: step_ok_def split: prod.splits sum.splits parser_error.splits)

section \<open>The interface of the lexer\<close>

text \<open>What the parser relies on when it asks the lexer for a token: asking keeps the
  invariant, never goes back and never adds to what is left to do; getting something
  takes a token off it.\<close>

locale token_source =
  fixes src :: string
    and ask :: "lexer \<Rightarrow> 'r \<times> lexer"
    and hit :: "'r \<Rightarrow> bool"
  assumes ask_ok: "lexer_ok src lx \<Longrightarrow> lexer_ok src (snd (ask lx))"
    and ask_forward: "lexer_ok src lx \<Longrightarrow> Position lx \<le> Position (snd (ask lx))"
    and ask_measure: "lexMeasure (snd (ask lx)) \<le> lexMeasure lx"
    and ask_hit: "hit (fst (ask lx)) \<Longrightarrow> lexMeasure (snd (ask lx)) < lexMeasure lx"
begin

lemma goes_on_consume:
  assumes k: "\<And>r. goes_on src False Start n (k r) (k' r)"
    and fail: "\<And>r. goes_on src fresh Start n (fail r) (fail' r)"
  shows "goes_on src fresh Start n (consume ask hit k fail) (consume ask hit k' fail')"
proof (rule goes_onI)
  fix lx assume lx: "lexer_ok src lx" "Start \<le> Position lx" "within fresh n lx"
  obtain r lx1 where a: "ask lx = (r, lx1)" by fastforce
  have lx1: "lexer_ok src lx1" "Position lx \<le> Position lx1" "lexMeasure lx1 \<le> lexMeasure lx"
    using ask_ok [OF lx(1)] ask_forward [OF lx(1)] ask_measure [of lx] a by simp_all
  show "consume ask hit k fail lx = consume ask hit k' fail' lx \<and>
      step_ok src fresh lx (consume ask hit k fail lx)"
  proof (cases "hit r")
    case True
    then have less: "lexMeasure lx1 < lexMeasure lx" using ask_hit [of lx] a by simp
    then have "within False n lx1" using lx(3) by (auto simp: within_def split: if_splits)
    with k [of r] lx1 lx(2) have "k r lx1 = k' r lx1" "step_ok src False lx1 (k r lx1)"
      by (auto dest: goes_onD)
    with True less lx1 show ?thesis
      by (auto simp: consume_def a intro: step_ok_trans)
  next
    case False
    have "within fresh n lx1" using lx(3) lx1(3) by (auto simp: within_def split: if_splits)
    with fail [of r] lx1 lx(2) have "fail r lx1 = fail' r lx1" "step_ok src fresh lx1 (fail r lx1)"
      by (auto dest: goes_onD)
    with False lx1 show ?thesis
      by (auto simp: consume_def a intro: step_ok_trans)
  qed
qed

end

text \<open>The lexer keeps these laws, whatever it is asked for.\<close>

lemma lexer_ok_look:
  assumes "lexer_ok src lx"
  shows "lexer_ok src (peek lx)" "lexer_ok src (empty (peek lx))" "Position lx \<le> Position (peek lx)"
proof -
  show "lexer_ok src (peek lx)" "lexer_ok src (empty (peek lx))"
    using assms by (simp_all add: lexer_ok_peek lexer_ok_empty)
  show "Position lx \<le> Position (peek lx)"
    using lexer_ok_bounds [OF lexer_ok_advance [OF assms]]
    by (cases "Current lx = []") (auto simp: peek_def advance_end advance_progress_aux)
qed

lemma Position_empty [simp]: "Position (empty lx) = Position lx"
  by (simp add: empty_def)

lemma lexMeasure_empty_peek: "lexMeasure (empty (peek lx)) \<le> lexMeasure lx"
  using lexMeasure_empty_le [of "peek lx"] lexMeasure_peek [of lx] by simp

interpretation keyword_source: token_source src "parseKeyword w" "\<lambda>b. b" for src w
  by unfold_locales
    (auto simp: parseKeyword_cases lexer_ok_look lexMeasure_peek lexMeasure_consume
      intro: lexMeasure_empty_peek)

interpretation punctuation_source: token_source src "parsePunctuation C" "\<lambda>b. b" for src C
  by unfold_locales
    (auto simp: parsePunctuation_cases lexer_ok_look lexMeasure_peek lexMeasure_consume
      intro: lexMeasure_empty_peek)

interpretation colon_source: token_source src parseColon "\<lambda>b. b" for src
  by unfold_locales
    (auto simp: parseColon_cases lexer_ok_look lexMeasure_peek lexMeasure_consume
      intro: lexMeasure_empty_peek)

lemma takeIdentifier_cases:
  "takeIdentifier lx = (case Token (peek lx) of
       IdentifierToken Name \<Rightarrow>
         if proper_name Name then (Name, empty (peek lx)) else (Name, peek lx)
     | _ \<Rightarrow> ([], peek lx))"
  by (auto simp: takeIdentifier_def peekIdentifier_cases parseIdentifier_cases proper_name_def
      split: token.splits)

interpretation identifier_source: token_source src takeIdentifier proper_name for src
  by unfold_locales
    (auto simp: takeIdentifier_cases lexer_ok_look lexMeasure_peek lexMeasure_consume
      proper_name_def intro: lexMeasure_empty_peek split: token.splits if_splits)

interpretation attribute_source: token_source src parseAttributeName "\<lambda>Name. Name \<noteq> []" for src
  by unfold_locales
    (auto simp: parseAttributeName_cases lexer_ok_look lexMeasure_peek lexMeasure_consume
      intro: lexMeasure_empty_peek split: token.splits)

section \<open>The rules of the combinators\<close>

lemma runs_False: "runs src fresh n p p' \<Longrightarrow> runs src False n p p'"
  by (rule runsI) (auto dest: runsD simp: within_def split: if_splits)

lemma goes_on_different [parse_ok]: "goes_on src fresh Start n different different"
  by (rule goes_onI) (simp add: different_def step_ok_def)

lemma runs_different [parse_ok]: "runs src fresh n different different"
  by (rule runsI) (simp add: different_def step_ok_def)

lemma goes_on_invalid [parse_ok]: "goes_on src fresh Start n (invalid Start m) (invalid Start m)"
  by (rule goes_onI) (simp add: invalid_def step_ok_def lexer_ok_bounds)

lemma goes_on_success [parse_ok]: "goes_on src False Start n (success a) (success a)"
  by (rule goes_onI) (simp add: success_def step_ok_def)

lemma runs_atStart [parse_ok]:
  assumes "\<And>Start. goes_on src True Start n (k Start) (k' Start)"
  shows "runs src True n (atStart k) (atStart k')"
proof (rule runsI)
  fix lx assume "lexer_ok src lx" "within True n lx"
  with assms [of "PreviousPosition lx"] show
    "atStart k lx = atStart k' lx \<and> step_ok src True lx (atStart k lx)"
    by (auto simp: atStart_def lexer_ok_bounds dest: goes_onD)
qed

lemma goes_on_atEnd [parse_ok]:
  assumes "\<And>End. goes_on src fresh Start n (k End) (k' End)"
  shows "goes_on src fresh Start n (atEnd k) (atEnd k')"
  using assms unfolding goes_on_def atEnd_def by blast

lemma goes_on_firstKeyword [parse_ok]:
  "goes_on src False Start n k k' \<Longrightarrow> goes_on src fresh Start n (firstKeyword w k) (firstKeyword w k')"
  unfolding firstKeyword_def by (intro keyword_source.goes_on_consume parse_ok)

lemma goes_on_theKeyword [parse_ok]:
  "goes_on src False Start n k k' \<Longrightarrow>
     goes_on src fresh Start n (theKeyword Start w k) (theKeyword Start w k')"
  unfolding theKeyword_def by (intro keyword_source.goes_on_consume parse_ok)

lemma goes_on_firstSign [parse_ok]:
  "goes_on src False Start n k k' \<Longrightarrow> goes_on src fresh Start n (firstSign C k) (firstSign C k')"
  unfolding firstSign_def by (intro punctuation_source.goes_on_consume parse_ok)

lemma goes_on_sign [parse_ok]:
  "goes_on src False Start n k k' \<Longrightarrow>
     goes_on src fresh Start n (sign Start C k) (sign Start C k')"
  unfolding sign_def by (intro punctuation_source.goes_on_consume parse_ok)

lemma goes_on_firstColon [parse_ok]:
  "goes_on src False Start n k k' \<Longrightarrow> goes_on src fresh Start n (firstColon k) (firstColon k')"
  unfolding firstColon_def by (intro colon_source.goes_on_consume parse_ok)

lemma goes_on_colon [parse_ok]:
  "goes_on src False Start n k k' \<Longrightarrow> goes_on src fresh Start n (colon Start k) (colon Start k')"
  unfolding colon_def by (intro colon_source.goes_on_consume parse_ok)

lemma goes_on_firstName [parse_ok]:
  "(\<And>Name. goes_on src False Start n (k Name) (k' Name)) \<Longrightarrow>
     goes_on src fresh Start n (firstName k) (firstName k')"
  unfolding firstName_def by (intro identifier_source.goes_on_consume parse_ok)

lemma goes_on_theName [parse_ok]:
  "(\<And>Name. goes_on src False Start n (k Name) (k' Name)) \<Longrightarrow>
     goes_on src fresh Start n (theName Start k) (theName Start k')"
  unfolding theName_def by (intro identifier_source.goes_on_consume parse_ok)

lemma goes_on_False:
  assumes "goes_on src True Start n k k'"
  shows "goes_on src False Start n k k'"
proof (rule goes_onI)
  fix lx assume lx: "lexer_ok src lx" "Start \<le> Position lx" "within False n lx"
  then have "within True n lx" by (simp add: within_def)
  with assms lx have "k lx = k' lx" "step_ok src True lx (k lx)" by (auto dest: goes_onD)
  then show "k lx = k' lx \<and> step_ok src False lx (k lx)"
    by (auto simp: step_ok_def split: prod.splits sum.splits)
qed

text \<open>A sign or a colon that may be there, in the middle of a method.\<close>

lemma goes_on_skipSign [parse_ok]:
  "goes_on src False Start n k k' \<Longrightarrow> goes_on src False Start n (skipSign C k) (skipSign C k')"
  unfolding skipSign_def by (intro punctuation_source.goes_on_consume)

lemma goes_on_weaken: "goes_on src fresh Start n k k' \<Longrightarrow> goes_on src False Start n k k'"
  by (cases fresh) (auto intro: goes_on_False)

lemma goes_on_skipColon [parse_ok]:
  "goes_on src fresh Start n k k' \<Longrightarrow> goes_on src fresh Start n (skipColon k) (skipColon k')"
  unfolding skipColon_def by (intro colon_source.goes_on_consume goes_on_weaken)

text \<open>After another method, with its node or without.\<close>

lemma goes_on_after:
  assumes p: "runs src fresh n p p'" "lexer_ok src lx" "Start \<le> Position lx" "within fresh n lx"
    and r: "p lx = (r, lx1)"
    and k: "goes_on src fresh' Start n k k'" "\<not> isl r \<or> fresh' = fresh"
  shows "k lx1 = k' lx1" "step_ok src fresh lx (k lx1)" "p' lx = (r, lx1)"
proof -
  have A: "p' lx = (r, lx1)" "step_ok src True lx (r, lx1)"
    using runsD [OF p(1,2,4)] r by simp_all
  then have lx1: "lexer_ok src lx1" "Position lx \<le> Position lx1" "lexMeasure lx1 \<le> lexMeasure lx"
    "\<not> isl r \<Longrightarrow> lexMeasure lx1 < lexMeasure lx"
    by (auto simp: step_ok_def split: sum.splits)
  have "within fresh' n lx1"
    using p(4) k(2) lx1 by (auto simp: within_def split: if_splits)
  with k(1) lx1(1,2) p(3) have B: "k lx1 = k' lx1" "step_ok src fresh' lx1 (k lx1)"
    by (auto dest: goes_onD)
  then show "k lx1 = k' lx1" "p' lx = (r, lx1)" by (simp_all add: A)
  show "step_ok src fresh lx (k lx1)"
    by (rule step_ok_trans [OF lx1(1-3) B(2)]) (use k(2) lx1(4) in blast)
qed

lemma goes_on_error:
  assumes "runs src fresh n p p'" "lexer_ok src lx" "within fresh n lx" "p lx = (Inl e, lx1)"
  shows "p' lx = (Inl e, lx1)" "step_ok src fresh lx (Inl e, lx1)" "e \<noteq> OutOfFuel"
  using runsD [OF assms(1-3)] assms(4) by (auto simp: step_ok_def split: parser_error.splits)

lemma goes_on_first [parse_ok]:
  assumes p: "runs src fresh n p p'" and k: "\<And>a. goes_on src False Start n (k a) (k' a)"
  shows "goes_on src fresh Start n (first p k) (first p' k')"
proof (rule goes_onI)
  fix lx assume lx: "lexer_ok src lx" "Start \<le> Position lx" "within fresh n lx"
  obtain r lx1 where r: "p lx = (r, lx1)" by fastforce
  show "first p k lx = first p' k' lx \<and> step_ok src fresh lx (first p k lx)"
  proof (cases r)
    case (Inr a)
    with goes_on_after [OF p lx r k] r show ?thesis by (simp add: first_def)
  next
    case (Inl e)
    from goes_on_error [OF p lx(1,3) r [unfolded Inl]] Inl r show ?thesis
      by (simp add: first_def)
  qed
qed

lemma goes_on_required [parse_ok]:
  assumes p: "runs src fresh n p p'" and k: "\<And>a. goes_on src False Start n (k a) (k' a)"
  shows "goes_on src fresh Start n (required Start p m k) (required Start p' m k')"
proof (rule goes_onI)
  fix lx assume lx: "lexer_ok src lx" "Start \<le> Position lx" "within fresh n lx"
  obtain r lx1 where r: "p lx = (r, lx1)" by fastforce
  show "required Start p m k lx = required Start p' m k' lx \<and>
      step_ok src fresh lx (required Start p m k lx)"
  proof (cases r)
    case (Inr a)
    with goes_on_after [OF p lx r k] r show ?thesis by (simp add: required_def)
  next
    case (Inl e)
    with goes_on_error [OF p lx(1,3) r [unfolded Inl]] r
      goes_on_after [OF p lx r goes_on_invalid [where m = m]] show ?thesis
      by (cases e) (simp_all add: required_def)
  qed
qed

lemma goes_on_optionalList [parse_ok]:
  assumes p: "runs src fresh n p p'" and k: "\<And>a. goes_on src fresh Start n (k a) (k' a)"
  shows "goes_on src fresh Start n (optionalList p k) (optionalList p' k')"
proof (rule goes_onI)
  fix lx assume lx: "lexer_ok src lx" "Start \<le> Position lx" "within fresh n lx"
  obtain r lx1 where r: "p lx = (r, lx1)" by fastforce
  show "optionalList p k lx = optionalList p' k' lx \<and> step_ok src fresh lx (optionalList p k lx)"
  proof (cases r)
    case (Inr a)
    with goes_on_after [OF p lx r k] r show ?thesis by (simp add: optionalList_def)
  next
    case (Inl e)
    with goes_on_error [OF p lx(1,3) r [unfolded Inl]] r
      goes_on_after [OF p lx r k [where a = None]] show ?thesis
      by (cases e) (simp_all add: optionalList_def)
  qed
qed

lemma goes_on_optional [parse_ok]:
  assumes p: "runs src fresh n p p'" and k: "\<And>a. goes_on src fresh Start n (k a) (k' a)"
  shows "goes_on src fresh Start n (optional p k) (optional p' k')"
proof (rule goes_onI)
  fix lx assume lx: "lexer_ok src lx" "Start \<le> Position lx" "within fresh n lx"
  obtain r lx1 where r: "p lx = (r, lx1)" by fastforce
  show "optional p k lx = optional p' k' lx \<and> step_ok src fresh lx (optional p k lx)"
  proof (cases r)
    case (Inr a)
    with goes_on_after [OF p lx r k] r show ?thesis by (simp add: optional_def)
  next
    case (Inl e)
    with goes_on_error [OF p lx(1,3) r [unfolded Inl]] r
      goes_on_after [OF p lx r k [where a = None]] show ?thesis
      by (cases e) (simp_all add: optional_def)
  qed
qed

lemma runs_alternative [parse_ok]:
  assumes p: "runs src fresh n p p'" and q: "runs src fresh n q q'"
  shows "runs src fresh n (alternative p C q) (alternative p' C q')"
proof (rule runsI)
  fix lx assume lx: "lexer_ok src lx" "within fresh n lx"
  obtain r lx1 where r: "p lx = (r, lx1)" by fastforce
  have P: "p' lx = (r, lx1)" "step_ok src True lx (r, lx1)"
    using runsD [OF p lx] r by simp_all
  show "alternative p C q lx = alternative p' C q' lx \<and> step_ok src True lx (alternative p C q lx)"
  proof (cases "r = Inl DifferentSyntax")
    case True
    have lx1: "lexer_ok src lx1" "Position lx \<le> Position lx1" "lexMeasure lx1 \<le> lexMeasure lx"
      using P(2) by (auto simp: step_ok_def True)
    have "within fresh n lx1"
      using lx(2) lx1(3) by (auto simp: within_def split: if_splits)
    from runsD [OF q lx1(1) this] have Q: "q lx1 = q' lx1" "step_ok src True lx1 (q lx1)" .
    from step_ok_trans [OF lx1 Q(2), of True] Q(1) True r P(1) show ?thesis
      by (simp add: alternative_def)
  next
    case False
    with P r show ?thesis
      by (auto simp: alternative_def step_ok_def split: sum.splits parser_error.splits)
  qed
qed

lemma goes_on_firstAttribute [parse_ok]:
  "(\<And>Name. goes_on src False Start n (k Name) (k' Name)) \<Longrightarrow>
     goes_on src fresh Start n (firstAttribute k) (firstAttribute k')"
  unfolding firstAttribute_def by (intro attribute_source.goes_on_consume parse_ok)

lemma runs_parseLiteralToken [parse_ok]: "runs src fresh n parseLiteralToken parseLiteralToken"
  by (rule runsI)
    (auto simp: parseLiteralToken_def Let_def different_def step_ok_def lexer_ok_look
      lexMeasure_peek lexMeasure_consume intro: lexMeasure_empty_peek split: token.splits)

text \<open>The part of an \<open>else\<close> that puts the lexer back when the keyword is not there.\<close>

lemma runs_saving_else [parse_ok]:
  fixes k k' :: "nat \<Rightarrow> 'a parser"
  assumes k: "\<And>Start. goes_on src False Start n (k Start) (k' Start)"
  shows "runs src True n
    (atStart (\<lambda>Start. saving (\<lambda>Snapshot. skipColon (orElse w (k Start) (differentAt Snapshot)))))
    (atStart (\<lambda>Start. saving (\<lambda>Snapshot. skipColon (orElse w (k' Start) (differentAt Snapshot)))))"
proof (rule runsI)
  fix lx assume lx: "lexer_ok src lx" "within True n lx"
  let ?Start = "PreviousPosition lx"
  let ?lx1 = "snd (parseColon lx)" and ?lx2 = "snd (parseKeyword w (snd (parseColon lx)))"
  note L = colon_source.ask_ok [OF lx(1)] colon_source.ask_forward [OF lx(1)]
    colon_source.ask_measure [of lx]
  have lx2: "lexer_ok src ?lx2" "Position lx \<le> Position ?lx2"
    "fst (parseKeyword w ?lx1) \<Longrightarrow> lexMeasure ?lx2 < lexMeasure lx"
    using keyword_source.ask_ok [OF L(1), of w] keyword_source.ask_forward [OF L(1), of w] L
      keyword_source.ask_hit [of w ?lx1] by simp_all
  have hit: "k ?Start ?lx2 = k' ?Start ?lx2 \<and> step_ok src True lx (k ?Start ?lx2)"
    if "fst (parseKeyword w ?lx1)"
  proof -
    from lx2(3) [OF that] lx(2) have "within False n ?lx2" by (simp add: within_def)
    moreover have "?Start \<le> Position ?lx2" using lexer_ok_bounds [OF lx(1)] lx2(2) by simp
    ultimately have "k ?Start ?lx2 = k' ?Start ?lx2" "step_ok src False ?lx2 (k ?Start ?lx2)"
      using k [of ?Start] lx2(1) by (auto dest: goes_onD)
    with lx2 lx2(3) [OF that] show ?thesis by (auto intro: step_ok_trans)
  qed
  have miss: "differentAt lx ?lx2 = ((Inl DifferentSyntax, lx) :: 'a result)"
    using lexer_ok_restore [OF lx2(1) lx(1)] by (simp add: differentAt_def different_def)
  show "atStart (\<lambda>Start. saving (\<lambda>Snapshot. skipColon (orElse w (k Start) (differentAt Snapshot)))) lx =
      atStart (\<lambda>Start. saving (\<lambda>Snapshot. skipColon (orElse w (k' Start) (differentAt Snapshot)))) lx \<and>
    step_ok src True lx
      (atStart (\<lambda>Start. saving (\<lambda>Snapshot. skipColon (orElse w (k Start) (differentAt Snapshot)))) lx)"
  proof (cases "fst (parseKeyword w ?lx1)")
    case True
    with hit [OF True] show ?thesis
      by (auto simp: atStart_def saving_def skipColon_def orElse_def consume_def case_prod_beta)
  next
    case False
    have "step_ok src True lx ((Inl DifferentSyntax, lx) :: 'a result)" using lx(1) by (simp add: step_ok_def)
    with False miss show ?thesis
      by (simp add: atStart_def saving_def skipColon_def orElse_def consume_def case_prod_beta)
  qed
qed

section \<open>Lists\<close>

lemma listLoop_ok:
  assumes p: "runs src fresh n p p'"
  shows "lexer_ok src lx \<Longrightarrow> within fresh n lx \<Longrightarrow> lexMeasure lx < m \<Longrightarrow>
    listLoop m p List lx = listLoop m p' List lx \<and> step_ok src (List = []) lx (listLoop m p List lx)"
  using p
proof (induction m arbitrary: fresh List lx)
  case (Suc m)
  obtain r lx1 where r: "p lx = (r, lx1)" by fastforce
  have P: "p' lx = (r, lx1)" "step_ok src True lx (r, lx1)"
    using runsD [OF Suc.prems(4,1,2)] r by simp_all
  show ?case
  proof (cases r)
    case (Inr a)
    have lx1: "lexer_ok src lx1" "Position lx \<le> Position lx1" "lexMeasure lx1 < lexMeasure lx"
      using P(2) by (auto simp: step_ok_def Inr)
    have "within False n lx1" "lexMeasure lx1 < m"
      using Suc.prems(2,3) lx1(3) by (auto simp: within_def split: if_splits)
    from Suc.IH [OF lx1(1) this runs_False [OF Suc.prems(4)], of "List @ [a]"]
    have L: "listLoop m p (List @ [a]) lx1 = listLoop m p' (List @ [a]) lx1"
      "step_ok src False lx1 (listLoop m p (List @ [a]) lx1)" by auto
    from step_ok_trans [OF lx1(1,2) less_imp_le [OF lx1(3)] L(2), of "List = []"] lx1(3) L(1)
    show ?thesis using Inr r P(1) by simp
  next
    case (Inl e)
    with P r show ?thesis
      by (auto simp: step_ok_def different_def split: parser_error.splits)
  qed
qed simp

lemma runs_listOf [parse_ok]: "runs src fresh n p p' \<Longrightarrow> runs src fresh n (listOf p) (listOf p')"
  using listLoop_ok [where List = "[]"] by (intro runsI) (fastforce simp: listOf_def)

section \<open>Recursive methods\<close>

lemma runs_0: "runs src False 0 p p'"
  by (rule runsI) (simp add: within_def)

lemma runs_Suc: "runs src False (Suc n) p p' \<longleftrightarrow> runs src True n p p'"
  by (simp add: runs_def within_def less_Suc_eq_le)

lemma runs_mono: "runs src True n p p' \<Longrightarrow> m \<le> n \<Longrightarrow> runs src True m p p'"
  by (auto simp: runs_def within_def)

lemma runs_sym: "runs src fresh n p p' \<Longrightarrow> runs src fresh n p' p"
  by (auto simp: runs_def)

lemma runs_tied:
  assumes "\<And>m. m \<le> n \<Longrightarrow> runs src True m (level (Suc m)) p"
  shows "runs src True n (\<lambda>lx. level (Suc (lexMeasure lx)) lx) p"
proof (rule runsI)
  fix lx assume lx: "lexer_ok src lx" "within True n lx"
  then have "lexMeasure lx \<le> n" by (simp add: within_def)
  from runsD [OF assms [OF this] lx(1)] show
    "level (Suc (lexMeasure lx)) lx = p lx \<and> step_ok src True lx (level (Suc (lexMeasure lx)) lx)"
    by (simp add: within_def)
qed

text \<open>What is shown of a fresh start holds later, and the first version keeps the contract
  alone.\<close>

lemma runs_any: "runs src True n p p' \<Longrightarrow> runs src fresh n p p'"
  by (cases fresh) (auto intro: runs_False)

lemma runs_left: "runs src fresh n p p' \<Longrightarrow> runs src fresh n p p"
  by (auto simp: runs_def)

lemma runs_lift:
  assumes "runs src fresh n q q'" and "\<And>m. runs src True m q q' \<Longrightarrow> runs src True m p p'"
  shows "runs src fresh n p p'"
  using assms by (cases fresh; cases n) (auto simp: runs_Suc runs_0)

lemma goes_on_atStart:
  assumes "\<And>Start. goes_on src False Start n (k Start) (k' Start)"
  shows "goes_on src False 0 n (atStart k) (atStart k')"
proof (rule goes_onI)
  fix lx assume "lexer_ok src lx" "within False n lx"
  with assms [of "PreviousPosition lx"] show
    "atStart k lx = atStart k' lx \<and> step_ok src False lx (atStart k lx)"
    by (auto simp: atStart_def lexer_ok_bounds dest: goes_onD)
qed

text \<open>A group of mutually recursive methods. \<open>level n\<close> is the group with \<open>n\<close> calls deep to
  go, \<open>tied\<close> the group with as many as the measure of the lexer allows, \<open>methods\<close> the bodies
  over the group they call, \<open>agree\<close> the contract for each method of the group. When the
  bodies call the group only once a token is consumed, the tied group solves its own
  equations: the bound on the depth is never met.\<close>

locale recursive_methods =
  fixes level :: "nat \<Rightarrow> 'e"
    and tied :: 'e
    and methods :: "'e \<Rightarrow> 'e"
    and agree :: "string \<Rightarrow> bool \<Rightarrow> nat \<Rightarrow> 'e \<Rightarrow> 'e \<Rightarrow> bool"
  assumes level_Suc: "level (Suc n) = methods (level n)"
    and methods_agree: "agree src False n e e' \<Longrightarrow> agree src True n (methods e) (methods e')"
    and agree_0: "agree src False 0 e e'"
    and agree_Suc: "agree src False (Suc n) e e' \<longleftrightarrow> agree src True n e e'"
    and agree_mono: "agree src True n e e' \<Longrightarrow> m \<le> n \<Longrightarrow> agree src True m e e'"
    and agree_sym: "agree src fresh n e e' \<Longrightarrow> agree src fresh n e' e"
    and agree_tied: "(\<And>m. m \<le> n \<Longrightarrow> agree src True m (level (Suc m)) e) \<Longrightarrow> agree src True n tied e"
begin

lemma level_agree: "agree src False n (level n) (level (n + k))"
proof (induction n)
  case (Suc n)
  then show ?case by (simp add: agree_Suc level_Suc methods_agree)
qed (rule agree_0)

lemma tied_level: "agree src True n tied (level (Suc n))"
proof (rule agree_tied)
  fix m assume "m \<le> n"
  then have "agree src False (Suc m) (level (Suc m)) (level (Suc m + (n - m)))"
    by (intro level_agree)
  with \<open>m \<le> n\<close> show "agree src True m (level (Suc m)) (level (Suc n))" by (simp add: agree_Suc)
qed

theorem tied_methods: "agree src True n tied (methods tied)"
proof (rule agree_tied)
  fix m
  have "agree src False m (level m) tied"
  proof (cases m)
    case (Suc k)
    then show ?thesis using tied_level [of src k] by (simp add: agree_Suc agree_sym)
  qed (simp add: agree_0)
  then show "agree src True m (level (Suc m)) (methods tied)"
    by (simp add: level_Suc methods_agree)
qed

end

end
