(* ===== verification/Parser_Types.thy ===== *)
theory Parser_Types
  imports Parser_Contract
begin

text \<open>
  The methods of retired/scalyc0/Parser.cpp for the parts that hold no expression: names,
  types, packages and uses, labels and the words that stand alone. Each method is followed by
  the proof that it keeps the contract of Parser_Contract.
\<close>

definition parseEmpty :: "empty_syntax parser" where
  "parseEmpty lx =
     atStart (\<lambda>Start.
     firstColon (
     atEnd (\<lambda>End.
     success (EmptySyntax Start End)))) lx"

lemma runs_parseEmpty [parse_ok]: "runs src fresh n parseEmpty parseEmpty"
  by (rule runs_any, unfold parseEmpty_def [abs_def]) (intro parse_ok)

definition parseExtension :: "extension_syntax parser" where
  "parseExtension lx =
     atStart (\<lambda>Start.
     firstSign CHR ''.'' (
     theName Start (\<lambda>Name.
     atEnd (\<lambda>End.
     success (ExtensionSyntax Start End Name))))) lx"

lemma runs_parseExtension [parse_ok]: "runs src fresh n parseExtension parseExtension"
  by (rule runs_any, unfold parseExtension_def [abs_def]) (intro parse_ok)

definition parseExtensionList :: "extension_syntax list parser" where
  "parseExtensionList lx = listOf parseExtension lx"

lemma runs_parseExtensionList [parse_ok]: "runs src fresh n parseExtensionList parseExtensionList"
  unfolding parseExtensionList_def [abs_def] by (intro parse_ok)

definition parseName :: "name_syntax parser" where
  "parseName lx =
     atStart (\<lambda>Start.
     firstName (\<lambda>Name.
     optionalList parseExtensionList (\<lambda>Extensions.
     atEnd (\<lambda>End.
     success (NameSyntax Start End Name Extensions))))) lx"

lemma runs_parseName [parse_ok]: "runs src fresh n parseName parseName"
  by (rule runs_any, unfold parseName_def [abs_def]) (intro parse_ok)

definition parseVersion :: "version_syntax parser" where
  "parseVersion lx =
     atStart (\<lambda>Start.
     first parseLiteralToken (\<lambda>MajorMinor.
     sign Start CHR ''.'' (
     first parseLiteralToken (\<lambda>Patch.
     atEnd (\<lambda>End.
     success (VersionSyntax Start End MajorMinor Patch)))))) lx"

lemma runs_parseVersion [parse_ok]: "runs src fresh n parseVersion parseVersion"
  by (rule runs_any, unfold parseVersion_def [abs_def]) (intro parse_ok)

definition parsePackage :: "package_syntax parser" where
  "parsePackage lx =
     atStart (\<lambda>Start.
     firstKeyword ''package'' (
     required Start parseName ''expected Name'' (\<lambda>Name.
     optional parseVersion (\<lambda>Version.
     skipColon (
     atEnd (\<lambda>End.
     success (PackageSyntax Start End Name Version))))))) lx"

lemma runs_parsePackage [parse_ok]: "runs src fresh n parsePackage parsePackage"
  by (rule runs_any, unfold parsePackage_def [abs_def]) (intro parse_ok)

definition parseUse :: "use_syntax parser" where
  "parseUse lx =
     atStart (\<lambda>Start.
     firstKeyword ''use'' (
     required Start parseName ''expected Name'' (\<lambda>Name.
     skipColon (
     atEnd (\<lambda>End.
     success (UseSyntax Start End Name)))))) lx"

lemma runs_parseUse [parse_ok]: "runs src fresh n parseUse parseUse"
  by (rule runs_any, unfold parseUse_def [abs_def]) (intro parse_ok)

definition parseGenericArgument :: "type_syntax parser \<Rightarrow> generic_argument_syntax parser" where
  "parseGenericArgument T lx =
     atStart (\<lambda>Start.
     first T (\<lambda>Type.
     skipSign CHR '','' (
     atEnd (\<lambda>End.
     success (GenericArgumentSyntax Start End Type))))) lx"

lemma runs_parseGenericArgument [parse_ok]:
  "runs src fresh n T T' \<Longrightarrow>
     runs src fresh n (parseGenericArgument T) (parseGenericArgument T')"
  by (erule runs_lift, frule runs_False, unfold parseGenericArgument_def [abs_def])
    (intro parse_ok; assumption)

definition parseGenericArgumentList :: "type_syntax parser \<Rightarrow> generic_argument_syntax list parser" where
  "parseGenericArgumentList T lx = listOf (parseGenericArgument T) lx"

lemma runs_parseGenericArgumentList [parse_ok]:
  "runs src fresh n T T' \<Longrightarrow>
     runs src fresh n (parseGenericArgumentList T) (parseGenericArgumentList T')"
  by (erule runs_lift, frule runs_False, unfold parseGenericArgumentList_def [abs_def])
    (intro parse_ok; assumption)

definition parseGenericArguments :: "type_syntax parser \<Rightarrow> generic_arguments_syntax parser" where
  "parseGenericArguments T lx =
     atStart (\<lambda>Start.
     firstSign CHR ''['' (
     optionalList (parseGenericArgumentList T) (\<lambda>Generics.
     sign Start CHR '']'' (
     atEnd (\<lambda>End.
     success (GenericArgumentsSyntax Start End Generics)))))) lx"

lemma runs_parseGenericArguments [parse_ok]:
  "runs src False n T T' \<Longrightarrow>
     runs src fresh n (parseGenericArguments T) (parseGenericArguments T')"
  by (rule runs_any, unfold parseGenericArguments_def [abs_def]) (intro parse_ok; assumption)

definition parseCall :: "call_syntax parser" where
  "parseCall lx =
     atStart (\<lambda>Start.
     firstSign CHR ''#'' (
     atEnd (\<lambda>End.
     success (CallSyntax Start End)))) lx"

lemma runs_parseCall [parse_ok]: "runs src fresh n parseCall parseCall"
  by (rule runs_any, unfold parseCall_def [abs_def]) (intro parse_ok)

definition parseReference :: "reference_syntax parser" where
  "parseReference lx =
     atStart (\<lambda>Start.
     firstSign CHR ''^'' (
     theName Start (\<lambda>Location.
     atEnd (\<lambda>End.
     success (ReferenceSyntax Start End Location))))) lx"

lemma runs_parseReference [parse_ok]: "runs src fresh n parseReference parseReference"
  by (rule runs_any, unfold parseReference_def [abs_def]) (intro parse_ok)

definition parseThrown :: "thrown_syntax parser" where
  "parseThrown lx =
     atStart (\<lambda>Start.
     firstSign CHR ''!'' (
     atEnd (\<lambda>End.
     success (ThrownSyntax Start End)))) lx"

lemma runs_parseThrown [parse_ok]: "runs src fresh n parseThrown parseThrown"
  by (rule runs_any, unfold parseThrown_def [abs_def]) (intro parse_ok)

definition parseLifetime :: "lifetime_syntax parser" where
  "parseLifetime lx =
     alternative parseCall Lifetime_Call (
     alternative parseReference Lifetime_Reference (
     alternative parseThrown Lifetime_Thrown (
     different))) lx"

lemma runs_parseLifetime [parse_ok]: "runs src fresh n parseLifetime parseLifetime"
  unfolding parseLifetime_def [abs_def] by (intro parse_ok)

definition parseOptional :: "optional_syntax parser" where
  "parseOptional lx =
     atStart (\<lambda>Start.
     firstSign CHR ''?'' (
     atEnd (\<lambda>End.
     success (OptionalSyntax Start End)))) lx"

lemma runs_parseOptional [parse_ok]: "runs src fresh n parseOptional parseOptional"
  by (rule runs_any, unfold parseOptional_def [abs_def]) (intro parse_ok)

definition parseType_step :: "type_syntax parser \<Rightarrow> type_syntax parser" where
  "parseType_step T lx =
     atStart (\<lambda>Start.
     first parseName (\<lambda>Name.
     optional (parseGenericArguments T) (\<lambda>Generics.
     optional parseOptional (\<lambda>Optional.
     optional parseLifetime (\<lambda>Lifetime.
     atEnd (\<lambda>End.
     success (TypeSyntax Start End Name Generics Optional Lifetime))))))) lx"

lemma runs_parseType_step [parse_ok]:
  "runs src False n T T' \<Longrightarrow>
     runs src fresh n (parseType_step T) (parseType_step T')"
  by (rule runs_any, unfold parseType_step_def [abs_def]) (intro parse_ok; assumption)

definition parseMemberAccess :: "member_access_syntax parser" where
  "parseMemberAccess lx =
     atStart (\<lambda>Start.
     firstSign CHR ''.'' (
     required Start parseName ''expected Name'' (\<lambda>Name.
     atEnd (\<lambda>End.
     success (MemberAccessSyntax Start End Name))))) lx"

lemma runs_parseMemberAccess [parse_ok]: "runs src fresh n parseMemberAccess parseMemberAccess"
  by (rule runs_any, unfold parseMemberAccess_def [abs_def]) (intro parse_ok)

definition parseMemberAccessList :: "member_access_syntax list parser" where
  "parseMemberAccessList lx = listOf parseMemberAccess lx"

lemma runs_parseMemberAccessList [parse_ok]: "runs src fresh n parseMemberAccessList parseMemberAccessList"
  unfolding parseMemberAccessList_def [abs_def] by (intro parse_ok)

definition parseUseList :: "use_syntax list parser" where
  "parseUseList lx = listOf parseUse lx"

lemma runs_parseUseList [parse_ok]: "runs src fresh n parseUseList parseUseList"
  unfolding parseUseList_def [abs_def] by (intro parse_ok)

definition parseLoop :: "loop_syntax parser" where
  "parseLoop lx =
     atStart (\<lambda>Start.
     firstKeyword ''loop'' (
     theName Start (\<lambda>Name.
     atEnd (\<lambda>End.
     success (LoopSyntax Start End Name))))) lx"

lemma runs_parseLoop [parse_ok]: "runs src fresh n parseLoop parseLoop"
  by (rule runs_any, unfold parseLoop_def [abs_def]) (intro parse_ok)

definition parseContinue :: "continue_syntax parser" where
  "parseContinue lx =
     atStart (\<lambda>Start.
     firstKeyword ''continue'' (
     optional parseLoop (\<lambda>Name.
     atEnd (\<lambda>End.
     success (ContinueSyntax Start End Name))))) lx"

lemma runs_parseContinue [parse_ok]: "runs src fresh n parseContinue parseContinue"
  by (rule runs_any, unfold parseContinue_def [abs_def]) (intro parse_ok)

definition parseExtern :: "extern_syntax parser" where
  "parseExtern lx =
     atStart (\<lambda>Start.
     firstKeyword ''extern'' (
     atEnd (\<lambda>End.
     success (ExternSyntax Start End)))) lx"

lemma runs_parseExtern [parse_ok]: "runs src fresh n parseExtern parseExtern"
  by (rule runs_any, unfold parseExtern_def [abs_def]) (intro parse_ok)

definition parseInstruction :: "instruction_syntax parser" where
  "parseInstruction lx =
     atStart (\<lambda>Start.
     firstKeyword ''instruction'' (
     atEnd (\<lambda>End.
     success (InstructionSyntax Start End)))) lx"

lemma runs_parseInstruction [parse_ok]: "runs src fresh n parseInstruction parseInstruction"
  by (rule runs_any, unfold parseInstruction_def [abs_def]) (intro parse_ok)

definition parseIntrinsic :: "intrinsic_syntax parser" where
  "parseIntrinsic lx =
     atStart (\<lambda>Start.
     firstKeyword ''intrinsic'' (
     atEnd (\<lambda>End.
     success (IntrinsicSyntax Start End)))) lx"

lemma runs_parseIntrinsic [parse_ok]: "runs src fresh n parseIntrinsic parseIntrinsic"
  by (rule runs_any, unfold parseIntrinsic_def [abs_def]) (intro parse_ok)

definition parseModule :: "module_syntax parser" where
  "parseModule lx =
     atStart (\<lambda>Start.
     firstKeyword ''module'' (
     theName Start (\<lambda>Name.
     atEnd (\<lambda>End.
     success (ModuleSyntax Start End Name))))) lx"

lemma runs_parseModule [parse_ok]: "runs src fresh n parseModule parseModule"
  by (rule runs_any, unfold parseModule_def [abs_def]) (intro parse_ok)

definition parseLiteral :: "literal_syntax parser" where
  "parseLiteral lx =
     atStart (\<lambda>Start.
     first parseLiteralToken (\<lambda>Literal.
     atEnd (\<lambda>End.
     success (LiteralSyntax Start End Literal)))) lx"

lemma runs_parseLiteral [parse_ok]: "runs src fresh n parseLiteral parseLiteral"
  by (rule runs_any, unfold parseLiteral_def [abs_def]) (intro parse_ok)

definition parsePackageList :: "package_syntax list parser" where
  "parsePackageList lx = listOf parsePackage lx"

lemma runs_parsePackageList [parse_ok]: "runs src fresh n parsePackageList parsePackageList"
  unfolding parsePackageList_def [abs_def] by (intro parse_ok)

definition parseLabel :: "label_syntax parser" where
  "parseLabel lx =
     atStart (\<lambda>Start.
     firstKeyword ''label'' (
     theName Start (\<lambda>Name.
     atEnd (\<lambda>End.
     success (LabelSyntax Start End Name))))) lx"

lemma runs_parseLabel [parse_ok]: "runs src fresh n parseLabel parseLabel"
  by (rule runs_any, unfold parseLabel_def [abs_def]) (intro parse_ok)

definition parseIs :: "is_syntax parser" where
  "parseIs lx =
     atStart (\<lambda>Start.
     firstKeyword ''is'' (
     required Start parseName ''expected Name'' (\<lambda>Name.
     atEnd (\<lambda>End.
     success (IsSyntax Start End Name))))) lx"

lemma runs_parseIs [parse_ok]: "runs src fresh n parseIs parseIs"
  by (rule runs_any, unfold parseIs_def [abs_def]) (intro parse_ok)

text \<open>\<open>parseType\<close> calls itself for the arguments of a generic type, after the bracket that
  opens them. \<open>parseType_level n\<close> may go \<open>n\<close> calls deep; \<open>parseType\<close> as deep as the
  measure of the lexer allows, which is shown to be as deep as it wants.\<close>

fun parseType_level :: "nat \<Rightarrow> type_syntax parser" where
  "parseType_level 0 lx = outOfFuel lx"
| "parseType_level (Suc n) lx = parseType_step (parseType_level n) lx"

definition parseType :: "type_syntax parser" where
  "parseType lx = parseType_level (Suc (lexMeasure lx)) lx"

interpretation type_methods: recursive_methods parseType_level parseType parseType_step runs
proof unfold_locales
  show "parseType_level (Suc n) = parseType_step (parseType_level n)" for n
    by (rule ext) simp
  show "runs src True n parseType e"
    if "\<And>m. m \<le> n \<Longrightarrow> runs src True m (parseType_level (Suc m)) e" for src n e
    using runs_tied [OF that] unfolding parseType_def [abs_def] .
qed (rule runs_0 runs_Suc | erule (1) runs_mono | erule runs_sym runs_parseType_step)+

lemma runs_parseType [parse_ok]: "runs src fresh n parseType parseType"
  by (rule runs_any, rule runs_left, rule type_methods.tied_methods)

definition parseTypeAnnotation :: "type_annotation_syntax parser" where
  "parseTypeAnnotation lx =
     atStart (\<lambda>Start.
     firstColon (
     required Start parseType ''expected Type'' (\<lambda>Type.
     atEnd (\<lambda>End.
     success (TypeAnnotationSyntax Start End Type))))) lx"

lemma runs_parseTypeAnnotation [parse_ok]: "runs src fresh n parseTypeAnnotation parseTypeAnnotation"
  by (rule runs_any, unfold parseTypeAnnotation_def [abs_def]) (intro parse_ok)

definition parseTypeList :: "type_syntax list parser" where
  "parseTypeList lx = listOf parseType lx"

lemma runs_parseTypeList [parse_ok]: "runs src fresh n parseTypeList parseTypeList"
  unfolding parseTypeList_def [abs_def] by (intro parse_ok)

definition parseArray :: "array_syntax parser" where
  "parseArray lx =
     atStart (\<lambda>Start.
     firstSign CHR ''['' (
     optionalList parseTypeList (\<lambda>Members.
     sign Start CHR '']'' (
     atEnd (\<lambda>End.
     success (ArraySyntax Start End Members)))))) lx"

lemma runs_parseArray [parse_ok]: "runs src fresh n parseArray parseArray"
  by (rule runs_any, unfold parseArray_def [abs_def]) (intro parse_ok)

definition parseExtend :: "extend_syntax parser" where
  "parseExtend lx =
     atStart (\<lambda>Start.
     first parseType (\<lambda>Type.
     skipSign CHR '','' (
     atEnd (\<lambda>End.
     success (ExtendSyntax Start End Type))))) lx"

lemma runs_parseExtend [parse_ok]: "runs src fresh n parseExtend parseExtend"
  by (rule runs_any, unfold parseExtend_def [abs_def]) (intro parse_ok)

definition parseExtendList :: "extend_syntax list parser" where
  "parseExtendList lx = listOf parseExtend lx"

lemma runs_parseExtendList [parse_ok]: "runs src fresh n parseExtendList parseExtendList"
  unfolding parseExtendList_def [abs_def] by (intro parse_ok)

definition parseExtends :: "extends_syntax parser" where
  "parseExtends lx =
     atStart (\<lambda>Start.
     firstKeyword ''extends'' (
     optionalList parseExtendList (\<lambda>Extensions.
     atEnd (\<lambda>End.
     success (ExtendsSyntax Start End Extensions))))) lx"

lemma runs_parseExtends [parse_ok]: "runs src fresh n parseExtends parseExtends"
  by (rule runs_any, unfold parseExtends_def [abs_def]) (intro parse_ok)

definition parseSizeOf :: "size_of_syntax parser" where
  "parseSizeOf lx =
     atStart (\<lambda>Start.
     firstKeyword ''sizeof'' (
     required Start parseType ''expected Type'' (\<lambda>Type.
     atEnd (\<lambda>End.
     success (SizeOfSyntax Start End Type))))) lx"

lemma runs_parseSizeOf [parse_ok]: "runs src fresh n parseSizeOf parseSizeOf"
  by (rule runs_any, unfold parseSizeOf_def [abs_def]) (intro parse_ok)

definition parseAlignOf :: "align_of_syntax parser" where
  "parseAlignOf lx =
     atStart (\<lambda>Start.
     firstKeyword ''alignof'' (
     required Start parseType ''expected Type'' (\<lambda>Type.
     atEnd (\<lambda>End.
     success (AlignOfSyntax Start End Type))))) lx"

lemma runs_parseAlignOf [parse_ok]: "runs src fresh n parseAlignOf parseAlignOf"
  by (rule runs_any, unfold parseAlignOf_def [abs_def]) (intro parse_ok)

definition parseAs :: "as_syntax parser" where
  "parseAs lx =
     atStart (\<lambda>Start.
     firstKeyword ''as'' (
     required Start parseType ''expected Type'' (\<lambda>Type.
     atEnd (\<lambda>End.
     success (AsSyntax Start End Type))))) lx"

lemma runs_parseAs [parse_ok]: "runs src fresh n parseAs parseAs"
  by (rule runs_any, unfold parseAs_def [abs_def]) (intro parse_ok)

end
