(* ===== verification/Parser_Expressions.thy ===== *)
theory Parser_Expressions
  imports Parser_Types
begin

text \<open>
  The methods of retired/scalyc0/Parser.cpp for attributes, operands, expressions, bindings and
  statements. They are mutually recursive; every cycle of calls goes through
  \<open>parseExpression\<close> or \<open>parseModel\<close>, so a method takes those two as a record
  \<open>recursive_calls\<close> and calls everything else directly. Each cycle consumes a token before it
  gets back to the two, which is what ties the recursion at the end of the theory.
\<close>

record recursive_calls =
  callExpression :: "expression_syntax parser"
  callModel :: "model_syntax parser"

text \<open>The contract for both.\<close>

definition self_agree :: "string \<Rightarrow> bool \<Rightarrow> nat \<Rightarrow> recursive_calls \<Rightarrow> recursive_calls \<Rightarrow> bool" where
  "self_agree src fresh n self self' \<longleftrightarrow>
     runs src fresh n (callExpression self) (callExpression self') \<and>
     runs src fresh n (callModel self) (callModel self')"

lemma runs_calls [parse_ok]:
  "self_agree src fresh n self self' \<Longrightarrow>
     runs src fresh n (callExpression self) (callExpression self')"
  "self_agree src fresh n self self' \<Longrightarrow>
     runs src fresh n (callModel self) (callModel self')"
  by (simp_all add: self_agree_def)

lemma self_agree_False: "self_agree src fresh n self self' \<Longrightarrow> self_agree src False n self self'"
  by (auto simp: self_agree_def intro: runs_False)

lemma self_lift:
  assumes "self_agree src fresh n self self'"
    and "\<And>m. self_agree src True m self self' \<Longrightarrow> runs src True m p p'"
  shows "runs src fresh n p p'"
  using assms by (cases fresh; cases n) (auto simp: self_agree_def runs_Suc runs_0)


definition parseAttribute :: "recursive_calls \<Rightarrow> attribute_syntax parser" where
  "parseAttribute self lx =
     atStart (\<lambda>Start.
     firstAttribute (\<lambda>Name.
     required Start (callModel self) ''expected Model'' (\<lambda>Model.
     atEnd (\<lambda>End.
     success (AttributeSyntax Start End Name Model))))) lx"

lemma runs_parseAttribute [parse_ok]:
  "self_agree src False n self self' \<Longrightarrow>
     runs src fresh n (parseAttribute self) (parseAttribute self')"
  by (rule runs_any, unfold parseAttribute_def [abs_def]) (intro parse_ok; assumption)

definition parseAttributeList :: "recursive_calls \<Rightarrow> attribute_syntax list parser" where
  "parseAttributeList self lx = listOf (parseAttribute self) lx"

lemma runs_parseAttributeList [parse_ok]:
  "self_agree src False n self self' \<Longrightarrow>
     runs src fresh n (parseAttributeList self) (parseAttributeList self')"
  by (rule runs_any, unfold parseAttributeList_def [abs_def]) (intro parse_ok; assumption)

definition parseOperand :: "recursive_calls \<Rightarrow> operand_syntax parser" where
  "parseOperand self lx =
     atStart (\<lambda>Start.
     first (callExpression self) (\<lambda>Expression.
     optionalList parseMemberAccessList (\<lambda>Members.
     atEnd (\<lambda>End.
     success (OperandSyntax Start End Expression Members))))) lx"

lemma runs_parseOperand [parse_ok]:
  "self_agree src fresh n self self' \<Longrightarrow>
     runs src fresh n (parseOperand self) (parseOperand self')"
  by (erule self_lift, frule self_agree_False, unfold parseOperand_def [abs_def])
    (intro parse_ok; assumption)

definition parseOperandList :: "recursive_calls \<Rightarrow> operand_syntax list parser" where
  "parseOperandList self lx = listOf (parseOperand self) lx"

lemma runs_parseOperandList [parse_ok]:
  "self_agree src fresh n self self' \<Longrightarrow>
     runs src fresh n (parseOperandList self) (parseOperandList self')"
  by (erule self_lift, frule self_agree_False, unfold parseOperandList_def [abs_def])
    (intro parse_ok; assumption)

definition parseOperation :: "recursive_calls \<Rightarrow> operation_syntax parser" where
  "parseOperation self lx =
     atStart (\<lambda>Start.
     first (parseOperandList self) (\<lambda>Operands.
     atEnd (\<lambda>End.
     success (OperationSyntax Start End (Some Operands))))) lx"

lemma runs_parseOperation [parse_ok]:
  "self_agree src fresh n self self' \<Longrightarrow>
     runs src fresh n (parseOperation self) (parseOperation self')"
  by (erule self_lift, frule self_agree_False, unfold parseOperation_def [abs_def])
    (intro parse_ok; assumption)

definition parseSet :: "recursive_calls \<Rightarrow> set_syntax parser" where
  "parseSet self lx =
     atStart (\<lambda>Start.
     firstKeyword ''set'' (
     required Start (parseOperandList self) ''expected Operand'' (\<lambda>Target.
     colon Start (
     required Start (parseOperandList self) ''expected Operand'' (\<lambda>Source.
     atEnd (\<lambda>End.
     success (SetSyntax Start End (Some Target) (Some Source)))))))) lx"

lemma runs_parseSet [parse_ok]:
  "self_agree src False n self self' \<Longrightarrow>
     runs src fresh n (parseSet self) (parseSet self')"
  by (rule runs_any, unfold parseSet_def [abs_def]) (intro parse_ok; assumption)

definition parseInitializer :: "recursive_calls \<Rightarrow> initializer_syntax parser" where
  "parseInitializer self lx =
     atStart (\<lambda>Start.
     firstSign CHR ''('' (
     required Start (parseOperandList self) ''expected Operand'' (\<lambda>Operands.
     sign Start CHR '')'' (
     atEnd (\<lambda>End.
     success (InitializerSyntax Start End (Some Operands))))))) lx"

lemma runs_parseInitializer [parse_ok]:
  "self_agree src False n self self' \<Longrightarrow>
     runs src fresh n (parseInitializer self) (parseInitializer self')"
  by (rule runs_any, unfold parseInitializer_def [abs_def]) (intro parse_ok; assumption)

definition parseProperty :: "recursive_calls \<Rightarrow> property_syntax parser" where
  "parseProperty self lx =
     atStart (\<lambda>Start.
     firstName (\<lambda>Name.
     required Start parseTypeAnnotation ''expected TypeAnnotation'' (\<lambda>Annotation.
     optional (parseInitializer self) (\<lambda>Initializer.
     skipSign CHR '','' (
     skipColon (
     optionalList (parseAttributeList self) (\<lambda>Attributes.
     atEnd (\<lambda>End.
     success (PropertySyntax Start End Name Annotation Initializer Attributes))))))))) lx"

lemma runs_parseProperty [parse_ok]:
  "self_agree src False n self self' \<Longrightarrow>
     runs src fresh n (parseProperty self) (parseProperty self')"
  by (rule runs_any, unfold parseProperty_def [abs_def]) (intro parse_ok; assumption)

definition parseField :: "recursive_calls \<Rightarrow> field_syntax parser" where
  "parseField self lx =
     atStart (\<lambda>Start.
     firstKeyword ''private'' (
     required Start (parseProperty self) ''expected Property'' (\<lambda>Property.
     atEnd (\<lambda>End.
     success (FieldSyntax Start End Property))))) lx"

lemma runs_parseField [parse_ok]:
  "self_agree src False n self self' \<Longrightarrow>
     runs src fresh n (parseField self) (parseField self')"
  by (rule runs_any, unfold parseField_def [abs_def]) (intro parse_ok; assumption)

definition parsePart :: "recursive_calls \<Rightarrow> part_syntax parser" where
  "parsePart self lx =
     alternative (parseField self) Part_Field (
     alternative (parseProperty self) Part_Property (
     different)) lx"

lemma runs_parsePart [parse_ok]:
  "self_agree src False n self self' \<Longrightarrow>
     runs src fresh n (parsePart self) (parsePart self')"
  by (rule runs_any, unfold parsePart_def [abs_def]) (intro parse_ok; assumption)

definition parsePartList :: "recursive_calls \<Rightarrow> part_syntax list parser" where
  "parsePartList self lx = listOf (parsePart self) lx"

lemma runs_parsePartList [parse_ok]:
  "self_agree src False n self self' \<Longrightarrow>
     runs src fresh n (parsePartList self) (parsePartList self')"
  by (rule runs_any, unfold parsePartList_def [abs_def]) (intro parse_ok; assumption)

definition parseStructure :: "recursive_calls \<Rightarrow> structure_syntax parser" where
  "parseStructure self lx =
     atStart (\<lambda>Start.
     firstSign CHR ''('' (
     optionalList (parsePartList self) (\<lambda>Parts.
     sign Start CHR '')'' (
     atEnd (\<lambda>End.
     success (StructureSyntax Start End Parts)))))) lx"

lemma runs_parseStructure [parse_ok]:
  "self_agree src False n self self' \<Longrightarrow>
     runs src fresh n (parseStructure self) (parseStructure self')"
  by (rule runs_any, unfold parseStructure_def [abs_def]) (intro parse_ok; assumption)

definition parseBindingSpec :: "recursive_calls \<Rightarrow> binding_spec_syntax parser" where
  "parseBindingSpec self lx =
     alternative (parseStructure self) BindingSpec_Structure (
     alternative parseType BindingSpec_Type (
     alternative parseArray BindingSpec_Array (
     different))) lx"

lemma runs_parseBindingSpec [parse_ok]:
  "self_agree src False n self self' \<Longrightarrow>
     runs src fresh n (parseBindingSpec self) (parseBindingSpec self')"
  by (rule runs_any, unfold parseBindingSpec_def [abs_def]) (intro parse_ok; assumption)

definition parseBindingAnnotation :: "recursive_calls \<Rightarrow> binding_annotation_syntax parser" where
  "parseBindingAnnotation self lx =
     atStart (\<lambda>Start.
     firstColon (
     required Start (parseBindingSpec self) ''expected BindingSpec'' (\<lambda>Spec.
     atEnd (\<lambda>End.
     success (BindingAnnotationSyntax Start End Spec))))) lx"

lemma runs_parseBindingAnnotation [parse_ok]:
  "self_agree src False n self self' \<Longrightarrow>
     runs src fresh n (parseBindingAnnotation self) (parseBindingAnnotation self')"
  by (rule runs_any, unfold parseBindingAnnotation_def [abs_def]) (intro parse_ok; assumption)

definition parseBinding :: "recursive_calls \<Rightarrow> binding_syntax parser" where
  "parseBinding self lx =
     atStart (\<lambda>Start.
     firstName (\<lambda>Name.
     optional (parseBindingAnnotation self) (\<lambda>Annotation.
     optionalList (parseOperandList self) (\<lambda>Operation.
     atEnd (\<lambda>End.
     success (BindingSyntax Start End Name Annotation Operation)))))) lx"

lemma runs_parseBinding [parse_ok]:
  "self_agree src False n self self' \<Longrightarrow>
     runs src fresh n (parseBinding self) (parseBinding self')"
  by (rule runs_any, unfold parseBinding_def [abs_def]) (intro parse_ok; assumption)

definition parseLet :: "recursive_calls \<Rightarrow> let_syntax parser" where
  "parseLet self lx =
     atStart (\<lambda>Start.
     firstKeyword ''let'' (
     required Start (parseBinding self) ''expected Binding'' (\<lambda>Binding.
     atEnd (\<lambda>End.
     success (LetSyntax Start End Binding))))) lx"

lemma runs_parseLet [parse_ok]:
  "self_agree src False n self self' \<Longrightarrow>
     runs src fresh n (parseLet self) (parseLet self')"
  by (rule runs_any, unfold parseLet_def [abs_def]) (intro parse_ok; assumption)

definition parseVar :: "recursive_calls \<Rightarrow> var_syntax parser" where
  "parseVar self lx =
     atStart (\<lambda>Start.
     firstKeyword ''var'' (
     required Start (parseBinding self) ''expected Binding'' (\<lambda>Binding.
     atEnd (\<lambda>End.
     success (VarSyntax Start End Binding))))) lx"

lemma runs_parseVar [parse_ok]:
  "self_agree src False n self self' \<Longrightarrow>
     runs src fresh n (parseVar self) (parseVar self')"
  by (rule runs_any, unfold parseVar_def [abs_def]) (intro parse_ok; assumption)

definition parseMutable :: "recursive_calls \<Rightarrow> mutable_syntax parser" where
  "parseMutable self lx =
     atStart (\<lambda>Start.
     firstKeyword ''mutable'' (
     required Start (parseBinding self) ''expected Binding'' (\<lambda>Binding.
     atEnd (\<lambda>End.
     success (MutableSyntax Start End Binding))))) lx"

lemma runs_parseMutable [parse_ok]:
  "self_agree src False n self self' \<Longrightarrow>
     runs src fresh n (parseMutable self) (parseMutable self')"
  by (rule runs_any, unfold parseMutable_def [abs_def]) (intro parse_ok; assumption)

definition parseBreak :: "recursive_calls \<Rightarrow> break_syntax parser" where
  "parseBreak self lx =
     atStart (\<lambda>Start.
     firstKeyword ''break'' (
     optional parseLoop (\<lambda>Name.
     optionalList (parseOperandList self) (\<lambda>Result.
     atEnd (\<lambda>End.
     success (BreakSyntax Start End Name Result)))))) lx"

lemma runs_parseBreak [parse_ok]:
  "self_agree src False n self self' \<Longrightarrow>
     runs src fresh n (parseBreak self) (parseBreak self')"
  by (rule runs_any, unfold parseBreak_def [abs_def]) (intro parse_ok; assumption)

definition parseReturn :: "recursive_calls \<Rightarrow> return_syntax parser" where
  "parseReturn self lx =
     atStart (\<lambda>Start.
     firstKeyword ''return'' (
     optionalList (parseOperandList self) (\<lambda>Result.
     atEnd (\<lambda>End.
     success (ReturnSyntax Start End Result))))) lx"

lemma runs_parseReturn [parse_ok]:
  "self_agree src False n self self' \<Longrightarrow>
     runs src fresh n (parseReturn self) (parseReturn self')"
  by (rule runs_any, unfold parseReturn_def [abs_def]) (intro parse_ok; assumption)

definition parseThrow :: "recursive_calls \<Rightarrow> throw_syntax parser" where
  "parseThrow self lx =
     atStart (\<lambda>Start.
     firstKeyword ''throw'' (
     optionalList (parseOperandList self) (\<lambda>Result.
     atEnd (\<lambda>End.
     success (ThrowSyntax Start End Result))))) lx"

lemma runs_parseThrow [parse_ok]:
  "self_agree src False n self self' \<Longrightarrow>
     runs src fresh n (parseThrow self) (parseThrow self')"
  by (rule runs_any, unfold parseThrow_def [abs_def]) (intro parse_ok; assumption)

definition parseStatement :: "recursive_calls \<Rightarrow> statement_syntax parser" where
  "parseStatement self lx =
     alternative parseEmpty Statement_Empty (
     alternative (parseOperation self) Statement_Operation (
     alternative (parseLet self) Statement_Let (
     alternative (parseVar self) Statement_Var (
     alternative (parseMutable self) Statement_Mutable (
     alternative (parseSet self) Statement_Set (
     alternative parseContinue Statement_Continue (
     alternative (parseBreak self) Statement_Break (
     alternative (parseReturn self) Statement_Return (
     alternative (parseThrow self) Statement_Throw (
     different)))))))))) lx"

lemma runs_parseStatement [parse_ok]:
  "self_agree src fresh n self self' \<Longrightarrow>
     runs src fresh n (parseStatement self) (parseStatement self')"
  by (erule self_lift, frule self_agree_False, unfold parseStatement_def [abs_def])
    (intro parse_ok; assumption)

definition parseStatementList :: "recursive_calls \<Rightarrow> statement_syntax list parser" where
  "parseStatementList self lx = listOf (parseStatement self) lx"

lemma runs_parseStatementList [parse_ok]:
  "self_agree src fresh n self self' \<Longrightarrow>
     runs src fresh n (parseStatementList self) (parseStatementList self')"
  by (erule self_lift, frule self_agree_False, unfold parseStatementList_def [abs_def])
    (intro parse_ok; assumption)

definition parseBlock :: "recursive_calls \<Rightarrow> block_syntax parser" where
  "parseBlock self lx =
     atStart (\<lambda>Start.
     firstSign CHR ''{'' (
     optionalList parseUseList (\<lambda>Uses.
     optionalList (parseStatementList self) (\<lambda>Statements.
     sign Start CHR ''}'' (
     atEnd (\<lambda>End.
     success (BlockSyntax Start End Uses Statements))))))) lx"

lemma runs_parseBlock [parse_ok]:
  "self_agree src False n self self' \<Longrightarrow>
     runs src fresh n (parseBlock self) (parseBlock self')"
  by (rule runs_any, unfold parseBlock_def [abs_def]) (intro parse_ok; assumption)

definition parseAction :: "recursive_calls \<Rightarrow> action_syntax parser" where
  "parseAction self lx =
     alternative (parseOperation self) Action_Operation (
     alternative (parseSet self) Action_Set (
     alternative (parseBlock self) Action_Block (
     different))) lx"

lemma runs_parseAction [parse_ok]:
  "self_agree src fresh n self self' \<Longrightarrow>
     runs src fresh n (parseAction self) (parseAction self')"
  by (erule self_lift, frule self_agree_False, unfold parseAction_def [abs_def])
    (intro parse_ok; assumption)

definition parseValue :: "recursive_calls \<Rightarrow> value_syntax parser" where
  "parseValue self lx =
     atStart (\<lambda>Start.
     firstColon (
     required Start (parseOperandList self) ''expected Operand'' (\<lambda>Value.
     optionalList (parseAttributeList self) (\<lambda>Attributes.
     atEnd (\<lambda>End.
     success (ValueSyntax Start End (Some Value) Attributes)))))) lx"

lemma runs_parseValue [parse_ok]:
  "self_agree src False n self self' \<Longrightarrow>
     runs src fresh n (parseValue self) (parseValue self')"
  by (rule runs_any, unfold parseValue_def [abs_def]) (intro parse_ok; assumption)

definition parseComponent :: "recursive_calls \<Rightarrow> component_syntax parser" where
  "parseComponent self lx =
     atStart (\<lambda>Start.
     first (parseOperandList self) (\<lambda>Operands.
     optionalList (parseAttributeList self) (\<lambda>Attributes.
     optional (parseValue self) (\<lambda>Value.
     skipSign CHR '','' (
     atEnd (\<lambda>End.
     success (ComponentSyntax Start End (Some Operands) Attributes Value))))))) lx"

lemma runs_parseComponent [parse_ok]:
  "self_agree src fresh n self self' \<Longrightarrow>
     runs src fresh n (parseComponent self) (parseComponent self')"
  by (erule self_lift, frule self_agree_False, unfold parseComponent_def [abs_def])
    (intro parse_ok; assumption)

definition parseComponentList :: "recursive_calls \<Rightarrow> component_syntax list parser" where
  "parseComponentList self lx = listOf (parseComponent self) lx"

lemma runs_parseComponentList [parse_ok]:
  "self_agree src fresh n self self' \<Longrightarrow>
     runs src fresh n (parseComponentList self) (parseComponentList self')"
  by (erule self_lift, frule self_agree_False, unfold parseComponentList_def [abs_def])
    (intro parse_ok; assumption)

definition parseObject :: "recursive_calls \<Rightarrow> object_syntax parser" where
  "parseObject self lx =
     atStart (\<lambda>Start.
     firstSign CHR ''('' (
     optionalList (parseComponentList self) (\<lambda>Components.
     sign Start CHR '')'' (
     atEnd (\<lambda>End.
     success (ObjectSyntax Start End Components)))))) lx"

lemma runs_parseObject [parse_ok]:
  "self_agree src False n self self' \<Longrightarrow>
     runs src fresh n (parseObject self) (parseObject self')"
  by (rule runs_any, unfold parseObject_def [abs_def]) (intro parse_ok; assumption)

definition parseElement :: "recursive_calls \<Rightarrow> element_syntax parser" where
  "parseElement self lx =
     atStart (\<lambda>Start.
     first (parseOperandList self) (\<lambda>Operation.
     optionalList (parseAttributeList self) (\<lambda>Attributes.
     skipSign CHR '','' (
     atEnd (\<lambda>End.
     success (ElementSyntax Start End (Some Operation) Attributes)))))) lx"

lemma runs_parseElement [parse_ok]:
  "self_agree src fresh n self self' \<Longrightarrow>
     runs src fresh n (parseElement self) (parseElement self')"
  by (erule self_lift, frule self_agree_False, unfold parseElement_def [abs_def])
    (intro parse_ok; assumption)

definition parseElementList :: "recursive_calls \<Rightarrow> element_syntax list parser" where
  "parseElementList self lx = listOf (parseElement self) lx"

lemma runs_parseElementList [parse_ok]:
  "self_agree src fresh n self self' \<Longrightarrow>
     runs src fresh n (parseElementList self) (parseElementList self')"
  by (erule self_lift, frule self_agree_False, unfold parseElementList_def [abs_def])
    (intro parse_ok; assumption)

definition parseVector :: "recursive_calls \<Rightarrow> vector_syntax parser" where
  "parseVector self lx =
     atStart (\<lambda>Start.
     firstSign CHR ''['' (
     required Start (parseElementList self) ''expected Element'' (\<lambda>Elements.
     sign Start CHR '']'' (
     optional parseLifetime (\<lambda>Lifetime.
     atEnd (\<lambda>End.
     success (VectorSyntax Start End (Some Elements) Lifetime))))))) lx"

lemma runs_parseVector [parse_ok]:
  "self_agree src False n self self' \<Longrightarrow>
     runs src fresh n (parseVector self) (parseVector self')"
  by (rule runs_any, unfold parseVector_def [abs_def]) (intro parse_ok; assumption)

definition parseModel_step :: "recursive_calls \<Rightarrow> model_syntax parser" where
  "parseModel_step self lx =
     alternative parseLiteral Model_Literal (
     alternative parseName Model_Name (
     alternative (parseObject self) Model_Object (
     alternative (parseVector self) Model_Vector (
     different)))) lx"

lemma runs_parseModel_step [parse_ok]:
  "self_agree src False n self self' \<Longrightarrow>
     runs src fresh n (parseModel_step self) (parseModel_step self')"
  by (rule runs_any, unfold parseModel_step_def [abs_def]) (intro parse_ok; assumption)

definition parseThen :: "recursive_calls \<Rightarrow> then_syntax parser" where
  "parseThen self lx =
     atStart (\<lambda>Start.
     first (parseStatement self) (\<lambda>Statement.
     atEnd (\<lambda>End.
     success (ThenSyntax Start End Statement)))) lx"

lemma runs_parseThen [parse_ok]:
  "self_agree src fresh n self self' \<Longrightarrow>
     runs src fresh n (parseThen self) (parseThen self')"
  by (erule self_lift, frule self_agree_False, unfold parseThen_def [abs_def])
    (intro parse_ok; assumption)

definition parseElse :: "recursive_calls \<Rightarrow> else_syntax parser" where
  "parseElse self lx =
     atStart (\<lambda>Start.
     saving (\<lambda>Snapshot.
     skipColon (
     orElse ''else'' (
     skipColon (
     required Start (parseStatement self) ''expected Statement'' (\<lambda>Alternative.
     atEnd (\<lambda>End.
     success (ElseSyntax Start End Alternative))))) (differentAt Snapshot)))) lx"

lemma runs_parseElse [parse_ok]:
  "self_agree src False n self self' \<Longrightarrow>
     runs src fresh n (parseElse self) (parseElse self')"
  by (rule runs_any, unfold parseElse_def [abs_def]) (intro parse_ok; assumption)

definition parseIf :: "recursive_calls \<Rightarrow> if_syntax parser" where
  "parseIf self lx =
     atStart (\<lambda>Start.
     firstKeyword ''if'' (
     required Start (parseOperandList self) ''expected Operand'' (\<lambda>Condition.
     colon Start (
     required Start (parseThen self) ''expected Then'' (\<lambda>Consequent.
     optional (parseElse self) (\<lambda>Alternative.
     atEnd (\<lambda>End.
     success (IfSyntax Start End (Some Condition) Consequent Alternative)))))))) lx"

lemma runs_parseIf [parse_ok]:
  "self_agree src False n self self' \<Longrightarrow>
     runs src fresh n (parseIf self) (parseIf self')"
  by (rule runs_any, unfold parseIf_def [abs_def]) (intro parse_ok; assumption)

definition parseCase :: "recursive_calls \<Rightarrow> case_syntax parser" where
  "parseCase self lx =
     atStart (\<lambda>Start.
     firstKeyword ''case'' (
     required Start (parseOperandList self) ''expected Operand'' (\<lambda>Condition.
     atEnd (\<lambda>End.
     success (CaseSyntax Start End (Some Condition)))))) lx"

lemma runs_parseCase [parse_ok]:
  "self_agree src False n self self' \<Longrightarrow>
     runs src fresh n (parseCase self) (parseCase self')"
  by (rule runs_any, unfold parseCase_def [abs_def]) (intro parse_ok; assumption)

definition parseCaseList :: "recursive_calls \<Rightarrow> case_syntax list parser" where
  "parseCaseList self lx = listOf (parseCase self) lx"

lemma runs_parseCaseList [parse_ok]:
  "self_agree src False n self self' \<Longrightarrow>
     runs src fresh n (parseCaseList self) (parseCaseList self')"
  by (rule runs_any, unfold parseCaseList_def [abs_def]) (intro parse_ok; assumption)

definition parseBranch :: "recursive_calls \<Rightarrow> branch_syntax parser" where
  "parseBranch self lx =
     atStart (\<lambda>Start.
     first (parseCaseList self) (\<lambda>Cases.
     colon Start (
     required Start (parseStatement self) ''expected Statement'' (\<lambda>Consequent.
     atEnd (\<lambda>End.
     success (BranchSyntax Start End (Some Cases) Consequent)))))) lx"

lemma runs_parseBranch [parse_ok]:
  "self_agree src False n self self' \<Longrightarrow>
     runs src fresh n (parseBranch self) (parseBranch self')"
  by (rule runs_any, unfold parseBranch_def [abs_def]) (intro parse_ok; assumption)

definition parseBranchList :: "recursive_calls \<Rightarrow> branch_syntax list parser" where
  "parseBranchList self lx = listOf (parseBranch self) lx"

lemma runs_parseBranchList [parse_ok]:
  "self_agree src False n self self' \<Longrightarrow>
     runs src fresh n (parseBranchList self) (parseBranchList self')"
  by (rule runs_any, unfold parseBranchList_def [abs_def]) (intro parse_ok; assumption)

definition parseMatch :: "recursive_calls \<Rightarrow> match_syntax parser" where
  "parseMatch self lx =
     atStart (\<lambda>Start.
     firstKeyword ''match'' (
     required Start (parseOperandList self) ''expected Operand'' (\<lambda>Scrutinee.
     colon Start (
     required Start (parseBranchList self) ''expected Branch'' (\<lambda>Branches.
     optional (parseElse self) (\<lambda>Alternative.
     atEnd (\<lambda>End.
     success (MatchSyntax Start End (Some Scrutinee) (Some Branches) Alternative)))))))) lx"

lemma runs_parseMatch [parse_ok]:
  "self_agree src False n self self' \<Longrightarrow>
     runs src fresh n (parseMatch self) (parseMatch self')"
  by (rule runs_any, unfold parseMatch_def [abs_def]) (intro parse_ok; assumption)

definition parseLambda :: "recursive_calls \<Rightarrow> lambda_syntax parser" where
  "parseLambda self lx =
     atStart (\<lambda>Start.
     firstSign (CHR 0x5C) (
     required Start (parseOperandList self) ''expected Operand'' (\<lambda>Input.
     colon Start (
     required Start (parseAction self) ''expected Action'' (\<lambda>Block.
     atEnd (\<lambda>End.
     success (LambdaSyntax Start End (Some Input) Block))))))) lx"

lemma runs_parseLambda [parse_ok]:
  "self_agree src False n self self' \<Longrightarrow>
     runs src fresh n (parseLambda self) (parseLambda self')"
  by (rule runs_any, unfold parseLambda_def [abs_def]) (intro parse_ok; assumption)

definition parseFor :: "recursive_calls \<Rightarrow> for_syntax parser" where
  "parseFor self lx =
     atStart (\<lambda>Start.
     firstKeyword ''for'' (
     theName Start (\<lambda>Variable.
     optional parseTypeAnnotation (\<lambda>Annotation.
     theKeyword Start ''in'' (
     required Start (parseOperandList self) ''expected Operand'' (\<lambda>Operation.
     colon Start (
     optional parseLabel (\<lambda>Name.
     skipColon (
     required Start (parseAction self) ''expected Action'' (\<lambda>Action.
     atEnd (\<lambda>End.
     success (ForSyntax Start End Variable Annotation (Some Operation) Name Action)))))))))))) lx"

lemma runs_parseFor [parse_ok]:
  "self_agree src False n self self' \<Longrightarrow>
     runs src fresh n (parseFor self) (parseFor self')"
  by (rule runs_any, unfold parseFor_def [abs_def]) (intro parse_ok; assumption)

definition parseCondition :: "recursive_calls \<Rightarrow> condition_syntax parser" where
  "parseCondition self lx =
     alternative (parseOperation self) Condition_Operation (
     alternative (parseLet self) Condition_Let (
     different)) lx"

lemma runs_parseCondition [parse_ok]:
  "self_agree src fresh n self self' \<Longrightarrow>
     runs src fresh n (parseCondition self) (parseCondition self')"
  by (erule self_lift, frule self_agree_False, unfold parseCondition_def [abs_def])
    (intro parse_ok; assumption)

definition parseWhile :: "recursive_calls \<Rightarrow> while_syntax parser" where
  "parseWhile self lx =
     atStart (\<lambda>Start.
     firstKeyword ''while'' (
     required Start (parseCondition self) ''expected Condition'' (\<lambda>Condition.
     colon Start (
     optional parseLabel (\<lambda>Name.
     skipColon (
     required Start (parseAction self) ''expected Action'' (\<lambda>Action.
     atEnd (\<lambda>End.
     success (WhileSyntax Start End Condition Name Action))))))))) lx"

lemma runs_parseWhile [parse_ok]:
  "self_agree src False n self self' \<Longrightarrow>
     runs src fresh n (parseWhile self) (parseWhile self')"
  by (rule runs_any, unfold parseWhile_def [abs_def]) (intro parse_ok; assumption)

definition parseWhen :: "recursive_calls \<Rightarrow> when_syntax parser" where
  "parseWhen self lx =
     atStart (\<lambda>Start.
     firstKeyword ''when'' (
     theName Start (\<lambda>Name.
     colon Start (
     required Start parseName ''expected Name'' (\<lambda>Variant.
     skipColon (
     required Start (parseStatement self) ''expected Statement'' (\<lambda>Statement.
     skipColon (
     atEnd (\<lambda>End.
     success (WhenSyntax Start End Name Variant Statement)))))))))) lx"

lemma runs_parseWhen [parse_ok]:
  "self_agree src False n self self' \<Longrightarrow>
     runs src fresh n (parseWhen self) (parseWhen self')"
  by (rule runs_any, unfold parseWhen_def [abs_def]) (intro parse_ok; assumption)

definition parseWhenList :: "recursive_calls \<Rightarrow> when_syntax list parser" where
  "parseWhenList self lx = listOf (parseWhen self) lx"

lemma runs_parseWhenList [parse_ok]:
  "self_agree src False n self self' \<Longrightarrow>
     runs src fresh n (parseWhenList self) (parseWhenList self')"
  by (rule runs_any, unfold parseWhenList_def [abs_def]) (intro parse_ok; assumption)

definition parseChoose :: "recursive_calls \<Rightarrow> choose_syntax parser" where
  "parseChoose self lx =
     atStart (\<lambda>Start.
     firstKeyword ''choose'' (
     required Start (parseOperandList self) ''expected Operand'' (\<lambda>Condition.
     colon Start (
     optionalList (parseWhenList self) (\<lambda>Cases.
     optional (parseElse self) (\<lambda>Alternative.
     atEnd (\<lambda>End.
     success (ChooseSyntax Start End (Some Condition) Cases Alternative)))))))) lx"

lemma runs_parseChoose [parse_ok]:
  "self_agree src False n self self' \<Longrightarrow>
     runs src fresh n (parseChoose self) (parseChoose self')"
  by (rule runs_any, unfold parseChoose_def [abs_def]) (intro parse_ok; assumption)

definition parseTry :: "recursive_calls \<Rightarrow> try_syntax parser" where
  "parseTry self lx =
     atStart (\<lambda>Start.
     firstKeyword ''try'' (
     optional parseLifetime (\<lambda>Lifetime.
     required Start (parseCondition self) ''expected Condition'' (\<lambda>Condition.
     colon Start (
     optionalList (parseWhenList self) (\<lambda>Cases.
     optional (parseElse self) (\<lambda>Dropper.
     atEnd (\<lambda>End.
     success (TrySyntax Start End Lifetime Condition Cases Dropper))))))))) lx"

lemma runs_parseTry [parse_ok]:
  "self_agree src False n self self' \<Longrightarrow>
     runs src fresh n (parseTry self) (parseTry self')"
  by (rule runs_any, unfold parseTry_def [abs_def]) (intro parse_ok; assumption)

definition parseRepeat :: "recursive_calls \<Rightarrow> repeat_syntax parser" where
  "parseRepeat self lx =
     atStart (\<lambda>Start.
     firstKeyword ''repeat'' (
     optional parseLabel (\<lambda>Name.
     skipColon (
     required Start (parseAction self) ''expected Action'' (\<lambda>Action.
     atEnd (\<lambda>End.
     success (RepeatSyntax Start End Name Action))))))) lx"

lemma runs_parseRepeat [parse_ok]:
  "self_agree src False n self self' \<Longrightarrow>
     runs src fresh n (parseRepeat self) (parseRepeat self')"
  by (rule runs_any, unfold parseRepeat_def [abs_def]) (intro parse_ok; assumption)

definition parseExpression_step :: "recursive_calls \<Rightarrow> expression_syntax parser" where
  "parseExpression_step self lx =
     alternative parseLiteral Expression_Literal (
     alternative parseName Expression_Name (
     alternative (parseObject self) Expression_Object (
     alternative (parseVector self) Expression_Vector (
     alternative (parseBlock self) Expression_Block (
     alternative (parseIf self) Expression_If (
     alternative (parseMatch self) Expression_Match (
     alternative (parseLambda self) Expression_Lambda (
     alternative (parseFor self) Expression_For (
     alternative (parseWhile self) Expression_While (
     alternative (parseChoose self) Expression_Choose (
     alternative (parseTry self) Expression_Try (
     alternative (parseRepeat self) Expression_Repeat (
     alternative parseSizeOf Expression_SizeOf (
     alternative parseAlignOf Expression_AlignOf (
     alternative parseIs Expression_Is (
     alternative parseAs Expression_As (
     alternative parseLifetime Expression_Lifetime (
     different)))))))))))))))))) lx"

lemma runs_parseExpression_step [parse_ok]:
  "self_agree src False n self self' \<Longrightarrow>
     runs src fresh n (parseExpression_step self) (parseExpression_step self')"
  by (rule runs_any, unfold parseExpression_step_def [abs_def]) (intro parse_ok; assumption)

section \<open>The recursion\<close>

text \<open>Expressions and models call each other through everything above. As for types, a level
  bounds the depth of the calls, and the methods themselves take the level the measure of the
  lexer gives.\<close>

fun parseExpression_level :: "nat \<Rightarrow> expression_syntax parser"
  and parseModel_level :: "nat \<Rightarrow> model_syntax parser" where
  "parseExpression_level 0 lx = outOfFuel lx"
| "parseExpression_level (Suc n) lx = parseExpression_step
     \<lparr>callExpression = parseExpression_level n, callModel = parseModel_level n\<rparr> lx"
| "parseModel_level 0 lx = outOfFuel lx"
| "parseModel_level (Suc n) lx = parseModel_step
     \<lparr>callExpression = parseExpression_level n, callModel = parseModel_level n\<rparr> lx"

definition parseExpression :: "expression_syntax parser" where
  "parseExpression lx = parseExpression_level (Suc (lexMeasure lx)) lx"

definition parseModel :: "model_syntax parser" where
  "parseModel lx = parseModel_level (Suc (lexMeasure lx)) lx"

text \<open>The methods of the class, once the recursion is tied.\<close>

definition this :: "recursive_calls" where
  "this = \<lparr>callExpression = parseExpression, callModel = parseModel\<rparr>"

definition recursion_step :: "recursive_calls \<Rightarrow> recursive_calls" where
  "recursion_step self =
     \<lparr>callExpression = parseExpression_step self, callModel = parseModel_step self\<rparr>"

definition recursion_level :: "nat \<Rightarrow> recursive_calls" where
  "recursion_level n =
     \<lparr>callExpression = parseExpression_level n, callModel = parseModel_level n\<rparr>"

interpretation expression_methods:
  recursive_methods recursion_level this recursion_step self_agree
proof unfold_locales
  show "recursion_level (Suc n) = recursion_step (recursion_level n)" for n
    by (simp add: recursion_level_def recursion_step_def fun_eq_iff)
  show "self_agree src True n (recursion_step e) (recursion_step e')"
    if "self_agree src False n e e'" for src n e e'
    using runs_parseExpression_step [OF that] runs_parseModel_step [OF that]
    by (simp add: self_agree_def recursion_step_def)
  show "self_agree src True n this e"
    if "\<And>m. m \<le> n \<Longrightarrow> self_agree src True m (recursion_level (Suc m)) e" for src n e
    using runs_tied [of n src parseExpression_level "callExpression e"]
      runs_tied [of n src parseModel_level "callModel e"] that
    unfolding self_agree_def this_def recursion_level_def parseExpression_def [abs_def]
      parseModel_def [abs_def] by simp
qed (auto simp: self_agree_def runs_0 runs_Suc intro: runs_mono runs_sym)

lemma self_agree_this: "self_agree src fresh n this this"
proof -
  have "self_agree src True n this (recursion_step this)"
    by (rule expression_methods.tied_methods)
  then show ?thesis
    unfolding self_agree_def by (auto intro: runs_any runs_left)
qed

lemma runs_this:
  "runs src fresh n parseExpression parseExpression" "runs src fresh n parseModel parseModel"
  using self_agree_this [of src fresh n] by (simp_all add: self_agree_def this_def)

lemmas [parse_ok] = self_agree_this runs_this

end
