(* ===== verification/Parser_Declarations.thy ===== *)
theory Parser_Declarations
  imports Parser_Expressions
begin

text \<open>
  The methods of retired/scalyc0/Parser.cpp for items, routines, definitions, members,
  declarations and the program. Their one cycle of calls goes through \<open>parseDefinition\<close>,
  which the methods on it take as the parameter \<open>D\<close>.
\<close>


definition parseItem :: "item_syntax parser" where
  "parseItem lx =
     atStart (\<lambda>Start.
     firstName (\<lambda>Name.
     optional parseTypeAnnotation (\<lambda>Annotation.
     skipSign CHR '','' (
     skipColon (
     optionalList (parseAttributeList this) (\<lambda>Attributes.
     atEnd (\<lambda>End.
     success (ItemSyntax Start End Name Annotation Attributes)))))))) lx"

lemma runs_parseItem [parse_ok]: "runs src fresh n parseItem parseItem"
  by (rule runs_any, unfold parseItem_def [abs_def]) (intro parse_ok)

definition parseItemList :: "item_syntax list parser" where
  "parseItemList lx = listOf parseItem lx"

lemma runs_parseItemList [parse_ok]: "runs src fresh n parseItemList parseItemList"
  unfolding parseItemList_def [abs_def] by (intro parse_ok)

definition parseParameters :: "parameters_syntax parser" where
  "parseParameters lx =
     atStart (\<lambda>Start.
     firstSign CHR ''('' (
     optionalList parseItemList (\<lambda>Items.
     sign Start CHR '')'' (
     atEnd (\<lambda>End.
     success (ParametersSyntax Start End Items)))))) lx"

lemma runs_parseParameters [parse_ok]: "runs src fresh n parseParameters parseParameters"
  by (rule runs_any, unfold parseParameters_def [abs_def]) (intro parse_ok)

definition parseParameterSet :: "parameter_set_syntax parser" where
  "parseParameterSet lx =
     alternative parseParameters ParameterSet_Parameters (
     alternative parseType ParameterSet_Type (
     different)) lx"

lemma runs_parseParameterSet [parse_ok]: "runs src fresh n parseParameterSet parseParameterSet"
  unfolding parseParameterSet_def [abs_def] by (intro parse_ok)

definition parseReturns :: "returns_syntax parser" where
  "parseReturns lx =
     atStart (\<lambda>Start.
     firstKeyword ''returns'' (
     required Start parseType ''expected Type'' (\<lambda>Type.
     optionalList (parseAttributeList this) (\<lambda>Attributes.
     atEnd (\<lambda>End.
     success (ReturnsSyntax Start End Type Attributes)))))) lx"

lemma runs_parseReturns [parse_ok]: "runs src fresh n parseReturns parseReturns"
  by (rule runs_any, unfold parseReturns_def [abs_def]) (intro parse_ok)

definition parseThrows :: "throws_syntax parser" where
  "parseThrows lx =
     atStart (\<lambda>Start.
     firstKeyword ''throws'' (
     required Start parseType ''expected Type'' (\<lambda>Type.
     optionalList (parseAttributeList this) (\<lambda>Attributes.
     atEnd (\<lambda>End.
     success (ThrowsSyntax Start End Type Attributes)))))) lx"

lemma runs_parseThrows [parse_ok]: "runs src fresh n parseThrows parseThrows"
  by (rule runs_any, unfold parseThrows_def [abs_def]) (intro parse_ok)

definition parseImplementation :: "implementation_syntax parser" where
  "parseImplementation lx =
     alternative (parseAction this) Implementation_Action (
     alternative parseExtern Implementation_Extern (
     alternative parseInstruction Implementation_Instruction (
     alternative parseIntrinsic Implementation_Intrinsic (
     different)))) lx"

lemma runs_parseImplementation [parse_ok]: "runs src fresh n parseImplementation parseImplementation"
  unfolding parseImplementation_def [abs_def] by (intro parse_ok)

definition parseRoutine :: "routine_syntax parser" where
  "parseRoutine lx =
     atStart (\<lambda>Start.
     optional (parseGenericArguments parseType) (\<lambda>Generics.
     optional parseLifetime (\<lambda>Lifetime.
     optional parseParameterSet (\<lambda>Parameters.
     optionalList (parseAttributeList this) (\<lambda>Attributes.
     optional parseReturns (\<lambda>Returns.
     skipColon (
     optional parseThrows (\<lambda>Throws.
     skipColon (
     required Start parseImplementation ''expected Implementation'' (\<lambda>Implementation.
     atEnd (\<lambda>End.
     success (RoutineSyntax Start End Generics Lifetime Parameters Attributes Returns Throws Implementation)))))))))))) lx"

lemma runs_parseRoutine [parse_ok]: "runs src fresh n parseRoutine parseRoutine"
  by (rule runs_any, unfold parseRoutine_def [abs_def]) (intro parse_ok)

definition parseNamed :: "named_syntax parser" where
  "parseNamed lx =
     atStart (\<lambda>Start.
     firstName (\<lambda>Name.
     required Start parseRoutine ''expected Routine'' (\<lambda>Routine.
     atEnd (\<lambda>End.
     success (NamedSyntax Start End Name Routine))))) lx"

lemma runs_parseNamed [parse_ok]: "runs src fresh n parseNamed parseNamed"
  by (rule runs_any, unfold parseNamed_def [abs_def]) (intro parse_ok)

definition parseTarget :: "target_syntax parser" where
  "parseTarget lx =
     alternative parseNamed Target_Named (
     alternative parseRoutine Target_Routine (
     different)) lx"

lemma runs_parseTarget [parse_ok]: "runs src fresh n parseTarget parseTarget"
  unfolding parseTarget_def [abs_def] by (intro parse_ok)

definition parseFunction :: "function_syntax parser" where
  "parseFunction lx =
     atStart (\<lambda>Start.
     firstKeyword ''function'' (
     required Start parseTarget ''expected Target'' (\<lambda>Target.
     atEnd (\<lambda>End.
     success (FunctionSyntax Start End Target))))) lx"

lemma runs_parseFunction [parse_ok]: "runs src fresh n parseFunction parseFunction"
  by (rule runs_any, unfold parseFunction_def [abs_def]) (intro parse_ok)

definition parseProcedure :: "procedure_syntax parser" where
  "parseProcedure lx =
     atStart (\<lambda>Start.
     firstKeyword ''procedure'' (
     required Start parseTarget ''expected Target'' (\<lambda>Target.
     atEnd (\<lambda>End.
     success (ProcedureSyntax Start End Target))))) lx"

lemma runs_parseProcedure [parse_ok]: "runs src fresh n parseProcedure parseProcedure"
  by (rule runs_any, unfold parseProcedure_def [abs_def]) (intro parse_ok)

definition parseOperator :: "operator_syntax parser" where
  "parseOperator lx =
     atStart (\<lambda>Start.
     firstKeyword ''operator'' (
     required Start parseTarget ''expected Target'' (\<lambda>Target.
     atEnd (\<lambda>End.
     success (OperatorSyntax Start End Target))))) lx"

lemma runs_parseOperator [parse_ok]: "runs src fresh n parseOperator parseOperator"
  by (rule runs_any, unfold parseOperator_def [abs_def]) (intro parse_ok)

definition parseMethod :: "method_syntax parser" where
  "parseMethod lx =
     alternative parseFunction Method_Function (
     alternative parseProcedure Method_Procedure (
     alternative parseOperator Method_Operator (
     different))) lx"

lemma runs_parseMethod [parse_ok]: "runs src fresh n parseMethod parseMethod"
  unfolding parseMethod_def [abs_def] by (intro parse_ok)

definition parseMethodList :: "method_syntax list parser" where
  "parseMethodList lx = listOf parseMethod lx"

lemma runs_parseMethodList [parse_ok]: "runs src fresh n parseMethodList parseMethodList"
  unfolding parseMethodList_def [abs_def] by (intro parse_ok)

definition parseTrait :: "trait_syntax parser" where
  "parseTrait lx =
     atStart (\<lambda>Start.
     firstKeyword ''trait'' (
     required Start parseName ''expected Name'' (\<lambda>Name.
     optional parseExtends (\<lambda>Extension.
     optionalList (parseAttributeList this) (\<lambda>Attributes.
     sign Start CHR ''{'' (
     optionalList parseUseList (\<lambda>Uses.
     optionalList parseMethodList (\<lambda>Functions.
     sign Start CHR ''}'' (
     atEnd (\<lambda>End.
     success (TraitSyntax Start End Name Extension Attributes Uses Functions))))))))))) lx"

lemma runs_parseTrait [parse_ok]: "runs src fresh n parseTrait parseTrait"
  by (rule runs_any, unfold parseTrait_def [abs_def]) (intro parse_ok)

definition parseExport :: "definition_syntax parser \<Rightarrow> export_syntax parser" where
  "parseExport D lx =
     alternative D Export_Definition (
     alternative parseFunction Export_Function (
     alternative parseProcedure Export_Procedure (
     alternative parseOperator Export_Operator (
     alternative parseTrait Export_Trait (
     alternative parseModule Export_Module (
     different)))))) lx"

lemma runs_parseExport [parse_ok]:
  "runs src fresh n D D' \<Longrightarrow> runs src fresh n (parseExport D) (parseExport D')"
  by (erule runs_lift, frule runs_False, unfold parseExport_def [abs_def])
    (intro parse_ok; assumption)

definition parsePrivate :: "definition_syntax parser \<Rightarrow> private_syntax parser" where
  "parsePrivate D lx =
     atStart (\<lambda>Start.
     firstKeyword ''private'' (
     required Start (parseExport D) ''expected Export'' (\<lambda>Export.
     atEnd (\<lambda>End.
     success (PrivateSyntax Start End Export))))) lx"

lemma runs_parsePrivate [parse_ok]:
  "runs src False n D D' \<Longrightarrow> runs src fresh n (parsePrivate D) (parsePrivate D')"
  by (rule runs_any, unfold parsePrivate_def [abs_def]) (intro parse_ok; assumption)

definition parseMacro :: "macro_syntax parser" where
  "parseMacro lx =
     atStart (\<lambda>Start.
     firstKeyword ''macro'' (
     theName Start (\<lambda>Name.
     required Start parseModel ''expected Model'' (\<lambda>Model.
     required Start (parseOperandList this) ''expected Operand'' (\<lambda>Rule.
     atEnd (\<lambda>End.
     success (MacroSyntax Start End Name Model (Some Rule)))))))) lx"

lemma runs_parseMacro [parse_ok]: "runs src fresh n parseMacro parseMacro"
  by (rule runs_any, unfold parseMacro_def [abs_def]) (intro parse_ok)

definition parseDeclaration :: "definition_syntax parser \<Rightarrow> declaration_syntax parser" where
  "parseDeclaration D lx =
     alternative parseEmpty Declaration_Empty (
     alternative parsePackage Declaration_Package (
     alternative parseUse Declaration_Use (
     alternative (parsePrivate D) Declaration_Private (
     alternative D Declaration_Definition (
     alternative parseFunction Declaration_Function (
     alternative parseProcedure Declaration_Procedure (
     alternative parseOperator Declaration_Operator (
     alternative parseTrait Declaration_Trait (
     alternative parseMacro Declaration_Macro (
     alternative parseModule Declaration_Module (
     alternative (parseMutable this) Declaration_Mutable (
     different)))))))))))) lx"

lemma runs_parseDeclaration [parse_ok]:
  "runs src fresh n D D' \<Longrightarrow>
     runs src fresh n (parseDeclaration D) (parseDeclaration D')"
  by (erule runs_lift, frule runs_False, unfold parseDeclaration_def [abs_def])
    (intro parse_ok; assumption)

definition parseDeclarationList :: "definition_syntax parser \<Rightarrow> declaration_syntax list parser" where
  "parseDeclarationList D lx = listOf (parseDeclaration D) lx"

lemma runs_parseDeclarationList [parse_ok]:
  "runs src fresh n D D' \<Longrightarrow>
     runs src fresh n (parseDeclarationList D) (parseDeclarationList D')"
  by (erule runs_lift, frule runs_False, unfold parseDeclarationList_def [abs_def])
    (intro parse_ok; assumption)

definition parseInit :: "init_syntax parser" where
  "parseInit lx =
     atStart (\<lambda>Start.
     firstKeyword ''init'' (
     optional parseLifetime (\<lambda>Lifetime.
     optional parseParameterSet (\<lambda>Parameters.
     skipColon (
     required Start (parseAction this) ''expected Action'' (\<lambda>Action.
     skipColon (
     atEnd (\<lambda>End.
     success (InitSyntax Start End Lifetime Parameters Action))))))))) lx"

lemma runs_parseInit [parse_ok]: "runs src fresh n parseInit parseInit"
  by (rule runs_any, unfold parseInit_def [abs_def]) (intro parse_ok)

definition parseDeInit :: "de_init_syntax parser" where
  "parseDeInit lx =
     atStart (\<lambda>Start.
     firstKeyword ''deinit'' (
     skipColon (
     required Start (parseAction this) ''expected Action'' (\<lambda>Action.
     skipColon (
     atEnd (\<lambda>End.
     success (DeInitSyntax Start End Action))))))) lx"

lemma runs_parseDeInit [parse_ok]: "runs src fresh n parseDeInit parseDeInit"
  by (rule runs_any, unfold parseDeInit_def [abs_def]) (intro parse_ok)

definition parseImplement :: "implement_syntax parser" where
  "parseImplement lx =
     atStart (\<lambda>Start.
     firstKeyword ''implement'' (
     required Start parseType ''expected Type'' (\<lambda>Type.
     optionalList (parseAttributeList this) (\<lambda>Attributes.
     skipColon (
     sign Start CHR ''{'' (
     optionalList parseUseList (\<lambda>Uses.
     optionalList parseMethodList (\<lambda>Methods.
     sign Start CHR ''}'' (
     atEnd (\<lambda>End.
     success (ImplementSyntax Start End Type Attributes Uses Methods))))))))))) lx"

lemma runs_parseImplement [parse_ok]: "runs src fresh n parseImplement parseImplement"
  by (rule runs_any, unfold parseImplement_def [abs_def]) (intro parse_ok)

definition parseMember :: "definition_syntax parser \<Rightarrow> member_syntax parser" where
  "parseMember D lx =
     alternative parseEmpty Member_Empty (
     alternative parseInit Member_Init (
     alternative parseDeInit Member_DeInit (
     alternative D Member_Definition (
     alternative parseFunction Member_Function (
     alternative parseProcedure Member_Procedure (
     alternative parseOperator Member_Operator (
     alternative parseImplement Member_Implement (
     alternative parseTrait Member_Trait (
     alternative parseMacro Member_Macro (
     alternative parseModule Member_Module (
     different))))))))))) lx"

lemma runs_parseMember [parse_ok]:
  "runs src fresh n D D' \<Longrightarrow> runs src fresh n (parseMember D) (parseMember D')"
  by (erule runs_lift, frule runs_False, unfold parseMember_def [abs_def])
    (intro parse_ok; assumption)

definition parseMemberList :: "definition_syntax parser \<Rightarrow> member_syntax list parser" where
  "parseMemberList D lx = listOf (parseMember D) lx"

lemma runs_parseMemberList [parse_ok]:
  "runs src fresh n D D' \<Longrightarrow>
     runs src fresh n (parseMemberList D) (parseMemberList D')"
  by (erule runs_lift, frule runs_False, unfold parseMemberList_def [abs_def])
    (intro parse_ok; assumption)

definition parseGenericParameter :: "generic_parameter_syntax parser" where
  "parseGenericParameter lx =
     atStart (\<lambda>Start.
     firstName (\<lambda>Name.
     optionalList (parseAttributeList this) (\<lambda>Attributes.
     skipSign CHR '','' (
     atEnd (\<lambda>End.
     success (GenericParameterSyntax Start End Name Attributes)))))) lx"

lemma runs_parseGenericParameter [parse_ok]: "runs src fresh n parseGenericParameter parseGenericParameter"
  by (rule runs_any, unfold parseGenericParameter_def [abs_def]) (intro parse_ok)

definition parseGenericParameterList :: "generic_parameter_syntax list parser" where
  "parseGenericParameterList lx = listOf parseGenericParameter lx"

lemma runs_parseGenericParameterList [parse_ok]: "runs src fresh n parseGenericParameterList parseGenericParameterList"
  unfolding parseGenericParameterList_def [abs_def] by (intro parse_ok)

definition parseGenericParameters :: "generic_parameters_syntax parser" where
  "parseGenericParameters lx =
     atStart (\<lambda>Start.
     firstSign CHR ''['' (
     required Start parseGenericParameterList ''expected GenericParameter'' (\<lambda>Parameters.
     sign Start CHR '']'' (
     atEnd (\<lambda>End.
     success (GenericParametersSyntax Start End (Some Parameters))))))) lx"

lemma runs_parseGenericParameters [parse_ok]: "runs src fresh n parseGenericParameters parseGenericParameters"
  by (rule runs_any, unfold parseGenericParameters_def [abs_def]) (intro parse_ok)

definition parseBody :: "definition_syntax parser \<Rightarrow> body_syntax parser" where
  "parseBody D lx =
     atStart (\<lambda>Start.
     firstSign CHR ''{'' (
     optionalList parseUseList (\<lambda>Uses.
     optionalList (parseMemberList D) (\<lambda>Members.
     sign Start CHR ''}'' (
     atEnd (\<lambda>End.
     success (BodySyntax Start End Uses Members))))))) lx"

lemma runs_parseBody [parse_ok]:
  "runs src False n D D' \<Longrightarrow> runs src fresh n (parseBody D) (parseBody D')"
  by (rule runs_any, unfold parseBody_def [abs_def]) (intro parse_ok; assumption)

definition parseClass :: "definition_syntax parser \<Rightarrow> class_syntax parser" where
  "parseClass D lx =
     atStart (\<lambda>Start.
     first (parseStructure this) (\<lambda>Structure.
     skipColon (
     optional (parseBody D) (\<lambda>Body.
     atEnd (\<lambda>End.
     success (ClassSyntax Start End Structure Body)))))) lx"

lemma runs_parseClass [parse_ok]:
  "runs src False n D D' \<Longrightarrow> runs src fresh n (parseClass D) (parseClass D')"
  by (rule runs_any, unfold parseClass_def [abs_def]) (intro parse_ok; assumption)

definition parseNamespace :: "definition_syntax parser \<Rightarrow> namespace_syntax parser" where
  "parseNamespace D lx =
     atStart (\<lambda>Start.
     firstSign CHR ''{'' (
     optionalList parseUseList (\<lambda>Uses.
     optionalList (parseDeclarationList D) (\<lambda>Declarations.
     sign Start CHR ''}'' (
     atEnd (\<lambda>End.
     success (NamespaceSyntax Start End Uses Declarations))))))) lx"

lemma runs_parseNamespace [parse_ok]:
  "runs src False n D D' \<Longrightarrow>
     runs src fresh n (parseNamespace D) (parseNamespace D')"
  by (rule runs_any, unfold parseNamespace_def [abs_def]) (intro parse_ok; assumption)

definition parseVariant :: "variant_syntax parser" where
  "parseVariant lx =
     atStart (\<lambda>Start.
     firstName (\<lambda>Name.
     optionalList (parseAttributeList this) (\<lambda>Attributes.
     optional parseTypeAnnotation (\<lambda>Annotation.
     skipSign CHR '','' (
     skipColon (
     atEnd (\<lambda>End.
     success (VariantSyntax Start End Name Attributes Annotation)))))))) lx"

lemma runs_parseVariant [parse_ok]: "runs src fresh n parseVariant parseVariant"
  by (rule runs_any, unfold parseVariant_def [abs_def]) (intro parse_ok)

definition parseVariantList :: "variant_syntax list parser" where
  "parseVariantList lx = listOf parseVariant lx"

lemma runs_parseVariantList [parse_ok]: "runs src fresh n parseVariantList parseVariantList"
  unfolding parseVariantList_def [abs_def] by (intro parse_ok)

definition parseUnion :: "definition_syntax parser \<Rightarrow> union_syntax parser" where
  "parseUnion D lx =
     atStart (\<lambda>Start.
     firstKeyword ''union'' (
     skipColon (
     sign Start CHR ''('' (
     required Start parseVariantList ''expected Variant'' (\<lambda>Variants.
     sign Start CHR '')'' (
     skipColon (
     optional (parseBody D) (\<lambda>Body.
     atEnd (\<lambda>End.
     success (UnionSyntax Start End (Some Variants) Body)))))))))) lx"

lemma runs_parseUnion [parse_ok]:
  "runs src False n D D' \<Longrightarrow> runs src fresh n (parseUnion D) (parseUnion D')"
  by (rule runs_any, unfold parseUnion_def [abs_def]) (intro parse_ok; assumption)

definition parseConstant :: "constant_syntax parser" where
  "parseConstant lx =
     atStart (\<lambda>Start.
     first parseType (\<lambda>Type.
     optionalList (parseOperandList this) (\<lambda>Operation.
     atEnd (\<lambda>End.
     success (ConstantSyntax Start End Type Operation))))) lx"

lemma runs_parseConstant [parse_ok]: "runs src fresh n parseConstant parseConstant"
  by (rule runs_any, unfold parseConstant_def [abs_def]) (intro parse_ok)

definition parseDelegate :: "delegate_syntax parser" where
  "parseDelegate lx =
     atStart (\<lambda>Start.
     firstKeyword ''delegate'' (
     optional parseParameterSet (\<lambda>Parameters.
     optionalList (parseAttributeList this) (\<lambda>Attributes.
     optional parseReturns (\<lambda>Result.
     optional parseThrows (\<lambda>Error.
     atEnd (\<lambda>End.
     success (DelegateSyntax Start End Parameters Attributes Result Error)))))))) lx"

lemma runs_parseDelegate [parse_ok]: "runs src fresh n parseDelegate parseDelegate"
  by (rule runs_any, unfold parseDelegate_def [abs_def]) (intro parse_ok)

definition parseConcept :: "definition_syntax parser \<Rightarrow> concept_syntax parser" where
  "parseConcept D lx =
     alternative (parseClass D) Concept_Class (
     alternative (parseNamespace D) Concept_Namespace (
     alternative (parseUnion D) Concept_Union (
     alternative parseConstant Concept_Constant (
     alternative parseDelegate Concept_Delegate (
     alternative parseIntrinsic Concept_Intrinsic (
     different)))))) lx"

lemma runs_parseConcept [parse_ok]:
  "runs src False n D D' \<Longrightarrow> runs src fresh n (parseConcept D) (parseConcept D')"
  by (rule runs_any, unfold parseConcept_def [abs_def]) (intro parse_ok; assumption)

definition parseDefinition_step :: "definition_syntax parser \<Rightarrow> definition_syntax parser" where
  "parseDefinition_step D lx =
     atStart (\<lambda>Start.
     firstKeyword ''define'' (
     theName Start (\<lambda>Name.
     optional parseGenericParameters (\<lambda>Parameters.
     skipColon (
     optionalList (parseAttributeList this) (\<lambda>Attributes.
     required Start (parseConcept D) ''expected Concept'' (\<lambda>Concept.
     atEnd (\<lambda>End.
     success (DefinitionSyntax Start End Name Parameters Attributes Concept))))))))) lx"

lemma runs_parseDefinition_step [parse_ok]:
  "runs src False n D D' \<Longrightarrow>
     runs src fresh n (parseDefinition_step D) (parseDefinition_step D')"
  by (rule runs_any, unfold parseDefinition_step_def [abs_def]) (intro parse_ok; assumption)

definition parseInitList :: "init_syntax list parser" where
  "parseInitList lx = listOf parseInit lx"

lemma runs_parseInitList [parse_ok]: "runs src fresh n parseInitList parseInitList"
  unfolding parseInitList_def [abs_def] by (intro parse_ok)

definition parseBindingSpecList :: "binding_spec_syntax list parser" where
  "parseBindingSpecList lx = listOf (parseBindingSpec this) lx"

lemma runs_parseBindingSpecList [parse_ok]: "runs src fresh n parseBindingSpecList parseBindingSpecList"
  unfolding parseBindingSpecList_def [abs_def] by (intro parse_ok)

definition parsePropertyList :: "property_syntax list parser" where
  "parsePropertyList lx = listOf (parseProperty this) lx"

lemma runs_parsePropertyList [parse_ok]: "runs src fresh n parsePropertyList parsePropertyList"
  unfolding parsePropertyList_def [abs_def] by (intro parse_ok)

definition parseActionList :: "action_syntax list parser" where
  "parseActionList lx = listOf (parseAction this) lx"

lemma runs_parseActionList [parse_ok]: "runs src fresh n parseActionList parseActionList"
  unfolding parseActionList_def [abs_def] by (intro parse_ok)

section \<open>The recursion\<close>

text \<open>A definition may hold definitions, inside the braces of its body.\<close>

fun parseDefinition_level :: "nat \<Rightarrow> definition_syntax parser" where
  "parseDefinition_level 0 lx = outOfFuel lx"
| "parseDefinition_level (Suc n) lx = parseDefinition_step (parseDefinition_level n) lx"

definition parseDefinition :: "definition_syntax parser" where
  "parseDefinition lx = parseDefinition_level (Suc (lexMeasure lx)) lx"

interpretation definition_methods:
  recursive_methods parseDefinition_level parseDefinition parseDefinition_step runs
proof unfold_locales
  show "parseDefinition_level (Suc n) = parseDefinition_step (parseDefinition_level n)" for n
    by (rule ext) simp
  show "runs src True n parseDefinition e"
    if "\<And>m. m \<le> n \<Longrightarrow> runs src True m (parseDefinition_level (Suc m)) e" for src n e
    using runs_tied [OF that] unfolding parseDefinition_def [abs_def] .
qed (rule runs_0 runs_Suc | erule (1) runs_mono | erule runs_sym runs_parseDefinition_step)+

lemma runs_parseDefinition [parse_ok]: "runs src fresh n parseDefinition parseDefinition"
  by (rule runs_any, rule runs_left, rule definition_methods.tied_methods)

definition parseFile :: "file_syntax parser" where
  "parseFile lx =
     atStart (\<lambda>Start.
     optionalList (parseDeclarationList parseDefinition) (\<lambda>Declarations.
     atEnd (\<lambda>End.
     success (FileSyntax Start End Declarations)))) lx"

definition parseProgram :: "program_syntax parser" where
  "parseProgram lx =
     atStart (\<lambda>Start.
     first parseFile (\<lambda>File.
     optionalList (parseStatementList this) (\<lambda>Statements.
     atEnd (\<lambda>End.
     success (ProgramSyntax Start End File Statements))))) lx"


text \<open>A file and a program may be empty, so they keep the contract without taking a token.\<close>

lemma parseFile_ok: "goes_on src False 0 n parseFile parseFile"
  unfolding parseFile_def [abs_def] by (rule goes_on_atStart) (intro parse_ok)

end
