(* ===== verification/Parser_Theorems.thy ===== *)
theory Parser_Theorems
  imports Parser_Declarations
begin

text \<open>
  The properties of the parser: it always comes to an end, its methods satisfy the equations of
  the code without a bound on their depth, the first token decides which method a statement
  or a declaration is parsed by, and a look ahead for \<open>else\<close> leaves no trace.
\<close>

section \<open>Every text is parsed\<close>

lemma newLexer_within: "within False (Suc (lexMeasure (newLexer src))) (newLexer src)"
  by (simp add: within_def)

lemma parseFile_outcome:
  assumes "lexer_ok src lx"
  shows "step_ok src False lx (parseFile lx)" "fst (parseFile lx) \<noteq> Inl DifferentSyntax"
proof -
  have "within False (Suc (lexMeasure lx)) lx" by (simp add: within_def)
  with goes_onD(2) [OF parseFile_ok assms] show "step_ok src False lx (parseFile lx)" by simp
  show "fst (parseFile lx) \<noteq> Inl DifferentSyntax"
    by (simp add: parseFile_def atStart_def optionalList_def atEnd_def success_def
        split: prod.split sum.split parser_error.split)
qed

lemma parseStatements_outcome:
  assumes "lexer_ok src lx"
  shows "step_ok src True lx (parseStatementList this lx)"
proof -
  have "runs src True (lexMeasure lx) (parseStatementList this) (parseStatementList this)"
    by (intro parse_ok)
  from runsD(2) [OF this assms] show ?thesis by (simp add: within_def)
qed

lemma parseProgram_outcome:
  assumes "lexer_ok src lx"
  shows "step_ok src False lx (parseProgram lx)" "fst (parseProgram lx) \<noteq> Inl DifferentSyntax"
proof -
  obtain r lx1 where r: "parseFile lx = (r, lx1)" by fastforce
  note F = parseFile_outcome [OF assms, unfolded r]
  obtain r2 lx2 where r2: "parseStatementList this lx1 = (r2, lx2)" by fastforce
  have lx1: "lexer_ok src lx1" "Position lx \<le> Position lx1" "lexMeasure lx1 \<le> lexMeasure lx"
    using F(1) by (auto simp: step_ok_def)
  note S = parseStatements_outcome [OF lx1(1), unfolded r2]
  have "step_ok src False lx (parseProgram lx) \<and> fst (parseProgram lx) \<noteq> Inl DifferentSyntax"
  proof (cases r)
    case (Inl e)
    with F r show ?thesis by (simp add: parseProgram_def atStart_def first_def step_ok_def)
  next
    case (Inr f)
    with r r2 lx1 S show ?thesis
      by (auto simp: parseProgram_def atStart_def first_def optionalList_def atEnd_def success_def
          step_ok_def split: sum.splits parser_error.splits)
  qed
  then show "step_ok src False lx (parseProgram lx)" "fst (parseProgram lx) \<noteq> Inl DifferentSyntax"
    by blast+
qed

text \<open>C1. The parser is total: on every source text \<open>parseProgram\<close> either returns a program or
  reports an invalid syntax at a place of the source; the bound on the depth of its
  recursion is never met, \<open>different\<close> never escapes, and it leaves a lexer that is still in
  step with the source.\<close>

theorem parseProgram_total:
  "case parseProgram (newLexer src) of
     (Inr program, lx) \<Rightarrow> lexer_ok src lx
   | (Inl (InvalidSyntax Start End Message), lx) \<Rightarrow>
       lexer_ok src lx \<and> Start \<le> End \<and> End \<le> length src
   | (Inl DifferentSyntax, lx) \<Rightarrow> False
   | (Inl OutOfFuel, lx) \<Rightarrow> False"
  using parseProgram_outcome [OF lexer_ok_newLexer [of src]]
  by (auto simp: step_ok_def split: sum.splits parser_error.splits)

text \<open>The recursive methods satisfy the equations of the code: a call of \<open>parseType\<close>,
  \<open>parseExpression\<close>, \<open>parseModel\<close> or \<open>parseDefinition\<close> is its body with the methods
  themselves for the calls it makes, with no bound on the depth.\<close>

theorem parser_recursion:
  assumes "lexer_ok src lx"
  shows "parseType lx = parseType_step parseType lx \<and>
    parseExpression lx = parseExpression_step this lx \<and>
    parseModel lx = parseModel_step this lx \<and>
    parseDefinition lx = parseDefinition_step parseDefinition lx"
proof -
  have w: "within True (lexMeasure lx) lx" by (simp add: within_def)
  have "runs src True (lexMeasure lx) parseExpression (parseExpression_step this)"
    "runs src True (lexMeasure lx) parseModel (parseModel_step this)"
    using expression_methods.tied_methods [of src "lexMeasure lx"]
    by (simp_all add: self_agree_def recursion_step_def, simp_all add: this_def)
  then have "parseExpression lx = parseExpression_step this lx"
    "parseModel lx = parseModel_step this lx"
    using assms w by (blast dest: runsD(1))+
  then show ?thesis
    using runsD(1) [OF type_methods.tied_methods assms w]
      runsD(1) [OF definition_methods.tied_methods assms w] by blast
qed

theorem parser_recursion_witness:
  "parseType (newLexer ''a[b]'') = parseType_step parseType (newLexer ''a[b]'')"
  using parser_recursion [OF lexer_ok_newLexer] by blast

section \<open>The first token decides\<close>

text \<open>A method rejects a token when it answers \<open>different\<close> having looked at it, and passes
  it when it does so once the token has been looked at.\<close>

definition rejects :: "token \<Rightarrow> 'a parser \<Rightarrow> bool" where
  "rejects t p \<longleftrightarrow> (\<forall>lx. Token (peek lx) = t \<longrightarrow> p lx = (Inl DifferentSyntax, peek lx))"

definition passes :: "token \<Rightarrow> 'a parser \<Rightarrow> bool" where
  "passes t p \<longleftrightarrow> (\<forall>lx. Token lx = t \<and> peek lx = lx \<longrightarrow> p lx = (Inl DifferentSyntax, lx))"

named_theorems rejecting "methods that reject a token"

lemma rejects_atStart [rejecting]: "(\<And>Start. rejects t (k Start)) \<Longrightarrow> rejects t (atStart k)"
  by (simp add: rejects_def atStart_def)

lemma rejects_firstKeyword [rejecting]: "t \<noteq> IdentifierToken w \<Longrightarrow> rejects t (firstKeyword w k)"
  by (simp add: rejects_def firstKeyword_def consume_def parseKeyword_cases different_def)

lemma rejects_firstSign [rejecting]: "t \<noteq> PunctuationToken C \<Longrightarrow> rejects t (firstSign C k)"
  by (simp add: rejects_def firstSign_def consume_def parsePunctuation_cases different_def)

lemma rejects_firstColon [rejecting]: "t \<noteq> ColonToken \<Longrightarrow> rejects t (firstColon k)"
  by (simp add: rejects_def firstColon_def consume_def parseColon_cases different_def)

lemma rejects_firstName [rejecting]:
  "(\<And>Name. t = IdentifierToken Name \<Longrightarrow> \<not> proper_name Name) \<Longrightarrow> rejects t (firstName k)"
  by (auto simp: rejects_def firstName_def consume_def takeIdentifier_cases different_def
      proper_name_def split: token.splits)

lemma rejects_first [rejecting]: "rejects t p \<Longrightarrow> rejects t (first p k)"
  by (simp add: rejects_def first_def)

lemma rejects_listOf [rejecting]: "rejects t p \<Longrightarrow> rejects t (listOf p)"
  by (simp add: rejects_def listOf_def different_def)

lemma rejects_parseLiteralToken [rejecting]:
  "(\<And>l. t \<noteq> LiteralToken l) \<Longrightarrow> rejects t parseLiteralToken"
  by (auto simp: rejects_def parseLiteralToken_def Let_def different_def split: token.splits)

lemma passes_different [rejecting]: "passes t different"
  by (simp add: passes_def different_def)

lemma rejects_alternative [rejecting]:
  "rejects t p \<Longrightarrow> passes t q \<Longrightarrow> rejects t (alternative p C q)"
  by (simp add: rejects_def passes_def alternative_def)

lemma passes_alternative [rejecting]:
  "rejects t p \<Longrightarrow> passes t q \<Longrightarrow> passes t (alternative p C q)"
  by (simp add: rejects_def passes_def alternative_def)

text \<open>A method is decided when it does not answer \<open>different\<close>.\<close>

definition decided :: "'a parser \<Rightarrow> bool" where
  "decided p \<longleftrightarrow> (\<forall>lx. fst (p lx) \<noteq> Inl DifferentSyntax)"

named_theorems deciding "what follows the first token of a method"

lemma decided_results [deciding]: "decided (success a)" "decided (invalid Start m)"
  by (simp_all add: decided_def success_def invalid_def)

lemma decided_atEnd [deciding]: "(\<And>End. decided (k End)) \<Longrightarrow> decided (atEnd k)"
  by (simp add: decided_def atEnd_def)

lemma decided_consume:
  "(\<And>r. decided (k r)) \<Longrightarrow> (\<And>r. decided (fail r)) \<Longrightarrow> decided (consume ask hit k fail)"
  by (simp add: decided_def consume_def split: prod.split)

lemma decided_tokens [deciding]:
  "decided k \<Longrightarrow> decided (skipColon k)" "decided k \<Longrightarrow> decided (skipSign C k)"
  "decided k \<Longrightarrow> decided (colon Start k)" "decided k \<Longrightarrow> decided (sign Start C k)"
  "decided k \<Longrightarrow> decided (theKeyword Start w k)"
  "(\<And>Name. decided (k' Name)) \<Longrightarrow> decided (theName Start k')"
  unfolding skipColon_def skipSign_def colon_def sign_def theKeyword_def theName_def
  by (intro decided_consume deciding; assumption)+

lemma decided_required [deciding]: "(\<And>a. decided (k a)) \<Longrightarrow> decided (required Start p m k)"
  by (simp add: decided_def required_def invalid_def split: prod.split sum.split parser_error.split)

lemma decided_optional [deciding]:
  "(\<And>a. decided (k a)) \<Longrightarrow> decided (optional p k)"
  "(\<And>a. decided (k' a)) \<Longrightarrow> decided (optionalList q k')"
  by (simp_all add: decided_def optional_def optionalList_def
      split: prod.split sum.split parser_error.split)

text \<open>\<open>led_by w p\<close>: the method begins with the word \<open>w\<close> and is decided after it.\<close>

definition led_by :: "string \<Rightarrow> 'a parser \<Rightarrow> bool" where
  "led_by w p \<longleftrightarrow>
     (\<forall>lx. Token (peek lx) = IdentifierToken w \<longrightarrow> fst (p lx) \<noteq> Inl DifferentSyntax)"

lemma led_by_keyword [deciding]:
  "(\<And>Start. decided (k Start)) \<Longrightarrow> led_by w (atStart (\<lambda>Start. firstKeyword w (k Start)))"
  by (simp add: led_by_def decided_def atStart_def firstKeyword_def consume_def parseKeyword_cases)

text \<open>The statement, by its first token.\<close>

definition as_alternative :: "('b \<Rightarrow> 'a) \<Rightarrow> 'b result \<Rightarrow> 'a result" where
  "as_alternative variant r = (map_sum id variant (fst r), snd r)"

lemma alternative_decided:
  "led_by w p \<Longrightarrow> Token (peek lx) = IdentifierToken w \<Longrightarrow>
     alternative p C q lx = as_alternative C (p lx)"
  by (auto simp: led_by_def alternative_def as_alternative_def split: prod.split sum.split
      parser_error.split)

lemma alternative_rejected:
  "rejects t p \<Longrightarrow> Token (peek lx) = t \<Longrightarrow> alternative p C q lx = q (peek lx)"
  by (simp add: rejects_def alternative_def)

definition leading_words :: "string list" where
  "leading_words = [''let'', ''var'', ''mutable'', ''set'', ''continue'', ''break'', ''return'', ''throw'']"

lemma not_proper: "w \<in> set leading_words \<Longrightarrow> \<not> proper_name w"
  by (auto simp: leading_words_def proper_name_def Keywords_def)

lemmas expression_methods_defs = parseLiteral_def [abs_def] parseName_def [abs_def]
  parseObject_def [abs_def] parseVector_def [abs_def] parseBlock_def [abs_def] parseIf_def [abs_def]
  parseMatch_def [abs_def] parseLambda_def [abs_def] parseFor_def [abs_def] parseWhile_def [abs_def]
  parseChoose_def [abs_def] parseTry_def [abs_def] parseRepeat_def [abs_def]
  parseSizeOf_def [abs_def] parseAlignOf_def [abs_def] parseIs_def [abs_def] parseAs_def [abs_def]
  parseLifetime_def [abs_def] parseCall_def [abs_def] parseReference_def [abs_def]
  parseThrown_def [abs_def]

lemma rejects_parseExpression_step:
  assumes "w \<in> set leading_words"
  shows "rejects (IdentifierToken w) (parseExpression_step self)"
  unfolding parseExpression_step_def [abs_def] expression_methods_defs
  by (intro rejecting) (use assms not_proper [OF assms] in \<open>auto simp: leading_words_def\<close>)

lemma rejects_parseOperation:
  assumes "w \<in> set leading_words"
  shows "rejects (IdentifierToken w) (parseOperation this)"
proof -
  have "rejects (IdentifierToken w) parseExpression"
    using rejects_parseExpression_step [OF assms] by (simp add: rejects_def parseExpression_def)
  then have "rejects (IdentifierToken w) (callExpression this)" by (simp add: this_def)
  then show ?thesis
    unfolding parseOperation_def [abs_def] parseOperandList_def [abs_def] parseOperand_def [abs_def]
    by (intro rejecting)
qed

lemma led_by_methods:
  "led_by ''let'' (parseLet self)" "led_by ''var'' (parseVar self)"
  "led_by ''mutable'' (parseMutable self)" "led_by ''set'' (parseSet self)"
  "led_by ''continue'' parseContinue" "led_by ''break'' (parseBreak self)"
  "led_by ''return'' (parseReturn self)" "led_by ''throw'' (parseThrow self)"
  unfolding parseLet_def [abs_def] parseVar_def [abs_def] parseMutable_def [abs_def]
    parseSet_def [abs_def] parseContinue_def [abs_def] parseBreak_def [abs_def]
    parseReturn_def [abs_def] parseThrow_def [abs_def]
  by (intro deciding)+

lemma rejects_statements:
  "t \<noteq> IdentifierToken ''let'' \<Longrightarrow> rejects t (parseLet self)"
  "t \<noteq> IdentifierToken ''var'' \<Longrightarrow> rejects t (parseVar self)"
  "t \<noteq> IdentifierToken ''mutable'' \<Longrightarrow> rejects t (parseMutable self)"
  "t \<noteq> IdentifierToken ''set'' \<Longrightarrow> rejects t (parseSet self)"
  "t \<noteq> IdentifierToken ''continue'' \<Longrightarrow> rejects t parseContinue"
  "t \<noteq> IdentifierToken ''break'' \<Longrightarrow> rejects t (parseBreak self)"
  "t \<noteq> IdentifierToken ''return'' \<Longrightarrow> rejects t (parseReturn self)"
  "t \<noteq> IdentifierToken ''throw'' \<Longrightarrow> rejects t (parseThrow self)"
  "t \<noteq> ColonToken \<Longrightarrow> rejects t parseEmpty"
  unfolding parseLet_def [abs_def] parseVar_def [abs_def] parseMutable_def [abs_def]
    parseSet_def [abs_def] parseContinue_def [abs_def] parseBreak_def [abs_def]
    parseReturn_def [abs_def] parseThrow_def [abs_def] parseEmpty_def [abs_def]
  by (intro rejecting; assumption)+

lemma skip_statement:
  "Token (peek lx) = IdentifierToken w \<Longrightarrow> w \<noteq> ''let'' \<Longrightarrow>
     alternative (parseLet self) C1 q1 lx = q1 (peek lx)"
  "Token (peek lx) = IdentifierToken w \<Longrightarrow> w \<noteq> ''var'' \<Longrightarrow>
     alternative (parseVar self) C2 q2 lx = q2 (peek lx)"
  "Token (peek lx) = IdentifierToken w \<Longrightarrow> w \<noteq> ''mutable'' \<Longrightarrow>
     alternative (parseMutable self) C3 q3 lx = q3 (peek lx)"
  "Token (peek lx) = IdentifierToken w \<Longrightarrow> w \<noteq> ''set'' \<Longrightarrow>
     alternative (parseSet self) C4 q4 lx = q4 (peek lx)"
  "Token (peek lx) = IdentifierToken w \<Longrightarrow> w \<noteq> ''continue'' \<Longrightarrow>
     alternative parseContinue C5 q5 lx = q5 (peek lx)"
  "Token (peek lx) = IdentifierToken w \<Longrightarrow> w \<noteq> ''break'' \<Longrightarrow>
     alternative (parseBreak self) C6 q6 lx = q6 (peek lx)"
  "Token (peek lx) = IdentifierToken w \<Longrightarrow> w \<noteq> ''return'' \<Longrightarrow>
     alternative (parseReturn self) C7 q7 lx = q7 (peek lx)"
  "Token (peek lx) = IdentifierToken w \<Longrightarrow> w \<noteq> ''throw'' \<Longrightarrow>
     alternative (parseThrow self) C8 q8 lx = q8 (peek lx)"
  by (erule alternative_rejected [rotated], rule rejects_statements, simp)+

lemma take_statement:
  "Token (peek lx) = IdentifierToken ''let'' \<Longrightarrow>
     alternative (parseLet self) C1 q1 lx = as_alternative C1 (parseLet self lx)"
  "Token (peek lx) = IdentifierToken ''var'' \<Longrightarrow>
     alternative (parseVar self) C2 q2 lx = as_alternative C2 (parseVar self lx)"
  "Token (peek lx) = IdentifierToken ''mutable'' \<Longrightarrow>
     alternative (parseMutable self) C3 q3 lx = as_alternative C3 (parseMutable self lx)"
  "Token (peek lx) = IdentifierToken ''set'' \<Longrightarrow>
     alternative (parseSet self) C4 q4 lx = as_alternative C4 (parseSet self lx)"
  "Token (peek lx) = IdentifierToken ''continue'' \<Longrightarrow>
     alternative parseContinue C5 q5 lx = as_alternative C5 (parseContinue lx)"
  "Token (peek lx) = IdentifierToken ''break'' \<Longrightarrow>
     alternative (parseBreak self) C6 q6 lx = as_alternative C6 (parseBreak self lx)"
  "Token (peek lx) = IdentifierToken ''return'' \<Longrightarrow>
     alternative (parseReturn self) C7 q7 lx = as_alternative C7 (parseReturn self lx)"
  "Token (peek lx) = IdentifierToken ''throw'' \<Longrightarrow>
     alternative (parseThrow self) C8 q8 lx = as_alternative C8 (parseThrow self lx)"
  by (rule alternative_decided, rule led_by_methods, assumption)+

text \<open>C2. The first word of a statement decides: behind \<open>let\<close>, \<open>var\<close>, \<open>mutable\<close>, \<open>set\<close>,
  \<open>continue\<close>, \<open>break\<close>, \<open>return\<close> or \<open>throw\<close> the statement is what the one method for that word
  makes of the text, its node or its error, and no other alternative is tried.\<close>

theorem statement_dispatch:
  assumes "Token (peek lx) = IdentifierToken w"
  shows
    "(w = ''let'' \<longrightarrow> parseStatement this lx = as_alternative Statement_Let (parseLet this (peek lx))) \<and>
     (w = ''var'' \<longrightarrow> parseStatement this lx = as_alternative Statement_Var (parseVar this (peek lx))) \<and>
     (w = ''mutable'' \<longrightarrow>
       parseStatement this lx = as_alternative Statement_Mutable (parseMutable this (peek lx))) \<and>
     (w = ''set'' \<longrightarrow> parseStatement this lx = as_alternative Statement_Set (parseSet this (peek lx))) \<and>
     (w = ''continue'' \<longrightarrow>
       parseStatement this lx = as_alternative Statement_Continue (parseContinue (peek lx))) \<and>
     (w = ''break'' \<longrightarrow>
       parseStatement this lx = as_alternative Statement_Break (parseBreak this (peek lx))) \<and>
     (w = ''return'' \<longrightarrow>
       parseStatement this lx = as_alternative Statement_Return (parseReturn this (peek lx))) \<and>
     (w = ''throw'' \<longrightarrow>
       parseStatement this lx = as_alternative Statement_Throw (parseThrow this (peek lx)))"
proof -
  have t: "Token (peek (peek lx)) = IdentifierToken w" using assms by simp
  have dispatch: "w \<in> set leading_words \<Longrightarrow> parseStatement this lx =
      (alternative (parseLet this) Statement_Let (
       alternative (parseVar this) Statement_Var (
       alternative (parseMutable this) Statement_Mutable (
       alternative (parseSet this) Statement_Set (
       alternative parseContinue Statement_Continue (
       alternative (parseBreak this) Statement_Break (
       alternative (parseReturn this) Statement_Return (
       alternative (parseThrow this) Statement_Throw (
       different))))))))) (peek lx)"
    by (simp add: parseStatement_def alternative_rejected [OF rejects_statements(9) assms]
        alternative_rejected [OF rejects_parseOperation t])
  show ?thesis
    by (intro conjI impI; simp add: dispatch leading_words_def assms skip_statement take_statement)
qed

theorem statement_dispatch_witness:
  "parseStatement this (newLexer ''return 1'') =
     as_alternative Statement_Return (parseReturn this (peek (newLexer ''return 1'')))"
proof -
  have "Token (peek (newLexer ''return 1'')) = IdentifierToken ''return''" by code_simp
  from statement_dispatch [OF this] show ?thesis by simp
qed

section \<open>Looking for else\<close>

definition else_part :: "recursive_calls \<Rightarrow> nat \<Rightarrow> else_syntax parser" where
  "else_part self Start = skipColon (required Start (parseStatement self) ''expected Statement''
     (\<lambda>Alternative. atEnd (\<lambda>End. success (ElseSyntax Start End Alternative))))"

lemma parseElse_eq:
  "parseElse self lx =
     (let r = parseKeyword ''else'' (snd (parseColon lx)) in
      if fst r then else_part self (PreviousPosition lx) (snd r) else differentAt lx (snd r))"
  unfolding parseElse_def else_part_def [symmetric] atStart_def saving_def
  by (subst skipColon_def) (simp add: orElse_def consume_def case_prod_beta Let_def)

lemma decided_else: "decided (else_part self (PreviousPosition lx))"
  unfolding else_part_def by (intro deciding)

text \<open>A look ahead for \<open>else\<close> leaves no trace: \<open>parseElse\<close> may have to read over a line feed
  to find the word; when it is not there the method answers \<open>different\<close> and the lexer is,
  field by field, what it was, so that the line feed still ends the statement.\<close>

theorem parseElse_backtracks:
  assumes "lexer_ok src lx" "fst (parseElse this lx) = Inl DifferentSyntax"
  shows "snd (parseElse this lx) = lx"
proof (cases "fst (parseKeyword ''else'' (snd (parseColon lx)))")
  case True
  with assms(2) decided_else [of this lx] show ?thesis by (simp add: parseElse_eq decided_def)
next
  case False
  have "lexer_ok src (snd (parseKeyword ''else'' (snd (parseColon lx))))"
    using keyword_source.ask_ok [OF colon_source.ask_ok [OF assms(1)]] .
  with False show ?thesis
    using lexer_ok_restore [OF _ assms(1)] by (simp add: parseElse_eq differentAt_def different_def)
qed

theorem parseElse_backtracks_witness:
  "snd (parseElse this (newLexer ''\<newline> b'')) = newLexer ''\<newline> b''"
  by (rule parseElse_backtracks [OF lexer_ok_newLexer]) code_simp

end
