(* ===== verification/Model.thy ===== *)
theory Model
  imports Prelude "HOL-Library.Word"
begin

text \<open>
  The semantic model the compiler makes of the syntax: retired/scalyc0/Model.h. Every struct is a datatype whose arguments
  are the fields in order, every \<open>std::variant\<close> a datatype with a constructor for each
  alternative, a shared pointer that may be null an \<open>option\<close>. The structs that contain operands
  or attributes take them as the type parameters \<open>'op\<close> and \<open>'at\<close> and are named \<open>..._m\<close>; \<open>operand\<close>
  with \<open>attribute\<close> closes the cycle.

  An integer constant is an \<open>int64_t\<close>, a hexadecimal one a \<open>uint64_t\<close>: both are words of 64
  bits. A floating point constant holds a double, of which the model knows the 64 bits that
  \<open>strtod\<close> returned. The structs \<open>If\<close> and \<open>Union\<close> have the names of HOL constants.
\<close>

datatype span = Span nat nat

datatype constant_m =
    BooleanConstant span bool
  | IntegerConstant span "64 word"
  | HexConstant span "64 word"
  | FloatingPointConstant span "64 word"
  | StringConstant span string
  | CharacterConstant span string
  | FragmentConstant span string
  | NullConstant span

datatype lifetime =
    UnspecifiedLifetime
  | CallLifetime span
  | LocalLifetime span
  | ReferenceLifetime span string
  | ThrownLifetime span

datatype type_ref = Type span "string list" "type_ref list option" lifetime

text \<open>Attributes and items.\<close>

datatype ('op, 'at) component_m = Component span "string option" "'op list" "'at list"

datatype ('op, 'at) tuple_m = Tuple span "('op, 'at) component_m list"

datatype 'op matrix_m = Matrix span "'op list list" lifetime

datatype ('op, 'at) model_m =
    Model_Constant constant_m
  | Model_Variable string
  | Model_Tuple "('op, 'at) tuple_m"
  | Model_Matrix "'op matrix_m"

datatype 'at item_m = Item span bool "string option" "type_ref option" "'at list"

text \<open>Statements. The body of a control structure is a statement of its own.\<close>

datatype 'op action_m = Action "'op list" "'op list"

datatype ('op, 'at) binding_m = Binding span string "'at item_m" "'op list"

datatype 'op break_m = Break span "'op list"

datatype continue_m = Continue span

datatype 'op return_m = Return span "'op list"

datatype 'op throw_m = Throw span "'op list"

datatype ('op, 'at) statement_m =
    Stmt_Action "'op action_m"
  | Stmt_Binding "('op, 'at) binding_m"
  | Stmt_Break "'op break_m"
  | Stmt_Continue continue_m
  | Stmt_Return "'op return_m"
  | Stmt_Throw "'op throw_m"

datatype ('op, 'at) block_m = Block span "('op, 'at) statement_m list"

datatype ('op, 'at) property_m =
  Property span bool string type_ref "'op list option" "'at list"

text \<open>Control structures.\<close>

datatype ('op, 'at) if_m = IfExpr span "'op list" "('op, 'at) property_m option"
    "('op, 'at) statement_m" "('op, 'at) statement_m option"

datatype 'op case_m = Case span "'op list"

datatype ('op, 'at) branch_m = Branch span "'op case_m list" "('op, 'at) statement_m"

datatype ('op, 'at) match_m = Match span "'op list" "('op, 'at) branch_m list"
    "('op, 'at) statement_m option"

datatype ('op, 'at) when_m = When span string "string list" "('op, 'at) statement_m"

datatype ('op, 'at) choose_m = Choose span "'op list" "('op, 'at) when_m list"
    "('op, 'at) statement_m option"

datatype 'op for_m = For span string "'op list" "'op action_m"

datatype ('op, 'at) while_m = While span "('op, 'at) binding_m" "'op action_m"

datatype ('op, 'at) try_m = Try span lifetime "('op, 'at) binding_m" "('op, 'at) when_m list"
    "('op, 'at) statement_m option"

datatype size_of_m = SizeOf span type_ref

datatype align_of_m = AlignOf span type_ref

datatype is_m = Is span "string list"

datatype as_m = As span type_ref

datatype ('op, 'at) new_m = New span type_ref "('op, 'at) tuple_m"

datatype ('op, 'at) expression_m =
    Expr_Constant constant_m
  | Expr_Type type_ref
  | Expr_Tuple "('op, 'at) tuple_m"
  | Expr_Matrix "'op matrix_m"
  | Expr_Block "('op, 'at) block_m"
  | Expr_If "('op, 'at) if_m"
  | Expr_Match "('op, 'at) match_m"
  | Expr_Choose "('op, 'at) choose_m"
  | Expr_For "'op for_m"
  | Expr_While "('op, 'at) while_m"
  | Expr_Try "('op, 'at) try_m"
  | Expr_SizeOf size_of_m
  | Expr_AlignOf align_of_m
  | Expr_Is is_m
  | Expr_As as_m
  | Expr_New "('op, 'at) new_m"

datatype operand =
    Operand span "(operand, attribute) expression_m" "type_ref list option"
and attribute =
    Attribute span string "(operand, attribute) model_m"

type_synonym component = "(operand, attribute) component_m"
type_synonym tuple = "(operand, attribute) tuple_m"
type_synonym matrix = "operand matrix_m"
type_synonym model = "(operand, attribute) model_m"
type_synonym item = "attribute item_m"
type_synonym action = "operand action_m"
type_synonym binding = "(operand, attribute) binding_m"
type_synonym statement = "(operand, attribute) statement_m"
type_synonym block = "(operand, attribute) block_m"
type_synonym property = "(operand, attribute) property_m"
type_synonym expression = "(operand, attribute) expression_m"

text \<open>Routines.\<close>

datatype implementation =
    Impl_Action action
  | Impl_Extern span
  | Impl_Instruction span
  | Impl_Intrinsic span

datatype generic_parameter = GenericParameter span string "attribute list"

record function_m =
  fn_Loc :: span
  fn_Private :: bool
  fn_Pure :: bool
  fn_Name :: string
  fn_Parameters :: "generic_parameter list"
  fn_PageParameter :: "string option"
  fn_Input :: "item list"
  fn_Returns :: "type_ref option"
  fn_Throws :: "type_ref option"
  fn_Life :: lifetime
  fn_Impl :: implementation

record initializer_m =
  init_Loc :: span
  init_Private :: bool
  init_PageParameter :: "string option"
  init_Input :: "item list"
  init_Impl :: implementation

datatype deinitializer = DeInitializer span implementation

record operator_m =
  op_Loc :: span
  op_Private :: bool
  op_Name :: string
  op_Parameters :: "generic_parameter list"
  op_Input :: "item list"
  op_Returns :: "type_ref option"
  op_Throws :: "type_ref option"
  op_Impl :: implementation

datatype use_m = Use span "string list"

text \<open>Definitions, modules and programs. A structure contains modules and concepts, a module
  contains modules and members, a concept is a definition: \<open>'mo\<close> and \<open>'co\<close> stand for modules and
  concepts until both are closed.\<close>

record version =
  Major :: "32 word"
  Minor :: "32 word"
  Patch :: "32 word"

definition version_toString :: "version \<Rightarrow> string" where
  "version_toString v = to_string (unat (Major v)) @ ''.'' @ to_string (unat (Minor v)) @ ''.'' @
     to_string (unat (Patch v))"

definition version_toMangledString :: "version \<Rightarrow> string" where
  "version_toMangledString v = to_string (unat (Major v)) @ ''_'' @ to_string (unat (Minor v)) @ ''_'' @
     to_string (unat (Patch v))"

datatype variant_m = Variant span string "type_ref option" "attribute list"

datatype global_m = Global span type_ref "operand list"

datatype 'co struct_member =
    StructMember_Concept 'co
  | StructMember_Operator operator_m
  | StructMember_Function function_m

datatype 'mo package_m = Package string version "'mo option"

datatype module_variable = ModuleVariable span string type_ref "operand list"

datatype ('mo, 'co) member_m =
    ModuleMember_Package "'mo package_m"
  | ModuleMember_Concept 'co
  | ModuleMember_Operator operator_m
  | ModuleMember_Function function_m
  | ModuleMember_Variable module_variable

datatype ('mo, 'co) nameable =
    Nameable_Package "'mo package_m"
  | Nameable_Concept 'co
  | Nameable_Operator operator_m
  | Nameable_Functions "function_m list"
  | Nameable_Property property
  | Nameable_Variant variant_m
  | Nameable_Variable module_variable

type_synonym ('mo, 'co) symbols = "(string \<times> ('mo, 'co) nameable) list"

datatype ('mo, 'co) structure_m =
  Structure span bool "property list" "'mo list" "string list list" "initializer_m list"
    "deinitializer option" "'co struct_member list" "('mo, 'co) symbols"

datatype ('mo, 'co) union_m =
  UnionDef span bool "variant_m list" "'co struct_member list" "('mo, 'co) symbols"

datatype ('mo, 'co) namespace_m =
  Namespace span "'mo list" "'co struct_member list" "('mo, 'co) symbols"

datatype ('mo, 'co) definition_m =
    Definition_Intrinsic span
  | Definition_Global global_m
  | Definition_Namespace "('mo, 'co) namespace_m"
  | Definition_Structure "('mo, 'co) structure_m"
  | Definition_Union "('mo, 'co) union_m"
  | Definition_Type type_ref

datatype 'co module_m = Module bool string string "'co module_m list" "use_m list"
    "('co module_m, 'co) member_m list" "('co module_m, 'co) symbols"

datatype concept = Concept span string "generic_parameter list" "attribute list"
    "(concept module_m, concept) definition_m"

type_synonym module = "concept module_m"
type_synonym package = "module package_m"
type_synonym member = "(module, concept) member_m"

datatype program = Program "package list" module "statement list"

text \<open>\<open>ModelBuilderError\<close> of retired/scalyc0/ModelError.h.\<close>

datatype model_error =
    NotImplementedError string string span
  | DuplicateNameError string span
  | NonFunctionSymbolExistsError string span
  | FunctionSymbolExistsError string span
  | DeInitializerExistsError string span
  | InvalidConstantError string span
  | InvalidComponentNameError string span
  | ModuleRootMustBeConceptError string span
  | InvalidInitLifetimeError string span string

end
