(* ===== verification/Modeler.thy ===== *)
theory Modeler
  imports Syntax Model
begin

text \<open>
  From syntax to model: the handlers of retired/scalyc0/Modeler.cpp for types, literals,
  expressions, statements, items, attributes and routines. A handler returns an error of
  ModelError.h or a node of the model. The definitions, namespaces, modules and packages,
  for which the modeler reads other files, are not in this theory.

  Handlers of operands and attributes call each other through everything in between. A
  handler takes the modeler \<open>M\<close>: the fields of the class that it reads, the function \<open>strtod\<close>
  of the C library as a parameter (\<open>None\<close> when it sets \<open>ERANGE\<close>, else the bits of the double),
  and the two recursive calls, \<open>modelOperand\<close> for \<open>handleOperand\<close> and \<open>modelAttribute\<close> for
  \<open>handleAttribute\<close>. The end of the theory ties the recursion and shows the equations of the code.
\<close>

type_synonym 'a modelled = "model_error + 'a"

record ('op, 'at) modeler =
  File :: string
  strtod :: "string \<Rightarrow> 64 word option"
  modelOperand :: "'op \<Rightarrow> operand modelled"
  modelAttribute :: "'at \<Rightarrow> attribute modelled"
  expressionOf :: "'op \<Rightarrow> expression_syntax"

section \<open>Errors\<close>

text \<open>\<open>if (!X) return X.takeError();\<close>, and the loops that model each element of a list.\<close>

definition withResult :: "'a modelled \<Rightarrow> ('a \<Rightarrow> 'b modelled) \<Rightarrow> 'b modelled" where
  "withResult r k = (case r of Inl e \<Rightarrow> Inl e | Inr a \<Rightarrow> k a)"

lemma withResult_simps [simp]:
  "withResult (Inl e) k = Inl e" "withResult (Inr a) k = k a"
  by (simp_all add: withResult_def)

primrec collect :: "('a \<Rightarrow> 'b modelled) \<Rightarrow> 'a list \<Rightarrow> 'b list modelled" where
  "collect f [] = Inr []"
| "collect f (x # xs) = withResult (f x) (\<lambda>y. withResult (collect f xs) (\<lambda>ys. Inr (y # ys)))"

definition collectOpt :: "('a \<Rightarrow> 'b modelled) \<Rightarrow> 'a list option \<Rightarrow> 'b list modelled" where
  "collectOpt f xs = (case xs of None \<Rightarrow> Inr [] | Some xs \<Rightarrow> collect f xs)"

definition optionally :: "('a \<Rightarrow> 'b modelled) \<Rightarrow> 'a option \<Rightarrow> 'b option modelled" where
  "optionally f x = (case x of
     None \<Rightarrow> Inr None | Some x \<Rightarrow> withResult (f x) (\<lambda>y. Inr (Some y)))"

section \<open>Escape sequences\<close>

definition hexDigit :: "char \<Rightarrow> nat option" where
  "hexDigit C =
     (if CHR ''0'' \<le> C \<and> C \<le> CHR ''9'' then Some (of_char C - of_char CHR ''0'')
      else if CHR ''a'' \<le> C \<and> C \<le> CHR ''f'' then Some (of_char C - of_char CHR ''a'' + 10)
      else if CHR ''A'' \<le> C \<and> C \<le> CHR ''F'' then Some (of_char C - of_char CHR ''A'' + 10)
      else None)"

text \<open>\<open>CodePoint <<= 4; CodePoint |= digit\<close> for each of the digits.\<close>

fun hexNumber :: "nat \<Rightarrow> string \<Rightarrow> nat option" where
  "hexNumber CodePoint [] = Some CodePoint"
| "hexNumber CodePoint (C # s) = (case hexDigit C of
     None \<Rightarrow> None
   | Some d \<Rightarrow> hexNumber (16 * CodePoint + d) s)"

text \<open>The code composes the bytes with \<open>|\<close>, \<open>>>\<close> and \<open>&\<close>; the parts do not overlap.\<close>

definition utf8 :: "nat \<Rightarrow> string" where
  "utf8 CodePoint = map char_of
     (if CodePoint < 0x80 then [CodePoint]
      else if CodePoint < 0x800 then
        [0xC0 + CodePoint div 0x40, 0x80 + CodePoint mod 0x40]
      else
        [0xE0 + CodePoint div 0x1000, 0x80 + CodePoint div 0x40 mod 0x40,
         0x80 + CodePoint mod 0x40])"

fun processEscapes :: "string \<Rightarrow> string" where
  "processEscapes [] = []"
| "processEscapes (C # s) =
     (if C \<noteq> CHR 0x5C then C # processEscapes s
      else case s of
        [] \<Rightarrow> [CHR 0x5C]
      | Next # s' \<Rightarrow>
          if Next = CHR ''n'' then CHR ''\<newline>'' # processEscapes s'
          else if Next = CHR ''r'' then CHR 0x0D # processEscapes s'
          else if Next = CHR ''t'' then CHR 0x09 # processEscapes s'
          else if Next = CHR 0x5C then CHR 0x5C # processEscapes s'
          else if Next = CHR 0x22 then CHR 0x22 # processEscapes s'
          else if Next = CHR 0x27 then CHR 0x27 # processEscapes s'
          else if Next = CHR ''0'' then CHR 0x00 # processEscapes s'
          else if Next = CHR ''u'' then
            (if length s' < 4 then CHR 0x5C # processEscapes s
             else case hexNumber 0 (take 4 s') of
               None \<Rightarrow> CHR 0x5C # processEscapes s
             | Some CodePoint \<Rightarrow> utf8 CodePoint @ processEscapes (drop 4 s'))
          else CHR 0x5C # processEscapes s)"

section \<open>Literals\<close>

text \<open>\<open>strtoll\<close> and \<open>strtoull\<close> on the text of a literal, which starts with a digit: \<open>None\<close> when
  they set \<open>ERANGE\<close>. For base 16 a prefix \<open>0x\<close> with a digit behind it is skipped.\<close>

definition decimal :: "string \<Rightarrow> nat" where
  "decimal s = foldl (\<lambda>n C. 10 * n + (of_char C - of_char CHR ''0'')) 0
     (takeWhile (\<lambda>C. CHR ''0'' \<le> C \<and> C \<le> CHR ''9'') s)"

definition strtoll :: "string \<Rightarrow> 64 word option" where
  "strtoll s = (if decimal s < 2 ^ 63 then Some (of_nat (decimal s)) else None)"

definition hexadecimal :: "string \<Rightarrow> nat" where
  "hexadecimal s =
     (let s' = (case s of
                  Z # X # D # r \<Rightarrow>
                    if Z = CHR ''0'' \<and> (X = CHR ''x'' \<or> X = CHR ''X'') \<and> hexDigit D \<noteq> None
                    then D # r else s
                | _ \<Rightarrow> s) in
      foldl (\<lambda>n C. 16 * n + the (hexDigit C)) 0 (takeWhile (\<lambda>C. hexDigit C \<noteq> None) s'))"

definition strtoull :: "string \<Rightarrow> 64 word option" where
  "strtoull s = (if hexadecimal s < 2 ^ 64 then Some (of_nat (hexadecimal s)) else None)"

definition handleLiteral :: "('op, 'at) modeler \<Rightarrow> literal_syntax \<Rightarrow> constant_m modelled" where
  "handleLiteral M l = (case l of LiteralSyntax Start End Lit \<Rightarrow>
     (let Loc = Span Start End in
      case Lit of
        BooleanLiteral Value \<Rightarrow> Inr (BooleanConstant Loc Value)
      | IntegerLiteral Value \<Rightarrow> (case strtoll Value of
            None \<Rightarrow> Inl (InvalidConstantError (File M) Loc)
          | Some n \<Rightarrow> Inr (IntegerConstant Loc n))
      | HexLiteral Value \<Rightarrow> (case strtoull Value of
            None \<Rightarrow> Inl (InvalidConstantError (File M) Loc)
          | Some n \<Rightarrow> Inr (HexConstant Loc n))
      | FloatingPointLiteral Value \<Rightarrow> (case strtod M Value of
            None \<Rightarrow> Inl (InvalidConstantError (File M) Loc)
          | Some d \<Rightarrow> Inr (FloatingPointConstant Loc d))
      | StringLiteral Value \<Rightarrow> Inr (StringConstant Loc (processEscapes Value))
      | CharacterLiteral Value \<Rightarrow> Inr (CharacterConstant Loc (processEscapes Value))
      | FragmentLiteral Value \<Rightarrow> Inr (FragmentConstant Loc Value)))"

section \<open>Names and types\<close>

fun namePath :: "name_syntax \<Rightarrow> string list" where
  "namePath (NameSyntax _ _ name extensions) = name # (case extensions of
     None \<Rightarrow> [] | Some es \<Rightarrow> map (\<lambda>e. case e of ExtensionSyntax _ _ n \<Rightarrow> n) es)"

fun nameToType :: "name_syntax \<Rightarrow> type_ref" where
  "nameToType (NameSyntax Start End name extensions) =
     Type (Span Start End) (namePath (NameSyntax Start End name extensions)) None UnspecifiedLifetime"

fun handleLifetime :: "lifetime_syntax option \<Rightarrow> lifetime" where
  "handleLifetime None = UnspecifiedLifetime"
| "handleLifetime (Some (Lifetime_Call (CallSyntax Start End))) = CallLifetime (Span Start End)"
| "handleLifetime (Some (Lifetime_Reference (ReferenceSyntax Start End location))) =
     ReferenceLifetime (Span Start End) location"
| "handleLifetime (Some (Lifetime_Thrown (ThrownSyntax Start End))) = ThrownLifetime (Span Start End)"

fun lifetimeSpan :: "lifetime_syntax \<Rightarrow> span" where
  "lifetimeSpan (Lifetime_Call (CallSyntax Start End)) = Span Start End"
| "lifetimeSpan (Lifetime_Reference (ReferenceSyntax Start End _)) = Span Start End"
| "lifetimeSpan (Lifetime_Thrown (ThrownSyntax Start End)) = Span Start End"

text \<open>The arguments of a generic type, each already modelled.\<close>

fun typeArguments :: "type_ref modelled generic_arguments_of option \<Rightarrow> type_ref list option modelled" where
  "typeArguments (Some (GenericArgumentsSyntax _ _ (Some generics))) =
     withResult (collect (\<lambda>GA. case GA of GenericArgumentSyntax _ _ T \<Rightarrow> T) generics) (\<lambda>Ts. Inr (Some Ts))"
| "typeArguments _ = Inr None"

primrec handleType :: "type_syntax \<Rightarrow> type_ref modelled" where
  "handleType (TypeSyntax Start End name generics optional lifetime) =
     withResult (typeArguments (map_option (map_generic_arguments_of handleType) generics)) (\<lambda>Generics.
       let Result = Type (Span Start End) (namePath name) Generics (handleLifetime lifetime) in
       Inr (case optional of
          Some _ \<Rightarrow> Type (Span Start End) [''Option''] (Some [Result]) UnspecifiedLifetime
        | None \<Rightarrow> Result))"

section \<open>Operands, objects, vectors\<close>

definition handleOperands ::
    "('op, 'at) modeler \<Rightarrow> 'op list option \<Rightarrow> operand list modelled" where
  "handleOperands M Syntax = collectOpt (modelOperand M) Syntax"

definition handleOperation ::
    "('op, 'at) modeler \<Rightarrow> 'op operation_of \<Rightarrow> operand list modelled" where
  "handleOperation M Syntax =
     (case Syntax of OperationSyntax _ _ operands \<Rightarrow> handleOperands M operands)"

text \<open>With a value the component is named, by its first operand when that is a name.\<close>

definition componentName :: "('op, 'at) modeler \<Rightarrow> 'op list option \<Rightarrow> string option" where
  "componentName M operands = (case operands of
       Some (NameOp # _) \<Rightarrow> (case expressionOf M NameOp of
           Expression_Name (NameSyntax _ _ n _) \<Rightarrow> Some n
         | _ \<Rightarrow> None)
     | _ \<Rightarrow> None)"

definition handleComponent ::
    "('op, 'at) modeler \<Rightarrow> ('op, 'at) component_of \<Rightarrow> component modelled" where
  "handleComponent M Syntax = (case Syntax of ComponentSyntax Start End operands attributes value \<Rightarrow>
     withResult
       (case value of
          Some (ValueSyntax _ _ v _) \<Rightarrow>
            withResult (handleOperands M v) (\<lambda>Ops. Inr (componentName M operands, Ops))
        | None \<Rightarrow> withResult (handleOperands M operands) (\<lambda>Ops. Inr (None, Ops)))
       (\<lambda>(Name, Value).
     withResult (collectOpt (modelAttribute M) attributes) (\<lambda>Attributes.
     Inr (Component (Span Start End) Name Value Attributes))))"

definition handleObject ::
    "('op, 'at) modeler \<Rightarrow> ('op, 'at) object_of \<Rightarrow> tuple modelled" where
  "handleObject M Syntax = (case Syntax of ObjectSyntax Start End components \<Rightarrow>
     withResult (collectOpt (handleComponent M) components) (\<lambda>Components.
     Inr (Tuple (Span Start End) Components)))"

definition handleVector ::
    "('op, 'at) modeler \<Rightarrow> ('op, 'at) vector_of \<Rightarrow> matrix modelled" where
  "handleVector M Syntax = (case Syntax of VectorSyntax Start End elements lifetime \<Rightarrow>
     withResult (collectOpt (\<lambda>E. case E of ElementSyntax _ _ operation _ \<Rightarrow>
         handleOperands M operation) elements) (\<lambda>Operations.
     Inr (Matrix (Span Start End) Operations (handleLifetime lifetime))))"

section \<open>Statements\<close>

definition handleBindingAnnotation ::
    "('op, 'at) modeler \<Rightarrow> ('op, 'at) binding_annotation_of \<Rightarrow> type_ref modelled" where
  "handleBindingAnnotation M Syntax = (case Syntax of BindingAnnotationSyntax _ _ spec \<Rightarrow>
     (case spec of
        BindingSpec_Type T \<Rightarrow> handleType T
      | BindingSpec_Structure (StructureSyntax Start End _) \<Rightarrow>
          Inl (NotImplementedError (File M) ''Structure binding'' (Span Start End))
      | BindingSpec_Array (ArraySyntax Start End _) \<Rightarrow>
          Inl (NotImplementedError (File M) ''Array binding'' (Span Start End))))"

text \<open>The binding of a \<open>let\<close>, \<open>var\<close> or \<open>mutable\<close>, at the span of the statement.\<close>

definition handleBinding ::
    "('op, 'at) modeler \<Rightarrow> nat \<Rightarrow> nat \<Rightarrow> string \<Rightarrow> ('op, 'at) binding_of \<Rightarrow> binding modelled" where
  "handleBinding M Start End BindingType Syntax =
     (case Syntax of BindingSyntax _ _ name annotation operation \<Rightarrow>
      withResult (optionally (handleBindingAnnotation M) annotation) (\<lambda>BindType.
      withResult (handleOperands M operation) (\<lambda>Ops.
      Inr (Binding (Span Start End) BindingType
        (Item (Span Start End) False (Some name) BindType []) Ops))))"

definition handleBreak :: "('op, 'at) modeler \<Rightarrow> 'op break_of \<Rightarrow> operand break_m modelled" where
  "handleBreak M Syntax = (case Syntax of BreakSyntax Start End _ result \<Rightarrow>
     withResult (handleOperands M result) (\<lambda>Result. Inr (Break (Span Start End) Result)))"

definition handleContinue :: "continue_syntax \<Rightarrow> continue_m modelled" where
  "handleContinue Syntax = (case Syntax of ContinueSyntax Start End _ \<Rightarrow>
     Inr (Continue (Span Start End)))"

definition handleReturn :: "('op, 'at) modeler \<Rightarrow> 'op return_of \<Rightarrow> operand return_m modelled" where
  "handleReturn M Syntax = (case Syntax of ReturnSyntax Start End result \<Rightarrow>
     withResult (handleOperands M result) (\<lambda>Result. Inr (Return (Span Start End) Result)))"

definition handleThrow :: "('op, 'at) modeler \<Rightarrow> 'op throw_of \<Rightarrow> operand throw_m modelled" where
  "handleThrow M Syntax = (case Syntax of ThrowSyntax Start End result \<Rightarrow>
     withResult (handleOperands M result) (\<lambda>Result. Inr (Throw (Span Start End) Result)))"

definition handleSet :: "('op, 'at) modeler \<Rightarrow> 'op set_of \<Rightarrow> action modelled" where
  "handleSet M Syntax = (case Syntax of SetSyntax _ _ target source \<Rightarrow>
     withResult (handleOperands M target) (\<lambda>Target.
     withResult (handleOperands M source) (\<lambda>Source.
     Inr (Action Source Target))))"

definition handleStatement ::
    "('op, 'at) modeler \<Rightarrow> ('op, 'at) statement_of \<Rightarrow> statement modelled" where
  "handleStatement M Syntax = (case Syntax of
       Statement_Empty _ \<Rightarrow> Inr (Stmt_Action (Action [] []))
     | Statement_Operation C \<Rightarrow>
         withResult (handleOperation M C) (\<lambda>Ops. Inr (Stmt_Action (Action Ops [])))
     | Statement_Let (LetSyntax Start End binding) \<Rightarrow>
         withResult (handleBinding M Start End ''const'' binding) (\<lambda>B. Inr (Stmt_Binding B))
     | Statement_Var (VarSyntax Start End binding) \<Rightarrow>
         withResult (handleBinding M Start End ''var'' binding) (\<lambda>B. Inr (Stmt_Binding B))
     | Statement_Mutable (MutableSyntax Start End binding) \<Rightarrow>
         withResult (handleBinding M Start End ''mutable'' binding) (\<lambda>B. Inr (Stmt_Binding B))
     | Statement_Set C \<Rightarrow> withResult (handleSet M C) (\<lambda>A. Inr (Stmt_Action A))
     | Statement_Continue C \<Rightarrow> withResult (handleContinue C) (\<lambda>c. Inr (Stmt_Continue c))
     | Statement_Break C \<Rightarrow> withResult (handleBreak M C) (\<lambda>b. Inr (Stmt_Break b))
     | Statement_Return C \<Rightarrow> withResult (handleReturn M C) (\<lambda>r. Inr (Stmt_Return r))
     | Statement_Throw C \<Rightarrow> withResult (handleThrow M C) (\<lambda>t. Inr (Stmt_Throw t)))"

text \<open>The parser may collect several statements in one operation. An operand that is a control
  structure closes its statement, so the operation is split behind each of them.\<close>

definition isStatementLikeExpr :: "('op, 'at) expression_of \<Rightarrow> bool" where
  "isStatementLikeExpr E = (case E of
       Expression_Choose _ \<Rightarrow> True
     | Expression_If _ \<Rightarrow> True
     | Expression_Match _ \<Rightarrow> True
     | Expression_While _ \<Rightarrow> True
     | Expression_For _ \<Rightarrow> True
     | Expression_Try _ \<Rightarrow> True
     | Expression_Repeat _ \<Rightarrow> True
     | Expression_Block _ \<Rightarrow> True
     | _ \<Rightarrow> False)"

fun operandGroups :: "('a \<Rightarrow> bool) \<Rightarrow> 'a list \<Rightarrow> 'a list \<Rightarrow> 'a list list" where
  "operandGroups stmtLike Group [] = (if Group = [] then [] else [Group])"
| "operandGroups stmtLike Group (x # xs) =
     (if stmtLike x then (Group @ [x]) # operandGroups stmtLike [] xs
      else operandGroups stmtLike (Group @ [x]) xs)"

definition splitOperation :: "('op, 'at) modeler \<Rightarrow> 'op list \<Rightarrow> 'op list list option" where
  "splitOperation M Ops =
     (let stmtLike = (\<lambda>x. isStatementLikeExpr (expressionOf M x));
          Groups = operandGroups stmtLike [] Ops in
      if length Ops > 1 \<and> length (filter stmtLike Ops) > 0 \<and> length Groups > 1
      then Some Groups else None)"

definition handleOneStatement ::
    "('op, 'at) modeler \<Rightarrow> ('op, 'at) statement_of \<Rightarrow> statement list modelled" where
  "handleOneStatement M S = (case S of
       Statement_Empty _ \<Rightarrow> Inr []
     | Statement_Operation (OperationSyntax _ _ operands) \<Rightarrow>
         (case (case operands of None \<Rightarrow> None | Some Ops \<Rightarrow> splitOperation M Ops) of
            Some Groups \<Rightarrow> collect (\<lambda>Grp.
              withResult (collect (modelOperand M) Grp) (\<lambda>GroupOps.
              Inr (Stmt_Action (Action GroupOps [])))) Groups
          | None \<Rightarrow> withResult (handleStatement M S) (\<lambda>s. Inr [s]))
     | _ \<Rightarrow> withResult (handleStatement M S) (\<lambda>s. Inr [s]))"

definition handleStatements ::
    "('op, 'at) modeler \<Rightarrow> ('op, 'at) statement_of list option \<Rightarrow> statement list modelled" where
  "handleStatements M Syntax =
     withResult (collectOpt (handleOneStatement M) Syntax) (\<lambda>Result. Inr (concat Result))"

definition handleBlock :: "('op, 'at) modeler \<Rightarrow> ('op, 'at) block_of \<Rightarrow> block modelled" where
  "handleBlock M Syntax = (case Syntax of BlockSyntax Start End _ statements \<Rightarrow>
     withResult (handleStatements M statements) (\<lambda>Stmts. Inr (Block (Span Start End) Stmts)))"

text \<open>A block as an action is wrapped as its only operand.\<close>

definition handleAction :: "('op, 'at) modeler \<Rightarrow> ('op, 'at) action_of \<Rightarrow> action modelled" where
  "handleAction M Syntax = (case Syntax of
       Action_Operation A \<Rightarrow> withResult (handleOperation M A) (\<lambda>Ops. Inr (Action Ops []))
     | Action_Set A \<Rightarrow> handleSet M A
     | Action_Block A \<Rightarrow> withResult (handleBlock M A) (\<lambda>Blk.
         case Blk of Block Loc _ \<Rightarrow> Inr (Action [Operand Loc (Expr_Block Blk) None] [])))"

definition handleCondition ::
    "('op, 'at) modeler \<Rightarrow> ('op, 'at) condition_of \<Rightarrow> binding modelled" where
  "handleCondition M Syntax = (case Syntax of
       Condition_Operation (OperationSyntax Start End operands) \<Rightarrow>
         withResult (handleOperation M (OperationSyntax Start End operands)) (\<lambda>Ops.
         Inr (Binding (Span Start End) ''const'' (Item (Span Start End) False None None []) Ops))
     | Condition_Let (LetSyntax Start End binding) \<Rightarrow>
         handleBinding M Start End ''const'' binding)"

section \<open>Control structures\<close>

definition handleElse ::
    "('op, 'at) modeler \<Rightarrow> ('op, 'at) else_of option \<Rightarrow> statement option modelled" where
  "handleElse M Syntax = optionally (\<lambda>E. case E of ElseSyntax _ _ alternative \<Rightarrow>
     handleStatement M alternative) Syntax"

definition handleIf :: "('op, 'at) modeler \<Rightarrow> ('op, 'at) if_of \<Rightarrow>
    (operand, attribute) if_m modelled" where
  "handleIf M Syntax = (case Syntax of
     IfSyntax Start End condition (ThenSyntax _ _ consequent) alternative \<Rightarrow>
     withResult (handleOperands M condition) (\<lambda>Cond.
     withResult (handleStatement M consequent) (\<lambda>Cons.
     withResult (handleElse M alternative) (\<lambda>Alt.
     Inr (IfExpr (Span Start End) Cond None Cons Alt)))))"

definition handleCase :: "('op, 'at) modeler \<Rightarrow> 'op case_of \<Rightarrow> operand case_m modelled" where
  "handleCase M Syntax = (case Syntax of CaseSyntax Start End condition \<Rightarrow>
     withResult (handleOperands M condition) (\<lambda>CaseCond. Inr (Case (Span Start End) CaseCond)))"

definition handleBranch :: "('op, 'at) modeler \<Rightarrow> ('op, 'at) branch_of \<Rightarrow>
    (operand, attribute) branch_m modelled" where
  "handleBranch M Syntax = (case Syntax of BranchSyntax Start End cases consequent \<Rightarrow>
     withResult (collectOpt (handleCase M) cases) (\<lambda>Cases.
     withResult (handleStatement M consequent) (\<lambda>Cons.
     Inr (Branch (Span Start End) Cases Cons))))"

definition handleMatch :: "('op, 'at) modeler \<Rightarrow> ('op, 'at) match_of \<Rightarrow>
    (operand, attribute) match_m modelled" where
  "handleMatch M Syntax = (case Syntax of MatchSyntax Start End scrutinee branches alternative \<Rightarrow>
     withResult (handleOperands M scrutinee) (\<lambda>Cond.
     withResult (collectOpt (handleBranch M) branches) (\<lambda>Branches.
     withResult (handleElse M alternative) (\<lambda>Alt.
     Inr (Match (Span Start End) Cond Branches Alt)))))"

definition handleWhen :: "('op, 'at) modeler \<Rightarrow> ('op, 'at) when_of \<Rightarrow>
    (operand, attribute) when_m modelled" where
  "handleWhen M Syntax = (case Syntax of WhenSyntax Start End name variant statement \<Rightarrow>
     withResult (handleStatement M statement) (\<lambda>Cons.
     Inr (When (Span Start End) name (namePath variant) Cons)))"

definition handleChoose :: "('op, 'at) modeler \<Rightarrow> ('op, 'at) choose_of \<Rightarrow>
    (operand, attribute) choose_m modelled" where
  "handleChoose M Syntax = (case Syntax of ChooseSyntax Start End condition cases alternative \<Rightarrow>
     withResult (handleOperands M condition) (\<lambda>Cond.
     withResult (collectOpt (handleWhen M) cases) (\<lambda>Cases.
     withResult (handleElse M alternative) (\<lambda>Alt.
     Inr (Choose (Span Start End) Cond Cases Alt)))))"

definition handleFor :: "('op, 'at) modeler \<Rightarrow> ('op, 'at) for_of \<Rightarrow> operand for_m modelled" where
  "handleFor M Syntax = (case Syntax of ForSyntax Start End variable _ operation name action \<Rightarrow>
     (case name of
        Some (LabelSyntax ls le _) \<Rightarrow>
          Inl (NotImplementedError (File M) ''Label in For'' (Span ls le))
      | None \<Rightarrow>
          withResult (handleOperands M operation) (\<lambda>Expr.
          withResult (handleAction M action) (\<lambda>Act.
          Inr (For (Span Start End) variable Expr Act)))))"

definition handleWhile :: "('op, 'at) modeler \<Rightarrow> ('op, 'at) while_of \<Rightarrow>
    (operand, attribute) while_m modelled" where
  "handleWhile M Syntax = (case Syntax of WhileSyntax Start End condition name action \<Rightarrow>
     (case name of
        Some (LabelSyntax ls le _) \<Rightarrow>
          Inl (NotImplementedError (File M) ''Label in While'' (Span ls le))
      | None \<Rightarrow>
          withResult (handleCondition M condition) (\<lambda>Cond.
          withResult (handleAction M action) (\<lambda>Act.
          Inr (While (Span Start End) Cond Act)))))"

definition handleTry :: "('op, 'at) modeler \<Rightarrow> ('op, 'at) try_of \<Rightarrow>
    (operand, attribute) try_m modelled" where
  "handleTry M Syntax = (case Syntax of TrySyntax Start End lifetime condition cases dropper \<Rightarrow>
     withResult (handleCondition M condition) (\<lambda>Cond.
     withResult (collectOpt (handleWhen M) cases) (\<lambda>Catches.
     withResult (handleElse M dropper) (\<lambda>Alt.
     Inr (Try (Span Start End) (handleLifetime lifetime) Cond Catches Alt)))))"

definition handleSizeOf :: "size_of_syntax \<Rightarrow> size_of_m modelled" where
  "handleSizeOf Syntax = (case Syntax of SizeOfSyntax Start End T \<Rightarrow>
     withResult (handleType T) (\<lambda>R. Inr (SizeOf (Span Start End) R)))"

definition handleAlignOf :: "align_of_syntax \<Rightarrow> align_of_m modelled" where
  "handleAlignOf Syntax = (case Syntax of AlignOfSyntax Start End T \<Rightarrow>
     withResult (handleType T) (\<lambda>R. Inr (AlignOf (Span Start End) R)))"

definition handleIs :: "is_syntax \<Rightarrow> is_m modelled" where
  "handleIs Syntax = (case Syntax of IsSyntax Start End name \<Rightarrow>
     Inr (Is (Span Start End) (namePath name)))"

definition handleAs :: "as_syntax \<Rightarrow> as_m modelled" where
  "handleAs Syntax = (case Syntax of AsSyntax Start End T \<Rightarrow>
     withResult (handleType T) (\<lambda>R. Inr (As (Span Start End) R)))"

section \<open>Expressions and attributes\<close>

definition handleExpression ::
    "('op, 'at) modeler \<Rightarrow> ('op, 'at) expression_of \<Rightarrow> expression modelled" where
  "handleExpression M Syntax = (case Syntax of
       Expression_Literal E \<Rightarrow> withResult (handleLiteral M E) (\<lambda>Const. Inr (Expr_Constant Const))
     | Expression_Name E \<Rightarrow> Inr (Expr_Type (nameToType E))
     | Expression_Lifetime E \<Rightarrow>
         Inr (Expr_Type (Type (lifetimeSpan E) [] None (handleLifetime (Some E))))
     | Expression_Object E \<Rightarrow> withResult (handleObject M E) (\<lambda>Obj. Inr (Expr_Tuple Obj))
     | Expression_Vector E \<Rightarrow> withResult (handleVector M E) (\<lambda>Vec. Inr (Expr_Matrix Vec))
     | Expression_Block E \<Rightarrow> withResult (handleBlock M E) (\<lambda>Blk. Inr (Expr_Block Blk))
     | Expression_If E \<Rightarrow> withResult (handleIf M E) (\<lambda>R. Inr (Expr_If R))
     | Expression_Match E \<Rightarrow> withResult (handleMatch M E) (\<lambda>R. Inr (Expr_Match R))
     | Expression_Choose E \<Rightarrow> withResult (handleChoose M E) (\<lambda>R. Inr (Expr_Choose R))
     | Expression_For E \<Rightarrow> withResult (handleFor M E) (\<lambda>R. Inr (Expr_For R))
     | Expression_While E \<Rightarrow> withResult (handleWhile M E) (\<lambda>R. Inr (Expr_While R))
     | Expression_Try E \<Rightarrow> withResult (handleTry M E) (\<lambda>R. Inr (Expr_Try R))
     | Expression_SizeOf E \<Rightarrow> withResult (handleSizeOf E) (\<lambda>R. Inr (Expr_SizeOf R))
     | Expression_AlignOf E \<Rightarrow> withResult (handleAlignOf E) (\<lambda>R. Inr (Expr_AlignOf R))
     | Expression_Is E \<Rightarrow> withResult (handleIs E) (\<lambda>R. Inr (Expr_Is R))
     | Expression_As E \<Rightarrow> withResult (handleAs E) (\<lambda>R. Inr (Expr_As R))
     | Expression_Lambda (LambdaSyntax Start End _ _) \<Rightarrow>
         Inl (NotImplementedError (File M) ''Lambda'' (Span Start End))
     | Expression_Repeat (RepeatSyntax Start End _ _) \<Rightarrow>
         Inl (NotImplementedError (File M) ''Repeat'' (Span Start End)))"

definition handleModel ::
    "('op, 'at) modeler \<Rightarrow> ('op, 'at) model_of \<Rightarrow> model modelled" where
  "handleModel M Syntax = (case Syntax of
       Model_Literal m \<Rightarrow> withResult (handleLiteral M m) (\<lambda>Const. Inr (Model_Constant Const))
     | Model_Name (NameSyntax _ _ name _) \<Rightarrow> Inr (Model_Variable name)
     | Model_Object m \<Rightarrow> withResult (handleObject M m) (\<lambda>Obj. Inr (Model_Tuple Obj))
     | Model_Vector m \<Rightarrow> withResult (handleVector M m) (\<lambda>Vec. Inr (Model_Matrix Vec)))"

text \<open>The bodies of \<open>handleOperand\<close> and \<open>handleAttribute\<close>.\<close>

definition operandBody :: "('op, 'at) modeler \<Rightarrow> nat \<Rightarrow> nat \<Rightarrow> ('op, 'at) expression_of \<Rightarrow>
    member_access_syntax list option \<Rightarrow> operand modelled" where
  "operandBody M Start End expression members =
     withResult (handleExpression M expression) (\<lambda>Expr.
     Inr (Operand (Span Start End) Expr
       (map_option (map (\<lambda>m. case m of MemberAccessSyntax _ _ name \<Rightarrow> nameToType name)) members)))"

definition attributeBody :: "('op, 'at) modeler \<Rightarrow> nat \<Rightarrow> nat \<Rightarrow> string \<Rightarrow>
    ('op, 'at) model_of \<Rightarrow> attribute modelled" where
  "attributeBody M Start End name model =
     withResult (handleModel M model) (\<lambda>Value. Inr (Attribute (Span Start End) name Value))"

section \<open>The recursion\<close>

fun operandExpression :: "operand_syntax \<Rightarrow> expression_syntax" where
  "operandExpression (OperandSyntax _ _ expression _) = expression"

text \<open>A tree whose operands carry their own model and whose attributes are modelled.\<close>

type_synonym modelled_operand = "operand_syntax \<times> operand modelled"

definition leafModeler ::
    "string \<Rightarrow> (string \<Rightarrow> 64 word option) \<Rightarrow> (modelled_operand, attribute modelled) modeler" where
  "leafModeler fileName d = \<lparr>File = fileName, strtod = d, modelOperand = snd, modelAttribute = (\<lambda>a. a),
     expressionOf = (\<lambda>op. operandExpression (fst op))\<rparr>"

primrec handleOperand ::
    "string \<Rightarrow> (string \<Rightarrow> 64 word option) \<Rightarrow> operand_syntax \<Rightarrow> operand modelled"
  and handleAttribute ::
    "string \<Rightarrow> (string \<Rightarrow> 64 word option) \<Rightarrow> attribute_syntax \<Rightarrow> attribute modelled" where
  "handleOperand fileName d (OperandSyntax Start End expression members) =
     operandBody (leafModeler fileName d) Start End
       (map_expression_of (\<lambda>op. (op, handleOperand fileName d op)) (handleAttribute fileName d) expression)
       members"
| "handleAttribute fileName d (AttributeSyntax Start End name model) =
     attributeBody (leafModeler fileName d) Start End name
       (map_model_of (\<lambda>op. (op, handleOperand fileName d op)) (handleAttribute fileName d) model)"

text \<open>The modeler of the class.\<close>

definition newModeler ::
    "string \<Rightarrow> (string \<Rightarrow> 64 word option) \<Rightarrow> (operand_syntax, attribute_syntax) modeler" where
  "newModeler fileName d = \<lparr>File = fileName, strtod = d, modelOperand = handleOperand fileName d,
     modelAttribute = handleAttribute fileName d, expressionOf = operandExpression\<rparr>"

end
