(* ===== verification/Modeler_Props.thy ===== *)
theory Modeler_Props
  imports Modeler
begin

text \<open>
  That the handlers of Modeler are those of the class: the recursion through a tree of
  modelled operands gives the same as the recursive calls of the code, by one lemma for each
  handler that it does not matter whether an operand carries its model or is modelled.
\<close>

lemma collect_map: "collect f (map g xs) = collect (\<lambda>x. f (g x)) xs"
  by (induction xs) simp_all

lemma collectOpt_map: "collectOpt f (map_option (map g) xs) = collectOpt (\<lambda>x. f (g x)) xs"
  by (cases xs) (simp_all add: collectOpt_def collect_map)

lemma optionally_map: "optionally f (map_option g x) = optionally (\<lambda>x. f (g x)) x"
  by (cases x) (simp_all add: optionally_def)

lemma operandGroups_map:
  "operandGroups p (map f Group) (map f xs) = map (map f) (operandGroups (\<lambda>x. p (f x)) Group xs)"
proof (induction xs arbitrary: Group)
  case (Cons x xs)
  then show ?case using Cons.IH [of "[]"] Cons.IH [of "Group @ [x]"] by simp
qed simp

text \<open>\<open>L\<close> works on operands and attributes that \<open>f\<close> and \<open>g\<close> make of those of \<open>M\<close>, with the same
  answers.\<close>

locale carried =
  fixes L :: "('a, 'b) modeler"
    and M :: "('op, 'at) modeler"
    and f :: "'op \<Rightarrow> 'a"
    and g :: "'at \<Rightarrow> 'b"
  assumes File_eq: "File L = File M"
    and strtod_eq: "strtod L = strtod M"
    and modelOperand_eq: "modelOperand L (f op) = modelOperand M op"
    and modelAttribute_eq: "modelAttribute L (g at) = modelAttribute M at"
    and expressionOf_eq: "expressionOf L (f op) = expressionOf M op"
begin

lemma literals: "handleLiteral L l = handleLiteral M l"
  by (cases l) (simp add: handleLiteral_def Let_def File_eq strtod_eq split: literal.split option.split)

lemma operands: "handleOperands L (map_option (map f) ops) = handleOperands M ops"
  by (simp add: handleOperands_def collectOpt_map modelOperand_eq)

lemma attributes:
  "collectOpt (modelAttribute L) (map_option (map g) ats) = collectOpt (modelAttribute M) ats"
  by (simp add: collectOpt_map modelAttribute_eq)

lemma operation: "handleOperation L (map_operation_of f x) = handleOperation M x"
  by (cases x) (simp add: handleOperation_def operands)

lemma component_name: "componentName L (map_option (map f) ops) = componentName M ops"
  by (cases ops; cases "the ops") (simp_all add: componentName_def expressionOf_eq)

lemma component: "handleComponent L (map_component_of f g x) = handleComponent M x"
  by (cases x)
    (simp add: handleComponent_def operands attributes component_name
      split: option.split value_of.split)

lemma object: "handleObject L (map_object_of f g x) = handleObject M x"
  by (cases x) (simp add: handleObject_def collectOpt_map component)

lemma vector: "handleVector L (map_vector_of f g x) = handleVector M x"
proof (cases x)
  case (VectorSyntax s e els lt)
  have "(case map_element_of f g E of ElementSyntax _ _ operation _ \<Rightarrow> handleOperands L operation)
      = (case E of ElementSyntax _ _ operation _ \<Rightarrow> handleOperands M operation)" for E
    by (cases E) (simp add: operands)
  then show ?thesis by (simp add: VectorSyntax handleVector_def collectOpt_map)
qed

lemma binding_annotation:
  "handleBindingAnnotation L (map_binding_annotation_of f g x) = handleBindingAnnotation M x"
proof (cases x)
  case (BindingAnnotationSyntax s e spec)
  then show ?thesis
    by (cases spec)
      (simp_all add: handleBindingAnnotation_def File_eq split: structure_of.split array_syntax.split)
qed

lemma binding: "handleBinding L s e t (map_binding_of f g x) = handleBinding M s e t x"
  by (cases x) (simp add: handleBinding_def operands optionally_map binding_annotation)

lemma break_continue_return_throw:
  "handleBreak L (map_break_of f b) = handleBreak M b"
  "handleReturn L (map_return_of f r) = handleReturn M r"
  "handleThrow L (map_throw_of f t) = handleThrow M t"
  by (cases b; cases r; cases t; simp add: handleBreak_def handleReturn_def handleThrow_def operands)+

lemma set_statement: "handleSet L (map_set_of f x) = handleSet M x"
  by (cases x) (simp add: handleSet_def operands)

lemma let_var_mutable:
  "(case map_let_of f g l of LetSyntax s e b \<Rightarrow> withResult (handleBinding L s e t b) k) =
     (case l of LetSyntax s e b \<Rightarrow> withResult (handleBinding M s e t b) k)"
  "(case map_var_of f g v of VarSyntax s e b \<Rightarrow> withResult (handleBinding L s e t b) k) =
     (case v of VarSyntax s e b \<Rightarrow> withResult (handleBinding M s e t b) k)"
  "(case map_mutable_of f g m of MutableSyntax s e b \<Rightarrow> withResult (handleBinding L s e t b) k) =
     (case m of MutableSyntax s e b \<Rightarrow> withResult (handleBinding M s e t b) k)"
  by (cases l; cases v; cases m; simp add: binding)+

lemma statement: "handleStatement L (map_statement_of f g x) = handleStatement M x"
  by (cases x)
    (simp_all add: handleStatement_def operation let_var_mutable set_statement
      break_continue_return_throw)

lemma statement_like: "isStatementLikeExpr (expressionOf L (f x)) = isStatementLikeExpr (expressionOf M x)"
  by (simp add: expressionOf_eq)

lemma split_operation:
  "splitOperation L (map f ops) = map_option (map (map f)) (splitOperation M ops)"
  using operandGroups_map [of "\<lambda>x. isStatementLikeExpr (expressionOf L x)" f "[]" ops]
  by (simp add: splitOperation_def Let_def expressionOf_eq filter_map comp_def)

lemma one_statement: "handleOneStatement L (map_statement_of f g x) = handleOneStatement M x"
proof (cases x)
  case (Statement_Operation p)
  obtain s e ops where p: "p = OperationSyntax s e ops" by (cases p)
  show ?thesis
  proof (cases ops)
    case None
    then show ?thesis
      using statement [of x] by (simp add: Statement_Operation p handleOneStatement_def)
  next
    case (Some os)
    then show ?thesis
      using statement [of x]
      by (simp add: Statement_Operation p handleOneStatement_def split_operation collect_map
          modelOperand_eq split: option.split)
  qed
qed (use statement [of x] in \<open>simp_all add: handleOneStatement_def\<close>)

lemma statements:
  "handleStatements L (map_option (map (map_statement_of f g)) x) = handleStatements M x"
  by (simp add: handleStatements_def collectOpt_map one_statement)

lemma block: "handleBlock L (map_block_of f g x) = handleBlock M x"
  by (cases x) (simp add: handleBlock_def statements)

lemma action: "handleAction L (map_action_of f g x) = handleAction M x"
  by (cases x) (simp_all add: handleAction_def operation set_statement block)

lemma condition: "handleCondition L (map_condition_of f g x) = handleCondition M x"
proof (cases x)
  case (Condition_Operation p)
  then show ?thesis
    using operation [of p] by (cases p) (simp add: handleCondition_def)
next
  case (Condition_Let l)
  then show ?thesis by (cases l) (simp add: handleCondition_def binding)
qed

lemma else_part: "handleElse L (map_option (map_else_of f g) x) = handleElse M x"
proof -
  have "(case map_else_of f g E of ElseSyntax _ _ a \<Rightarrow> handleStatement L a)
      = (case E of ElseSyntax _ _ a \<Rightarrow> handleStatement M a)" for E
    by (cases E) (simp add: statement)
  then show ?thesis by (simp add: handleElse_def optionally_map)
qed

lemma if_expression: "handleIf L (map_if_of f g x) = handleIf M x"
  by (cases x) (simp add: handleIf_def operands statement else_part split: then_of.split)

lemma cases_branches:
  "handleCase L (map_case_of f c) = handleCase M c"
  "handleBranch L (map_branch_of f g b) = handleBranch M b"
proof -
  show c: "handleCase L (map_case_of f c) = handleCase M c" for c
    by (cases c) (simp add: handleCase_def operands)
  show "handleBranch L (map_branch_of f g b) = handleBranch M b"
    by (cases b) (simp add: handleBranch_def collectOpt_map c statement)
qed

lemma match: "handleMatch L (map_match_of f g x) = handleMatch M x"
  by (cases x) (simp add: handleMatch_def operands collectOpt_map cases_branches else_part)

lemma when_case: "handleWhen L (map_when_of f g x) = handleWhen M x"
  by (cases x) (simp add: handleWhen_def statement)

lemma choose: "handleChoose L (map_choose_of f g x) = handleChoose M x"
  by (cases x) (simp add: handleChoose_def operands collectOpt_map when_case else_part)

lemma for_loop: "handleFor L (map_for_of f g x) = handleFor M x"
  by (cases x)
    (simp add: handleFor_def operands action File_eq split: option.split label_syntax.split)

lemma while_loop: "handleWhile L (map_while_of f g x) = handleWhile M x"
  by (cases x)
    (simp add: handleWhile_def condition action File_eq split: option.split label_syntax.split)

lemma try_expression: "handleTry L (map_try_of f g x) = handleTry M x"
  by (cases x) (simp add: handleTry_def condition collectOpt_map when_case else_part)

lemma expression: "handleExpression L (map_expression_of f g x) = handleExpression M x"
proof (cases x)
  case (Expression_Lambda l)
  then show ?thesis by (cases l) (simp add: handleExpression_def File_eq)
next
  case (Expression_Repeat r)
  then show ?thesis by (cases r) (simp add: handleExpression_def File_eq)
qed (simp_all add: handleExpression_def literals object vector block if_expression match choose
    for_loop while_loop try_expression)

lemma model: "handleModel L (map_model_of f g x) = handleModel M x"
  by (cases x) (simp_all add: handleModel_def literals object vector)

lemma operand_body: "operandBody L s e (map_expression_of f g x) m = operandBody M s e x m"
  by (simp add: operandBody_def expression)

lemma attribute_body: "attributeBody L s e n (map_model_of f g x) = attributeBody M s e n x"
  by (simp add: attributeBody_def model)

end

interpretation modeler: carried "leafModeler fileName d" "newModeler fileName d"
    "\<lambda>op. (op, handleOperand fileName d op)" "handleAttribute fileName d" for fileName d
  by unfold_locales (simp_all add: leafModeler_def newModeler_def)

section \<open>The equations of the code\<close>

lemma handleOperand_eq:
  "handleOperand fileName d (OperandSyntax Start End expression members) =
     operandBody (newModeler fileName d) Start End expression members"
  by (simp add: modeler.operand_body)

lemma handleAttribute_eq:
  "handleAttribute fileName d (AttributeSyntax Start End name model) =
     attributeBody (newModeler fileName d) Start End name model"
  by (simp add: modeler.attribute_body)

end
