(* ===== verification/Modeler_Routines.thy ===== *)
theory Modeler_Routines
  imports Modeler_Props
begin

text \<open>
  From syntax to model, continued: the handlers of retired/scalyc0/Modeler.cpp for items,
  properties, parameters, initializers, functions and operators. The modeler \<open>M\<close> is the
  \<open>newModeler\<close> of Modeler in all that follows the code; the handlers here call each other
  without recursion.
\<close>

type_synonym the_modeler = "(operand_syntax, attribute_syntax) modeler"

section \<open>Items and parameters\<close>

definition handleItem :: "the_modeler \<Rightarrow> bool \<Rightarrow> item_syntax \<Rightarrow> item modelled" where
  "handleItem M Private Syntax = (case Syntax of ItemSyntax Start End name annotation attributes \<Rightarrow>
     withResult (optionally (\<lambda>a. case a of TypeAnnotationSyntax _ _ T \<Rightarrow> handleType T) annotation)
       (\<lambda>ItemType.
     withResult (collectOpt (modelAttribute M) attributes) (\<lambda>Attrs.
     Inr (Item (Span Start End) Private (Some name) ItemType Attrs))))"

definition handleProperty :: "the_modeler \<Rightarrow> bool \<Rightarrow> property_syntax \<Rightarrow> property modelled" where
  "handleProperty M Private Syntax = (case Syntax of
     PropertySyntax Start End name (TypeAnnotationSyntax _ _ T) initializer attributes \<Rightarrow>
     withResult (handleType T) (\<lambda>PropType.
     withResult
       (case initializer of
          Some (InitializerSyntax _ _ (Some operands)) \<Rightarrow>
            withResult (handleOperands M (Some operands)) (\<lambda>Ops. Inr (Some Ops))
        | _ \<Rightarrow> Inr None) (\<lambda>Init.
     withResult (collectOpt (modelAttribute M) attributes) (\<lambda>Attrs.
     Inr (Property (Span Start End) Private name PropType Init Attrs)))))"

text \<open>An item that cannot be modelled is left out.\<close>

fun modelledOnly :: "'a modelled list \<Rightarrow> 'a list" where
  "modelledOnly [] = []"
| "modelledOnly (Inl e # rs) = modelledOnly rs"
| "modelledOnly (Inr a # rs) = a # modelledOnly rs"

fun handleParameterSet :: "the_modeler \<Rightarrow> parameter_set_syntax \<Rightarrow> item list modelled" where
  "handleParameterSet M (ParameterSet_Parameters (ParametersSyntax _ _ items)) =
     Inr (case items of
            None \<Rightarrow> []
          | Some items \<Rightarrow> modelledOnly (map (handleItem M False) items))"
| "handleParameterSet M (ParameterSet_Type (TypeSyntax Start End name generics optional lifetime)) =
     Inr (case handleType (TypeSyntax Start End name generics optional lifetime) of
            Inr T \<Rightarrow> [Item (Span Start End) False None (Some T) []]
          | Inl _ \<Rightarrow> [])"

definition handleParameters :: "the_modeler \<Rightarrow> parameter_set_syntax option \<Rightarrow> item list modelled" where
  "handleParameters M parameters = (case parameters of
     None \<Rightarrow> Inr [] | Some p \<Rightarrow> handleParameterSet M p)"

fun handleUse :: "use_syntax \<Rightarrow> use_m modelled" where
  "handleUse (UseSyntax Start End name) = Inr (Use (Span Start End) (namePath name))"

definition handleGenericParameter ::
    "the_modeler \<Rightarrow> generic_parameter_syntax \<Rightarrow> generic_parameter modelled" where
  "handleGenericParameter M Syntax = (case Syntax of GenericParameterSyntax Start End name attributes \<Rightarrow>
     withResult (collectOpt (modelAttribute M) attributes) (\<lambda>Attrs.
     Inr (GenericParameter (Span Start End) name Attrs)))"

text \<open>The generic parameters of a routine are written as types; one is named by the first word
  of the type's name.\<close>

fun typeName :: "type_syntax \<Rightarrow> string" where
  "typeName (TypeSyntax _ _ (NameSyntax _ _ name _) _ _ _) = name"

fun extractGenericParams :: "generic_arguments_syntax \<Rightarrow> generic_parameter list" where
  "extractGenericParams (GenericArgumentsSyntax _ _ None) = []"
| "extractGenericParams (GenericArgumentsSyntax _ _ (Some generics)) =
     map (\<lambda>GA. case GA of GenericArgumentSyntax Start End T \<Rightarrow>
            GenericParameter (Span Start End) (typeName T) [])
       (filter (\<lambda>GA. case GA of GenericArgumentSyntax _ _ T \<Rightarrow> typeName T \<noteq> []) generics)"

definition genericParams :: "generic_arguments_syntax option \<Rightarrow> generic_parameter list" where
  "genericParams generics = (case generics of None \<Rightarrow> [] | Some g \<Rightarrow> extractGenericParams g)"

section \<open>Initializers\<close>

fun itemName :: "item \<Rightarrow> string option" where
  "itemName (Item _ _ name _ _) = name"

fun itemType :: "item \<Rightarrow> type_ref option" where
  "itemType (Item _ _ _ T _) = T"

text \<open>\<open>init#\<close> names the page of the new object by its first parameter, which is no input;
  the other lifetimes are reserved.\<close>

definition handleInitializer :: "the_modeler \<Rightarrow> init_syntax \<Rightarrow> bool \<Rightarrow> initializer_m modelled" where
  "handleInitializer M Syntax Private = (case Syntax of InitSyntax Start End lifetime parameters action \<Rightarrow>
     (let Loc = Span Start End;
          err = (\<lambda>Message. InvalidInitLifetimeError (File M) Loc Message) in
      case lifetime of
        Some (Lifetime_Reference _) \<Rightarrow>
          Inl (err ''init^ is reserved - use init# for page parameter'')
      | Some (Lifetime_Thrown _) \<Rightarrow>
          Inl (err ''init! is reserved - use init# for page parameter'')
      | _ \<Rightarrow>
          withResult (handleParameters M parameters) (\<lambda>Input.
          withResult
            (case lifetime of
               Some (Lifetime_Call _) \<Rightarrow>
                 (case Input of
                    [] \<Rightarrow> Inl (err ''init# requires a page parameter as first argument'')
                  | First # Rest \<Rightarrow> (case itemName First of
                        None \<Rightarrow> Inl (err ''init# page parameter must have a name'')
                      | Some Page \<Rightarrow> Inr (Some Page, Rest)))
             | _ \<Rightarrow> Inr (None, Input)) (\<lambda>(PageParameter, Input).
          withResult (handleAction M action) (\<lambda>Act.
          Inr \<lparr>init_Loc = Loc, init_Private = Private, init_PageParameter = PageParameter,
               init_Input = Input, init_Impl = Impl_Action Act\<rparr>)))))"

definition handleDeInitializer :: "the_modeler \<Rightarrow> de_init_syntax \<Rightarrow> deinitializer modelled" where
  "handleDeInitializer M Syntax = (case Syntax of DeInitSyntax Start End action \<Rightarrow>
     withResult (handleAction M action) (\<lambda>Act.
     Inr (DeInitializer (Span Start End) (Impl_Action Act))))"

section \<open>Functions and operators\<close>

fun handleImplementation :: "the_modeler \<Rightarrow> implementation_syntax \<Rightarrow> implementation modelled" where
  "handleImplementation M (Implementation_Action I) =
     withResult (handleAction M I) (\<lambda>Act. Inr (Impl_Action Act))"
| "handleImplementation M (Implementation_Extern (ExternSyntax Start End)) =
     Inr (Impl_Extern (Span Start End))"
| "handleImplementation M (Implementation_Instruction (InstructionSyntax Start End)) =
     Inr (Impl_Instruction (Span Start End))"
| "handleImplementation M (Implementation_Intrinsic (IntrinsicSyntax Start End)) =
     Inr (Impl_Intrinsic (Span Start End))"

definition handleReturns :: "returns_syntax option \<Rightarrow> type_ref option modelled" where
  "handleReturns returns = optionally (\<lambda>r. case r of ReturnsSyntax _ _ T _ \<Rightarrow> handleType T) returns"

definition handleThrows :: "throws_syntax option \<Rightarrow> type_ref option modelled" where
  "handleThrows throws = optionally (\<lambda>t. case t of ThrowsSyntax _ _ T _ \<Rightarrow> handleType T) throws"

text \<open>\<open>function#\<close>: a first parameter with a name and no type names the page and is no input;
  else the page is \<open>rp\<close>.\<close>

definition functionPage :: "lifetime_syntax option \<Rightarrow> item list \<Rightarrow> string option \<times> item list" where
  "functionPage lifetime Input = (case lifetime of
       Some (Lifetime_Call _) \<Rightarrow>
         (case Input of
            First # Rest \<Rightarrow>
              (case itemName First of
                 Some Page \<Rightarrow> if itemType First = None then (Some Page, Rest) else (Some ''rp'', Input)
               | None \<Rightarrow> (Some ''rp'', Input))
          | [] \<Rightarrow> (Some ''rp'', Input))
     | _ \<Rightarrow> (None, Input))"

definition buildFunction ::
    "the_modeler \<Rightarrow> nat \<Rightarrow> nat \<Rightarrow> target_syntax \<Rightarrow> bool \<Rightarrow> bool \<Rightarrow> function_m modelled" where
  "buildFunction M Start End Syntax Private Pure = (case Syntax of
       Target_Routine _ \<Rightarrow>
         Inl (NotImplementedError (File M) ''Non-Symbol Function'' (Span Start End))
     | Target_Named (NamedSyntax _ _ name
         (RoutineSyntax _ _ generics lifetime parameters _ returns throws implementation)) \<Rightarrow>
         (case lifetime of
            Some (Lifetime_Reference _) \<Rightarrow> Inl (InvalidInitLifetimeError (File M) (Span Start End)
              ''function^ is not supported - use function# for page parameter'')
          | Some (Lifetime_Thrown _) \<Rightarrow> Inl (InvalidInitLifetimeError (File M) (Span Start End)
              ''function! is not supported - use function# for page parameter'')
          | _ \<Rightarrow>
              withResult (handleParameters M parameters) (\<lambda>Params.
              let (PageParameter, Input) = functionPage lifetime Params in
              withResult (handleReturns returns) (\<lambda>Returns.
              withResult (handleThrows throws) (\<lambda>Throws.
              withResult (handleImplementation M implementation) (\<lambda>Impl.
              Inr \<lparr>fn_Loc = Span Start End, fn_Private = Private, fn_Pure = Pure, fn_Name = name,
                   fn_Parameters = genericParams generics, fn_PageParameter = PageParameter,
                   fn_Input = Input, fn_Returns = Returns, fn_Throws = Throws,
                   fn_Life = handleLifetime lifetime, fn_Impl = Impl\<rparr>))))))"

definition handleOperator :: "the_modeler \<Rightarrow> operator_syntax \<Rightarrow> bool \<Rightarrow> operator_m modelled" where
  "handleOperator M Syntax Private = (case Syntax of OperatorSyntax Start End target \<Rightarrow>
     (let build = (\<lambda>name routine. case routine of
            RoutineSyntax _ _ generics _ parameters _ returns throws implementation \<Rightarrow>
              withResult (handleParameters M parameters) (\<lambda>Input.
              withResult (handleReturns returns) (\<lambda>Returns.
              withResult (handleThrows throws) (\<lambda>Throws.
              withResult (handleImplementation M implementation) (\<lambda>Impl.
              Inr \<lparr>op_Loc = Span Start End, op_Private = Private, op_Name = name,
                   op_Parameters = genericParams generics, op_Input = Input,
                   op_Returns = Returns, op_Throws = Throws, op_Impl = Impl\<rparr>))))) in
      case target of
        Target_Routine T \<Rightarrow> build ''[]'' T
      | Target_Named (NamedSyntax _ _ name T) \<Rightarrow> build name T))"

end
