(* ===== verification/Lexer_Theorems.thy ===== *)
theory Lexer_Theorems
  imports Lexer_Inv
begin

text \<open>
  The properties of the lexer: the invariant of its states, progress, and what it makes of the
  text: nested comments, words, numbers, quoted text, line feeds in brackets.
\<close>

section \<open>Comments\<close>

text \<open>Where a comment that is \<open>d\<close> levels deep ends, by counting openers and closers.\<close>

fun comment_rest :: "nat \<Rightarrow> string \<Rightarrow> string" where
  "comment_rest 0 s = s"
| "comment_rest (Suc d) [] = []"
| "comment_rest (Suc d) [C] = []"
| "comment_rest (Suc d) (C # D # s) =
     (if C = CHR '';'' \<and> D = CHR ''*'' then comment_rest (Suc (Suc d)) s
      else if C = CHR ''*'' \<and> D = CHR '';'' then comment_rest d s
      else comment_rest (Suc d) (D # s))"

lemma comment_rest_handle:
  "comment_rest (Suc d) (Current lx) = comment_rest d (Current (handleMultiLineComment lx))"
proof (induction lx arbitrary: d rule: buffer_induct)
  case (less lx)
  have nil: "comment_rest e [] = []" for e by (cases e) simp_all
  show ?case
  proof (cases lx rule: buffer_cases)
    case null
    then show ?thesis by (simp add: handleMultiLineComment.simps [of lx] nil)
  next
    case (last C)
    then have "comment_rest d (Current (handleMultiLineComment (readCharacter lx))) = []"
      using less.IH [of "readCharacter lx" d] by simp
    with last show ?thesis
      by (simp add: handleMultiLineComment.simps [of lx] Let_def nil)
  next
    case (more C D rest)
    let ?lx1 = "readCharacter lx" and ?lx2 = "readCharacter (readCharacter lx)"
    have "comment_rest (Suc (Suc d)) (Current ?lx2)
        = comment_rest (Suc d) (Current (handleMultiLineComment ?lx2))"
      using more by (intro less.IH) simp
    moreover have "comment_rest (Suc d) (Current (handleMultiLineComment ?lx2))
        = comment_rest d (Current (handleMultiLineComment (handleMultiLineComment ?lx2)))"
      using more length_handleMultiLineComment [of ?lx2] by (intro less.IH) simp
    moreover have "comment_rest (Suc d) (Current ?lx1)
        = comment_rest d (Current (handleMultiLineComment ?lx1))"
      using more by (intro less.IH) simp
    ultimately show ?thesis
      using more by (simp add: handleMultiLineComment.simps [of lx] Let_def)
  qed
qed

text \<open>C3. A comment may hold comments: \<open>handleMultiLineComment\<close>, which recurses on every
  inner opener, stops exactly where counting openers against closers ends the comment, or at
  the end of the text when one is missing.\<close>

theorem nested_comment:
  "Current (handleMultiLineComment lx) = comment_rest 1 (Current lx)"
  using comment_rest_handle [of 0 lx] by simp

section \<open>Words and numbers\<close>

lemma skipWhitespace_set_token: "Token (skipWhitespace b (set_token r)) = fst r"
  by (simp add: set_token_def)

lemma operator_start_word: "is_letter C \<Longrightarrow> C \<notin> set operator_start"
  by (auto simp: is_letter_def operator_start_def)

text \<open>The number at the start of a text, read by spans of digits: a fraction after a point, an
  exponent after an \<open>E\<close>.\<close>

fun exponent_part :: "string \<Rightarrow> string" where
  "exponent_part [] = []"
| "exponent_part (E # s) =
     (if E = CHR ''E'' \<or> E = CHR ''e'' then E # takeWhile is_digit s else [])"

fun fraction_part :: "string \<Rightarrow> string" where
  "fraction_part [] = []"
| "fraction_part (C # s) =
     (if C = CHR ''.'' then C # takeWhile is_digit s @ exponent_part (dropWhile is_digit s)
      else exponent_part (C # s))"

definition number_literal :: "string \<Rightarrow> literal" where
  "number_literal s =
     (let ds = takeWhile is_digit s; q = fraction_part (dropWhile is_digit s) in
      if q = [] then IntegerLiteral ds else FloatingPointLiteral (ds @ q))"

lemma take_takeWhile: "take (length (takeWhile P s)) s = takeWhile P s"
  by (metis append_eq_conv_conj takeWhile_dropWhile_id)

lemma drop_takeWhile: "drop (length (takeWhile P s)) s = dropWhile P s"
  by (metis append_eq_conv_conj takeWhile_dropWhile_id)

lemma take_takeWhile_pre:
  "take (Suc (length pre + length (takeWhile P s))) (pre @ D # s) = pre @ D # takeWhile P s"
  by (simp add: take_takeWhile)

text \<open>Each scanner of a number, entered at \<open>D\<close> after \<open>pre\<close>.\<close>

lemma scanExponent_token:
  "Current lx = D # s \<Longrightarrow>
     fst (scanExponent (pre @ D # s) (length pre) lx) =
       LiteralToken (FloatingPointLiteral (pre @ D # takeWhile is_digit s))"
  by (simp add: scanExponent_eq Let_def string_ref_def take_takeWhile)

lemma scanFraction_token:
  assumes "Current lx = D # s"
  shows "fst (scanFraction (pre @ D # s) (length pre) lx) = LiteralToken (FloatingPointLiteral
    (pre @ D # takeWhile is_digit s @ exponent_part (dropWhile is_digit s)))"
proof -
  define w where "w = takeWhile is_digit s"
  define lx' where "lx' = read_n (Suc (length w)) lx"
  have cur: "Current lx' = dropWhile is_digit s"
    by (simp add: lx'_def assms w_def drop_takeWhile)
  have s: "s = w @ dropWhile is_digit s" by (simp add: w_def)
  note eq = scanFraction_eq assms list.sel w_def [symmetric] lx'_def [symmetric] Let_def cur
  have len: "length (pre @ D # w) = Suc (length pre + length w)" by simp
  show ?thesis
  proof (cases "dropWhile is_digit s")
    case Nil
    then have "s = w" using s by (simp only: append_Nil2)
    then show ?thesis unfolding eq Nil list.case by (simp add: string_ref_def)
  next
    case (Cons E q)
    have start: "pre @ D # s = (pre @ D # w) @ E # q" using s Cons by simp
    have ref: "string_ref (pre @ D # s) (Suc (length pre + length w)) = pre @ D # w"
      unfolding start len [symmetric] by (simp add: string_ref_def)
    from scanExponent_token [of lx' E q "pre @ D # w"] cur Cons show ?thesis
      unfolding eq Cons list.case ref start [symmetric] len by auto
  qed
qed

lemma scanIntegerLiteral_token:
  assumes "Current lx = D # s" "is_digit D"
  shows "fst (scanIntegerLiteral (D # s) 0 lx) = LiteralToken (number_literal (D # s))"
proof -
  define w where "w = takeWhile is_digit s"
  define lx' where "lx' = read_n (Suc (length w)) lx"
  have cur: "Current lx' = dropWhile is_digit s"
    by (simp add: lx'_def assms w_def drop_takeWhile)
  have s: "s = w @ dropWhile is_digit s" by (simp add: w_def)
  have spans: "takeWhile is_digit (D # s) = D # w" "dropWhile is_digit (D # s) = dropWhile is_digit s"
    using assms(2) by (simp_all add: w_def)
  note eq = scanIntegerLiteral_eq assms(1) list.sel w_def [symmetric] lx'_def [symmetric] Let_def cur
    number_literal_def spans add_0
  show ?thesis
  proof (cases "dropWhile is_digit s")
    case Nil
    then have "s = w" using s by (simp only: append_Nil2)
    then show ?thesis unfolding eq Nil list.case by (simp add: string_ref_def)
  next
    case (Cons C r)
    have start: "D # s = (D # w) @ C # r" using s Cons by simp
    have len: "length (D # w) = Suc (length w)" by simp
    have ref: "string_ref (D # s) (Suc (length w)) = D # w"
      unfolding start len [symmetric] by (simp add: string_ref_def)
    from scanFraction_token [of lx' C r "D # w"] scanExponent_token [of lx' C r "D # w"] cur Cons
    show ?thesis
      unfolding eq Cons list.case ref start [symmetric] len by auto
  qed
qed

lemma Token_advance_number:
  assumes "Current lx = C # s" "CHR ''1'' \<le> C" "C \<le> CHR ''9''"
  shows "Token (advance lx) = LiteralToken (number_literal (C # s))"
proof -
  have "is_digit C" using assms by (simp add: is_digit_def less_eq_char_def)
  moreover have "\<not> is_letter C"
    using assms by (auto simp: is_letter_def less_eq_char_def)
  ultimately show ?thesis
    using assms scanIntegerLiteral_token [of "lx\<lparr>PreviousPosition := Position lx\<rparr>" C s]
    by (simp add: advance_def Let_def set_token_def)
qed

text \<open>A text that starts with a digit other than 0 is a number: its digits, a fraction and an
  exponent as far as they go, an integer when there is neither.\<close>

theorem number_token:
  assumes "Current lx = C # s" "CHR ''1'' \<le> C" "C \<le> CHR ''9''"
  shows "Token (advance lx) = LiteralToken (number_literal (C # s))"
  using assms by (rule Token_advance_number)

theorem number_token_witness:
  "Token (advance (newLexer ''12.50e3+x'')) = LiteralToken (FloatingPointLiteral ''12.50e3'')"
proof -
  have "Token (advance (newLexer ''12.50e3+x'')) = LiteralToken (number_literal ''12.50e3+x'')"
    by (rule number_token) code_simp+
  also have "number_literal ''12.50e3+x'' = FloatingPointLiteral ''12.50e3''" by code_simp
  finally show ?thesis .
qed

lemma Token_advance_word:
  assumes "Current lx = C # s" "is_letter C"
  shows "Token (advance lx) = IdentifierToken (C # takeWhile is_word_char s)"
  using assms
  by (simp add: advance_def Let_def set_token_def scanIdentifier_def scanIdentifierLoop_eq
      is_letter_word string_ref_def take_takeWhile)

lemma operator_start_no_letter:
  "C \<in> set operator_start \<Longrightarrow> \<not> is_letter C \<and> \<not> (CHR ''1'' \<le> C \<and> C \<le> CHR ''9'')"
  by (auto simp: operator_start_def is_letter_def less_eq_char_def)

lemma Token_advance_operator:
  assumes "Current lx = C # s" "C \<in> set operator_start"
  shows "Token (advance lx) = (if s = [] then InvalidToken
    else IdentifierToken (C # takeWhile (\<lambda>D. D \<in> set operator_continue) s))"
  using assms operator_start_no_letter [OF assms(2)]
  by (auto simp: advance_def Let_def set_token_def scanOperator_def scanOperatorLoop_eq
      string_ref_def take_takeWhile)

text \<open>Maximal munch: a letter starts a word of all the letters, digits and underscores that
  follow; an operator character starts an operator of all the operator characters that follow.
  An operator character that ends the text is no token.\<close>

theorem word_token:
  assumes "Current lx = C # s"
  shows "(is_letter C \<longrightarrow>
      Token (advance lx) = IdentifierToken (C # takeWhile is_word_char s)) \<and>
    (C \<in> set operator_start \<longrightarrow>
      Token (advance lx) = (if s = [] then InvalidToken
        else IdentifierToken (C # takeWhile (\<lambda>D. D \<in> set operator_continue) s)))"
  using Token_advance_word [OF assms] Token_advance_operator [OF assms] by simp

theorem word_token_witness:
  "Token (advance (newLexer ''a_1+=b'')) = IdentifierToken ''a_1''"
proof -
  have "Current (newLexer ''a_1+=b'') = CHR ''a'' # ''_1+=b''" by code_simp
  from word_token [OF this] show ?thesis by (simp add: is_letter_def is_word_char_def less_eq_char_def)
qed

section \<open>Quoted text\<close>

text \<open>A text as it is written between quotation marks.\<close>

fun escape :: "string \<Rightarrow> string" where
  "escape [] = []"
| "escape (C # s) = (if C = CHR 0x22 \<or> C = CHR 0x5C then CHR 0x5C # C # escape s else C # escape s)"

lemma quoted_body_escape:
  "quoted_body (CHR 0x22) (escape t @ CHR 0x22 # r) = Some (length (escape t))"
proof (induction t)
  case (Cons C t)
  then show ?case by (auto simp: escapable_def)
qed simp

lemma Token_advance_string:
  assumes "Current lx = CHR 0x22 # s"
  shows "Token (advance lx) = (case quoted_body (CHR 0x22) s of
      None \<Rightarrow> InvalidToken | Some k \<Rightarrow> LiteralToken (StringLiteral (take k s)))"
proof -
  let ?lx = "lx\<lparr>PreviousPosition := Position lx\<rparr>"
  have "Token (advance lx) = fst (scanStringLiteral ?lx)"
    using assms by (simp add: advance_def Let_def set_token_def is_letter_def operator_start_def
        less_eq_char_def)
  with assms scanQuotedLoop_eq [where q = "CHR 0x22" and lx = ?lx and n = 0 and Start = s
    and f = "\<lambda>s. LiteralToken (StringLiteral s)"] show ?thesis
    by (simp add: scanStringLiteral_def string_ref_def split: option.splits)
qed

text \<open>A string literal is the token of what stands between its quotation marks.\<close>

lemma string_token_escape:
  assumes "Current lx = CHR 0x22 # escape t @ CHR 0x22 # r"
  shows "Token (advance lx) = LiteralToken (StringLiteral (escape t))"
  using Token_advance_string [OF assms] by (simp add: quoted_body_escape)

section \<open>Line feeds\<close>

lemma no_colon:
  "fst (scanIdentifier lx) \<noteq> ColonToken" "fst (scanOperator lx) \<noteq> ColonToken"
  "fst (scanAttribute lx) \<noteq> ColonToken" "fst (scanIntegerLiteral p n lx) \<noteq> ColonToken"
  "fst (scanNumericLiteral lx) \<noteq> ColonToken" "fst (scanStringLiteral lx) \<noteq> ColonToken"
  "fst (scanFragmentLiteral lx) \<noteq> ColonToken" "fst (scanStringIdentifier lx) \<noteq> ColonToken"
proof -
  have E: "fst (scanExponent p n lx) \<noteq> ColonToken" for p n lx
    by (simp add: scanExponent_eq Let_def)
  have F: "fst (scanFraction p n lx) \<noteq> ColonToken" for p n lx
    using E by (auto simp: scanFraction_eq Let_def split: list.split)
  show I: "fst (scanIntegerLiteral p n lx) \<noteq> ColonToken" for p n lx
    using E F by (auto simp: scanIntegerLiteral_eq Let_def split: list.split)
  show "fst (scanNumericLiteral lx) \<noteq> ColonToken"
    using E F I by (auto simp: scanNumericLiteral_def scanHexLiteral_eq scanBooleanLiteral_def Let_def
        split: list.split)
  show "fst (scanStringLiteral lx) \<noteq> ColonToken"
    using scanQuotedLoop_eq [where q = "CHR 0x22" and lx = lx and n = 0 and
        Start = "tl (Current lx)" and f = "\<lambda>s. LiteralToken (StringLiteral s)"]
    by (auto simp: scanStringLiteral_def split: option.splits)
  show "fst (scanStringIdentifier lx) \<noteq> ColonToken"
    using scanQuotedLoop_eq [where q = "CHR 0x27" and lx = lx and n = 0 and
        Start = "tl (Current lx)" and f = IdentifierToken]
    by (auto simp: scanStringIdentifier_def split: option.splits)
  show "fst (scanFragmentLiteral lx) \<noteq> ColonToken"
    using scanFragmentLoop_eq [where lx = lx and n = 0 and Start = "tl (Current lx)"]
    by (auto simp: scanFragmentLiteral_def split: option.splits)
qed (simp_all add: scanIdentifier_def scanIdentifierLoop_eq scanOperator_def scanOperatorLoop_eq
    scanAttribute_def scanAttributeLoop_eq Let_def)

lemma advance_colon:
  assumes "Current lx = C # s" "Token (advance lx) = ColonToken"
  shows "C = CHR ''\<newline>'' \<or> C = CHR '':''"
proof (rule ccontr)
  assume "\<not> ?thesis"
  with assms show False
    by (auto simp: advance_def Let_def set_token_def no_colon split: if_splits)
qed

text \<open>Inside parentheses or brackets a line feed separates nothing: in every state the lexer
  can be in with an open bracket, a colon token was written as a colon.\<close>

theorem no_colon_in_brackets:
  assumes "reachable_lexer src lx" "NestingLevel lx > 0" "Current lx \<noteq> []"
    "Token (advance lx) = ColonToken"
  shows "hd (Current lx) = CHR '':''"
proof -
  obtain C s where C: "Current lx = C # s" using assms(3) by (cases "Current lx") auto
  with reachable_lexer_ok [OF assms(1)] assms(2) have "C \<noteq> CHR ''\<newline>''"
    by (simp add: lexer_ok_def)
  with advance_colon [OF C assms(4)] C show ?thesis by simp
qed

theorem no_colon_in_brackets_witness:
  "hd (Current (advance (advance (newLexer ''(a: b)'')))) = CHR '':''"
  by (rule no_colon_in_brackets [where src = "''(a: b)''"])
    ((intro reachable_lexer.intros), code_simp+)

section \<open>States\<close>

text \<open>C10. Whatever the parser does with a lexer, the pointer, the offset and the source agree, the
  previous offset is behind the offset, the offset never passes the end of the source, and a
  punctuation token is one of the signs the language knows.\<close>

theorem lexer_state_invariant:
  assumes "reachable_lexer src lx"
  shows "Source lx = src \<and> Position lx \<le> length src \<and> Current lx = drop (Position lx) src \<and>
    PreviousPosition lx \<le> Position lx \<and> token_ok (Token lx)"
  using reachable_lexer_ok [OF assms] by (simp add: lexer_ok_def located_def)

theorem lexer_state_invariant_witness:
  "Current (advance (newLexer ''ab cd'')) = drop (Position (advance (newLexer ''ab cd''))) ''ab cd''"
  using lexer_state_invariant [OF reachable_lexer.advance [OF reachable_lexer.new]] by blast

text \<open>C11. Progress: away from the end of the text \<open>advance\<close> always stores a token, notes where it
  started, and either reads at least a character or stores the invalid token, so that no
  loop over tokens stands still unnoticed.\<close>

theorem advance_progress:
  assumes "\<not> isAtEnd lx"
  shows "Token (advance lx) \<noteq> EmptyToken \<and> PreviousPosition (advance lx) = Position lx \<and>
    (Token (advance lx) = InvalidToken \<or>
     length (Current (advance lx)) < length (Current lx))"
  using assms advance_progress_aux [of lx] by (simp add: isAtEnd_def)

theorem advance_progress_witness:
  "Token (advance (newLexer ''%a'')) \<noteq> EmptyToken"
  using advance_progress [of "newLexer ''%a''"] by (simp add: isAtEnd_def, code_simp)

text \<open>Backtracking is exact: \<open>restore\<close> brings back every field of the saved state, since the one
  field it does not save never changes.\<close>

theorem restore_exact:
  assumes "reachable_lexer src lx" "reachable_lexer src S"
  shows "restore S lx = S"
  using assms by (simp add: reachable_lexer_ok lexer_ok_restore [of src])

theorem restore_exact_witness:
  "restore (newLexer ''a b'') (advance (newLexer ''a b'')) = newLexer ''a b''"
  by (rule restore_exact [OF reachable_lexer.advance [OF reachable_lexer.new] reachable_lexer.new])

end
