(* ===== verification/Lexer_Roundtrip.thy ===== *)
theory Lexer_Roundtrip
  imports Lexer_Theorems
begin

text \<open>
  Printing and reading back: a client that calls \<open>advance\<close> to the end of a text printed from
  tokens, with a blank after each, sees those tokens.
\<close>

text \<open>The tokens a client sees that calls \<open>advance\<close> until the end or an invalid token.\<close>

function tokens :: "lexer \<Rightarrow> token list" where
  "tokens lx =
     (if isAtEnd lx then []
      else if Token (advance lx) = InvalidToken then [InvalidToken]
      else Token (advance lx) # tokens (advance lx))"
  by pat_completeness auto
termination
  by (relation "measure (\<lambda>lx. length (Current lx))")
    (use advance_progress_aux(4) in \<open>auto simp: isAtEnd_def\<close>)

declare tokens.simps [simp del]

text \<open>What may stand between quotation marks: no bare quotation mark, no bare backslash.\<close>

fun escaped :: "string \<Rightarrow> bool" where
  "escaped [] \<longleftrightarrow> True"
| "escaped [C] \<longleftrightarrow> C \<noteq> CHR 0x22 \<and> C \<noteq> CHR 0x5C"
| "escaped (C # D # s) \<longleftrightarrow> C \<noteq> CHR 0x22 \<and>
     (if C = CHR 0x5C then D \<in> set escapable \<and> escaped s else escaped (D # s))"

fun printable :: "token \<Rightarrow> bool" where
  "printable (IdentifierToken (C # s)) \<longleftrightarrow> is_letter C \<and> list_all is_word_char s"
| "printable (AttributeToken s) \<longleftrightarrow> s \<noteq> [] \<and> list_all is_word_char s"
| "printable (PunctuationToken C) \<longleftrightarrow> C \<in> set punctuation"
| "printable ColonToken \<longleftrightarrow> True"
| "printable (LiteralToken (IntegerLiteral (C # s))) \<longleftrightarrow>
     CHR ''1'' \<le> C \<and> C \<le> CHR ''9'' \<and> list_all is_digit s"
| "printable (LiteralToken (StringLiteral s)) \<longleftrightarrow> escaped s"
| "printable _ \<longleftrightarrow> False"

fun print_token :: "token \<Rightarrow> string" where
  "print_token (IdentifierToken s) = s"
| "print_token (AttributeToken s) = CHR ''@'' # s"
| "print_token (PunctuationToken C) = [C]"
| "print_token ColonToken = '':''"
| "print_token (LiteralToken (IntegerLiteral s)) = s"
| "print_token (LiteralToken (StringLiteral s)) = CHR 0x22 # s @ [CHR 0x22]"
| "print_token _ = []"

definition print_tokens :: "token list \<Rightarrow> string" where
  "print_tokens ts = concat (map (\<lambda>t. print_token t @ '' '') ts)"

section \<open>One token and the blank behind it\<close>

definition settled :: "string \<Rightarrow> bool" where
  "settled r \<longleftrightarrow> r = [] \<or> hd r \<notin> set [CHR '' '', CHR 0x09, CHR 0x0D, CHR 0x0A, CHR 0x5C, CHR '';'']"

lemma skip_settled: "settled (Current lx) \<Longrightarrow> skipWhitespace b lx = lx"
  by (cases "Current lx") (auto simp: skipWhitespace.simps [of b lx] settled_def)

lemma skip_blank:
  "Current lx = CHR '' '' # r \<Longrightarrow> settled r \<Longrightarrow> skipWhitespace b lx = readCharacter lx"
  by (simp add: skipWhitespace.simps [of b lx] skip_settled)

lemma no_blank_word:
  "\<not> is_word_char CHR '' ''" "\<not> is_digit CHR '' ''" "CHR '' '' \<noteq> CHR ''.''"
  by (simp_all add: is_word_char_def is_digit_def)

lemma takeWhile_blank:
  "list_all P s \<Longrightarrow> \<not> P (CHR '' '') \<Longrightarrow> takeWhile P (s @ CHR '' '' # r) = s"
  by (induction s) auto

lemma dropWhile_blank:
  "list_all P s \<Longrightarrow> \<not> P (CHR '' '') \<Longrightarrow> dropWhile P (s @ CHR '' '' # r) = CHR '' '' # r"
  by (induction s) auto

lemma settled_print:
  assumes "printable t" shows "settled (print_token t @ r)"
  using assms
  by (cases t rule: printable.cases)
    (auto simp: settled_def is_letter_def punctuation_def less_eq_char_def)

text \<open>The state after a token that ends at the blank.\<close>

lemma after_token:
  assumes "Current lx' = CHR '' '' # r" "settled r"
  shows "Current (skipWhitespace b (lx'\<lparr>Token := t\<rparr>)) = r"
  using assms by (simp add: skip_blank)

lemma quoted_body_escaped:
  "escaped s \<Longrightarrow> quoted_body (CHR 0x22) (s @ CHR 0x22 # r) = Some (length s)"
  by (induction s rule: escaped.induct) (auto split: if_splits)

lemma read_n_print:
  "Current lx = s @ CHR '' '' # r \<Longrightarrow> settled r \<Longrightarrow> n = length s \<Longrightarrow>
     Current (skipWhitespace b ((read_n n lx)\<lparr>Token := t\<rparr>)) = r"
  by (rule after_token) simp_all

lemma read_1_print:
  "Current lx = C # CHR '' '' # r \<Longrightarrow> settled r \<Longrightarrow>
     Current (skipWhitespace b ((readCharacter lx)\<lparr>Token := t\<rparr>)) = r"
  by (rule after_token) simp_all

lemma print_word:
  assumes "is_letter C" "list_all is_word_char s" "Current lx = C # s @ CHR '' '' # r" "settled r"
  shows "Token (advance lx) = IdentifierToken (C # s)" "Current (advance lx) = r"
proof -
  have w: "takeWhile is_word_char (Current lx) = C # s"
    using assms by (simp add: is_letter_word takeWhile_blank no_blank_word)
  show "Token (advance lx) = IdentifierToken (C # s)"
    using Token_advance_word [OF assms(3,1)] assms(2) by (simp add: takeWhile_blank no_blank_word)
  show "Current (advance lx) = r"
    using assms w
    by (simp add: advance_def Let_def set_token_def scanIdentifier_def scanIdentifierLoop_eq
        read_n_print [where s = "C # s"])
qed

lemma print_number:
  assumes "CHR ''1'' \<le> C" "C \<le> CHR ''9''" "list_all is_digit s"
    "Current lx = C # s @ CHR '' '' # r" "settled r"
  shows "Token (advance lx) = LiteralToken (IntegerLiteral (C # s))" "Current (advance lx) = r"
proof -
  have C: "is_digit C" "\<not> is_letter C"
    using assms(1,2) by (auto simp: is_digit_def is_letter_def less_eq_char_def)
  show "Token (advance lx) = LiteralToken (IntegerLiteral (C # s))"
    using Token_advance_number [OF assms(4,1,2)] assms(3) C
    by (simp add: number_literal_def Let_def takeWhile_blank dropWhile_blank no_blank_word)
  show "Current (advance lx) = r"
    using assms C
    by (simp add: advance_def Let_def set_token_def scanIntegerLiteral_eq takeWhile_blank
        no_blank_word read_n_print [where s = "C # s"])
qed

lemma print_attribute:
  assumes "s \<noteq> []" "list_all is_word_char s" "Current lx = CHR ''@'' # s @ CHR '' '' # r" "settled r"
  shows "Token (advance lx) = AttributeToken s" "Current (advance lx) = r"
  using assms
  by (simp_all add: advance_def Let_def set_token_def scanAttribute_def scanAttributeLoop_eq
      takeWhile_blank no_blank_word string_ref_def is_letter_def operator_start_def
      less_eq_char_def read_n_Suc [symmetric] read_n_print [where s = "CHR ''@'' # s"])

lemma print_string:
  assumes "escaped s" "Current lx = CHR 0x22 # s @ CHR 0x22 # CHR '' '' # r" "settled r"
  shows "Token (advance lx) = LiteralToken (StringLiteral s)" "Current (advance lx) = r"
proof -
  let ?lx = "lx\<lparr>PreviousPosition := Position lx\<rparr>"
  show "Token (advance lx) = LiteralToken (StringLiteral s)"
    using Token_advance_string [OF assms(2)] quoted_body_escaped [OF assms(1)] by simp
  have "advance lx = skipWhitespace False (set_token (scanStringLiteral ?lx))"
    using assms(2) by (simp add: advance_def Let_def is_letter_def operator_start_def
        less_eq_char_def)
  moreover have "snd (scanStringLiteral ?lx) = read_n (length s + 2) ?lx"
    using scanQuotedLoop_eq [where q = "CHR 0x22" and lx = ?lx and n = 0 and Start = "tl (Current ?lx)"
      and f = "\<lambda>s. LiteralToken (StringLiteral s)"] assms(2) quoted_body_escaped [OF assms(1)]
    by (simp add: scanStringLiteral_def)
  ultimately show "Current (advance lx) = r"
    using assms(2,3)
    by (simp add: set_token_def read_n_print [where s = "CHR 0x22 # s @ [CHR 0x22]"])
qed

lemma print_colon:
  assumes "Current lx = CHR '':'' # CHR '' '' # r" "settled r"
  shows "Token (advance lx) = ColonToken" "Current (advance lx) = r"
  using assms
  by (simp_all add: advance_def Let_def is_letter_def operator_start_def less_eq_char_def
      read_1_print)

lemma print_sign:
  assumes "C \<in> set punctuation" "Current lx = C # CHR '' '' # r" "settled r"
  shows "Token (advance lx) = PunctuationToken C \<and> Current (advance lx) = r"
proof -
  have "C = CHR '')'' \<or> C = CHR '']'' \<or> C = CHR ''}'' \<or> C = CHR ''.'' \<or> C = CHR ''?'' \<or> C = CHR ''!''
    \<or> C = CHR ''$'' \<or> C = CHR ''#'' \<or> C = CHR ''^'' \<or> C = CHR ''('' \<or> C = CHR ''['' \<or> C = CHR ''{''
    \<or> C = CHR '',''"
    using assms(1) by (simp add: punctuation_def)
  then show ?thesis
    using assms(2,3)
    by (elim disjE)
      (simp_all add: advance_def Let_def is_letter_def operator_start_def less_eq_char_def
        read_1_print)
qed

lemma print_token_lexed:
  assumes "printable t" "Current lx = print_token t @ CHR '' '' # r" "settled r"
  shows "Token (advance lx) = t \<and> Current (advance lx) = r"
proof (cases t rule: printable.cases)
  case (1 C s)
  then show ?thesis using assms print_word [of C s lx r] by simp
next
  case (2 s)
  then show ?thesis using assms print_attribute [of s lx r] by simp
next
  case (3 C)
  then show ?thesis using assms print_sign [of C lx r] by simp
next
  case 4
  then show ?thesis using assms print_colon [of lx r] by simp
next
  case (5 C s)
  then show ?thesis using assms print_number [of C s lx r] by simp
next
  case (6 s)
  then show ?thesis using assms print_string [of s lx r] by simp
qed (use assms(1) in simp_all)

section \<open>The round trip\<close>

lemma settled_print_tokens: "list_all printable ts \<Longrightarrow> settled (print_tokens ts)"
  by (cases ts) (simp_all add: print_tokens_def settled_print, simp add: settled_def)

lemma tokens_print:
  "list_all printable ts \<Longrightarrow> Current lx = print_tokens ts \<Longrightarrow> tokens lx = ts"
proof (induction ts arbitrary: lx)
  case Nil
  then show ?case by (simp add: tokens.simps isAtEnd_def print_tokens_def)
next
  case (Cons t ts)
  have cur: "Current lx = print_token t @ CHR '' '' # print_tokens ts"
    using Cons.prems by (simp add: print_tokens_def)
  have t: "printable t" "settled (print_tokens ts)"
    using Cons.prems settled_print_tokens by simp_all
  note A = conjunct1 [OF print_token_lexed [OF t(1) cur t(2)]]
    conjunct2 [OF print_token_lexed [OF t(1) cur t(2)]]
  have "t \<noteq> InvalidToken" using t(1) by auto
  with A Cons.IH [OF _ A(2)] Cons.prems(1) cur show ?case
    by (simp add: tokens.simps [of lx] isAtEnd_def)
qed

text \<open>C4. Round trip: any list of words, attributes, signs, colons, numbers and string literals,
  printed with a blank after each, is read back by the lexer token by token.\<close>

theorem print_read:
  assumes "list_all printable ts"
  shows "tokens (newLexer (print_tokens ts)) = ts"
proof (rule tokens_print [OF assms])
  show "Current (newLexer (print_tokens ts)) = print_tokens ts"
    using settled_print_tokens [OF assms]
    by (simp add: newLexer_def Let_def skip_settled)
qed

theorem print_read_witness:
  "tokens (newLexer (print_tokens [IdentifierToken ''define'', PunctuationToken CHR ''('',
     LiteralToken (IntegerLiteral ''42''), ColonToken, AttributeToken ''x''])) =
   [IdentifierToken ''define'', PunctuationToken CHR ''('',
     LiteralToken (IntegerLiteral ''42''), ColonToken, AttributeToken ''x'']"
  by (rule print_read, code_simp)

end
