(* ===== verification/Modeler_Theorems.thy ===== *)
theory Modeler_Theorems
  imports Modeler_Routines Lexer_Roundtrip
begin

text \<open>
  What the modeler promises: literals have the value their text spells, types are modelled
  without an error, the operands of an operation are cut into statements, the page parameter
  of a routine is taken from its parameters, and the recursion of the class is the one of its
  equations.
\<close>

lemma File_newModeler [simp]: "File (newModeler fileName d) = fileName"
  by (simp add: newModeler_def)

section \<open>String literals\<close>

lemma processEscapes_escape: "processEscapes (escape t) = t"
  by (induction t rule: escape.induct) simp_all

text \<open>C5. Every text can be written as a string constant: with a backslash before each quotation
  mark and each backslash, the lexer returns exactly what stands between the quotation marks,
  whatever follows, and the modeler turns that back into the text.\<close>

theorem string_constant:
  assumes "Current lx = CHR 0x22 # escape t @ CHR 0x22 # r"
  shows "Token (advance lx) = LiteralToken (StringLiteral (escape t)) \<and>
    handleLiteral M (LiteralSyntax Start End (StringLiteral (escape t))) =
      Inr (StringConstant (Span Start End) t)"
  using string_token_escape [OF assms] by (simp add: handleLiteral_def processEscapes_escape)

theorem string_constant_witness:
  "Token (advance (newLexer [CHR 0x22, CHR ''a'', CHR 0x5C, CHR 0x22, CHR 0x22, CHR ''b''])) =
      LiteralToken (StringLiteral [CHR ''a'', CHR 0x5C, CHR 0x22]) \<and>
    handleLiteral (newModeler ''f.scaly'' Map.empty)
        (LiteralSyntax 0 5 (StringLiteral [CHR ''a'', CHR 0x5C, CHR 0x22])) =
      Inr (StringConstant (Span 0 5) [CHR ''a'', CHR 0x22])"
proof -
  have "Current (newLexer [CHR 0x22, CHR ''a'', CHR 0x5C, CHR 0x22, CHR 0x22, CHR ''b'']) =
      CHR 0x22 # escape [CHR ''a'', CHR 0x22] @ CHR 0x22 # ''b''" by code_simp
  from string_constant [OF this] show ?thesis by simp
qed

section \<open>Unicode escapes\<close>

text \<open>A decoder of UTF-8 for sequences of up to three bytes, after the standard: it refuses longer
  forms than the shortest one and the surrogates.\<close>

definition surrogate :: "nat \<Rightarrow> bool" where
  "surrogate n \<longleftrightarrow> 0xD800 \<le> n \<and> n < 0xE000"

definition continues :: "nat \<Rightarrow> bool" where
  "continues b \<longleftrightarrow> 0x80 \<le> b \<and> b < 0xC0"

fun utf8_decode :: "nat list \<Rightarrow> nat list option" where
  "utf8_decode [] = Some []"
| "utf8_decode (a # r) =
     (if a < 0x80 then map_option ((#) a) (utf8_decode r)
      else if 0xC0 \<le> a \<and> a < 0xE0 then
        (case r of
           b # r' \<Rightarrow>
             (let n = (a - 0xC0) * 0x40 + (b - 0x80) in
              if continues b \<and> 0x80 \<le> n then map_option ((#) n) (utf8_decode r') else None)
         | _ \<Rightarrow> None)
      else if 0xE0 \<le> a \<and> a < 0xF0 then
        (case r of
           b # c # r' \<Rightarrow>
             (let n = (a - 0xE0) * 0x1000 + (b - 0x80) * 0x40 + (c - 0x80) in
              if continues b \<and> continues c \<and> 0x800 \<le> n \<and> \<not> surrogate n
              then map_option ((#) n) (utf8_decode r') else None)
         | _ \<Rightarrow> None)
      else None)"

text \<open>The escape sequence of a code point, with lower case digits.\<close>

definition hex_char :: "nat \<Rightarrow> char" where
  "hex_char n = ''0123456789abcdef'' ! n"

definition unicode_escape :: "nat \<Rightarrow> string" where
  "unicode_escape n = [CHR 0x5C, CHR ''u'', hex_char (n div 0x1000), hex_char (n div 0x100 mod 0x10),
     hex_char (n div 0x10 mod 0x10), hex_char (n mod 0x10)]"

lemma hexDigit_hex_char: "n < 16 \<Longrightarrow> hexDigit (hex_char n) = Some n"
proof -
  have "\<forall>n\<in>set [0..<16]. hexDigit (hex_char n) = Some n" by code_simp
  then show "n < 16 \<Longrightarrow> hexDigit (hex_char n) = Some n" by simp
qed

lemma digits_step: "(b::nat) * (n div (k * b)) + n div k mod b = n div k"
  by (simp add: div_mult2_eq)

lemma processEscapes_unicode_escape:
  assumes "n < 0x10000"
  shows "processEscapes (unicode_escape n @ s) = utf8 n @ processEscapes s"
proof -
  have "n div 0x1000 < 16" using assms by (simp add: div_less_iff_less_mult)
  then have "hexNumber 0 [hex_char (n div 0x1000), hex_char (n div 0x100 mod 0x10),
      hex_char (n div 0x10 mod 0x10), hex_char (n mod 0x10)] =
    Some (16 * (16 * (16 * (n div 0x1000) + n div 0x100 mod 0x10) + n div 0x10 mod 0x10) + n mod 0x10)"
    by (simp add: hexDigit_hex_char)
  also have "\<dots> = Some n"
    using digits_step [where b = 16 and n = n and k = "0x100"] digits_step [where b = 16 and n = n and k = "0x10"] digits_step [where b = 16 and n = n and k = "1"] by simp
  finally show ?thesis by (simp add: unicode_escape_def)
qed

lemma utf8_decode_utf8:
  assumes "n < 0x10000"
  shows "utf8_decode (map of_char (utf8 n) @ s) =
    (if surrogate n then None else map_option ((#) n) (utf8_decode s))"
proof -
  consider "n < 0x80" | "0x80 \<le> n" "n < 0x800" | "0x800 \<le> n" by linarith
  then show ?thesis
  proof cases
    case 1
    then show ?thesis by (simp add: utf8_def surrogate_def)
  next
    case 2
    define a b where "a = n div 0x40" and "b = n mod 0x40"
    have n: "n = a * 0x40 + b" and "a < 0x20" "b < 0x40"
      using 2 by (simp_all add: a_def b_def div_less_iff_less_mult)
    with 2 show ?thesis by (simp add: utf8_def surrogate_def continues_def)
  next
    case 3
    define a b c where "a = n div 0x1000" and "b = n div 0x40 mod 0x40" and "c = n mod 0x40"
    have ab: "n div 0x40 = a * 0x40 + b"
      using digits_step [where b = "0x40" and n = n and k = "0x40"] by (simp add: a_def b_def)
    have n: "n = a * 0x1000 + b * 0x40 + c"
      using digits_step [where b = "0x40" and n = n and k = 1] ab by (simp add: c_def)
    have "a < 0x10" "b < 0x40" "c < 0x40"
      using assms by (simp_all add: a_def b_def c_def div_less_iff_less_mult)
    moreover from this have "utf8 n = map char_of [0xE0 + a, 0x80 + b, 0x80 + c]"
      using 3 by (simp add: utf8_def a_def b_def c_def)
    ultimately show ?thesis using 3 by (simp add: continues_def Let_def flip: n)
  qed
qed

text \<open>C7. Sequences of unicode escapes are modelled as the UTF-8 encoding of their code points: what the
  modeler makes of \<open>\\uXXXX...\<close> for the code points \<open>cps\<close>, of up to four hexadecimal digits each, is
  decoded to \<open>cps\<close> by a decoder that follows the standard, unless there is a surrogate among them:
  the code encodes these too, and a decoder refuses the result.\<close>

theorem unicode_escapes:
  assumes "\<forall>n\<in>set cps. n < 0x10000"
  shows "\<exists>bytes. handleLiteral M (LiteralSyntax Start End (StringLiteral (concat (map unicode_escape cps))))
      = Inr (StringConstant (Span Start End) bytes) \<and>
    utf8_decode (map of_char bytes) = (if \<exists>n\<in>set cps. surrogate n then None else Some cps)"
proof -
  have "processEscapes (concat (map unicode_escape cps)) = concat (map utf8 cps)"
    using assms by (induction cps) (simp_all add: processEscapes_unicode_escape)
  moreover have "utf8_decode (map of_char (concat (map utf8 cps))) =
      (if \<exists>n\<in>set cps. surrogate n then None else Some cps)"
    using assms by (induction cps) (simp_all add: utf8_decode_utf8)
  ultimately show ?thesis by (simp add: handleLiteral_def)
qed

theorem unicode_escapes_witness:
  "\<exists>bytes. handleLiteral (newModeler ''f.scaly'' Map.empty)
      (LiteralSyntax 0 26 (StringLiteral (concat (map unicode_escape [0x20AC, 0x7F, 0x80, 0x800]))))
      = Inr (StringConstant (Span 0 26) bytes) \<and>
    utf8_decode (map of_char bytes) = Some [0x20AC, 0x7F, 0x80, 0x800]"
  using unicode_escapes [of "[0x20AC, 0x7F, 0x80, 0x800]"] by (simp add: surrogate_def)

section \<open>Integer literals\<close>

text \<open>The digits of a number.\<close>

fun digits :: "nat \<Rightarrow> nat \<Rightarrow> string" where
  "digits b n = (if n < b \<or> b < 2 then [hex_char n] else digits b (n div b) @ [hex_char (n mod b)])"

declare digits.simps [simp del]

lemma digits_induct [case_names digit more]:
  fixes n b :: nat
  assumes "\<And>n. n < b \<Longrightarrow> P n" "\<And>n. b \<le> n \<Longrightarrow> P (n div b) \<Longrightarrow> P n" "2 \<le> b"
  shows "P n"
proof (induction n rule: less_induct)
  case (less n)
  show ?case
  proof (cases "n < b")
    case False
    then have "n div b < n" using assms(3) by (simp add: div_less_dividend)
    with less False assms(2) show ?thesis by simp
  qed (simp add: assms(1))
qed

lemma digits_small: "n < b \<Longrightarrow> digits b n = [hex_char n]"
  and digits_big: "2 \<le> b \<Longrightarrow> b \<le> n \<Longrightarrow> digits b n = digits b (n div b) @ [hex_char (n mod b)]"
  by (simp_all add: digits.simps [of b n])

lemma digits_not_Nil [simp]: "digits b n \<noteq> []"
  by (simp add: digits.simps [of b n])

lemma digits_value:
  assumes "2 \<le> b" "\<And>d. d < b \<Longrightarrow> val (hex_char d) = d"
  shows "foldl (\<lambda>n C. b * n + val C) 0 (digits b n) = n"
  by (induction n rule: digits_induct [where b = b])
    (use assms in \<open>simp_all add: digits_small digits_big\<close>)

lemma digits_all:
  assumes "2 \<le> b" "\<And>d. d < b \<Longrightarrow> P (hex_char d)" "C \<in> set (digits b n)"
  shows "P C"
  using assms(3)
  by (induction n rule: digits_induct [where b = b])
    (use assms(1,2) in \<open>auto simp: digits_small digits_big\<close>)

lemma hex_char_decimal:
  assumes "d < 10"
  shows "CHR ''0'' \<le> hex_char d" "hex_char d \<le> CHR ''9''" "is_digit (hex_char d)"
    "of_char (hex_char d) - of_char CHR ''0'' = d"
proof -
  have "\<forall>d\<in>set [0..<10]. CHR ''0'' \<le> hex_char d \<and> hex_char d \<le> CHR ''9'' \<and> is_digit (hex_char d) \<and>
      of_char (hex_char d) - of_char CHR ''0'' = d" by code_simp
  with assms show "CHR ''0'' \<le> hex_char d" "hex_char d \<le> CHR ''9''" "is_digit (hex_char d)"
    "of_char (hex_char d) - of_char CHR ''0'' = d" by simp_all
qed

lemma decimal_digits: "decimal (digits 10 n) = n"
proof -
  have "takeWhile (\<lambda>C. CHR ''0'' \<le> C \<and> C \<le> CHR ''9'') (digits 10 n) = digits 10 n"
    using digits_all [of 10 "\<lambda>C. CHR ''0'' \<le> C \<and> C \<le> CHR ''9''"] hex_char_decimal
    by (simp add: takeWhile_eq_all_conv)
  moreover have "foldl (\<lambda>n C. 10 * n + (of_char C - of_char CHR ''0'')) 0 (digits 10 n) = n"
    by (rule digits_value) (simp, rule hex_char_decimal(4))
  ultimately show ?thesis by (simp only: decimal_def)
qed

lemma digits_hd:
  assumes "2 \<le> b" "0 < n"
  shows "\<exists>d s. digits b n = hex_char d # s \<and> 0 < d \<and> d < b"
  using assms(2)
proof (induction n rule: digits_induct [where b = b])
  case (more n)
  then show ?case using div_greater_zero_iff [of n b] assms(1) by (auto simp: digits_big)
qed (use assms(1) in \<open>auto simp: digits_small\<close>)

definition ends_number :: "(char \<Rightarrow> bool) \<Rightarrow> string \<Rightarrow> bool" where
  "ends_number P r = (case r of [] \<Rightarrow> True | C # _ \<Rightarrow> \<not> P C)"

lemma takeWhile_ends: "\<forall>C\<in>set s. P C \<Longrightarrow> ends_number P r \<Longrightarrow> takeWhile P (s @ r) = s"
  and dropWhile_ends: "\<forall>C\<in>set s. P C \<Longrightarrow> ends_number P r \<Longrightarrow> dropWhile P (s @ r) = r"
  by (cases r; simp add: ends_number_def)+

lemma takeWhile_none: "ends_number P r \<Longrightarrow> takeWhile P r = []"
  by (cases r) (simp_all add: ends_number_def)

abbreviation number_goes_on :: "char \<Rightarrow> bool" where
  "number_goes_on C \<equiv> is_digit C \<or> C = CHR ''.'' \<or> C = CHR ''E'' \<or> C = CHR ''e''"

lemma number_literal_digits:
  assumes "ends_number number_goes_on r"
  shows "number_literal (digits 10 n @ r) = IntegerLiteral (digits 10 n)"
proof -
  have ds: "\<forall>C\<in>set (digits 10 n). is_digit C"
    using digits_all [of 10 is_digit] hex_char_decimal(3) by simp
  have end_r: "ends_number is_digit r" using assms by (simp add: ends_number_def split: list.splits)
  have "fraction_part r = []" using assms by (cases r) (simp_all add: ends_number_def)
  then show ?thesis
    unfolding number_literal_def Let_def takeWhile_ends [OF ds end_r] dropWhile_ends [OF ds end_r]
    by simp
qed

text \<open>C6. A decimal literal has the value its digits spell: the lexer makes one token of the
  digits of a positive number, and the modeler makes the constant of that value of it, or, when
  the value does not fit into a signed integer of 64 bits, an error.\<close>

theorem integer_constant:
  assumes "Current lx = digits 10 n @ r" "0 < n" "ends_number number_goes_on r"
  shows "Token (advance lx) = LiteralToken (IntegerLiteral (digits 10 n)) \<and>
    (case handleLiteral M (LiteralSyntax Start End (IntegerLiteral (digits 10 n))) of
       Inr c \<Rightarrow> n < 2 ^ 63 \<and> (\<exists>w. c = IntegerConstant (Span Start End) w \<and> sint w = int n)
     | Inl e \<Rightarrow> 2 ^ 63 \<le> n \<and> e = InvalidConstantError (File M) (Span Start End))"
proof
  obtain d s where d: "digits 10 n = hex_char d # s" "0 < d" "d < 10"
    using digits_hd [of 10 n] assms(2) by auto
  have "\<forall>d\<in>set [1..<10]. CHR ''1'' \<le> hex_char d \<and> hex_char d \<le> CHR ''9''" by code_simp
  with d have "CHR ''1'' \<le> hex_char d" "hex_char d \<le> CHR ''9''" by simp_all
  with Token_advance_number [of lx "hex_char d" "s @ r"] assms(1) d(1) number_literal_digits [OF assms(3)]
  show "Token (advance lx) = LiteralToken (IntegerLiteral (digits 10 n))"
    by (metis append_Cons)
  show "case handleLiteral M (LiteralSyntax Start End (IntegerLiteral (digits 10 n))) of
       Inr c \<Rightarrow> n < 2 ^ 63 \<and> (\<exists>w. c = IntegerConstant (Span Start End) w \<and> sint w = int n)
     | Inl e \<Rightarrow> 2 ^ 63 \<le> n \<and> e = InvalidConstantError (File M) (Span Start End)"
  proof (cases "n < 2 ^ 63")
    case True
    then have "sint (of_nat n :: 64 word) = int n"
      by (simp add: signed_of_nat signed_take_bit_int_eq_self)
    with True show ?thesis by (simp add: handleLiteral_def strtoll_def decimal_digits)
  qed (simp add: handleLiteral_def strtoll_def decimal_digits)
qed

theorem integer_constant_witness:
  "Token (advance (newLexer ''9223372036854775808)'')) =
      LiteralToken (IntegerLiteral ''9223372036854775808'') \<and>
    handleLiteral (newModeler ''f.scaly'' Map.empty)
        (LiteralSyntax 0 19 (IntegerLiteral ''9223372036854775808'')) =
      Inl (InvalidConstantError ''f.scaly'' (Span 0 19))"
proof -
  have d: "digits 10 (2 ^ 63) = ''9223372036854775808''" by (simp add: digits.simps hex_char_def)
  have "Token (advance (newLexer ''9223372036854775808)'')) =
      LiteralToken (IntegerLiteral (digits 10 (2 ^ 63))) \<and>
    (case handleLiteral (newModeler ''f.scaly'' Map.empty)
        (LiteralSyntax 0 19 (IntegerLiteral (digits 10 (2 ^ 63)))) of
       Inr c \<Rightarrow> (2::nat) ^ 63 < 2 ^ 63 \<and> (\<exists>w. c = IntegerConstant (Span 0 19) w \<and> sint w = int (2 ^ 63))
     | Inl e \<Rightarrow> (2::nat) ^ 63 \<le> 2 ^ 63 \<and>
         e = InvalidConstantError (File (newModeler ''f.scaly'' Map.empty)) (Span 0 19))"
  proof (rule integer_constant [where r = "'')''"])
    show "Current (newLexer ''9223372036854775808)'') = digits 10 (2 ^ 63) @ '')''"
      unfolding d by code_simp
  qed (simp_all add: ends_number_def is_digit_def)
  then show ?thesis unfolding d by (simp split: sum.splits)
qed

text \<open>Hexadecimal literals.\<close>

lemma hex_char_hex:
  assumes "d < 16"
  shows "is_hex_char (hex_char d)" "hexDigit (hex_char d) \<noteq> None" "the (hexDigit (hex_char d)) = d"
proof -
  have "\<forall>d\<in>set [0..<16]. is_hex_char (hex_char d)" by code_simp
  with assms show "is_hex_char (hex_char d)" by simp
  show "hexDigit (hex_char d) \<noteq> None" "the (hexDigit (hex_char d)) = d"
    by (simp_all add: hexDigit_hex_char assms)
qed

lemma hexadecimal_digits: "hexadecimal (CHR ''0'' # CHR ''x'' # digits 16 n) = n"
proof -
  have all: "\<forall>C\<in>set (digits 16 n). hexDigit C \<noteq> None"
    using digits_all [of 16 "\<lambda>C. hexDigit C \<noteq> None"] hex_char_hex(2) by simp
  obtain D r where D: "digits 16 n = D # r" by (cases "digits 16 n") auto
  with all have "hexDigit D \<noteq> None" by simp
  moreover have spans: "takeWhile (\<lambda>C. \<exists>d. hexDigit C = Some d) r = r"
    using all D by (simp add: takeWhile_eq_all_conv)
  moreover have "foldl (\<lambda>n C. 16 * n + the (hexDigit C)) 0 (digits 16 n) = n"
    by (rule digits_value) (simp, rule hex_char_hex(3))
  ultimately show ?thesis unfolding hexadecimal_def D by (simp add: Let_def spans)
qed

lemma Token_advance_hex:
  assumes "Current lx = CHR ''0'' # CHR ''x'' # s"
  shows "Token (advance lx) =
    LiteralToken (HexLiteral (CHR ''0'' # CHR ''x'' # takeWhile is_hex_char s))"
  using assms
  by (simp add: advance_def Let_def set_token_def is_letter_def is_digit_def operator_start_def
      less_eq_char_def scanNumericLiteral_def scanHexLiteral_eq string_ref_def take_takeWhile)



section \<open>Operations cut into statements\<close>

lemma collect_append:
  "collect f (xs @ ys) = withResult (collect f xs) (\<lambda>as. withResult (collect f ys) (\<lambda>bs. Inr (as @ bs)))"
  by (induction xs) (auto simp: withResult_def split: sum.splits)

lemma collect_list_all2: "collect f xs = Inr ys \<longleftrightarrow> list_all2 (\<lambda>x y. f x = Inr y) xs ys"
proof (induction xs arbitrary: ys)
  case (Cons x xs)
  show ?case
    by (cases ys) (auto simp: withResult_def simp flip: Cons.IH split: sum.splits)
qed auto

lemma operandGroups_concat: "concat (operandGroups p Group xs) = Group @ xs"
  by (induction p Group xs rule: operandGroups.induct) simp_all

lemma operandGroups_nonempty: "[] \<notin> set (operandGroups p Group xs)"
  by (induction p Group xs rule: operandGroups.induct) auto

lemma operandGroups_closed:
  "\<forall>x\<in>set Group. \<not> p x \<Longrightarrow> g \<in> set (operandGroups p Group xs) \<Longrightarrow> \<forall>x\<in>set (butlast g). \<not> p x"
proof (induction p Group xs rule: operandGroups.induct)
  case (1 p Group)
  then show ?case by (auto split: if_splits dest: in_set_butlastD)
next
  case (2 p Group x xs)
  show ?case
  proof (cases "p x")
    case True
    with 2(4) consider "g = Group @ [x]" | "g \<in> set (operandGroups p [] xs)" by auto
    then show ?thesis
    proof cases
      case 1
      with 2(3) show ?thesis by simp
    qed (use 2(1) [OF True] in simp)
  next
    case False
    with 2(3) have "\<forall>y\<in>set (Group @ [x]). \<not> p y" by simp
    from 2(2) [OF False this] 2(4) False show ?thesis by simp
  qed
qed

lemma operandGroups_last: "g \<in> set (butlast (operandGroups p Group xs)) \<Longrightarrow> p (last g)"
proof (induction p Group xs rule: operandGroups.induct)
  case (2 p Group x xs)
  then show ?case by (cases "operandGroups p [] xs") (auto split: if_splits)
qed (simp split: if_splits)

text \<open>The conditions under which the code splits an operation only avoid work.\<close>

definition groupAction :: "('op, 'at) modeler \<Rightarrow> 'op list \<Rightarrow> statement modelled" where
  "groupAction M g = withResult (collect (modelOperand M) g) (\<lambda>os. Inr (Stmt_Action (Action os [])))"

lemma handleStatements_operation:
  assumes "ops \<noteq> []"
  shows "handleStatements M (Some [Statement_Operation (OperationSyntax Start End (Some ops))]) =
    collect (groupAction M) (operandGroups (\<lambda>x. isStatementLikeExpr (expressionOf M x)) [] ops)"
proof (cases "splitOperation M ops")
  case None
  let ?p = "\<lambda>x. isStatementLikeExpr (expressionOf M x)"
  have unsplit: "operandGroups p Group xs = [Group @ xs]"
    if "filter p xs = []" "Group @ xs \<noteq> []" for p and Group xs :: "'a list"
    using that by (induction p Group xs rule: operandGroups.induct) (auto split: if_splits)
  have "operandGroups ?p [] ops = [ops]"
  proof (cases "length (operandGroups ?p [] ops) > 1")
    case True
    with None consider "length ops \<le> 1" | "filter ?p ops = []"
      by (auto simp: splitOperation_def Let_def split: if_splits)
    then show ?thesis
    proof cases
      case 1
      with assms show ?thesis by (cases ops) auto
    qed (use unsplit [of ?p ops "[]"] assms in simp)
  next
    case False
    then show ?thesis
      using operandGroups_concat [of ?p "[]" ops] assms
      by (cases "operandGroups ?p [] ops") auto
  qed
  with None show ?thesis
    by (simp add: handleStatements_def collectOpt_def handleOneStatement_def handleStatement_def
        handleOperation_def handleOperands_def groupAction_def withResult_def split: sum.splits)
next
  case (Some Groups)
  then have "Groups = operandGroups (\<lambda>x. isStatementLikeExpr (expressionOf M x)) [] ops"
    by (auto simp: splitOperation_def Let_def split: if_splits)
  with Some show ?thesis
    by (simp add: handleStatements_def collectOpt_def handleOneStatement_def groupAction_def [abs_def]
        withResult_def split: sum.splits)
qed

lemma collect_groups_error:
  "collect (groupAction M) gs = Inl e \<longleftrightarrow> collect (modelOperand M) (concat gs) = Inl e"
  by (induction gs) (auto simp: collect_append groupAction_def withResult_def split: sum.splits)

text \<open>C8. The modeler cuts an operation into statements and loses no operand: the operands of the
  statements are the operands of the operation in order, each statement but the last ends with a
  control structure, and no control structure is followed by anything in its statement. When
  modelling fails, it is with the error of the first operand that cannot be modelled.\<close>

theorem operation_statements:
  assumes "ops \<noteq> []"
  shows "case handleStatements M (Some [Statement_Operation (OperationSyntax Start End (Some ops))]) of
      Inr stmts \<Rightarrow> \<exists>groups. concat groups = ops \<and> [] \<notin> set groups \<and>
        (\<forall>g\<in>set groups. \<forall>op\<in>set (butlast g). \<not> isStatementLikeExpr (expressionOf M op)) \<and>
        (\<forall>g\<in>set (butlast groups). isStatementLikeExpr (expressionOf M (last g))) \<and>
        list_all2 (\<lambda>g stmt. \<exists>os. collect (modelOperand M) g = Inr os \<and> stmt = Stmt_Action (Action os []))
          groups stmts
    | Inl e \<Rightarrow> collect (modelOperand M) ops = Inl e"
proof -
  let ?p = "\<lambda>x. isStatementLikeExpr (expressionOf M x)"
  let ?gs = "operandGroups ?p [] ops"
  note eq = handleStatements_operation [OF assms, of M Start End]
  show ?thesis
  proof (cases "collect (groupAction M) ?gs")
    case (Inl e)
    then show ?thesis using eq collect_groups_error [of M ?gs e] by (simp add: operandGroups_concat)
  next
    case (Inr stmts)
    then have "list_all2 (\<lambda>g stmt. \<exists>os. collect (modelOperand M) g = Inr os \<and>
        stmt = Stmt_Action (Action os [])) ?gs stmts"
      by (auto simp: collect_list_all2 groupAction_def withResult_def elim!: list_all2_mono split: sum.splits)
    moreover have "\<forall>g\<in>set ?gs. \<forall>op\<in>set (butlast g). \<not> ?p op"
      using operandGroups_closed [of "[]" ?p _ ops] by simp
    moreover have "\<forall>g\<in>set (butlast ?gs). ?p (last g)"
      using operandGroups_last [of _ ?p "[]" ops] by simp
    moreover have "concat ?gs = ops" "[] \<notin> set ?gs"
      by (simp_all add: operandGroups_concat operandGroups_nonempty)
    ultimately show ?thesis unfolding eq Inr sum.case by blast
  qed
qed

text \<open>A name, a block and another name: two statements.\<close>

abbreviation name_operand :: "string \<Rightarrow> operand_syntax" where
  "name_operand n \<equiv> OperandSyntax 0 0 (Expression_Name (NameSyntax 0 0 n None)) None"

abbreviation block_operand :: operand_syntax where
  "block_operand \<equiv> OperandSyntax 0 0 (Expression_Block (BlockSyntax 0 0 None None)) None"

theorem operation_statements_witness:
  "\<exists>groups stmts. handleStatements (newModeler ''f'' Map.empty) (Some [Statement_Operation
      (OperationSyntax 0 0 (Some [name_operand ''a'', block_operand, name_operand ''b'']))]) = Inr stmts \<and>
    length stmts = 2 \<and> length groups = 2 \<and>
    concat groups = [name_operand ''a'', block_operand, name_operand ''b'']"
proof -
  have "case handleStatements (newModeler ''f'' Map.empty) (Some [Statement_Operation
      (OperationSyntax 0 0 (Some [name_operand ''a'', block_operand, name_operand ''b'']))]) of
    Inr stmts \<Rightarrow> length stmts = 2 | Inl e \<Rightarrow> False" by code_simp
  moreover have "[name_operand ''a'', block_operand, name_operand ''b''] \<noteq> []" by simp
  note operation_statements [OF this, of "newModeler ''f'' Map.empty" 0 0]
  ultimately show ?thesis by (fastforce dest: list_all2_lengthD split: sum.splits)
qed

section \<open>The recursion\<close>

text \<open>\<open>handleOperand\<close> and \<open>handleAttribute\<close>, defined by structural recursion on the tree, satisfy
  the mutually recursive equations of the code: they are the bodies of the methods, with all the
  handlers between calling the very same \<open>handleOperand\<close> and \<open>handleAttribute\<close>.\<close>

theorem modeler_recursion:
  "handleOperand fileName d (OperandSyntax Start End expression members) =
     operandBody (newModeler fileName d) Start End expression members \<and>
   handleAttribute fileName d (AttributeSyntax Start End name model) =
     attributeBody (newModeler fileName d) Start End name model"
  using handleOperand_eq handleAttribute_eq by blast

section \<open>Types and parameters\<close>

text \<open>The type a piece of syntax stands for: \<open>T?\<close> is \<open>Option[T]\<close>.\<close>

primrec typeOf :: "type_syntax \<Rightarrow> type_ref" where
  "typeOf (TypeSyntax Start End name generics optional lifetime) =
     (let T = Type (Span Start End) (namePath name)
        (case map_option (map_generic_arguments_of typeOf) generics of
           Some (GenericArgumentsSyntax _ _ (Some Ts)) \<Rightarrow>
             Some (map (\<lambda>GA. case GA of GenericArgumentSyntax _ _ T \<Rightarrow> T) Ts)
         | _ \<Rightarrow> None)
        (handleLifetime lifetime) in
      if optional = None then T else Type (Span Start End) [''Option''] (Some [T]) UnspecifiedLifetime)"

lemma handleType_typeOf: "handleType t = Inr (typeOf t)"
proof (induction t)
  case (TypeSyntax Start End name generics optional lifetime)
  show ?case
  proof (cases generics)
    case (Some g)
    then obtain s e gs where g: "generics = Some (GenericArgumentsSyntax s e gs)" by (cases g) simp
    have "collect (\<lambda>GA. case map_generic_argument_of handleType GA of GenericArgumentSyntax _ _ T \<Rightarrow> T) Ts =
        Inr (map (\<lambda>GA. case map_generic_argument_of typeOf GA of GenericArgumentSyntax _ _ T \<Rightarrow> T) Ts)"
      if "gs = Some Ts0" "set Ts \<subseteq> set Ts0" for Ts Ts0
      using that(2)
    proof (induction Ts)
      case (Cons GA Ts)
      then show ?case
        using TypeSyntax [of "GenericArgumentsSyntax s e gs"] g that(1) by (cases GA) fastforce
    qed simp
    from this [OF _ order_refl] g show ?thesis
      by (cases gs) (simp_all add: collect_map comp_def Let_def split: option.split)
  qed (simp add: Let_def split: option.split)
qed

lemma handleParameters_Inr: "\<exists>items. handleParameters M parameters = Inr items"
proof (cases parameters)
  case (Some p)
  then show ?thesis
  proof (cases p)
    case (ParameterSet_Parameters ps)
    then show ?thesis by (cases ps) (simp add: Some handleParameters_def)
  next
    case (ParameterSet_Type t)
    then show ?thesis by (cases t) (simp add: Some handleParameters_def)
  qed
qed (simp add: handleParameters_def)

text \<open>Parameters are never an error, whatever is in them: a parameter that cannot be modelled is
  left out without a message, and the routine has the others, in order. A type in the place of
  the parameters is always one nameless parameter of that type.\<close>

theorem parameters_left_out:
  "\<exists>items. handleParameterSet M p = Inr items \<and>
    (case p of
       ParameterSet_Parameters (ParametersSyntax _ _ None) \<Rightarrow> items = []
     | ParameterSet_Parameters (ParametersSyntax _ _ (Some syntaxes)) \<Rightarrow>
         map Inr items = filter (\<lambda>r. \<exists>a. r = Inr a) (map (handleItem M False) syntaxes)
     | ParameterSet_Type t \<Rightarrow>
         (case t of TypeSyntax Start End _ _ _ _ \<Rightarrow>
            items = [Item (Span Start End) False None (Some (typeOf t)) []]))"
proof (cases p)
  case (ParameterSet_Parameters ps)
  have "map Inr (modelledOnly rs) = filter (\<lambda>r. \<exists>a. r = Inr a) rs" for rs :: "item modelled list"
    by (induction rs rule: modelledOnly.induct) simp_all
  then show ?thesis by (cases ps) (simp add: ParameterSet_Parameters split: option.split)
next
  case (ParameterSet_Type t)
  then show ?thesis by (cases t) (simp add: handleType_typeOf del: handleType.simps typeOf.simps)
qed

section \<open>Page parameters\<close>

text \<open>C9. The page of a function: with \<open>#\<close> behind its name the function has a page parameter, the
  first parameter when that has a name and no type, which is then no input, and \<open>rp\<close> with all
  parameters as inputs when not; without a lifetime there is none and all parameters are
  inputs; with \<open>^\<close> or \<open>!\<close> there is no function.\<close>

theorem function_page:
  assumes "buildFunction M Start End (Target_Named (NamedSyntax ns ne name
    (RoutineSyntax rs re generics lifetime parameters attributes returns throws implementation)))
    Private Pure = Inr F"
  shows "\<exists>items. handleParameters M parameters = Inr items \<and>
    (case lifetime of
       None \<Rightarrow> fn_PageParameter F = None \<and> fn_Input F = items
     | Some (Lifetime_Call _) \<Rightarrow>
         if items \<noteq> [] \<and> itemName (hd items) \<noteq> None \<and> itemType (hd items) = None
         then fn_PageParameter F = itemName (hd items) \<and> fn_Input F = tl items
         else fn_PageParameter F = Some ''rp'' \<and> fn_Input F = items
     | _ \<Rightarrow> False) \<and> fn_Life F = handleLifetime lifetime"
proof -
  obtain items where items: "handleParameters M parameters = Inr items"
    using handleParameters_Inr by blast
  have "\<not> (\<exists>r. lifetime = Some (Lifetime_Reference r))" "\<not> (\<exists>t. lifetime = Some (Lifetime_Thrown t))"
    using assms by (auto simp: buildFunction_def)
  then have "(case functionPage lifetime items of (Page, Input) \<Rightarrow>
      fn_PageParameter F = Page \<and> fn_Input F = Input) \<and> fn_Life F = handleLifetime lifetime"
    using assms items
    by (auto simp: buildFunction_def Let_def withResult_def
        split: option.splits lifetime_syntax.splits sum.splits prod.splits)
  with items \<open>\<not> (\<exists>r. lifetime = Some (Lifetime_Reference r))\<close>
    \<open>\<not> (\<exists>t. lifetime = Some (Lifetime_Thrown t))\<close>
  show ?thesis
    by (cases items) (auto simp: functionPage_def split: option.splits lifetime_syntax.splits)
qed

text \<open>\<open>function f#(p, x: int)\<close>.\<close>

abbreviation sample_parameters :: parameter_set_syntax where
  "sample_parameters \<equiv> ParameterSet_Parameters (ParametersSyntax 0 0 (Some
     [ItemSyntax 0 0 ''p'' None None,
      ItemSyntax 0 0 ''x'' (Some (TypeAnnotationSyntax 0 0
        (TypeSyntax 0 0 (NameSyntax 0 0 ''int'' None) None None None))) None]))"

abbreviation sample_action :: action_syntax where
  "sample_action \<equiv> Action_Block (BlockSyntax 0 0 None None)"

theorem function_page_witness:
  "\<exists>F. buildFunction (newModeler ''f'' Map.empty) 0 9 (Target_Named (NamedSyntax 0 0 ''f''
      (RoutineSyntax 0 0 None (Some (Lifetime_Call (CallSyntax 0 0))) (Some sample_parameters) None None
        None (Implementation_Action sample_action)))) False True = Inr F \<and>
    fn_PageParameter F = Some ''p'' \<and> length (fn_Input F) = 1"
proof -
  let ?M = "newModeler ''f'' Map.empty"
  let ?T = "Target_Named (NamedSyntax 0 0 ''f''
      (RoutineSyntax 0 0 None (Some (Lifetime_Call (CallSyntax 0 0))) (Some sample_parameters) None None
        None (Implementation_Action sample_action)))"
  have "case buildFunction ?M 0 9 ?T False True of Inr F \<Rightarrow> True | Inl e \<Rightarrow> False" by code_simp
  then obtain F where F: "buildFunction ?M 0 9 ?T False True = Inr F" by (auto split: sum.splits)
  have "handleParameters ?M (Some sample_parameters) =
      Inr [Item (Span 0 0) False (Some ''p'') None [],
        Item (Span 0 0) False (Some ''x'') (Some (Type (Span 0 0) [''int''] None UnspecifiedLifetime)) []]"
    by code_simp
  with F function_page [OF F] show ?thesis by auto
qed

text \<open>The page of an initializer: \<open>init#\<close> takes its first parameter, typed or not, off the
  inputs as the name of the page, and is an error when there is none or it has no name; \<open>init\<close>
  has all parameters as inputs and no page; \<open>init^\<close> and \<open>init!\<close> are errors before anything else
  is looked at.\<close>

theorem init_page:
  "case handleInitializer M (InitSyntax Start End lifetime parameters action) Private of
     Inr I \<Rightarrow> (\<exists>items. handleParameters M parameters = Inr items \<and>
       (if lifetime = None then init_PageParameter I = None \<and> init_Input I = items
        else items \<noteq> [] \<and> init_PageParameter I = itemName (hd items) \<and>
          itemName (hd items) \<noteq> None \<and> init_Input I = tl items)) \<and>
       (\<exists>Act. handleAction M action = Inr Act \<and> init_Impl I = Impl_Action Act)
   | Inl e \<Rightarrow> handleAction M action = Inl e \<or>
       (\<exists>Message. e = InvalidInitLifetimeError (File M) (Span Start End) Message \<and> lifetime \<noteq> None \<and>
         ((\<exists>r. lifetime = Some (Lifetime_Reference r)) \<or> (\<exists>t. lifetime = Some (Lifetime_Thrown t)) \<or>
          (\<exists>items. handleParameters M parameters = Inr items \<and>
            (items = [] \<or> itemName (hd items) = None))))"
proof -
  obtain items where items: "handleParameters M parameters = Inr items"
    using handleParameters_Inr by blast
  show ?thesis
    by (cases items)
      (auto simp: handleInitializer_def Let_def withResult_def items
        split: option.split lifetime_syntax.split sum.split)
qed

end
