(* ===== verification/Plan.thy ===== *)
theory Plan
  imports Model
begin

text \<open>
  The plan: the data of retired/scalyc0/Plan.h, the monomorphic program that the planner makes of
  the model and the emitter turns into LLVM, and the errors of retired/scalyc0/PlannerError.h.
  As in Model, the structs that contain operands take them as the type parameter \<open>'op\<close>, and
  \<open>planned_operand\<close> closes the cycle. A \<open>size_t\<close> is a word of 64 bits.
\<close>

type_synonym size_t = "64 word"

section \<open>Types\<close>

datatype type_variable = TypeVariable (Id: "64 word") (DebugName: string)

datatype instantiation_info = InstantiationInfo span span "string list"

datatype planned_type = PlannedType
  (pt_Loc: span)
  (pt_Name: string)
  (pt_MangledName: string)
  (pt_Generics: "planned_type list")
  (pt_Life: lifetime)
  (pt_Origin: "instantiation_info option")
  (pt_ArraySize: string)
  (pt_Variable: "type_variable option")

text \<open>A default constructed type, and one with some fields set.\<close>

definition emptyType :: planned_type where
  "emptyType = PlannedType (Span 0 0) [] [] [] UnspecifiedLifetime None [] None"

definition variableType :: "type_variable \<Rightarrow> planned_type" where
  "variableType v = PlannedType (Span 0 0) [] [] [] UnspecifiedLifetime None [] (Some v)"

fun set_Name :: "string \<Rightarrow> planned_type \<Rightarrow> planned_type" where
  "set_Name n (PlannedType l _ m g lt og a v) = PlannedType l n m g lt og a v"

fun set_Generics :: "planned_type list \<Rightarrow> planned_type \<Rightarrow> planned_type" where
  "set_Generics g (PlannedType l n m _ lt og a v) = PlannedType l n m g lt og a v"

fun set_Life :: "lifetime \<Rightarrow> planned_type \<Rightarrow> planned_type" where
  "set_Life lt (PlannedType l n m g _ og a v) = PlannedType l n m g lt og a v"

datatype type_or_variable = TypePart planned_type | VariablePart type_variable

text \<open>\<open>Substitution\<close>, a map from the numbers of type variables to types.\<close>

type_synonym substitution = "(64 word \<times> planned_type) list"

datatype type_constraint =
    EqualityConstraint type_or_variable type_or_variable span string
  | InstanceConstraint type_variable string span

datatype type_scheme = TypeScheme "type_variable list" "planned_type option"

section \<open>Items, statements, expressions\<close>

datatype planned_attribute = PlannedAttribute span string model

record planned_item =
  it_Loc :: span
  it_Private :: bool
  it_Name :: "string option"
  it_Type :: "planned_type option"
  it_Attributes :: "planned_attribute list"

datatype 'op planned_property_of = PlannedProperty
  (prop_Loc: span)
  (prop_Private: bool)
  (prop_Name: string)
  (prop_MangledName: string)
  (prop_Type: planned_type)
  (prop_Initializer: "'op list option")
  (prop_Attributes: "planned_attribute list")
  (prop_Offset: size_t)

record planned_variant =
  pv_Loc :: span
  pv_Name :: string
  pv_MangledName :: string
  pv_Type :: "planned_type option"
  pv_Attributes :: "planned_attribute list"
  pv_Tag :: int

datatype 'op planned_action_of = PlannedAction
  (pa_Source: "'op list") (pa_Target: "'op list") (pa_ResultType: planned_type)

datatype 'op planned_binding_of = PlannedBinding
  (pb_Loc: span) (pb_BindingType: string) (pb_Item: planned_item) (pb_Operation: "'op list")

datatype 'op planned_statement_of =
    PStmt_Action "'op planned_action_of"
  | PStmt_Binding "'op planned_binding_of"
  | PStmt_Break span "'op list"
  | PStmt_Continue span
  | PStmt_Return span "'op list"
  | PStmt_Throw span "'op list"

datatype 'op planned_block_of = PlannedBlock span "'op planned_statement_of list" bool

datatype 'op planned_if_of = PlannedIf span "'op list" "'op planned_property_of option"
    "'op planned_statement_of option" "'op planned_statement_of option"

datatype 'op planned_case_of = PlannedCase span "'op list"

datatype 'op planned_branch_of = PlannedBranch span "'op planned_case_of list"
    "'op planned_statement_of option"

datatype 'op planned_match_of = PlannedMatch span "'op list" "'op planned_branch_of list"
    "'op planned_statement_of option"

datatype 'op planned_when_of = PlannedWhen span string planned_type size_t
    "'op planned_statement_of option"

datatype 'op planned_choose_of = PlannedChoose span "'op list" "'op planned_when_of list"
    "'op planned_statement_of option"

text \<open>The last arguments are the fields for loops over an iterator.\<close>

datatype 'op planned_for_of = PlannedFor span string "'op list" "'op planned_action_of"
    bool planned_type planned_type planned_type string string

datatype 'op planned_while_of = PlannedWhile span "'op planned_binding_of" "'op planned_action_of"

datatype 'op planned_try_of = PlannedTry span lifetime "'op planned_binding_of"
    "'op planned_when_of list" "'op planned_statement_of option" planned_type bool

datatype planned_size_of = PlannedSizeOf span planned_type size_t

datatype planned_align_of = PlannedAlignOf span planned_type size_t

datatype 'op planned_is_of = PlannedIs span planned_type size_t string "'op option" bool

datatype 'op planned_as_of = PlannedAs span planned_type "'op option"

datatype 'op planned_variant_construction_of =
  PlannedVariantConstruction span planned_type string size_t "'op option"

datatype 'op planned_call_of = PlannedCall
  (pc_Loc: span)
  (pc_Name: string)
  (pc_MangledName: string)
  (pc_IsIntrinsic: bool)
  (pc_IsOperator: bool)
  (pc_CanThrow: bool)
  (pc_RequiresPageParam: bool)
  (pc_Args: "'op list option")
  (pc_ResultType: planned_type)
  (pc_ThrowsType: "planned_type option")
  (pc_Life: lifetime)
  (pc_IsIndirect: bool)

datatype 'op planned_component_of = PlannedComponent span "string option" "'op list"
    "planned_attribute list"

datatype 'op planned_tuple_of = PlannedTuple span "'op planned_component_of list" planned_type
    bool lifetime "'op option"

datatype 'op planned_matrix_of = PlannedMatrix span "'op list list" planned_type

datatype planned_variable = PlannedVariable
  (va_Loc: span) (va_Name: string) (va_Type: planned_type) (va_IsMutable: bool)

datatype planned_global_ref = PlannedGlobalRef span string string planned_type bool

datatype planned_function_ref = PlannedFunctionRef span string string

datatype 'op planned_expression_of =
    PExpr_Constant constant_m
  | PExpr_Type planned_type
  | PExpr_Variable planned_variable
  | PExpr_GlobalRef planned_global_ref
  | PExpr_FunctionRef planned_function_ref
  | PExpr_Call "'op planned_call_of"
  | PExpr_Tuple "'op planned_tuple_of"
  | PExpr_Matrix "'op planned_matrix_of"
  | PExpr_Block "'op planned_block_of"
  | PExpr_If "'op planned_if_of"
  | PExpr_Match "'op planned_match_of"
  | PExpr_Choose "'op planned_choose_of"
  | PExpr_For "'op planned_for_of"
  | PExpr_While "'op planned_while_of"
  | PExpr_Try "'op planned_try_of"
  | PExpr_SizeOf planned_size_of
  | PExpr_AlignOf planned_align_of
  | PExpr_Is "'op planned_is_of"
  | PExpr_As "'op planned_as_of"
  | PExpr_VariantConstruction "'op planned_variant_construction_of"

datatype planned_member_access = PlannedMemberAccess string size_t bool bool bool bool
    planned_type planned_type

datatype planned_operand = PlannedOperand
  (po_Loc: span)
  (po_Expr: "planned_operand planned_expression_of")
  (po_MemberAccess: "planned_member_access list option")
  (po_ResultType: planned_type)

type_synonym planned_property = "planned_operand planned_property_of"
type_synonym planned_action = "planned_operand planned_action_of"
type_synonym planned_binding = "planned_operand planned_binding_of"
type_synonym planned_statement = "planned_operand planned_statement_of"
type_synonym planned_call = "planned_operand planned_call_of"
type_synonym planned_expression = "planned_operand planned_expression_of"

section \<open>Functions and types\<close>

datatype planned_implementation =
    PImpl_Action planned_action
  | PImpl_Extern span
  | PImpl_Instruction span
  | PImpl_Intrinsic span

record planned_function =
  pf_Loc :: span
  pf_Private :: bool
  pf_Pure :: bool
  pf_Name :: string
  pf_MangledName :: string
  pf_PageParameter :: "string option"
  pf_Input :: "planned_item list"
  pf_Returns :: "planned_type option"
  pf_Throws :: "planned_type option"
  pf_Life :: lifetime
  pf_Impl :: planned_implementation
  pf_Origin :: "instantiation_info option"
  pf_NeedsLocalPage :: bool
  pf_CanThrow :: bool
  pf_File :: string
  pf_Scheme :: "type_scheme option"

record planned_initializer =
  pi_Loc :: span
  pi_Private :: bool
  pi_PageParameter :: "string option"
  pi_MangledName :: string
  pi_Input :: "planned_item list"
  pi_Impl :: planned_implementation
  pi_NeedsLocalPage :: bool

datatype planned_deinitializer = PlannedDeInitializer span string planned_implementation

record planned_operator =
  pop_Loc :: span
  pop_Private :: bool
  pop_Name :: string
  pop_MangledName :: string
  pop_Input :: "planned_item list"
  pop_Returns :: "planned_type option"
  pop_Throws :: "planned_type option"
  pop_Impl :: planned_implementation
  pop_Origin :: "instantiation_info option"
  pop_Scheme :: "type_scheme option"

record planned_global =
  pg_Loc :: span
  pg_Name :: string
  pg_MangledName :: string
  pg_Type :: planned_type
  pg_Value :: "planned_operand list"
  pg_Mutable :: bool

record 'de deferred_info =
  df_Original :: 'de
  df_GenericArgs :: "planned_type list"
  df_TypeSubstitutions :: "(string \<times> planned_type) list"
  df_File :: string
  df_PlannedMethods :: "string list"

record planned_structure =
  st_Loc :: span
  st_Private :: bool
  st_IsGenericPlaceholder :: bool
  st_Name :: string
  st_MangledName :: string
  st_Properties :: "planned_property list"
  st_Initializers :: "planned_initializer list"
  st_Deinitializer :: "planned_deinitializer option"
  st_Methods :: "planned_function list"
  st_Operators :: "planned_operator list"
  st_Size :: size_t
  st_Alignment :: size_t
  st_Origin :: "instantiation_info option"
  st_DeferredInfo :: "(module, concept) structure_m deferred_info option"

record planned_union =
  un_Loc :: span
  un_Private :: bool
  un_Name :: string
  un_MangledName :: string
  un_Variants :: "planned_variant list"
  un_Methods :: "planned_function list"
  un_Operators :: "planned_operator list"
  un_Size :: size_t
  un_Alignment :: size_t
  un_Origin :: "instantiation_info option"
  un_DeferredInfo :: "(module, concept) union_m deferred_info option"

section \<open>Errors\<close>

datatype planner_error =
    UndefinedTypeError string span string
  | UndefinedSymbolError string span string
  | TypeMismatchError string span string string
  | GenericArityError string span string nat nat
  | ArgumentArityError string span string nat nat
  | DuplicateDefinitionError string span string
  | InfiniteTypeError string span string
  | PlannerNotImplementedError string span string
  | AmbiguousOverloadError string span string "string list"
  | NoMatchingOverloadError string span string "string list"
  | StackLifetimeError string span string
  | LocalReturnError string span
  | EscapingReferenceError string span string

end
