(* ===== verification/Diagnostics.thy ===== *)
theory Diagnostics
  imports Parser_Core Model Plan
begin

text \<open>
  How errors are shown: line and column of an offset, the source line with its carets, and the
  messages of the errors of retired/scalyc0/ModelError.cpp and PlannerError.cpp. The helpers
  that retired/scalyc0/Parser.cpp has for its own errors are here too. What
  \<open>llvm::MemoryBuffer::getFile\<close> answers for a path is a parameter, \<open>None\<close> for an error.
\<close>

section \<open>Line and column\<close>

record text_position =
  Line :: nat
  Column :: nat

fun positionLoop :: "string \<Rightarrow> nat \<Rightarrow> text_position \<Rightarrow> text_position" where
  "positionLoop (C # Text) (Suc Offset) Pos =
     positionLoop Text Offset
       (if C = CHR ''\<newline>'' then \<lparr>Line = Suc (Line Pos), Column = 1\<rparr>
        else Pos\<lparr>Column := Suc (Column Pos)\<rparr>)"
| "positionLoop Text Offset Pos = Pos"

definition calculatePosition :: "string \<Rightarrow> nat \<Rightarrow> text_position" where
  "calculatePosition Text Offset = positionLoop Text Offset \<lparr>Line = 1, Column = 1\<rparr>"

definition calculateLineCol :: "string \<Rightarrow> nat \<Rightarrow> nat \<times> nat" where
  "calculateLineCol Text Offset =
     (let Pos = positionLoop Text Offset \<lparr>Line = 1, Column = 1\<rparr> in (Line Pos, Column Pos))"

section \<open>The line of an offset\<close>

fun lineStart :: "string \<Rightarrow> nat \<Rightarrow> nat" where
  "lineStart Text 0 = 0"
| "lineStart Text (Suc I) = (if Text ! I \<noteq> CHR ''\<newline>'' then lineStart Text I else Suc I)"

function lineEnd :: "string \<Rightarrow> nat \<Rightarrow> nat" where
  "lineEnd Text I =
     (if I < length Text \<and> Text ! I \<noteq> CHR ''\<newline>'' then lineEnd Text (Suc I) else I)"
  by pat_completeness auto
termination by (relation "measure (\<lambda>(Text, I). length Text - I)") auto

declare lineEnd.simps [simp del]

definition slice :: "string \<Rightarrow> nat \<Rightarrow> nat \<Rightarrow> string" where
  "slice Text start to = take (to - start) (drop start Text)"

definition indicator :: "string \<Rightarrow> nat \<Rightarrow> nat \<Rightarrow> nat \<Rightarrow> nat \<Rightarrow> string" where
  "indicator Text LineStart LineEnd Start End = map (\<lambda>I.
       if Start \<le> I \<and> I < End then CHR ''^''
       else if Text ! I = CHR 0x09 then CHR 0x09
       else CHR '' '') [LineStart..<LineEnd]"

definition buildHintLines :: "string \<Rightarrow> nat \<Rightarrow> nat \<Rightarrow> string" where
  "buildHintLines Text Start End =
     (if Text = [] \<or> length Text \<le> Start then []
      else let LineStart = lineStart Text Start;
               ErrorEnd = (if Start < End then End else Start + 1);
               LineEnd = lineEnd Text Start in
        ''    '' @ slice Text LineStart LineEnd @ ''\<newline>'' @
        ''    '' @ indicator Text LineStart LineEnd Start ErrorEnd)"

text \<open>The parser's own version points at nothing when the span is empty.\<close>

definition buildHintLine :: "string \<Rightarrow> nat \<Rightarrow> nat \<Rightarrow> string" where
  "buildHintLine Text Start End =
     (if Text = [] \<or> length Text \<le> Start then []
      else let LineStart = lineStart Text Start;
               LineEnd = lineEnd Text Start in
        ''    '' @ slice Text LineStart LineEnd @ ''\<newline>    '' @
        indicator Text LineStart LineEnd Start End)"

definition invalidText :: "string \<Rightarrow> nat \<Rightarrow> nat \<Rightarrow> string \<Rightarrow> string" where
  "invalidText Text Start End Message =
     (let (Line, Col) = calculateLineCol Text Start in
      to_string Line @ '':'' @ to_string Col @ '': '' @ Message @ ''\<newline>'' @
      buildHintLine Text Start End)"

text \<open>The text of the error a parse method returns; the cut-off recursion has none.\<close>

fun parserErrorText :: "string \<Rightarrow> parser_error \<Rightarrow> string" where
  "parserErrorText Text DifferentSyntax = ''different syntax''"
| "parserErrorText Text (InvalidSyntax Start End Message) = invalidText Text Start End Message"
| "parserErrorText Text OutOfFuel = []"

section \<open>Messages\<close>

definition readFileForError :: "(string \<Rightarrow> string option) \<Rightarrow> string \<Rightarrow> string" where
  "readFileForError getFile Path = (case getFile Path of None \<Rightarrow> [] | Some Text \<Rightarrow> Text)"

definition formatErrorHeader :: "string \<Rightarrow> string \<Rightarrow> nat \<Rightarrow> string" where
  "formatErrorHeader File Text Offset =
     (let Pos = calculatePosition Text Offset in
      File @ '':'' @ to_string (Line Pos) @ '':'' @ to_string (Column Pos) @ '': error: '')"

fun span_Start :: "span \<Rightarrow> nat" where "span_Start (Span s e) = s"
fun span_End :: "span \<Rightarrow> nat" where "span_End (Span s e) = e"

text \<open>The statements all messages share, around the words of the one error.\<close>

definition errorText :: "(string \<Rightarrow> string option) \<Rightarrow> string \<Rightarrow> span \<Rightarrow> string \<Rightarrow> string" where
  "errorText getFile File Loc Words =
     (let Text = readFileForError getFile File in
      formatErrorHeader File Text (span_Start Loc) @ Words @ ''\<newline>'' @
      (if Text \<noteq> [] then buildHintLines Text (span_Start Loc) (span_End Loc) else []))"

fun modelBuilderErrorToString :: "(string \<Rightarrow> string option) \<Rightarrow> model_error \<Rightarrow> string" where
  "modelBuilderErrorToString R (NotImplementedError File Feature Loc) =
     errorText R File Loc
       (''The '' @ Feature @ '' syntax cannot be processed by the modeler yet.'')"
| "modelBuilderErrorToString R (DuplicateNameError File Loc) =
     errorText R File Loc ''This declaration already exists.''"
| "modelBuilderErrorToString R (NonFunctionSymbolExistsError File Loc) =
     errorText R File Loc ''This declaration already exists, but not as a function.''"
| "modelBuilderErrorToString R (FunctionSymbolExistsError File Loc) =
     errorText R File Loc ''This declaration already exists, but as a function.''"
| "modelBuilderErrorToString R (DeInitializerExistsError File Loc) =
     errorText R File Loc ''A deinitializer has already been defined.''"
| "modelBuilderErrorToString R (InvalidConstantError File Loc) =
     errorText R File Loc ''This is an invalid constant.''"
| "modelBuilderErrorToString R (InvalidComponentNameError File Loc) =
     errorText R File Loc ''The component does not have an identifier as name.''"
| "modelBuilderErrorToString R (ModuleRootMustBeConceptError File Loc) =
     errorText R File Loc ''The root definition of a module must be a concept.''"
| "modelBuilderErrorToString R (InvalidInitLifetimeError File Loc Message) =
     errorText R File Loc Message"

fun separated :: "string \<Rightarrow> string list \<Rightarrow> string" where
  "separated Comma [] = []"
| "separated Comma [w] = w"
| "separated Comma (w # v # ws) = w @ Comma @ separated Comma (v # ws)"

fun plannerErrorToString :: "(string \<Rightarrow> string option) \<Rightarrow> planner_error \<Rightarrow> string" where
  "plannerErrorToString R (UndefinedTypeError File Loc Name) =
     errorText R File Loc (''undefined type '' @ quoted Name)"
| "plannerErrorToString R (UndefinedSymbolError File Loc Name) =
     errorText R File Loc (''undefined symbol '' @ quoted Name)"
| "plannerErrorToString R (TypeMismatchError File Loc Expected Actual) =
     errorText R File Loc
       (''type mismatch: expected '' @ quoted Expected @ '', got '' @ quoted Actual)"
| "plannerErrorToString R (GenericArityError File Loc TypeName Expected Actual) =
     errorText R File Loc (''wrong number of type arguments for '' @ quoted TypeName @
       '': expected '' @ to_string Expected @ '', got '' @ to_string Actual)"
| "plannerErrorToString R (ArgumentArityError File Loc FunctionName Expected Actual) =
     errorText R File Loc (''wrong number of arguments for '' @ quoted FunctionName @
       '': expected '' @ to_string Expected @ '', got '' @ to_string Actual)"
| "plannerErrorToString R (DuplicateDefinitionError File Loc Name) =
     errorText R File Loc (''duplicate definition of '' @ quoted Name)"
| "plannerErrorToString R (InfiniteTypeError File Loc TypeName) =
     errorText R File Loc
       (''infinite type detected for '' @ quoted TypeName @ '' (occurs check failed)'')"
| "plannerErrorToString R (PlannerNotImplementedError File Loc Feature) =
     errorText R File Loc (''feature not yet implemented: '' @ Feature)"
| "plannerErrorToString R (AmbiguousOverloadError File Loc FunctionName Candidates) =
     errorText R File Loc (''ambiguous call to '' @ quoted FunctionName @ ''\<newline>'' @
       ''  candidates are:'' @ concat (map (\<lambda>C. ''\<newline>    '' @ C) Candidates))"
| "plannerErrorToString R (NoMatchingOverloadError File Loc FunctionName ArgumentTypes) =
     errorText R File Loc (''no matching overload for '' @ quoted FunctionName @
       (if ArgumentTypes \<noteq> []
        then '' with argument types ('' @ separated '', '' ArgumentTypes @ '')'' else []))"
| "plannerErrorToString R (StackLifetimeError File Loc VariableName) =
     errorText R File Loc (''cannot use '' @ [CHR 0x27, CHR ''^''] @ VariableName @ [CHR 0x27] @
       '' - variable must be of type pointer[Page]'')"
| "plannerErrorToString R (LocalReturnError File Loc) =
     errorText R File Loc ''local lifetime ($) is not allowed on return types''"
| "plannerErrorToString R (EscapingReferenceError File Loc Via) =
     errorText R File Loc (''reference into a local ($) page escapes via '' @ Via @
       '' - allocate the target with '' @ quoted ''#'' @ '' (caller page) or '' @ quoted ''^name'' @
       '' (region) so it outlives the use'')"

section \<open>Where a line starts and ends\<close>

lemma lineStart_le: "lineStart Text I \<le> I"
  by (induction Text I rule: lineStart.induct) auto

lemma lineStart_inside: "lineStart Text I \<le> J \<Longrightarrow> J < I \<Longrightarrow> Text ! J \<noteq> CHR ''\<newline>''"
  by (induction Text I rule: lineStart.induct) (auto split: if_splits simp: less_Suc_eq)

lemma lineStart_before: "lineStart Text I = 0 \<or> Text ! (lineStart Text I - 1) = CHR ''\<newline>''"
  by (induction Text I rule: lineStart.induct) auto

lemma lineEnd_ge: "I \<le> lineEnd Text I"
  by (induction Text I rule: lineEnd.induct) (subst lineEnd.simps, auto)

lemma lineEnd_length: "I \<le> length Text \<Longrightarrow> lineEnd Text I \<le> length Text"
  by (induction Text I rule: lineEnd.induct) (subst lineEnd.simps, auto)

lemma lineEnd_inside: "I \<le> J \<Longrightarrow> J < lineEnd Text I \<Longrightarrow> Text ! J \<noteq> CHR ''\<newline>''"
proof (induction Text I rule: lineEnd.induct)
  case (1 Text I)
  show ?case
  proof (cases "I < length Text \<and> Text ! I \<noteq> CHR ''\<newline>''")
    case True
    then have "lineEnd Text I = lineEnd Text (Suc I)" by (subst lineEnd.simps) simp
    with 1 True show ?thesis by (cases "J = I") auto
  next
    case False
    then have "lineEnd Text I = I" by (subst lineEnd.simps) auto
    with 1 show ?thesis by simp
  qed
qed

lemma lineEnd_stop:
  "lineEnd Text I < length Text \<Longrightarrow> Text ! lineEnd Text I = CHR ''\<newline>''"
proof (induction Text I rule: lineEnd.induct)
  case (1 Text I)
  show ?case
  proof (cases "I < length Text \<and> Text ! I \<noteq> CHR ''\<newline>''")
    case True
    then have "lineEnd Text I = lineEnd Text (Suc I)" by (subst lineEnd.simps) simp
    with 1 True show ?thesis by auto
  next
    case False
    then have "lineEnd Text I = I" by (subst lineEnd.simps) auto
    with 1 False show ?thesis by auto
  qed
qed

section \<open>Positions\<close>

lemma positionLoop_0 [simp]: "positionLoop Text 0 Pos = Pos"
  by (cases Text) simp_all

lemma positionLoop_Suc: "Offset < length Text \<Longrightarrow>
  positionLoop Text (Suc Offset) Pos =
    (let Pos = positionLoop Text Offset Pos in
     if Text ! Offset = CHR ''\<newline>'' then \<lparr>Line = Suc (Line Pos), Column = 1\<rparr>
     else Pos\<lparr>Column := Suc (Column Pos)\<rparr>)"
proof (induction Text Offset Pos rule: positionLoop.induct)
  case (1 C Text Offset Pos)
  then have "Offset < length Text" by simp
  from "1.IH" [OF this] show ?case
    by (simp only: positionLoop.simps(1) nth_Cons_Suc)
next
  case "2_2"
  then show ?case by (auto simp: neq_Nil_conv Let_def)
qed (auto simp: neq_Nil_conv Let_def)

lemma calculatePosition_lineStart: "Offset \<le> length Text \<Longrightarrow>
  calculatePosition Text Offset =
    \<lparr>Line = Suc (count_list (take Offset Text) (CHR ''\<newline>'')),
     Column = Suc (Offset - lineStart Text Offset)\<rparr>"
proof (induction Offset)
  case (Suc Offset)
  then have "calculatePosition Text (Suc Offset) =
    (let Pos = calculatePosition Text Offset in
     if Text ! Offset = CHR ''\<newline>'' then \<lparr>Line = Suc (Line Pos), Column = 1\<rparr>
     else Pos\<lparr>Column := Suc (Column Pos)\<rparr>)"
    unfolding calculatePosition_def by (intro positionLoop_Suc) simp
  with Suc lineStart_le [of Text Offset] show ?case
    by (simp add: Let_def take_Suc_conv_app_nth Suc_diff_le)
qed (simp add: calculatePosition_def)

text \<open>The offset a position stands for: skip lines, then columns.\<close>

fun offsetOf :: "string \<Rightarrow> nat \<Rightarrow> nat \<Rightarrow> nat" where
  "offsetOf Text 0 columns = columns"
| "offsetOf [] (Suc lines) columns = columns"
| "offsetOf (C # Text) (Suc lines) columns =
     Suc (offsetOf Text (if C = CHR ''\<newline>'' then lines else Suc lines) columns)"

lemma positionLoop_mono: "Line Pos \<le> Line (positionLoop Text Offset Pos)"
  by (induction Text Offset Pos rule: positionLoop.induct) (auto split: if_splits)

lemma positionLoop_same_line: "Line (positionLoop Text Offset Pos) = Line Pos \<Longrightarrow>
    Offset \<le> length Text \<Longrightarrow> Column (positionLoop Text Offset Pos) = Column Pos + Offset"
proof (induction Text Offset Pos rule: positionLoop.induct)
  case (1 C Text Offset Pos)
  then show ?case
    using positionLoop_mono [of "\<lparr>Line = Suc (Line Pos), Column = 1\<rparr>" Text Offset]
    by (auto split: if_splits)
qed auto

lemma offsetOf_positionLoop: "Offset \<le> length Text \<Longrightarrow>
  (let Pos' = positionLoop Text Offset Pos in
   offsetOf Text (Line Pos' - Line Pos)
     (if Line Pos' = Line Pos then Column Pos' - Column Pos else Column Pos' - 1)) = Offset"
proof (induction Text Offset Pos rule: positionLoop.induct)
  case (1 C Text Offset Pos)
  show ?case
  proof (cases "C = CHR ''\<newline>''")
    case True
    define Q where "Q = positionLoop Text Offset \<lparr>Line = Suc (Line Pos), Column = 1\<rparr>"
    have "Suc (Line Pos) \<le> Line Q"
      using positionLoop_mono [of "\<lparr>Line = Suc (Line Pos), Column = 1\<rparr>" Text Offset]
      by (simp add: Q_def)
    then have "Line Q - Line Pos = Suc (Line Q - Suc (Line Pos))" "Line Q \<noteq> Line Pos" by arith+
    moreover have "offsetOf Text (Line Q - Suc (Line Pos)) (Column Q - 1) = Offset"
      using 1 True by (simp add: Let_def Q_def cong: if_cong)
    moreover have "positionLoop (C # Text) (Suc Offset) Pos = Q" using True by (simp add: Q_def)
    ultimately show ?thesis using True by (simp add: Let_def)
  next
    case False
    define Pos1 where "Pos1 = Pos\<lparr>Column := Suc (Column Pos)\<rparr>"
    have p: "Line Pos1 = Line Pos" "Column Pos1 = Suc (Column Pos)" by (simp_all add: Pos1_def)
    define Q where "Q = positionLoop Text Offset Pos1"
    have Q: "positionLoop (C # Text) (Suc Offset) Pos = Q" using False by (simp add: Q_def Pos1_def)
    have le: "Line Pos \<le> Line Q" using positionLoop_mono [of Pos1 Text Offset] by (simp add: Q_def p)
    have IH: "offsetOf Text (Line Q - Line Pos)
        (if Line Q = Line Pos then Column Q - Suc (Column Pos) else Column Q - 1) = Offset"
    proof -
      have "(if C = CHR ''\<newline>'' then \<lparr>Line = Suc (Line Pos), Column = 1\<rparr>
        else Pos\<lparr>Column := Suc (Column Pos)\<rparr>) = Pos1" using False by (simp add: Pos1_def)
      with 1 show ?thesis by (simp add: Let_def Q_def p cong: if_cong)
    qed
    show ?thesis
    proof (cases "Line Q = Line Pos")
      case True
      then have "Column Q = Column Pos1 + Offset"
        using positionLoop_same_line [of Text Offset Pos1] 1 by (simp add: Q_def p)
      with True show ?thesis unfolding Q Let_def by (simp add: p)
    next
      case neq: False
      with le obtain l where "Line Q - Line Pos = Suc l" by (cases "Line Q - Line Pos") auto
      with IH neq False show ?thesis unfolding Q Let_def by simp
    qed
  qed
qed (auto simp: Let_def)

section \<open>Properties\<close>

text \<open>C17. Line and column of an offset are those a reader counts: \<open>offsetOf\<close>, which skips the lines
  and then the columns, leads back to the offset, so no two places of a text are reported alike.
  The parser's own copy of the function agrees.\<close>

theorem position_roundtrip:
  assumes "Offset \<le> length Text"
  shows "offsetOf Text (Line (calculatePosition Text Offset) - 1)
      (Column (calculatePosition Text Offset) - 1) = Offset \<and>
    calculateLineCol Text Offset =
      (Line (calculatePosition Text Offset), Column (calculatePosition Text Offset))"
proof -
  let ?P = "\<lparr>Line = 1, Column = 1\<rparr>"
  have "offsetOf Text (Line (positionLoop Text Offset ?P) - 1)
      (Column (positionLoop Text Offset ?P) - 1) = Offset"
    using offsetOf_positionLoop [OF assms, of ?P] by (simp add: Let_def cong: if_cong)
  then show ?thesis by (simp add: calculatePosition_def calculateLineCol_def Let_def)
qed

theorem position_roundtrip_witness:
  "offsetOf ''ab\<newline>cd'' (Line (calculatePosition ''ab\<newline>cd'' 4) - 1)
      (Column (calculatePosition ''ab\<newline>cd'' 4) - 1) = 4"
  using position_roundtrip [of 4 "''ab\<newline>cd''"] by simp



end
