(* ===== verification/Modeler_Modules.thy ===== *)
theory Modeler_Modules
  imports Modeler_Routines Diagnostics Parser_Declarations
begin

text \<open>
  From syntax to model, concluded: definitions, namespaces, bodies, and the modules, packages
  and the prelude that the modeler of retired/scalyc0/Modeler.cpp reads from other files.

  The parts of class Modeler that change are the record \<open>loading\<close>; what does not change
  and what the code asks LLVM and the file system for is the record \<open>world\<close>:
  \<open>MemoryBuffer::getFile\<close> (\<open>None\<close> for an error), \<open>sys::fs::exists\<close> and \<open>is_directory\<close>,
  the functions on paths of \<open>sys::path\<close>, and \<open>StringRef::getAsInteger\<close> with base 10 into an
  unsigned number of 32 bits (\<open>None\<close> when it fails and leaves its target alone).

  A handler is a function from \<open>loading\<close> to its outcome, an error or a node, and the \<open>loading\<close>
  it leaves. Modules refer to modules in other files, and nothing in the code bounds how often:
  each reference followed takes one unit of fuel, and \<open>None\<close> says that the fuel ran out.
  A handler takes \<open>R\<close>, the function that follows a reference to a module, and \<open>D\<close>, the handler
  of a definition inside it.
\<close>

record loading =
  KnownModuleDirs :: "(string \<times> string) list"
  ResolvedPackages :: "(string \<times> package) list"
  LoadingPackages :: "string set"

record world =
  handlers :: the_modeler
  PackageSearchPaths :: "string list"
  EnablePrelude :: bool
  getFile :: "string \<Rightarrow> string option"
  file_exists :: "string \<Rightarrow> bool"
  is_directory :: "string \<Rightarrow> bool"
  path_append :: "string \<Rightarrow> string \<Rightarrow> string"
  remove_filename :: "string \<Rightarrow> string"
  path_filename :: "string \<Rightarrow> string"
  parent_path :: "string \<Rightarrow> string"
  getAsInteger :: "string \<Rightarrow> 32 word option"

definition newModelerState :: loading where
  "newModelerState = \<lparr>KnownModuleDirs = [], ResolvedPackages = [], LoadingPackages = {}\<rparr>"

definition addPackageSearchPath :: "string \<Rightarrow> world \<Rightarrow> world" where
  "addPackageSearchPath Path W = W\<lparr>PackageSearchPaths := PackageSearchPaths W @ [Path]\<rparr>"

definition setEnablePrelude :: "bool \<Rightarrow> world \<Rightarrow> world" where
  "setEnablePrelude Enable W = W\<lparr>EnablePrelude := Enable\<rparr>"

datatype build_error =
    ModelError model_error
  | StringError string

type_synonym 'a build = "loading \<Rightarrow> ((build_error + 'a) \<times> loading) option"
type_synonym refer = "string \<Rightarrow> string \<Rightarrow> bool \<Rightarrow> module build"
type_synonym 'de definer = "string \<Rightarrow> 'de \<Rightarrow> bool \<Rightarrow> concept build"

section \<open>Outcomes\<close>

definition returned :: "'a \<Rightarrow> 'a build" where
  "returned a s = Some (Inr a, s)"

definition failed :: "build_error \<Rightarrow> 'a build" where
  "failed e s = Some (Inl e, s)"

definition fromModel :: "'a modelled \<Rightarrow> 'a build" where
  "fromModel r s = (case r of Inl e \<Rightarrow> failed (ModelError e) s | Inr a \<Rightarrow> returned a s)"

definition andThen :: "'a build \<Rightarrow> ('a \<Rightarrow> 'b build) \<Rightarrow> 'b build" where
  "andThen b k s = (case b s of
     None \<Rightarrow> None
   | Some (Inl e, s) \<Rightarrow> failed e s
   | Some (Inr a, s) \<Rightarrow> k a s)"

text \<open>The loops over declarations: each adds to what was built, the first error ends the loop.\<close>

fun eachOf :: "('acc \<Rightarrow> 'x \<Rightarrow> 'acc build) \<Rightarrow> 'acc \<Rightarrow> 'x list \<Rightarrow> 'acc build" where
  "eachOf f acc [] = returned acc"
| "eachOf f acc (x # xs) = andThen (f acc x) (\<lambda>acc. eachOf f acc xs)"

definition eachOpt :: "('acc \<Rightarrow> 'x \<Rightarrow> 'acc build) \<Rightarrow> 'acc \<Rightarrow> 'x list option \<Rightarrow> 'acc build" where
  "eachOpt f acc xs = (case xs of None \<Rightarrow> returned acc | Some xs \<Rightarrow> eachOf f acc xs)"

section \<open>Bodies, structures and unions\<close>

record body_result =
  br_Uses :: "use_m list"
  br_Modules :: "module list"
  br_Initializers :: "initializer_m list"
  br_Deinitializer :: "deinitializer option"
  br_Members :: "concept struct_member list"
  br_Symbols :: "(module, concept) symbols"

definition emptyBody :: body_result where
  "emptyBody = \<lparr>br_Uses = [], br_Modules = [], br_Initializers = [], br_Deinitializer = None,
     br_Members = [], br_Symbols = []\<rparr>"

definition addMember :: "body_result \<Rightarrow> concept struct_member \<Rightarrow> body_result" where
  "addMember Result Member = Result\<lparr>br_Members := br_Members Result @ [Member]\<rparr>"

fun handleModule :: "refer \<Rightarrow> string \<Rightarrow> module_syntax \<Rightarrow> bool \<Rightarrow> module build" where
  "handleModule R Path (ModuleSyntax Start End name) Private = R Path name Private"

fun handleMember :: "the_modeler \<Rightarrow> refer \<Rightarrow> 'de definer \<Rightarrow> string \<Rightarrow> string \<Rightarrow>
    body_result \<Rightarrow> 'de member_of \<Rightarrow> body_result build" where
  "handleMember M R D Path SubPath Result (Member_Empty C) = returned Result"
| "handleMember M R D Path SubPath Result (Member_Init C) =
     andThen (fromModel (handleInitializer M C False)) (\<lambda>Init.
     returned (Result\<lparr>br_Initializers := br_Initializers Result @ [Init]\<rparr>))"
| "handleMember M R D Path SubPath Result (Member_DeInit C) =
     andThen (fromModel (handleDeInitializer M C)) (\<lambda>DeInit.
     returned (Result\<lparr>br_Deinitializer := Some DeInit\<rparr>))"
| "handleMember M R D Path SubPath Result (Member_Definition C) =
     andThen (D Path C False) (\<lambda>Def. returned (addMember Result (StructMember_Concept Def)))"
| "handleMember M R D Path SubPath Result (Member_Function (FunctionSyntax Start End target)) =
     andThen (fromModel (buildFunction M Start End target False True)) (\<lambda>Func.
     returned (addMember Result (StructMember_Function Func)))"
| "handleMember M R D Path SubPath Result (Member_Procedure (ProcedureSyntax Start End target)) =
     andThen (fromModel (buildFunction M Start End target False False)) (\<lambda>Func.
     returned (addMember Result (StructMember_Function Func)))"
| "handleMember M R D Path SubPath Result (Member_Operator C) =
     andThen (fromModel (handleOperator M C False)) (\<lambda>Op.
     returned (addMember Result (StructMember_Operator Op)))"
| "handleMember M R D Path SubPath Result (Member_Module C) =
     andThen (handleModule R SubPath C False) (\<lambda>Mod.
     returned (Result\<lparr>br_Modules := br_Modules Result @ [Mod]\<rparr>))"
| "handleMember M R D Path SubPath Result (Member_Implement C) = returned Result"
| "handleMember M R D Path SubPath Result (Member_Trait C) = returned Result"
| "handleMember M R D Path SubPath Result (Member_Macro C) = returned Result"

fun handleBody :: "world \<Rightarrow> refer \<Rightarrow> 'de definer \<Rightarrow> string \<Rightarrow> string \<Rightarrow> 'de body_of \<Rightarrow>
    body_result build" where
  "handleBody W R D Name Path (BodySyntax Start End uses members) =
     andThen (fromModel (collectOpt handleUse uses)) (\<lambda>Uses.
     eachOpt (handleMember (handlers W) R D Path (path_append W Path Name))
       (emptyBody\<lparr>br_Uses := Uses\<rparr>) members)"

definition bodyOf :: "world \<Rightarrow> refer \<Rightarrow> 'de definer \<Rightarrow> string \<Rightarrow> string \<Rightarrow> 'de body_of option \<Rightarrow>
    body_result build" where
  "bodyOf W R D Name Path body = (case body of
     None \<Rightarrow> returned emptyBody | Some body \<Rightarrow> handleBody W R D Name Path body)"

fun usePath :: "use_m \<Rightarrow> string list" where
  "usePath (Use Loc Path) = Path"

text \<open>A property that cannot be modelled is left out of its structure.\<close>

fun handlePart :: "the_modeler \<Rightarrow> part_syntax \<Rightarrow> property modelled" where
  "handlePart M (Part_Field (FieldSyntax Start End property)) = handleProperty M True property"
| "handlePart M (Part_Property property) = handleProperty M False property"

fun handleClass :: "world \<Rightarrow> refer \<Rightarrow> 'de definer \<Rightarrow> string \<Rightarrow> string \<Rightarrow> 'de class_of \<Rightarrow> bool \<Rightarrow>
    (module, concept) structure_m build" where
  "handleClass W R D Name Path
       (ClassSyntax Start End (StructureSyntax PartsStart PartsEnd parts) body) Private =
     (let Props = modelledOnly (map (handlePart (handlers W)) (case parts of None \<Rightarrow> [] | Some ps \<Rightarrow> ps)) in
      andThen (bodyOf W R D Name Path body) (\<lambda>Body.
      returned (Structure (Span Start End) Private Props (br_Modules Body)
        (map usePath (br_Uses Body)) (br_Initializers Body) (br_Deinitializer Body)
        (br_Members Body) (br_Symbols Body))))"

fun handleVariant :: "the_modeler \<Rightarrow> variant_syntax \<Rightarrow> variant_m modelled" where
  "handleVariant M (VariantSyntax Start End name attributes annotation) =
     withResult (optionally (\<lambda>a. case a of TypeAnnotationSyntax _ _ T \<Rightarrow> handleType T) annotation)
       (\<lambda>VType.
     withResult (collectOpt (modelAttribute M) attributes) (\<lambda>Attrs.
     Inr (Variant (Span Start End) name VType Attrs)))"

fun handleUnion :: "world \<Rightarrow> refer \<Rightarrow> 'de definer \<Rightarrow> string \<Rightarrow> string \<Rightarrow> 'de union_of \<Rightarrow> bool \<Rightarrow>
    (module, concept) union_m build" where
  "handleUnion W R D Name Path (UnionSyntax Start End variants body) Private =
     andThen (fromModel (collectOpt (handleVariant (handlers W)) variants)) (\<lambda>Variants.
     andThen (bodyOf W R D Name Path body) (\<lambda>Body.
     returned (UnionDef (Span Start End) Private Variants (br_Members Body) (br_Symbols Body))))"

section \<open>Namespaces\<close>

type_synonym namespace_state = "module list \<times> concept struct_member list"

definition addConcept :: "namespace_state \<Rightarrow> concept struct_member \<Rightarrow> namespace_state" where
  "addConcept st Member = (fst st, snd st @ [Member])"

definition addModule :: "namespace_state \<Rightarrow> module \<Rightarrow> namespace_state" where
  "addModule st Mod = (fst st @ [Mod], snd st)"

fun namespaceExport :: "the_modeler \<Rightarrow> refer \<Rightarrow> 'de definer \<Rightarrow> string \<Rightarrow> namespace_state \<Rightarrow>
    'de export_of \<Rightarrow> namespace_state build" where
  "namespaceExport M R D Path st (Export_Definition E) =
     andThen (D Path E True) (\<lambda>Def. returned (addConcept st (StructMember_Concept Def)))"
| "namespaceExport M R D Path st (Export_Function (FunctionSyntax Start End target)) =
     andThen (fromModel (buildFunction M Start End target True True)) (\<lambda>Func.
     returned (addConcept st (StructMember_Function Func)))"
| "namespaceExport M R D Path st (Export_Procedure (ProcedureSyntax Start End target)) =
     andThen (fromModel (buildFunction M Start End target True False)) (\<lambda>Func.
     returned (addConcept st (StructMember_Function Func)))"
| "namespaceExport M R D Path st (Export_Operator E) =
     andThen (fromModel (handleOperator M E True)) (\<lambda>Op.
     returned (addConcept st (StructMember_Operator Op)))"
| "namespaceExport M R D Path st (Export_Module E) =
     andThen (handleModule R Path E True) (\<lambda>Mod. returned (addModule st Mod))"
| "namespaceExport M R D Path st (Export_Trait E) = returned st"

fun namespaceDeclaration :: "the_modeler \<Rightarrow> refer \<Rightarrow> 'de definer \<Rightarrow> string \<Rightarrow> namespace_state \<Rightarrow>
    'de declaration_of \<Rightarrow> namespace_state build" where
  "namespaceDeclaration M R D Path st (Declaration_Private (PrivateSyntax Start End E)) =
     namespaceExport M R D Path st E"
| "namespaceDeclaration M R D Path st (Declaration_Definition S) =
     andThen (D Path S False) (\<lambda>Def. returned (addConcept st (StructMember_Concept Def)))"
| "namespaceDeclaration M R D Path st (Declaration_Function (FunctionSyntax Start End target)) =
     andThen (fromModel (buildFunction M Start End target False True)) (\<lambda>Func.
     returned (addConcept st (StructMember_Function Func)))"
| "namespaceDeclaration M R D Path st (Declaration_Procedure (ProcedureSyntax Start End target)) =
     andThen (fromModel (buildFunction M Start End target False False)) (\<lambda>Func.
     returned (addConcept st (StructMember_Function Func)))"
| "namespaceDeclaration M R D Path st (Declaration_Operator S) =
     andThen (fromModel (handleOperator M S False)) (\<lambda>Op.
     returned (addConcept st (StructMember_Operator Op)))"
| "namespaceDeclaration M R D Path st (Declaration_Module S) =
     andThen (handleModule R Path S False) (\<lambda>Mod. returned (addModule st Mod))"
| "namespaceDeclaration M R D Path st (Declaration_Empty S) = returned st"
| "namespaceDeclaration M R D Path st (Declaration_Package S) = returned st"
| "namespaceDeclaration M R D Path st (Declaration_Use S) = returned st"
| "namespaceDeclaration M R D Path st (Declaration_Trait S) = returned st"
| "namespaceDeclaration M R D Path st (Declaration_Macro S) = returned st"
| "namespaceDeclaration M R D Path st (Declaration_Mutable S) = returned st"

fun handleNamespace :: "world \<Rightarrow> refer \<Rightarrow> 'de definer \<Rightarrow> string \<Rightarrow> string \<Rightarrow> 'de namespace_of \<Rightarrow>
    bool \<Rightarrow> (module, concept) namespace_m build" where
  "handleNamespace W R D Name Path (NamespaceSyntax Start End uses declarations) Private =
     (let NamespacePath = (if path_filename W Path \<noteq> Name then path_append W Path Name else Path) in
      andThen (eachOpt (namespaceDeclaration (handlers W) R D NamespacePath) ([], []) declarations)
        (\<lambda>(Modules, Members). returned (Namespace (Span Start End) Modules Members [])))"

section \<open>Definitions\<close>

fun handleConcept :: "world \<Rightarrow> refer \<Rightarrow> 'de definer \<Rightarrow> span \<Rightarrow> string \<Rightarrow> string \<Rightarrow> 'de concept_of \<Rightarrow>
    bool \<Rightarrow> (module, concept) definition_m build" where
  "handleConcept W R D Loc Name Path (Concept_Class C) Private =
     andThen (handleClass W R D Name Path C Private) (\<lambda>Struct. returned (Definition_Structure Struct))"
| "handleConcept W R D Loc Name Path (Concept_Namespace C) Private =
     andThen (handleNamespace W R D Name Path C Private) (\<lambda>NS. returned (Definition_Namespace NS))"
| "handleConcept W R D Loc Name Path (Concept_Union C) Private =
     andThen (handleUnion W R D Name Path C Private) (\<lambda>U. returned (Definition_Union U))"
| "handleConcept W R D Loc Name Path (Concept_Constant (ConstantSyntax Start End T operation)) Private =
     (case operation of
        None \<Rightarrow> andThen (fromModel (handleType T)) (\<lambda>TypeRef. returned (Definition_Type TypeRef))
      | Some operation \<Rightarrow>
          andThen (fromModel (handleOperands (handlers W) (Some operation))) (\<lambda>Ops.
          andThen (fromModel (handleType T)) (\<lambda>TypeResult.
          returned (Definition_Global (Global Loc TypeResult Ops)))))"
| "handleConcept W R D Loc Name Path (Concept_Delegate (DelegateSyntax Start End p a r t)) Private =
     failed (ModelError (NotImplementedError (File (handlers W)) ''Delegate'' (Span Start End)))"
| "handleConcept W R D Loc Name Path (Concept_Intrinsic (IntrinsicSyntax Start End)) Private =
     returned (Definition_Intrinsic (Span Start End))"

fun handleGenericParameters :: "the_modeler \<Rightarrow> generic_parameters_syntax option \<Rightarrow>
    generic_parameter list modelled" where
  "handleGenericParameters M None = Inr []"
| "handleGenericParameters M (Some (GenericParametersSyntax _ _ parameters)) =
     collectOpt (handleGenericParameter M) parameters"

definition definitionBody :: "world \<Rightarrow> refer \<Rightarrow> 'de definer \<Rightarrow> string \<Rightarrow> nat \<Rightarrow> nat \<Rightarrow> string \<Rightarrow>
    generic_parameters_syntax option \<Rightarrow> attribute_syntax list option \<Rightarrow> 'de concept_of \<Rightarrow> bool \<Rightarrow>
    concept build" where
  "definitionBody W R D Path Start End name parameters attributes concept Private =
     andThen (fromModel (handleGenericParameters (handlers W) parameters)) (\<lambda>Params.
     andThen (fromModel (collectOpt (modelAttribute (handlers W)) attributes)) (\<lambda>Attrs.
     andThen (handleConcept W R D (Span Start End) name Path concept Private) (\<lambda>Def.
     returned (Concept (Span Start End) name Params Attrs Def))))"

text \<open>The recursion goes into the definitions of a body or a namespace: they are replaced by
  their handlers, which the body then calls.\<close>

primrec definitionLevel :: "world \<Rightarrow> refer \<Rightarrow> definition_syntax \<Rightarrow> string \<Rightarrow> bool \<Rightarrow> concept build" where
  "definitionLevel W R (DefinitionSyntax Start End name parameters attributes concept) =
     (\<lambda>Path Private. definitionBody W R (\<lambda>Path handler Private. handler Path Private) Path
        Start End name parameters attributes (map_concept_of (definitionLevel W R) concept) Private)"

definition handleDefinition :: "world \<Rightarrow> refer \<Rightarrow> definition_syntax definer" where
  "handleDefinition W R Path Syntax Private = definitionLevel W R Syntax Path Private"

section \<open>Modules\<close>

record module_state =
  ms_Modules :: "module list"
  ms_Members :: "member list"
  ms_Symbols :: "(module, concept) symbols"

definition emptyModule :: module_state where
  "emptyModule = \<lparr>ms_Modules = [], ms_Members = [], ms_Symbols = []\<rparr>"

definition withMember :: "module_state \<Rightarrow> member \<Rightarrow> module_state" where
  "withMember st Member = st\<lparr>ms_Members := ms_Members st @ [Member]\<rparr>"

definition withModule :: "module_state \<Rightarrow> module \<Rightarrow> module_state" where
  "withModule st Mod = st\<lparr>ms_Modules := ms_Modules st @ [Mod]\<rparr>"

fun moduleExport :: "the_modeler \<Rightarrow> refer \<Rightarrow> 'de definer \<Rightarrow> string \<Rightarrow> module_state \<Rightarrow>
    'de export_of \<Rightarrow> module_state build" where
  "moduleExport M R D Path st (Export_Definition E) =
     andThen (D Path E True) (\<lambda>Def. returned (withMember st (ModuleMember_Concept Def)))"
| "moduleExport M R D Path st (Export_Function (FunctionSyntax Start End target)) =
     andThen (fromModel (buildFunction M Start End target True True)) (\<lambda>Func.
     returned (withMember st (ModuleMember_Function Func)))"
| "moduleExport M R D Path st (Export_Procedure (ProcedureSyntax Start End target)) =
     andThen (fromModel (buildFunction M Start End target True False)) (\<lambda>Func.
     returned (withMember st (ModuleMember_Function Func)))"
| "moduleExport M R D Path st (Export_Operator E) =
     andThen (fromModel (handleOperator M E True)) (\<lambda>Op.
     returned (withMember st (ModuleMember_Operator Op)))"
| "moduleExport M R D Path st (Export_Module E) =
     andThen (handleModule R Path E True) (\<lambda>Mod. returned (withModule st Mod))"
| "moduleExport M R D Path st (Export_Trait E) = returned st"

text \<open>A variable of the module is a member and a symbol.\<close>

fun handleMutable :: "the_modeler \<Rightarrow> module_state \<Rightarrow> mutable_syntax \<Rightarrow> module_state build" where
  "handleMutable M st (MutableSyntax Start End (BindingSyntax BStart BEnd name annotation operation)) =
     (case annotation of
        None \<Rightarrow> failed (StringError ''module-level mutable requires a type annotation'')
      | Some annotation \<Rightarrow>
          andThen (fromModel (handleBindingAnnotation M annotation)) (\<lambda>TypeRef.
          andThen
            (case operation of
               None \<Rightarrow> returned []
             | Some operation \<Rightarrow> fromModel (handleOperands M (Some operation))) (\<lambda>Init.
          let MV = ModuleVariable (Span Start End) name TypeRef Init in
          returned (withMember
            (st\<lparr>ms_Symbols := map_put name (Nameable_Variable MV) (ms_Symbols st)\<rparr>)
            (ModuleMember_Variable MV)))))"

fun moduleDeclaration :: "the_modeler \<Rightarrow> refer \<Rightarrow> definition_syntax definer \<Rightarrow> string \<Rightarrow>
    module_state \<Rightarrow> declaration_syntax \<Rightarrow> module_state build" where
  "moduleDeclaration M R D Path st (Declaration_Private (PrivateSyntax Start End E)) =
     moduleExport M R D Path st E"
| "moduleDeclaration M R D Path st (Declaration_Definition S) =
     andThen (D Path S False) (\<lambda>Def. returned (withMember st (ModuleMember_Concept Def)))"
| "moduleDeclaration M R D Path st (Declaration_Function (FunctionSyntax Start End target)) =
     andThen (fromModel (buildFunction M Start End target False True)) (\<lambda>Func.
     returned (withMember st (ModuleMember_Function Func)))"
| "moduleDeclaration M R D Path st (Declaration_Procedure (ProcedureSyntax Start End target)) =
     andThen (fromModel (buildFunction M Start End target False False)) (\<lambda>Func.
     returned (withMember st (ModuleMember_Function Func)))"
| "moduleDeclaration M R D Path st (Declaration_Operator S) =
     andThen (fromModel (handleOperator M S False)) (\<lambda>Op.
     returned (withMember st (ModuleMember_Operator Op)))"
| "moduleDeclaration M R D Path st (Declaration_Module S) =
     andThen (handleModule R Path S False) (\<lambda>Mod. returned (withModule st Mod))"
| "moduleDeclaration M R D Path st (Declaration_Mutable S) = handleMutable M st S"
| "moduleDeclaration M R D Path st (Declaration_Empty S) = returned st"
| "moduleDeclaration M R D Path st (Declaration_Package S) = returned st"
| "moduleDeclaration M R D Path st (Declaration_Use S) = returned st"
| "moduleDeclaration M R D Path st (Declaration_Trait S) = returned st"
| "moduleDeclaration M R D Path st (Declaration_Macro S) = returned st"

fun useOf :: "declaration_syntax \<Rightarrow> use_syntax option" where
  "useOf (Declaration_Use U) = Some U"
| "useOf D = None"

fun declarationsOf :: "file_syntax \<Rightarrow> declaration_syntax list" where
  "declarationsOf (FileSyntax Start End declarations) =
     (case declarations of None \<Rightarrow> [] | Some ds \<Rightarrow> ds)"

definition buildModule :: "world \<Rightarrow> refer \<Rightarrow> string \<Rightarrow> string \<Rightarrow> string \<Rightarrow> file_syntax \<Rightarrow> bool \<Rightarrow>
    module build" where
  "buildModule W R Path FileName Name Syntax Private =
     andThen (fromModel (collect handleUse (List.map_filter useOf (declarationsOf Syntax)))) (\<lambda>Uses.
     andThen (eachOf (moduleDeclaration (handlers W) R (handleDefinition W R) Path) emptyModule
       (declarationsOf Syntax)) (\<lambda>st.
     returned (Module Private FileName Name (ms_Modules st) Uses (ms_Members st) (ms_Symbols st))))"

text \<open>A parser on the text of a file that it must read to the end. The errors name the file,
  \<open>Prefix\<close> is what a parse error starts with.\<close>

definition parseAll :: "'a parser \<Rightarrow> string \<Rightarrow> string \<Rightarrow> string \<Rightarrow> string + 'a" where
  "parseAll parse Prefix FilePath Text = (case parse (newLexer Text) of
     (Inl e, lx) \<Rightarrow> Inl (Prefix @ parserErrorText Text e)
   | (Inr node, lx) \<Rightarrow>
       if isAtEnd lx then Inr node else Inl (FilePath @ '': parse incomplete''))"

definition moduleFile :: "world \<Rightarrow> string \<Rightarrow> string \<Rightarrow> string" where
  "moduleFile W Path Name = (if Path \<noteq> [] then path_append W Path Name else Name)"

definition referencedModule :: "world \<Rightarrow> refer \<Rightarrow> refer" where
  "referencedModule W R Path Name Private s =
     (let FilePath = moduleFile W Path Name @ ''.scaly'' in
      case getFile W FilePath of
        None \<Rightarrow>
          (case map_of (KnownModuleDirs s) Name of
             Some Dir \<Rightarrow> if Dir \<noteq> Path then R Dir Name Private s
               else failed (StringError (''cannot open module file: '' @ FilePath)) s
           | None \<Rightarrow> failed (StringError (''cannot open module file: '' @ FilePath)) s)
      | Some Text \<Rightarrow>
          (let s = s\<lparr>KnownModuleDirs := map_put Name Path (KnownModuleDirs s)\<rparr> in
           case parseAll parseFile (FilePath @ '': '') FilePath Text of
             Inl Message \<Rightarrow> failed (StringError Message) s
           | Inr Syntax \<Rightarrow> buildModule W R (moduleFile W Path Name) FilePath Name Syntax Private s))"

fun buildReferencedModule :: "nat \<Rightarrow> world \<Rightarrow> refer" where
  "buildReferencedModule 0 W Path Name Private s = None"
| "buildReferencedModule (Suc n) W Path Name Private s =
     referencedModule W (buildReferencedModule n W) Path Name Private s"

section \<open>Packages\<close>

text \<open>The number in front of the first dot and the one behind it; a number that cannot be read leaves 0.\<close>

definition numberOr :: "32 word \<Rightarrow> 32 word option \<Rightarrow> 32 word" where
  "numberOr old read = (case read of None \<Rightarrow> old | Some n \<Rightarrow> n)"

fun majorMinor :: "world \<Rightarrow> literal \<Rightarrow> version \<Rightarrow> version" where
  "majorMinor W (FloatingPointLiteral Value) Ver =
     (if CHR ''.'' \<in> set Value
      then let DotPos = length (takeWhile (\<lambda>C. C \<noteq> CHR ''.'') Value) in
        Ver\<lparr>Major := numberOr (Major Ver) (getAsInteger W (take DotPos Value)),
            Minor := numberOr (Minor Ver) (getAsInteger W (drop (DotPos + 1) Value))\<rparr>
      else Ver)"
| "majorMinor W (IntegerLiteral Value) Ver =
     Ver\<lparr>Major := numberOr (Major Ver) (getAsInteger W Value)\<rparr>"
| "majorMinor W _ Ver = Ver"

fun patchOf :: "world \<Rightarrow> literal \<Rightarrow> version \<Rightarrow> version" where
  "patchOf W (IntegerLiteral Value) Ver =
     Ver\<lparr>Patch := numberOr (Patch Ver) (getAsInteger W Value)\<rparr>"
| "patchOf W _ Ver = Ver"

fun packageVersion :: "world \<Rightarrow> version_syntax option \<Rightarrow> version" where
  "packageVersion W None = \<lparr>Major = 0, Minor = 0, Patch = 0\<rparr>"
| "packageVersion W (Some (VersionSyntax Start End mm p)) =
     patchOf W p (majorMinor W mm \<lparr>Major = 0, Minor = 0, Patch = 0\<rparr>)"

fun packageOf :: "world \<Rightarrow> declaration_syntax \<Rightarrow> (string \<times> version) option" where
  "packageOf W (Declaration_Package (PackageSyntax Start End (NameSyntax NStart NEnd name ext) version)) =
     Some (name, packageVersion W version)"
| "packageOf W D = None"

definition packageKey :: "string \<Rightarrow> version \<Rightarrow> string" where
  "packageKey Name Ver = Name @ ''@'' @ version_toString Ver"

text \<open>The directories above the source file, ten at most, up to one that has packages.\<close>

fun walkUp :: "world \<Rightarrow> nat \<Rightarrow> string \<Rightarrow> string list" where
  "walkUp W 0 Dir = []"
| "walkUp W (Suc i) Dir =
     (if Dir = [] then []
      else let Dir = remove_filename W Dir in
        if Dir = [] then []
        else let ParentPackages = path_append W Dir ''packages'' in
          if is_directory W ParentPackages then [ParentPackages] else walkUp W i Dir)"

definition searchPaths :: "world \<Rightarrow> string list" where
  "searchPaths W =
     (let LocalPath = remove_filename W (File (handlers W)) in
      ''packages'' # path_append W LocalPath ''packages'' # walkUp W 10 LocalPath @
      ''/usr/share/scaly/packages'' # PackageSearchPaths W)"

definition packagePath :: "world \<Rightarrow> string \<Rightarrow> version \<Rightarrow> string \<Rightarrow> string" where
  "packagePath W Name Ver Base =
     path_append W (path_append W (path_append W Base Name) (version_toString Ver)) (Name @ ''.scaly'')"

text \<open>\<open>LoadingPackages.erase(Key)\<close>, on each way out once the key is entered.\<close>

definition erasing :: "string \<Rightarrow> 'a build \<Rightarrow> 'a build" where
  "erasing Key b s = map_option
     (\<lambda>(r, s). (r, s\<lparr>LoadingPackages := LoadingPackages s - {Key}\<rparr>)) (b s)"

definition resolveDependency :: "world \<Rightarrow> (string \<Rightarrow> version \<Rightarrow> module build) \<Rightarrow> unit \<Rightarrow>
    declaration_syntax \<Rightarrow> unit build" where
  "resolveDependency W Resolve u D = (case packageOf W D of
     None \<Rightarrow> returned ()
   | Some (PkgName, Ver) \<Rightarrow> andThen (Resolve PkgName Ver) (\<lambda>_. returned ()))"

fun programFile :: "program_syntax \<Rightarrow> file_syntax" where
  "programFile (ProgramSyntax Start End file statements) = file"

definition cachePackage :: "string \<Rightarrow> string \<Rightarrow> version \<Rightarrow> module \<Rightarrow> module build" where
  "cachePackage Key Name Ver Result s =
     returned Result (s\<lparr>ResolvedPackages := map_put Key (Package Name Ver (Some Result)) (ResolvedPackages s)\<rparr>)"

definition loadPackage :: "world \<Rightarrow> refer \<Rightarrow> (string \<Rightarrow> version \<Rightarrow> module build) \<Rightarrow> string \<Rightarrow> version \<Rightarrow>
    string \<Rightarrow> module build" where
  "loadPackage W R Resolve Name Ver PkgPath = (case getFile W PkgPath of
     None \<Rightarrow> failed (StringError (''cannot open package file: '' @ PkgPath))
   | Some Text \<Rightarrow> (case parseAll parseProgram (PkgPath @ '': '') PkgPath Text of
       Inl Message \<Rightarrow> failed (StringError Message)
     | Inr Syntax \<Rightarrow>
         andThen (eachOf (resolveDependency W Resolve) () (declarationsOf (programFile Syntax))) (\<lambda>_.
         andThen (buildModule W R (parent_path W PkgPath) PkgPath Name (programFile Syntax) False)
           (cachePackage (packageKey Name Ver) Name Ver))))"

fun packageRoot :: "package \<Rightarrow> module option" where
  "packageRoot (Package Name Ver Root) = Root"

definition packageNotFound :: "string \<Rightarrow> version \<Rightarrow> nat \<Rightarrow> string" where
  "packageNotFound Name Ver paths = ''package not found: '' @ Name @ '' '' @ version_toString Ver @
     '' (searched '' @ to_string paths @ '' paths)''"

definition resolveBody :: "world \<Rightarrow> refer \<Rightarrow> (string \<Rightarrow> version \<Rightarrow> module build) \<Rightarrow> string \<Rightarrow> version \<Rightarrow>
    module build" where
  "resolveBody W R Resolve Name Ver s =
     (let Key = packageKey Name Ver in
      case map_of (ResolvedPackages s) Key of
        Some Pkg \<Rightarrow> map_option (\<lambda>Root. (Inr Root, s)) (packageRoot Pkg)
      | None \<Rightarrow>
          if Key \<in> LoadingPackages s
          then failed (StringError (''circular package dependency: '' @ Key)) s
          else erasing Key
            (case find (file_exists W) (map (packagePath W Name Ver) (searchPaths W)) of
               Some PkgPath \<Rightarrow> loadPackage W R Resolve Name Ver PkgPath
             | None \<Rightarrow> failed (StringError (packageNotFound Name Ver (length (searchPaths W)))))
            (s\<lparr>LoadingPackages := insert Key (LoadingPackages s)\<rparr>))"

fun resolvePackage :: "nat \<Rightarrow> world \<Rightarrow> string \<Rightarrow> version \<Rightarrow> module build" where
  "resolvePackage 0 W Name Ver s = None"
| "resolvePackage (Suc n) W Name Ver s =
     resolveBody W (buildReferencedModule n W) (resolvePackage n W) Name Ver s"

section \<open>The prelude and the program\<close>

definition preludePath :: "world \<Rightarrow> string option" where
  "preludePath W = find (file_exists W)
     ([''packages/scaly/0.2.1/scaly/prelude.scaly'',
       ''/usr/share/scaly/packages/scaly/0.2.1/scaly/prelude.scaly''] @
      map (\<lambda>SearchPath. path_append W SearchPath ''scaly/0.1.0/scaly/prelude.scaly'') (PackageSearchPaths W))"

definition loadPrelude :: "world \<Rightarrow> refer \<Rightarrow> module option build" where
  "loadPrelude W R = (case preludePath W of
     None \<Rightarrow> returned None
   | Some PreludePath \<Rightarrow> (case getFile W PreludePath of
       None \<Rightarrow> returned None
     | Some Text \<Rightarrow> (case parseAll parseProgram [] PreludePath Text of
         Inl Message \<Rightarrow> failed (StringError Message)
       | Inr Syntax \<Rightarrow>
           andThen (buildModule W R (remove_filename W PreludePath) PreludePath ''prelude''
             (programFile Syntax) False) (\<lambda>Prelude. returned (Some Prelude)))))"

fun moduleMembers :: "module \<Rightarrow> member list" where
  "moduleMembers (Module Private FileName Name Modules Uses Members Symbols) = Members"

fun prependMembers :: "member list \<Rightarrow> module \<Rightarrow> module" where
  "prependMembers ms (Module Private FileName Name Modules Uses Members Symbols) =
     Module Private FileName Name Modules Uses (ms @ Members) Symbols"

definition mergePrelude :: "world \<Rightarrow> refer \<Rightarrow> module \<Rightarrow> module build" where
  "mergePrelude W R MainModule =
     (if EnablePrelude W
      then andThen (loadPrelude W R) (\<lambda>Prelude. returned (case Prelude of
          None \<Rightarrow> MainModule | Some P \<Rightarrow> prependMembers (moduleMembers P) MainModule))
      else returned MainModule)"

definition takePackages :: "package list build" where
  "takePackages s = returned (map snd (ResolvedPackages s)) (s\<lparr>ResolvedPackages := []\<rparr>)"

fun buildProgram :: "nat \<Rightarrow> world \<Rightarrow> program_syntax \<Rightarrow> program build" where
  "buildProgram n W (ProgramSyntax Start End file statements) =
     andThen (eachOf (resolveDependency W (resolvePackage n W)) () (declarationsOf file)) (\<lambda>_.
     andThen takePackages (\<lambda>Packages.
     andThen (buildModule W (buildReferencedModule n W) (remove_filename W (File (handlers W)))
       (File (handlers W)) [] file False) (\<lambda>MainModule.
     andThen (mergePrelude W (buildReferencedModule n W) MainModule) (\<lambda>MainModule.
     andThen (fromModel (handleStatements (handlers W) statements)) (\<lambda>Stmts.
     returned (Program Packages MainModule Stmts))))))"

end
