(* ===== verification/Modeler_Modules_Props.thy ===== *)
theory Modeler_Modules_Props
  imports Modeler_Modules
begin

text \<open>
  Lemmas on the modules and packages of Modeler_Modules: the recursive equations, that the fuel
  is a bound and nothing else, what a method may change of the state, and an invariant of the
  cache of packages.
\<close>

section \<open>The recursion through definitions\<close>

text \<open>A handler on a node whose definitions are replaced is the handler with another \<open>D\<close>.\<close>

named_theorems replaced "handlers on nodes whose definitions are replaced"

lemma eachOf_map [replaced]: "eachOf f acc (map g xs) = eachOf (\<lambda>acc x. f acc (g x)) acc xs"
  by (induction xs arbitrary: acc) simp_all

lemma eachOpt_map [replaced]:
  "eachOpt f acc (map_option (map g) xs) = eachOpt (\<lambda>acc x. f acc (g x)) acc xs"
  by (simp add: eachOpt_def eachOf_map split: option.split)

lemma handleMember_map [replaced]:
  "handleMember M R D Path SubPath Result (map_member_of f C) =
     handleMember M R (\<lambda>Path d. D Path (f d)) Path SubPath Result C"
  by (cases "(M, R, \<lambda>Path d. D Path (f d), Path, SubPath, Result, C)" rule: handleMember.cases) simp_all

lemma bodyOf_map [replaced]:
  "bodyOf W R D Name Path (map_option (map_body_of f) body) =
     bodyOf W R (\<lambda>Path d. D Path (f d)) Name Path body"
proof (cases body)
  case (Some B)
  then show ?thesis by (cases B) (simp add: bodyOf_def replaced)
qed (simp add: bodyOf_def)

lemma handleClass_map [replaced]:
  "handleClass W R D Name Path (map_class_of f C) Private =
     handleClass W R (\<lambda>Path d. D Path (f d)) Name Path C Private"
  by (cases "(W, R, \<lambda>Path d. D Path (f d), Name, Path, C, Private)" rule: handleClass.cases)
    (simp add: replaced)

lemma handleUnion_map [replaced]:
  "handleUnion W R D Name Path (map_union_of f C) Private =
     handleUnion W R (\<lambda>Path d. D Path (f d)) Name Path C Private"
  by (cases C) (simp add: replaced)

lemma namespaceExport_map [replaced]:
  "namespaceExport M R D Path st (map_export_of f C) =
     namespaceExport M R (\<lambda>Path d. D Path (f d)) Path st C"
  by (cases "(M, R, \<lambda>Path d. D Path (f d), Path, st, C)" rule: namespaceExport.cases) simp_all

lemma namespaceDeclaration_map [replaced]:
  "namespaceDeclaration M R D Path st (map_declaration_of f C) =
     namespaceDeclaration M R (\<lambda>Path d. D Path (f d)) Path st C"
  by (cases "(M, R, \<lambda>Path d. D Path (f d), Path, st, C)" rule: namespaceDeclaration.cases)
    (simp_all add: replaced)

lemma handleNamespace_map [replaced]:
  "handleNamespace W R D Name Path (map_namespace_of f C) Private =
     handleNamespace W R (\<lambda>Path d. D Path (f d)) Name Path C Private"
  by (cases C) (simp add: replaced Let_def)

lemma handleConcept_map [replaced]:
  "handleConcept W R D Loc Name Path (map_concept_of f C) Private =
     handleConcept W R (\<lambda>Path d. D Path (f d)) Loc Name Path C Private"
  by (cases "(W, R, \<lambda>Path d. D Path (f d), Loc, Name, Path, C, Private)" rule: handleConcept.cases)
    (simp_all add: replaced)

lemma handleDefinition_body:
  "handleDefinition W R Path (DefinitionSyntax Start End name parameters attributes concept) Private =
     definitionBody W R (handleDefinition W R) Path Start End name parameters attributes concept Private"
  by (simp add: handleDefinition_def [abs_def] definitionBody_def replaced)

section \<open>More fuel, and what changes\<close>

text \<open>\<open>agrees e I b b'\<close>: where \<open>b\<close> has an outcome \<open>b'\<close> has the same, and \<open>I\<close> relates the state
  before to the state after; with \<open>e\<close>, \<open>b\<close> has an outcome in every state.\<close>

named_theorems agree "rules for agreeing handlers"

definition agrees :: "bool \<Rightarrow> (loading \<Rightarrow> loading \<Rightarrow> bool) \<Rightarrow> 'a build \<Rightarrow> 'a build \<Rightarrow> bool" where
  "agrees e I b b' \<longleftrightarrow> (e \<longrightarrow> (\<forall>s. b s \<noteq> None)) \<and>
     (\<forall>s r s'. b s = Some (r, s') \<longrightarrow> b' s = Some (r, s') \<and> I s s')"

lemma agreesI:
  assumes "\<And>s. e \<Longrightarrow> b s \<noteq> None"
    and "\<And>s r s'. b s = Some (r, s') \<Longrightarrow> b' s = Some (r, s') \<and> I s s'"
  shows "agrees e I b b'"
  using assms by (simp add: agrees_def)

lemma agrees_ends: "agrees True I b b' \<Longrightarrow> b s \<noteq> None"
  by (simp add: agrees_def)

lemma agreesD:
  assumes "agrees e I b b'" "b s = Some (r, s')"
  shows "b' s = Some (r, s')" "I s s'"
  using assms by (auto simp: agrees_def)

locale loading_relation =
  fixes e :: bool and I :: "loading \<Rightarrow> loading \<Rightarrow> bool"
  assumes same: "I s s"
    and trans: "I s t \<Longrightarrow> I t u \<Longrightarrow> I s u"
    and known: "I s (s\<lparr>KnownModuleDirs := dirs\<rparr>)"
begin

lemma returned [agree]: "agrees e I (returned a) (returned a)"
  by (auto simp: agrees_def returned_def same)

lemma failed [agree]: "agrees e I (failed x) (failed x)"
  by (auto simp: agrees_def failed_def same)

lemma fromModel [agree]: "agrees e I (fromModel r) (fromModel r)"
  by (auto simp: agrees_def fromModel_def failed_def returned_def same split: sum.splits)

lemma andThen [agree]:
  assumes "agrees e I b b'" "\<And>a. agrees e I (k a) (k' a)"
  shows "agrees e I (andThen b k) (andThen b' k')"
proof (rule agreesI)
  show "andThen b k s \<noteq> None" if e for s
    using assms that
    by (auto simp: agrees_def andThen_def failed_def split: option.splits sum.splits)
next
  fix s r s' assume run: "andThen b k s = Some (r, s')"
  then obtain r1 s1 where b: "b s = Some (r1, s1)"
    by (auto simp: andThen_def split: option.splits)
  note first = agreesD [OF assms(1) b]
  show "andThen b' k' s = Some (r, s') \<and> I s s'"
  proof (cases r1)
    case (Inl x)
    then show ?thesis using run b first by (simp add: andThen_def failed_def)
  next
    case (Inr a)
    then have "k a s1 = Some (r, s')" using run b by (simp add: andThen_def)
    from agreesD [OF assms(2) this] Inr first show ?thesis
      by (auto simp: andThen_def intro: trans)
  qed
qed

lemma eachOf [agree]:
  "(\<And>acc x. x \<in> set xs \<Longrightarrow> agrees e I (f acc x) (f' acc x)) \<Longrightarrow>
   agrees e I (eachOf f acc xs) (eachOf f' acc xs)"
  by (induction xs arbitrary: acc) (simp_all add: returned andThen)

lemma eachOpt [agree]:
  "(\<And>acc x ys. xs = Some ys \<Longrightarrow> x \<in> set ys \<Longrightarrow> agrees e I (f acc x) (f' acc x)) \<Longrightarrow>
   agrees e I (eachOpt f acc xs) (eachOpt f' acc xs)"
  by (simp add: eachOpt_def returned eachOf split: option.split)

lemma handleModule [agree]:
  "(\<And>P n p. agrees e I (R P n p) (R' P n p)) \<Longrightarrow>
   agrees e I (handleModule R Path C Private) (handleModule R' Path C Private)"
  by (cases C) simp

lemma handleMember [agree]:
  assumes "\<And>P n p. agrees e I (R P n p) (R' P n p)"
    and "\<And>d P p. d \<in> set_member_of C \<Longrightarrow> agrees e I (D P d p) (D' P d p)"
  shows "agrees e I (handleMember M R D Path SubPath Result C) (handleMember M R' D' Path SubPath Result C)"
  using assms by (cases "(M, R, D, Path, SubPath, Result, C)" rule: handleMember.cases)
    (auto intro!: agree)

lemma bodyOf [agree]:
  assumes "\<And>P n p. agrees e I (R P n p) (R' P n p)"
    and "\<And>B d P p. body = Some B \<Longrightarrow> d \<in> set_body_of B \<Longrightarrow> agrees e I (D P d p) (D' P d p)"
  shows "agrees e I (bodyOf W R D Name Path body) (bodyOf W R' D' Name Path body)"
proof (cases body)
  case (Some B)
  obtain Start End uses members where B: "B = BodySyntax Start End uses members" by (cases B)
  have D: "agrees e I (D P d p) (D' P d p)"
    if "members = Some ys" "x \<in> set ys" "d \<in> set_member_of x" for ys x d P p
    by (rule assms(2) [OF Some]) (use that B in auto)
  show ?thesis unfolding bodyOf_def Some B option.case handleBody.simps
    by (intro agree assms(1) D)
qed (simp add: bodyOf_def agree)

lemma handleClass [agree]:
  assumes "\<And>P n p. agrees e I (R P n p) (R' P n p)"
    and "\<And>d P p. d \<in> set_class_of C \<Longrightarrow> agrees e I (D P d p) (D' P d p)"
  shows "agrees e I (handleClass W R D Name Path C Private) (handleClass W R' D' Name Path C Private)"
  using assms by (cases "(W, R, D, Name, Path, C, Private)" rule: handleClass.cases)
    (auto intro!: agree simp: Let_def)

lemma handleUnion [agree]:
  assumes "\<And>P n p. agrees e I (R P n p) (R' P n p)"
    and "\<And>d P p. d \<in> set_union_of C \<Longrightarrow> agrees e I (D P d p) (D' P d p)"
  shows "agrees e I (handleUnion W R D Name Path C Private) (handleUnion W R' D' Name Path C Private)"
  using assms by (cases C) (auto intro!: agree)

lemma namespaceExport [agree]:
  assumes "\<And>P n p. agrees e I (R P n p) (R' P n p)"
    and "\<And>d P p. d \<in> set_export_of C \<Longrightarrow> agrees e I (D P d p) (D' P d p)"
  shows "agrees e I (namespaceExport M R D Path st C) (namespaceExport M R' D' Path st C)"
  using assms by (cases "(M, R, D, Path, st, C)" rule: namespaceExport.cases) (auto intro!: agree)

lemma namespaceDeclaration [agree]:
  assumes "\<And>P n p. agrees e I (R P n p) (R' P n p)"
    and "\<And>d P p. d \<in> set_declaration_of C \<Longrightarrow> agrees e I (D P d p) (D' P d p)"
  shows "agrees e I (namespaceDeclaration M R D Path st C) (namespaceDeclaration M R' D' Path st C)"
  using assms by (cases "(M, R, D, Path, st, C)" rule: namespaceDeclaration.cases) (auto intro!: agree)

lemma handleNamespace [agree]:
  assumes "\<And>P n p. agrees e I (R P n p) (R' P n p)"
    and "\<And>d P p. d \<in> set_namespace_of C \<Longrightarrow> agrees e I (D P d p) (D' P d p)"
  shows "agrees e I (handleNamespace W R D Name Path C Private) (handleNamespace W R' D' Name Path C Private)"
  using assms by (cases C) (auto simp: Let_def intro!: agree, blast+)

lemma handleConcept [agree]:
  assumes "\<And>P n p. agrees e I (R P n p) (R' P n p)"
    and "\<And>d P p. d \<in> set_concept_of C \<Longrightarrow> agrees e I (D P d p) (D' P d p)"
  shows "agrees e I (handleConcept W R D Loc Name Path C Private)
    (handleConcept W R' D' Loc Name Path C Private)"
  using assms by (cases "(W, R, D, Loc, Name, Path, C, Private)" rule: handleConcept.cases)
    (auto intro!: agree split: option.split)

lemma handleDefinition [agree]:
  assumes "\<And>P n p. agrees e I (R P n p) (R' P n p)"
  shows "agrees e I (handleDefinition W R Path C Private) (handleDefinition W R' Path C Private)"
proof (induction C arbitrary: Path Private)
  case (DefinitionSyntax Start End name parameters attributes concept)
  then show ?case
    by (auto simp: handleDefinition_body definitionBody_def intro!: agree assms)
qed

lemma moduleExport [agree]:
  assumes "\<And>P n p. agrees e I (R P n p) (R' P n p)" "\<And>d P p. agrees e I (D P d p) (D' P d p)"
  shows "agrees e I (moduleExport M R D Path st C) (moduleExport M R' D' Path st C)"
  using assms by (cases "(M, R, D, Path, st, C)" rule: moduleExport.cases) (auto intro!: agree)

lemma handleMutable [agree]: "agrees e I (handleMutable M st C) (handleMutable M st C)"
  by (cases "(M, st, C)" rule: handleMutable.cases)
    (auto intro!: agree simp: Let_def split: option.split)

lemma moduleDeclaration [agree]:
  assumes "\<And>P n p. agrees e I (R P n p) (R' P n p)" "\<And>d P p. agrees e I (D P d p) (D' P d p)"
  shows "agrees e I (moduleDeclaration M R D Path st C) (moduleDeclaration M R' D' Path st C)"
  using assms by (cases "(M, R, D, Path, st, C)" rule: moduleDeclaration.cases) (auto intro!: agree)

lemma buildModule [agree]:
  assumes "\<And>P n p. agrees e I (R P n p) (R' P n p)"
  shows "agrees e I (buildModule W R Path FileName Name Syntax Private)
    (buildModule W R' Path FileName Name Syntax Private)"
  unfolding buildModule_def by (intro agree assms)

lemma referencedModule [agree]:
  assumes "\<And>P n p. agrees e I (R P n p) (R' P n p)"
  shows "agrees e I (referencedModule W R Path Name Private) (referencedModule W R' Path Name Private)"
proof (rule agreesI)
  show "referencedModule W R Path Name Private s \<noteq> None" if e for s
    using assms buildModule [OF assms] that unfolding agrees_def
    by (auto simp: referencedModule_def failed_def Let_def split: option.split sum.split)
next
  fix s r s' assume run: "referencedModule W R Path Name Private s = Some (r, s')"
  define FilePath where "FilePath = moduleFile W Path Name @ ''.scaly''"
  show "referencedModule W R' Path Name Private s = Some (r, s') \<and> I s s'"
  proof (cases "getFile W FilePath")
    case None
    then show ?thesis using run same agreesD [OF assms]
      by (auto simp: failed_def referencedModule_def FilePath_def [symmetric] split: option.splits if_splits)
  next
    case (Some Text)
    define s1 where "s1 = s\<lparr>KnownModuleDirs := map_put Name Path (KnownModuleDirs s)\<rparr>"
    have s1: "I s s1" unfolding s1_def by (rule known)
    show ?thesis
      using run Some s1 agreesD [OF buildModule [OF assms]] trans [OF s1]
      by (auto simp: failed_def referencedModule_def FilePath_def [symmetric] s1_def [symmetric] split: sum.splits)
  qed
qed

lemma buildReferencedModule [agree]:
  "\<not> e \<Longrightarrow> m \<le> n \<Longrightarrow> agrees e I (buildReferencedModule m W Path Name Private) (buildReferencedModule n W Path Name Private)"
proof (induction m arbitrary: n Path Name Private)
  case 0
  then show ?case by (auto simp: agrees_def)
next
  case (Suc m)
  then obtain n' where "n = Suc n'" "m \<le> n'" by (cases n) auto
  have step: "buildReferencedModule (Suc k) W Path Name Private =
      referencedModule W (buildReferencedModule k W) Path Name Private" for k
    by (rule ext) simp
  show ?case unfolding \<open>n = Suc n'\<close> step
    by (rule referencedModule) (rule Suc.IH [OF Suc.prems(1) \<open>m \<le> n'\<close>])
qed

end

text \<open>Nothing but the known directories is changed by building a module, and more fuel does
  not change the outcome.\<close>

definition same_packages :: "loading \<Rightarrow> loading \<Rightarrow> bool" where
  "same_packages s t \<longleftrightarrow> LoadingPackages t = LoadingPackages s \<and> ResolvedPackages t = ResolvedPackages s"

interpretation same: loading_relation False same_packages
  by unfold_locales (auto simp: same_packages_def)

interpretation fuel: loading_relation False "\<lambda>s t. True"
  by unfold_locales auto

text \<open>What resolving a package does to the others: those in progress stay in progress and are not
  touched, those resolved stay.\<close>

definition loads :: "loading \<Rightarrow> loading \<Rightarrow> bool" where
  "loads s t \<longleftrightarrow> LoadingPackages t = LoadingPackages s \<and>
     (\<forall>k p. map_of (ResolvedPackages s) k = Some p \<longrightarrow> map_of (ResolvedPackages t) k = Some p) \<and>
     (\<forall>k\<in>LoadingPackages s. map_of (ResolvedPackages t) k = map_of (ResolvedPackages s) k)"

interpretation packages: loading_relation False loads
  by unfold_locales (auto simp: loads_def)

interpretation total: loading_relation True "\<lambda>s t. True"
  by unfold_locales auto

lemma loads_trans: "loads s t \<Longrightarrow> loads t u \<Longrightarrow> loads s u"
  by (rule packages.trans)

lemma same_loads: "same_packages s t \<Longrightarrow> loads s t"
  by (simp add: same_packages_def loads_def)

section \<open>The outcome of resolving a package\<close>

lemma andThen_returned [simp]: "andThen (returned a) k = k a"
  by (simp add: andThen_def returned_def fun_eq_iff)

lemma andThen_assoc: "andThen (andThen b k) l = andThen b (\<lambda>a. andThen (k a) l)"
  by (auto simp: andThen_def failed_def fun_eq_iff split: option.split sum.split)

lemma andThen_Some: "andThen b k s = Some (r, t) \<longleftrightarrow>
  (\<exists>e. b s = Some (Inl e, t) \<and> r = Inl e) \<or> (\<exists>a s1. b s = Some (Inr a, s1) \<and> k a s1 = Some (r, t))"
  by (auto simp: andThen_def failed_def split: option.splits sum.splits)

lemma erasing_Some: "erasing Key b s = Some (r, t) \<longleftrightarrow>
  (\<exists>t1. b s = Some (r, t1) \<and> t = t1\<lparr>LoadingPackages := LoadingPackages t1 - {Key}\<rparr>)"
  by (auto simp: erasing_def)

lemma buildModule_same:
  assumes "buildModule W (buildReferencedModule n W) Path FileName Name Syntax Private s = Some (r, t)"
  shows "same_packages s t"
proof -
  have "agrees False same_packages (buildReferencedModule n W P N p) (buildReferencedModule n W P N p)"
    for P N p by (rule same.buildReferencedModule) simp_all
  from agreesD(2) [OF same.buildModule [OF this] assms] show ?thesis .
qed

text \<open>What a package asks for.\<close>

definition dependencies :: "world \<Rightarrow> string \<Rightarrow> version \<Rightarrow> (string \<times> version) list option" where
  "dependencies W Name Ver =
     (case find (file_exists W) (map (packagePath W Name Ver) (searchPaths W)) of
        None \<Rightarrow> None
      | Some PkgPath \<Rightarrow> (case getFile W PkgPath of
          None \<Rightarrow> None
        | Some Text \<Rightarrow> (case parseAll parseProgram (PkgPath @ '': '') PkgPath Text of
            Inl _ \<Rightarrow> None
          | Inr Syntax \<Rightarrow>
              Some (List.map_filter (packageOf W) (declarationsOf (programFile Syntax))))))"

definition requires :: "world \<Rightarrow> ((string \<times> version) \<times> (string \<times> version)) set" where
  "requires W = {((Name, Ver), q) | Name Ver q ds. dependencies W Name Ver = Some ds \<and> q \<in> set ds}"

definition resolveAll :: "world \<Rightarrow> (string \<Rightarrow> version \<Rightarrow> module build) \<Rightarrow> (string \<times> version) list \<Rightarrow>
    unit build" where
  "resolveAll W Q ds = eachOf (\<lambda>u (Name, Ver). andThen (Q Name Ver) (\<lambda>_. returned ())) () ds"

lemma resolveAll_simps [simp]:
  "resolveAll W Q [] = returned ()"
  "resolveAll W Q (p # ds) = andThen (Q (fst p) (snd p)) (\<lambda>_. resolveAll W Q ds)"
  by (simp_all add: resolveAll_def andThen_assoc case_prod_beta)

lemma resolveDependencies:
  "eachOf (resolveDependency W Q) () Ds = resolveAll W Q (List.map_filter (packageOf W) Ds)"
proof (induction Ds)
  case (Cons D Ds)
  show ?case
    by (cases "packageOf W D")
      (auto simp: List.map_filter_simps resolveDependency_def andThen_assoc simp flip: Cons)
qed (simp add: List.map_filter_simps)

text \<open>The body of the method, by the state: found in the cache, in progress, or loaded.\<close>

definition entering :: "string \<Rightarrow> loading \<Rightarrow> loading" where
  "entering Key s = s\<lparr>LoadingPackages := insert Key (LoadingPackages s)\<rparr>"

lemma resolve_cases:
  assumes "resolvePackage (Suc n) W Name Ver s = Some (r, t)"
  defines "Key \<equiv> packageKey Name Ver"
  obtains (Hit) Pkg M where "map_of (ResolvedPackages s) Key = Some Pkg" "packageRoot Pkg = Some M"
      "r = Inr M" "t = s"
  | (Circular) e where "map_of (ResolvedPackages s) Key = None" "Key \<in> LoadingPackages s" "r = Inl e" "t = s"
  | (Failed) t1 e where "map_of (ResolvedPackages s) Key = None" "Key \<notin> LoadingPackages s" "r = Inl e"
      "t1 = entering Key s \<or> (\<exists>ds r1. dependencies W Name Ver = Some ds \<and>
        resolveAll W (resolvePackage n W) ds (entering Key s) = Some (r1, t1))
        \<or> (\<exists>ds t2. dependencies W Name Ver = Some ds \<and>
        resolveAll W (resolvePackage n W) ds (entering Key s) = Some (Inr (), t2) \<and> same_packages t2 t1)"
      "t = t1\<lparr>LoadingPackages := LoadingPackages t1 - {Key}\<rparr>"
  | (Loaded) ds t1 t2 M where "map_of (ResolvedPackages s) Key = None" "Key \<notin> LoadingPackages s"
      "dependencies W Name Ver = Some ds"
      "resolveAll W (resolvePackage n W) ds (entering Key s) = Some (Inr (), t1)"
      "same_packages t1 t2" "r = Inr M"
      "t = t2\<lparr>ResolvedPackages := map_put Key (Package Name Ver (Some M)) (ResolvedPackages t2),
        LoadingPackages := LoadingPackages t2 - {Key}\<rparr>"
proof (cases "map_of (ResolvedPackages s) Key")
  case (Some Pkg)
  have "map_option (\<lambda>Root. (Inr Root, s)) (packageRoot Pkg) = Some (r, t)"
    using assms(1) Some by (simp add: resolveBody_def Key_def)
  then show thesis using Hit [OF Some] by auto
next
  case None
  note cache = this
  show thesis
  proof (cases "Key \<in> LoadingPackages s")
    case True
    have "failed (StringError (''circular package dependency: '' @ Key)) s = Some (r, t)"
      using assms(1) cache True by (simp add: resolveBody_def Key_def)
    then show thesis using Circular [OF cache True] by (auto simp: failed_def)
  next
    case False
    define found where "found = find (file_exists W) (map (packagePath W Name Ver) (searchPaths W))"
    obtain t1 where t1: "(case found of
           Some PkgPath \<Rightarrow> loadPackage W (buildReferencedModule n W) (resolvePackage n W) Name Ver PkgPath
         | None \<Rightarrow> failed (StringError (packageNotFound Name Ver (length (searchPaths W)))))
        (entering Key s) = Some (r, t1)"
      and t: "t = t1\<lparr>LoadingPackages := LoadingPackages t1 - {Key}\<rparr>"
      using assms(1) cache False
      by (auto simp: resolveBody_def Key_def [symmetric] Let_def erasing_Some entering_def found_def)
    have early: thesis if "r = Inl e" "t1 = entering Key s" for e
      using Failed [of e t1] cache False that t by blast
    show thesis
    proof (cases found)
      case None
      with t1 early show thesis by (auto simp: failed_def)
    next
      case (Some P)
      note P = this
      show thesis
      proof (cases "getFile W P")
        case None
        with t1 P early show thesis by (auto simp: failed_def loadPackage_def)
      next
        case (Some Text)
        note Text = this
        show thesis
        proof (cases "parseAll parseProgram (P @ '': '') P Text")
          case (Inl m)
          with t1 P Text early show thesis by (auto simp: failed_def loadPackage_def)
        next
          case (Inr Syntax)
          define ds where "ds = List.map_filter (packageOf W) (declarationsOf (programFile Syntax))"
          have deps: "dependencies W Name Ver = Some ds"
            using P Text Inr by (simp add: dependencies_def found_def ds_def)
          have run: "andThen (resolveAll W (resolvePackage n W) ds) (\<lambda>_.
              andThen (buildModule W (buildReferencedModule n W) (parent_path W P) P Name
                (programFile Syntax) False) (cachePackage Key Name Ver)) (entering Key s) = Some (r, t1)"
            using t1 P Text Inr by (simp add: loadPackage_def resolveDependencies ds_def Key_def)
          show thesis
          proof (cases "\<exists>e. r = Inl e \<and> resolveAll W (resolvePackage n W) ds (entering Key s) = Some (Inl e, t1)")
            case True
            then show thesis using Failed [of _ t1] cache False deps t by blast
          next
            case no: False
            then obtain t2 where t2: "resolveAll W (resolvePackage n W) ds (entering Key s) = Some (Inr (), t2)"
              and t3: "andThen (buildModule W (buildReferencedModule n W) (parent_path W P) P Name
                (programFile Syntax) False) (cachePackage Key Name Ver) t2 = Some (r, t1)"
              using run by (auto simp: andThen_Some)
            from t3 show thesis unfolding andThen_Some
            proof (elim disjE exE conjE)
              fix e assume "buildModule W (buildReferencedModule n W) (parent_path W P) P Name
                (programFile Syntax) False t2 = Some (Inl e, t1)" "r = Inl e"
              with Failed [of e t1] buildModule_same cache False deps t t2 show thesis by blast
            next
              fix M t4 assume b: "buildModule W (buildReferencedModule n W) (parent_path W P) P Name
                (programFile Syntax) False t2 = Some (Inr M, t4)"
                and c: "cachePackage Key Name Ver M t4 = Some (r, t1)"
              show thesis
                by (rule Loaded [OF cache False deps t2 buildModule_same [OF b]])
                  (use c t in \<open>auto simp: cachePackage_def returned_def\<close>)
            qed
          qed
        qed
      qed
    qed
  qed
qed

section \<open>The key of a package\<close>

lemma last_split:
  assumes "xs @ c # ys = xs' @ c # ys'" "c \<notin> set ys" "c \<notin> set ys'"
  shows "xs = xs' \<and> ys = ys'"
  using assms by (auto simp: append_eq_append_conv2 Cons_eq_append_conv append_eq_Cons_conv)

lemma first_split:
  assumes "xs @ c # ys = xs' @ c # ys'" "c \<notin> set xs" "c \<notin> set xs'"
  shows "xs = xs' \<and> ys = ys'"
  using assms by (auto simp: append_eq_append_conv2 Cons_eq_append_conv append_eq_Cons_conv)

lemma outside_digits: "\<not> decimal_digit C \<Longrightarrow> C \<notin> set (to_string n)"
  using to_string_digits by blast

lemma dot_and_at: "CHR ''.'' \<notin> set (to_string n)" "CHR ''@'' \<notin> set (to_string n)"
  by (rule outside_digits, simp add: decimal_digit_def less_eq_char_def)+

lemma version_toString_inj: "version_toString V = version_toString V' \<Longrightarrow> V = V'"
proof -
  assume eq: "version_toString V = version_toString V'"
  let ?s = "\<lambda>w. to_string (unat (w :: 32 word))"
  from eq have "?s (Major V) @ CHR ''.'' # (?s (Minor V) @ CHR ''.'' # ?s (Patch V)) =
      ?s (Major V') @ CHR ''.'' # (?s (Minor V') @ CHR ''.'' # ?s (Patch V'))"
    by (simp add: version_toString_def)
  from first_split [OF this dot_and_at(1) dot_and_at(1)]
  have "Major V = Major V'"
    and rest: "?s (Minor V) @ CHR ''.'' # ?s (Patch V) = ?s (Minor V') @ CHR ''.'' # ?s (Patch V')"
    by (simp_all add: word_unat_eq_iff)
  moreover from first_split [OF rest dot_and_at(1) dot_and_at(1)]
  have "Minor V = Minor V'" "Patch V = Patch V'" by (simp_all add: word_unat_eq_iff)
  ultimately show "V = V'" by (simp add: version.equality)
qed

lemma packageKey_inj: "packageKey N V = packageKey N' V' \<Longrightarrow> N = N' \<and> V = V'"
proof -
  have at: "CHR ''@'' \<notin> set (version_toString W)" for W
    using dot_and_at(2) by (simp add: version_toString_def)
  assume "packageKey N V = packageKey N' V'"
  then have "N @ CHR ''@'' # version_toString V = N' @ CHR ''@'' # version_toString V'"
    by (simp add: packageKey_def)
  from last_split [OF this at at] version_toString_inj show ?thesis by blast
qed

section \<open>What resolving keeps\<close>

lemma resolveAll_loads:
  assumes "\<And>N V s r t. Q N V s = Some (r, t) \<Longrightarrow> loads s t"
  shows "resolveAll W Q ds s = Some (r, t) \<Longrightarrow> loads s t"
proof (induction ds arbitrary: s)
  case Nil
  then show ?case by (simp add: returned_def packages.same)
next
  case (Cons p ds)
  then show ?case
    by (auto simp: andThen_Some intro: assms packages.trans [OF assms])
qed

lemma loads_entered:
  assumes "loads (entering Key s) t1" "Key \<notin> LoadingPackages s" "map_of (ResolvedPackages s) Key = None"
  shows "loads s (t1\<lparr>LoadingPackages := LoadingPackages t1 - {Key}\<rparr>)"
    "map_of (ResolvedPackages t1) Key = None"
    "loads s (t1\<lparr>ResolvedPackages := map_put Key Pkg (ResolvedPackages t1),
      LoadingPackages := LoadingPackages t1 - {Key}\<rparr>)"
  using assms by (auto simp: loads_def entering_def)

lemma resolve_loads: "resolvePackage n W Name Ver s = Some (r, t) \<Longrightarrow> loads s t"
proof (induction n arbitrary: Name Ver s r t)
  case (Suc n)
  have all: "resolveAll W (resolvePackage n W) ds a = Some (r, b) \<Longrightarrow> loads a b" for ds a r b
    by (rule resolveAll_loads [OF Suc.IH])
  from Suc.prems show ?case
  proof (cases rule: resolve_cases)
    case (Failed t1 e)
    have "loads (entering (packageKey Name Ver) s) t1"
      using Failed(4) all same_loads loads_trans packages.same by blast
    then show ?thesis using Failed loads_entered(1) by simp
  next
    case (Loaded ds t1 t2 M)
    have "loads (entering (packageKey Name Ver) s) t2"
      using Loaded(4,5) all same_loads loads_trans by blast
    then show ?thesis using Loaded loads_entered(3) by simp
  qed (simp_all add: packages.same)
qed simp

section \<open>The cache of resolved packages\<close>

definition cached :: "loading \<Rightarrow> string \<times> version \<Rightarrow> bool" where
  "cached s p \<longleftrightarrow> packageKey (fst p) (snd p) \<in> dom (map_of (ResolvedPackages s))"

text \<open>Each entry is named by its key and has a root, what it requires is in the cache too, and
  the packages of the cache require each other in no circle.\<close>

definition resolved_ok :: "world \<Rightarrow> loading \<Rightarrow> bool" where
  "resolved_ok W s \<longleftrightarrow>
     (\<forall>k Pkg. map_of (ResolvedPackages s) k = Some Pkg \<longrightarrow>
        (\<exists>N V M. k = packageKey N V \<and> Pkg = Package N V (Some M))) \<and>
     (\<forall>p q. cached s p \<longrightarrow> (p, q) \<in> requires W \<longrightarrow> cached s q) \<and>
     acyclic {(p, q) \<in> requires W. cached s p}"

lemma resolved_ok_new [simp]: "resolved_ok W newModelerState"
  by (simp add: resolved_ok_def newModelerState_def cached_def acyclic_def)

lemma resolved_ok_same:
  "ResolvedPackages t = ResolvedPackages s \<Longrightarrow> resolved_ok W s \<Longrightarrow> resolved_ok W t"
  by (simp add: resolved_ok_def cached_def)

lemma cached_loads: "loads s t \<Longrightarrow> cached s p \<Longrightarrow> cached t p"
  by (auto simp: loads_def cached_def dom_def)

lemma acyclic_source:
  assumes "acyclic r" "k \<notin> Range (r \<union> {k} \<times> D)"
  shows "acyclic (r \<union> {k} \<times> D)"
proof (rule acyclicI, intro allI notI)
  fix x assume cycle: "(x, x) \<in> (r \<union> {k} \<times> D)\<^sup>+"
  then have "x \<in> Range (r \<union> {k} \<times> D)" by (metis RangeI tranclE)
  with assms(2) have "x \<noteq> k" by blast
  have "(x, y) \<in> r\<^sup>+" if "(x, y) \<in> (r \<union> {k} \<times> D)\<^sup>+" for y
    using that
  proof induction
    case (step y z)
    then have "y \<in> Range (r \<union> {k} \<times> D)" by (metis RangeI tranclE)
    with assms(2) step show ?case by (metis SigmaE2 UnE singletonD mem_Sigma_iff trancl.trancl_into_trancl)
  qed (use \<open>x \<noteq> k\<close> in auto)
  with cycle assms(1) show False by (auto simp: acyclic_def)
qed

lemma resolved_ok_put:
  assumes ok: "resolved_ok W s" and new: "map_of (ResolvedPackages s) (packageKey N V) = None"
    and ds: "dependencies W N V = Some ds" "\<And>q. q \<in> set ds \<Longrightarrow> cached s q"
    and t: "ResolvedPackages t =
      map_put (packageKey N V) (Package N V (Some M)) (ResolvedPackages s)"
  shows "resolved_ok W t"
proof -
  let ?k = "(N, V)"
  have cached: "cached t p \<longleftrightarrow> p = ?k \<or> cached s p" for p
    using packageKey_inj [of "fst p" "snd p" N V] t by (cases p) (auto simp: cached_def)
  have notk: "\<not> cached s ?k" using new by (simp add: cached_def dom_def)
  have out: "(?k, q) \<in> requires W \<longleftrightarrow> q \<in> set ds" for q using ds(1) by (cases q) (auto simp: requires_def)
  have edges: "{(p, q) \<in> requires W. cached t p} = {(p, q) \<in> requires W. cached s p} \<union> {?k} \<times> set ds"
    using cached out by auto
  have "acyclic {(p, q) \<in> requires W. cached t p}" unfolding edges
  proof (rule acyclic_source)
    show "acyclic {(p, q) \<in> requires W. cached s p}" using ok by (simp add: resolved_ok_def)
    show "?k \<notin> Range ({(p, q) \<in> requires W. cached s p} \<union> {?k} \<times> set ds)"
      using ok notk ds(2) unfolding resolved_ok_def by blast
  qed
  moreover have "cached t q" if "cached t p" "(p, q) \<in> requires W" for p q
  proof (cases "p = ?k")
    case True
    then have "q \<in> set ds" using that(2) out by simp
    then show ?thesis using ds(2) cached by simp
  next
    case False
    then have "cached s p" using that(1) cached by simp
    then have "cached s q" using ok that(2) unfolding resolved_ok_def by blast
    then show ?thesis using cached by simp
  qed
  moreover have "\<exists>N V M. k = packageKey N V \<and> Pkg = Package N V (Some M)"
    if "map_of (ResolvedPackages t) k = Some Pkg" for k Pkg
    using that ok t by (cases "k = packageKey N V") (auto simp: resolved_ok_def)
  ultimately show ?thesis unfolding resolved_ok_def by blast
qed

lemma resolveAll_ok:
  assumes "\<And>N V s r t. Q N V s = Some (r, t) \<Longrightarrow> loads s t"
    and "\<And>N V s r t. Q N V s = Some (r, t) \<Longrightarrow> resolved_ok W s \<Longrightarrow>
      resolved_ok W t \<and> (\<forall>M. r = Inr M \<longrightarrow> cached t (N, V))"
  shows "resolveAll W Q ds s = Some (r, t) \<Longrightarrow> resolved_ok W s \<Longrightarrow>
    resolved_ok W t \<and> (r = Inr () \<longrightarrow> (\<forall>q\<in>set ds. cached t q))"
proof (induction ds arbitrary: s)
  case Nil
  then show ?case by (simp add: returned_def)
next
  case (Cons p ds)
  from Cons.prems(1) show ?case unfolding resolveAll_simps andThen_Some
  proof (elim disjE exE conjE)
    fix e assume "Q (fst p) (snd p) s = Some (Inl e, t)" "r = Inl e"
    with assms(2) Cons.prems(2) show ?thesis by blast
  next
    fix M s1 assume first: "Q (fst p) (snd p) s = Some (Inr M, s1)"
      and rest: "resolveAll W Q ds s1 = Some (r, t)"
    from assms(2) [OF first Cons.prems(2)] have s1: "resolved_ok W s1" "cached s1 p" by simp_all
    from Cons.IH [OF rest s1(1)] cached_loads [OF resolveAll_loads [OF assms(1) rest] s1(2)]
    show ?thesis by simp
  qed
qed

lemma resolve_ok:
  "resolvePackage n W Name Ver s = Some (r, t) \<Longrightarrow> resolved_ok W s \<Longrightarrow>
     resolved_ok W t \<and> (\<forall>M. r = Inr M \<longrightarrow> cached t (Name, Ver))"
proof (induction n arbitrary: Name Ver s r t)
  case (Suc n)
  have all: "resolveAll W (resolvePackage n W) ds a = Some (r, b) \<Longrightarrow> resolved_ok W a \<Longrightarrow>
      resolved_ok W b \<and> (r = Inr () \<longrightarrow> (\<forall>q\<in>set ds. cached b q))" for ds a r b
    by (rule resolveAll_ok [OF resolve_loads Suc.IH])
  have ent: "resolved_ok W (entering Key s)" for Key
    by (rule resolved_ok_same [OF _ Suc.prems(2)]) (simp add: entering_def)
  have same: "same_packages a b \<Longrightarrow> resolved_ok W a \<Longrightarrow> resolved_ok W b" for a b
    by (simp add: same_packages_def resolved_ok_same)
  from Suc.prems(1) show ?case
  proof (cases rule: resolve_cases)
    case (Hit Pkg M)
    then show ?thesis using Suc.prems(2) by (auto simp: cached_def)
  next
    case (Circular e)
    then show ?thesis using Suc.prems(2) by simp
  next
    case (Failed t1 e)
    have "resolved_ok W t1" using Failed(4) all ent same by blast
    with Failed show ?thesis by (auto intro: resolved_ok_same [of _ t1])
  next
    case (Loaded ds t1 t2 M)
    from all [OF Loaded(4) ent] have t1: "resolved_ok W t1" "\<forall>q\<in>set ds. cached t1 q" by simp_all
    have cache: "ResolvedPackages t2 = ResolvedPackages t1" using Loaded(5) by (simp add: same_packages_def)
    have "map_of (ResolvedPackages t1) (packageKey Name Ver) = None"
      by (rule loads_entered(2) [OF resolveAll_loads [OF resolve_loads Loaded(4)] Loaded(2,1)])
    from resolved_ok_put [OF t1(1) this Loaded(3)] t1(2) have "resolved_ok W t"
      using Loaded(7) cache by simp
    moreover have "cached t (Name, Ver)" using Loaded(7) by (simp add: cached_def)
    ultimately show ?thesis by simp
  qed
qed simp

lemma resolve_again:
  assumes run: "resolvePackage n W Name Ver s = Some (Inr M, t)" and ok: "resolved_ok W s"
  shows "resolvePackage (Suc m) W Name Ver t = Some (Inr M, t)"
proof -
  obtain n' where n: "n = Suc n'" using run by (cases n) auto
  have "\<exists>Pkg. map_of (ResolvedPackages t) (packageKey Name Ver) = Some Pkg \<and> packageRoot Pkg = Some M"
    using run unfolding n by (cases rule: resolve_cases) auto
  then show ?thesis by (auto simp: resolveBody_def)
qed

section \<open>Resolution ends\<close>

lemma more_fuel:
  assumes "\<And>Path Name Private s. buildReferencedModule m W Path Name Private s \<noteq> None" "m \<le> n"
  shows "buildReferencedModule n W Path Name Private s \<noteq> None"
proof -
  have "agrees False (\<lambda>s t. True) (buildReferencedModule m W Path Name Private)
      (buildReferencedModule n W Path Name Private)"
    using assms(2) by (intro fuel.buildReferencedModule) simp_all
  with assms(1) [of Path Name Private s] show ?thesis by (auto dest: agreesD(1))
qed

lemma buildModule_ends:
  assumes "\<And>Path Name Private s. R Path Name Private s \<noteq> None"
  shows "buildModule W R Path FileName Name Syntax Private s \<noteq> None"
proof -
  have "agrees True (\<lambda>s t. True) (R P N p) (R P N p)" for P N p
    using assms by (simp add: agrees_def)
  from agrees_ends [OF total.buildModule [OF this]] show ?thesis .
qed

lemma resolveAll_ends:
  assumes "\<And>N V s r t. Q N V s = Some (r, t) \<Longrightarrow> resolved_ok W s \<Longrightarrow> resolved_ok W t"
    and "\<And>N V s r t. Q N V s = Some (r, t) \<Longrightarrow> loads s t"
  shows "(\<And>q u. q \<in> set ds \<Longrightarrow> resolved_ok W u \<Longrightarrow> LoadingPackages u = L \<Longrightarrow> Q (fst q) (snd q) u \<noteq> None)
     \<Longrightarrow> resolved_ok W s \<Longrightarrow> LoadingPackages s = L \<Longrightarrow> resolveAll W Q ds s \<noteq> None"
proof (induction ds arbitrary: s)
  case Nil
  then show ?case by (simp add: returned_def)
next
  case (Cons p ds)
  from Cons.prems(1) [of p s] Cons.prems(2,3) obtain r s1 where
    first: "Q (fst p) (snd p) s = Some (r, s1)" by auto
  show ?case
  proof (cases r)
    case (Inl x)
    with first show ?thesis by (simp add: andThen_def failed_def)
  next
    case (Inr M)
    have "LoadingPackages s1 = L" "resolved_ok W s1"
      using assms(1) [OF first Cons.prems(2)] assms(2) [OF first] Cons.prems(3) by (simp_all add: loads_def)
    moreover have "Q (fst q) (snd q) u \<noteq> None"
      if "q \<in> set ds" "resolved_ok W u" "LoadingPackages u = L" for q u
      using Cons.prems(1) [of q u] that by simp
    ultimately have "resolveAll W Q ds s1 \<noteq> None" using Cons.IH by blast
    with first Inr show ?thesis by (simp add: andThen_def)
  qed
qed

abbreviation reach :: "world \<Rightarrow> string \<times> version \<Rightarrow> (string \<times> version) set" where
  "reach W p \<equiv> {q. (p, q) \<in> (requires W)\<^sup>*}"

lemma reach_self [simp]: "p \<in> reach W p"
  by simp

lemma reach_dependency: "dependencies W N V = Some ds \<Longrightarrow> q \<in> set ds \<Longrightarrow> reach W q \<subseteq> reach W (N, V)"
proof -
  assume "dependencies W N V = Some ds" "q \<in> set ds"
  then have "((N, V), q) \<in> requires W" by (cases q) (auto simp: requires_def)
  then show ?thesis by (auto intro: converse_rtrancl_into_rtrancl)
qed

definition still :: "world \<Rightarrow> string \<times> version \<Rightarrow> string set \<Rightarrow> (string \<times> version) set" where
  "still W p L = {q \<in> reach W p. packageKey (fst q) (snd q) \<notin> L}"

lemma still_less:
  assumes "finite (reach W (N, V))" "dependencies W N V = Some ds" "q \<in> set ds" "packageKey N V \<notin> L"
  shows "card (still W q (insert (packageKey N V) L)) < card (still W (N, V) L)"
proof (rule psubset_card_mono)
  show "finite (still W (N, V) L)" using assms(1) by (simp add: still_def)
  have "(N, V) \<in> still W (N, V) L" "(N, V) \<notin> still W q (insert (packageKey N V) L)"
    using assms(4) by (simp_all add: still_def)
  moreover have "still W q (insert (packageKey N V) L) \<subseteq> still W (N, V) L"
    using reach_dependency [OF assms(2,3)] by (auto simp: still_def)
  ultimately show "still W q (insert (packageKey N V) L) \<subset> still W (N, V) L" by blast
qed

lemma resolve_ends:
  assumes modules: "\<And>Path Name Private s. buildReferencedModule m W Path Name Private s \<noteq> None"
  shows "finite (reach W (N, V)) \<Longrightarrow> resolved_ok W s \<Longrightarrow>
    m + card (still W (N, V) (LoadingPackages s)) < n \<Longrightarrow> resolvePackage n W N V s \<noteq> None"
proof (induction n arbitrary: N V s)
  case (Suc n)
  define Key where "Key = packageKey N V"
  have key [simp]: "packageKey N V = Key" by (simp add: Key_def)
  show ?case
  proof (cases "map_of (ResolvedPackages s) Key")
    case (Some Pkg)
    then obtain N' V' M where "Pkg = Package N' V' (Some M)"
      using Suc.prems(2) unfolding resolved_ok_def by blast
    with Some show ?thesis by (simp add: resolveBody_def)
  next
    case None
    note cache = this
    show ?thesis
    proof (cases "Key \<in> LoadingPackages s")
      case True
      with None show ?thesis by (simp add: resolveBody_def failed_def)
    next
      case False
      have ent: "resolved_ok W (entering Key s)"
        by (rule resolved_ok_same [OF _ Suc.prems(2)]) (simp add: entering_def)
      have deps: "resolveAll W (resolvePackage n W) ds (entering Key s) \<noteq> None"
        if ds: "dependencies W N V = Some ds" for ds
      proof (rule resolveAll_ends [where L = "insert Key (LoadingPackages s)"])
        fix q u assume q: "q \<in> set ds" "resolved_ok W u" "LoadingPackages u = insert Key (LoadingPackages s)"
        have "finite (reach W (fst q, snd q))"
          using finite_subset [OF reach_dependency [OF ds q(1)] Suc.prems(1)] by simp
        moreover have "m + card (still W (fst q, snd q) (LoadingPackages u)) < n"
          using still_less [OF Suc.prems(1) ds q(1), of "LoadingPackages s"] False Suc.prems(3) q(3)
          by simp
        ultimately show "resolvePackage n W (fst q) (snd q) u \<noteq> None"
          using Suc.IH q(2) by blast
      qed (use resolve_ok resolve_loads ent in \<open>auto simp: entering_def\<close>)
      have mods: "buildModule W (buildReferencedModule n W) P F M Syntax p u \<noteq> None" for P F M Syntax p u
        by (rule buildModule_ends, rule more_fuel [OF modules]) (use Suc.prems(3) in simp)
      have load: "loadPackage W (buildReferencedModule n W) (resolvePackage n W) N V P (entering Key s) \<noteq> None"
        if P: "find (file_exists W) (map (packagePath W N V) (searchPaths W)) = Some P" for P
      proof (cases "getFile W P")
        case (Some Text)
        note Text = this
        show ?thesis
        proof (cases "parseAll parseProgram (P @ '': '') P Text")
          case (Inr Syntax)
          define ds where "ds = List.map_filter (packageOf W) (declarationsOf (programFile Syntax))"
          have "dependencies W N V = Some ds"
            using P Text Inr by (simp add: dependencies_def ds_def)
          from deps [OF this] obtain r u where
            u: "resolveAll W (resolvePackage n W) ds (entering Key s) = Some (r, u)" by auto
          obtain r' u' where u': "buildModule W (buildReferencedModule n W) (parent_path W P) P N
              (programFile Syntax) False u = Some (r', u')" using mods by fastforce
          show ?thesis using Text Inr u u'
            by (auto simp: loadPackage_def resolveDependencies ds_def andThen_def failed_def
              cachePackage_def returned_def split: sum.split)
        qed (simp add: loadPackage_def Text failed_def)
      qed (simp add: loadPackage_def failed_def)
      obtain r u where "(case find (file_exists W) (map (packagePath W N V) (searchPaths W)) of
           Some PkgPath \<Rightarrow> loadPackage W (buildReferencedModule n W) (resolvePackage n W) N V PkgPath
         | None \<Rightarrow> failed (StringError (packageNotFound N V (length (searchPaths W)))))
        (entering Key s) = Some (r, u)"
        using load by (cases "find (file_exists W) (map (packagePath W N V) (searchPaths W))")
          (auto simp: failed_def)
      with cache False show ?thesis
        by (simp add: resolveBody_def Let_def erasing_def entering_def)
    qed
  qed
qed simp

end
