(* ===== verification/Modeler_Modules_Theorems.thy ===== *)
theory Modeler_Modules_Theorems
  imports Modeler_Modules_Props
begin

text \<open>
  What the modeler guarantees when it reads modules and packages from other files.
\<close>

text \<open>A file system with two packages, the first of which asks for the second, and one
  that asks for itself.\<close>

definition sampleWorld :: world where
  "sampleWorld = \<lparr>handlers = newModeler ''m.scaly'' (\<lambda>_. None), PackageSearchPaths = [],
     EnablePrelude = False,
     getFile = map_of
       [(''packages/a/1.0.0/a.scaly'', ''package b 1.0.0''),
        (''packages/b/1.0.0/b.scaly'', ''mutable x: int''),
        (''packages/c/1.0.0/c.scaly'', ''package c 1.0.0'')],
     file_exists = (\<lambda>p. p \<in> set [''packages/a/1.0.0/a.scaly'', ''packages/b/1.0.0/b.scaly'', ''packages/c/1.0.0/c.scaly'']),
     is_directory = (\<lambda>_. False), path_append = (\<lambda>a b. a @ ''/'' @ b), remove_filename = (\<lambda>_. []),
     path_filename = (\<lambda>p. p), parent_path = (\<lambda>p. p),
     getAsInteger = (\<lambda>n. Some (of_nat (read_decimal n)))\<rparr>"

definition version1 :: version where
  "version1 = \<lparr>Major = 1, Minor = 0, Patch = 0\<rparr>"

definition succeeds :: "((build_error + 'a) \<times> loading) option \<Rightarrow> bool" where
  "succeeds x = (case x of Some (Inr _, _) \<Rightarrow> True | _ \<Rightarrow> False)"

lemma sample_a: "succeeds (resolvePackage 3 sampleWorld ''a'' version1 newModelerState)"
  by code_simp


section \<open>Packages\<close>

text \<open>C13. Resolving a package, whatever its outcome: the set of packages in progress is what it was,
  no resolved package is lost or replaced, and the cache stays well formed (entries named by
  their keys, closed under what they require, without circles). A package that was resolved is
  from then on answered from the cache, with the same module and no change of the state.\<close>

theorem packages_resolved:
  assumes "resolvePackage n W Name Ver s = Some (r, t)" "resolved_ok W s"
  shows "LoadingPackages t = LoadingPackages s \<and>
    (\<forall>k Pkg. map_of (ResolvedPackages s) k = Some Pkg \<longrightarrow> map_of (ResolvedPackages t) k = Some Pkg) \<and>
    resolved_ok W t \<and>
    (\<forall>M m. r = Inr M \<longrightarrow> resolvePackage (Suc m) W Name Ver t = Some (Inr M, t))"
  using resolve_loads [OF assms(1)] resolve_ok [OF assms] resolve_again [OF _ assms(2)] assms(1)
  by (simp add: loads_def) blast

lemma sample_resolved: "\<exists>M t. resolvePackage 3 sampleWorld ''a'' version1 newModelerState = Some (Inr M, t)"
  using sample_a by (auto simp: succeeds_def split: option.splits sum.splits)

theorem packages_resolved_witness:
  "\<exists>M t. resolvePackage 3 sampleWorld ''a'' version1 newModelerState = Some (Inr M, t) \<and>
     LoadingPackages t = {} \<and> resolvePackage 1 sampleWorld ''a'' version1 t = Some (Inr M, t)"
proof -
  obtain M t where run: "resolvePackage 3 sampleWorld ''a'' version1 newModelerState = Some (Inr M, t)"
    using sample_resolved by blast
  from packages_resolved [OF run resolved_ok_new] run show ?thesis
    by (auto simp: newModelerState_def simp del: resolvePackage.simps)
qed

text \<open>C14. A package is resolved only when no package it requires, directly or over others, requires
  itself again, and each of them is then resolved as well.\<close>

theorem packages_acyclic:
  assumes "resolvePackage n W Name Ver s = Some (Inr M, t)" "resolved_ok W s"
    and "((Name, Ver), p) \<in> (requires W)\<^sup>*"
  shows "(p, p) \<notin> (requires W)\<^sup>+ \<and>
    (\<exists>Root. resolvePackage 1 W (fst p) (snd p) t = Some (Inr Root, t))"
proof -
  from resolve_ok [OF assms(1,2)] have ok: "resolved_ok W t" and top: "cached t (Name, Ver)" by simp_all
  have closed: "cached t b" if "cached t a" "(a, b) \<in> (requires W)\<^sup>*" for a b
    using that(2,1) by induction (use ok in \<open>auto simp: resolved_ok_def\<close>)
  have p: "cached t p" by (rule closed [OF top assms(3)])
  have inside: "(a, b) \<in> {(p, q) \<in> requires W. cached t p}\<^sup>+"
    if "(a, b) \<in> (requires W)\<^sup>+" "cached t a" for a b
    using that
  proof induction
    case (step b c)
    then have "(b, c) \<in> {(p, q) \<in> requires W. cached t p}"
      using closed [of a b] by (simp add: trancl_into_rtrancl)
    with step show ?case by (meson trancl.trancl_into_trancl)
  qed auto
  have "(p, p) \<notin> (requires W)\<^sup>+"
  proof -
    have "acyclic {(p, q) \<in> requires W. cached t p}" using ok by (simp add: resolved_ok_def)
    then show ?thesis using inside [OF _ p] unfolding acyclic_def by blast
  qed
  moreover obtain Pkg where Pkg: "map_of (ResolvedPackages t) (packageKey (fst p) (snd p)) = Some Pkg"
    using p by (auto simp: cached_def)
  moreover obtain Root where "packageRoot Pkg = Some Root"
    using ok Pkg by (fastforce simp: resolved_ok_def)
  ultimately show ?thesis by (auto simp: resolveBody_def)
qed

theorem packages_acyclic_witness:
  "((''a'', version1), (''a'', version1)) \<notin> (requires sampleWorld)\<^sup>+"
proof -
  obtain M t where run: "resolvePackage 3 sampleWorld ''a'' version1 newModelerState = Some (Inr M, t)"
    using sample_resolved by blast
  from packages_acyclic [OF run resolved_ok_new rtrancl.rtrancl_refl] show ?thesis by blast
qed

definition reads :: "string \<Rightarrow> file_syntax \<Rightarrow> bool" where
  "reads Text file \<longleftrightarrow> (case parseFile (newLexer Text) of
     (Inr f, lx) \<Rightarrow> f = file \<and> isAtEnd lx | _ \<Rightarrow> False)"

lemma reads_parseAll: "reads Text file \<Longrightarrow> parseAll parseFile Prefix Path Text = Inr file"
  by (auto simp: reads_def parseAll_def split: prod.splits sum.splits)

lemma sample_reads:
  "reads ''package b 1.0.0'' (FileSyntax 0 15 (Some [Declaration_Package (PackageSyntax 0 15
     (NameSyntax 0 13 ''b'' None) (Some (VersionSyntax 10 15 (FloatingPointLiteral ''1.0'') (IntegerLiteral ''0''))))]))"
  "reads ''package c 1.0.0'' (FileSyntax 0 15 (Some [Declaration_Package (PackageSyntax 0 15
     (NameSyntax 0 13 ''c'' None) (Some (VersionSyntax 10 15 (FloatingPointLiteral ''1.0'') (IntegerLiteral ''0''))))]))"
  "reads ''module a'' (FileSyntax 0 8 (Some [Declaration_Module (ModuleSyntax 0 8 ''a'')]))"
  by code_simp+

text \<open>The file of the second package.\<close>

definition mutable_x :: file_syntax where
  "mutable_x = FileSyntax 0 14 (Some [Declaration_Mutable (MutableSyntax 0 14 (BindingSyntax 0 14 ''x''
     (Some (BindingAnnotationSyntax 8 14 (BindingSpec_Type (TypeSyntax 11 14 (NameSyntax 11 14 ''int'' None) None None None)))) None))])"

lemma sample_reads_b: "reads ''mutable x: int'' mutable_x"
  by code_simp

text \<open>The files of the packages refer to no module.\<close>

lemma sample_built:
  assumes "Text \<in> {''package b 1.0.0'', ''package c 1.0.0'', ''mutable x: int''}"
  shows "\<exists>f. parseAll parseFile Prefix F Text = Inr f \<and> buildModule sampleWorld R P F N f p s \<noteq> None"
proof -
  have built: "buildModule sampleWorld R P F N f p s \<noteq> None"
    if "f = mutable_x \<or> (\<exists>d. f = FileSyntax 0 15 (Some [Declaration_Package d]))" for f
    using that by (auto simp: mutable_x_def buildModule_def List.map_filter_simps fromModel_def
      handleBindingAnnotation_def andThen_def failed_def returned_def emptyModule_def Let_def
      split: option.splits sum.splits)
  from assms obtain f where "reads Text f" "f = mutable_x \<or> (\<exists>d. f = FileSyntax 0 15 (Some [Declaration_Package d]))"
    using sample_reads sample_reads_b by blast
  with reads_parseAll built show ?thesis by blast
qed

lemma sample_found:
  "getFile sampleWorld (moduleFile sampleWorld Path Nm @ ''.scaly'') = Some Text \<Longrightarrow>
     buildReferencedModule (Suc n) sampleWorld Path Nm Private u \<noteq> None"
proof -
  assume F: "getFile sampleWorld (moduleFile sampleWorld Path Nm @ ''.scaly'') = Some Text"
  then have "Text \<in> {''package b 1.0.0'', ''package c 1.0.0'', ''mutable x: int''}"
    by (auto simp: sampleWorld_def split: if_splits)
  then obtain f where
    "parseAll parseFile ((moduleFile sampleWorld Path Nm @ ''.scaly'') @ '': '')
      (moduleFile sampleWorld Path Nm @ ''.scaly'') Text = Inr f"
    "buildModule sampleWorld (buildReferencedModule n sampleWorld) (moduleFile sampleWorld Path Nm)
      (moduleFile sampleWorld Path Nm @ ''.scaly'') Nm f Private
      (u\<lparr>KnownModuleDirs := map_put Nm Path (KnownModuleDirs u)\<rparr>) \<noteq> None"
    using sample_built by blast
  with F show ?thesis by (simp add: referencedModule_def Let_def)
qed

lemma sample_modules: "buildReferencedModule 2 sampleWorld Path Nm Private u \<noteq> None"
proof (cases "getFile sampleWorld (moduleFile sampleWorld Path Nm @ ''.scaly'')")
  case None
  have level: "buildReferencedModule 1 sampleWorld Dir Nm Private v \<noteq> None"
    if "map_of (KnownModuleDirs v) Nm = Some Dir" for Dir v
  proof (cases "getFile sampleWorld (moduleFile sampleWorld Dir Nm @ ''.scaly'')")
    case (Some Text)
    then show ?thesis using sample_found [of Dir Nm Text 0] by simp
  qed (use that in \<open>simp add: referencedModule_def failed_def\<close>)
  have "buildReferencedModule (Suc 1) sampleWorld Path Nm Private u \<noteq> None"
    unfolding buildReferencedModule.simps
    using None level by (auto simp: referencedModule_def failed_def Let_def
      simp del: buildReferencedModule.simps split: option.split)
  then show ?thesis by (simp add: numeral_2_eq_2)
next
  case (Some Text)
  then show ?thesis using sample_found [of Path Nm Text 1] by (simp add: numeral_2_eq_2)
qed

text \<open>C15. Resolving a package ends even when packages require each other in a circle, provided that the
  packages that can be asked for are finitely many and that building a module ends: when every module that is referred to is built with fuel \<open>m\<close>,
  then \<open>m\<close> and one for each of the packages not in progress is fuel enough for an outcome. The proviso is needed: building modules that
  refer to each other does not end (\<open>module_circle\<close>).\<close>

theorem resolution_ends:
  assumes "\<And>Path Nm Private u. buildReferencedModule m W Path Nm Private u \<noteq> None"
    and "finite {p. ((Name, Ver), p) \<in> (requires W)\<^sup>*}" "resolved_ok W s"
    and "m + card {p. ((Name, Ver), p) \<in> (requires W)\<^sup>* \<and>
      packageKey (fst p) (snd p) \<notin> LoadingPackages s} < n"
  shows "resolvePackage n W Name Ver s \<noteq> None"
  by (rule resolve_ends [OF assms(1-3)]) (use assms(4) in \<open>simp add: still_def\<close>)

text \<open>The package that asks for itself.\<close>

lemma sample_c_requires: "dependencies sampleWorld ''c'' version1 = Some [(''c'', version1)]"
  by code_simp

theorem resolution_ends_witness:
  "resolvePackage 4 sampleWorld ''c'' version1 newModelerState \<noteq> None"
proof (rule resolution_ends [OF sample_modules _ resolved_ok_new])
  have "q = (''c'', version1)" if "((''c'', version1), q) \<in> (requires sampleWorld)\<^sup>*" for q
    using that by induction (auto simp: requires_def sample_c_requires)
  then have reach: "{q. ((''c'', version1), q) \<in> (requires sampleWorld)\<^sup>*} = {(''c'', version1)}" by auto
  then show "finite {q. ((''c'', version1), q) \<in> (requires sampleWorld)\<^sup>*}" by simp
  have "{q. ((''c'', version1), q) \<in> (requires sampleWorld)\<^sup>* \<and>
      packageKey (fst q) (snd q) \<notin> LoadingPackages newModelerState} = {(''c'', version1)}"
    using reach by (auto simp: newModelerState_def)
  then show "2 + card {q. ((''c'', version1), q) \<in> (requires sampleWorld)\<^sup>* \<and>
      packageKey (fst q) (snd q) \<notin> LoadingPackages newModelerState} < 4" by simp
qed

section \<open>Modules\<close>

text \<open>A circle of modules is not noticed: a file \<open>a.scaly\<close> that asks for module \<open>a\<close> is read again
  and again. Its own directory has no such file, so the known directory of \<open>a\<close> is tried, where
  it was found.\<close>

lemma module_circle:
  assumes a: "getFile W ''a.scaly'' = Some ''module a''"
    and b: "getFile W (path_append W ''a'' ''a'' @ ''.scaly'') = None"
  shows "buildReferencedModule n W [] ''a'' Private s = None"
proof (induction n arbitrary: Private s rule: less_induct)
  case (less n)
  show ?case
  proof (cases n)
    case (Suc n1)
    define u where "u = s\<lparr>KnownModuleDirs := map_put ''a'' [] (KnownModuleDirs s)\<rparr>"
    have inner: "buildReferencedModule n1 W ''a'' ''a'' False u = None"
    proof (cases n1)
      case (Suc n2)
      then have "buildReferencedModule n2 W [] ''a'' False u = None" using less \<open>n = Suc n1\<close> by simp
      then show ?thesis unfolding Suc using b
        by (simp add: referencedModule_def moduleFile_def u_def)
    qed simp
    have "buildModule W (buildReferencedModule n1 W) ''a'' ''a.scaly'' ''a''
        (FileSyntax 0 8 (Some [Declaration_Module (ModuleSyntax 0 8 ''a'')])) Private u = None"
      using inner by (simp add: buildModule_def List.map_filter_simps fromModel_def andThen_def returned_def)
    then show ?thesis unfolding Suc
      using a reads_parseAll [OF sample_reads(3)]
      by (simp add: referencedModule_def moduleFile_def u_def)
  qed simp
qed

text \<open>The handler of definitions satisfies the recursive equation of the code, to any depth:
  the definitions in the body of a definition are handled by the handler itself.\<close>

theorem definition_recursion:
  "handleDefinition W R Path (DefinitionSyntax Start End name parameters attributes concept) Private =
     definitionBody W R (handleDefinition W R) Path Start End name parameters attributes concept Private"
  by (rule handleDefinition_body)

section \<open>The members of a module\<close>

text \<open>What a member is and how it is called, in the model and in the declaration it comes from.\<close>

datatype member_tag =
    ConceptTag string
  | FunctionTag string
  | OperatorTag string
  | VariableTag string
  | PackageTag

fun memberTag :: "member \<Rightarrow> member_tag" where
  "memberTag (ModuleMember_Concept (Concept Loc name Params Attrs Def)) = ConceptTag name"
| "memberTag (ModuleMember_Function F) = FunctionTag (fn_Name F)"
| "memberTag (ModuleMember_Operator Op) = OperatorTag (op_Name Op)"
| "memberTag (ModuleMember_Variable (ModuleVariable Loc name T Init)) = VariableTag name"
| "memberTag (ModuleMember_Package P) = PackageTag"

fun moduleName :: "module \<Rightarrow> string" where
  "moduleName (Module Private FileName Name Modules Uses Members Symbols) = Name"

fun targetName :: "target_syntax \<Rightarrow> string" where
  "targetName (Target_Named (NamedSyntax Start End name routine)) = name"
| "targetName (Target_Routine routine) = ''[]''"

fun definedName :: "definition_syntax \<Rightarrow> string" where
  "definedName (DefinitionSyntax Start End name parameters attributes concept) = name"

fun operatorName :: "operator_syntax \<Rightarrow> string" where
  "operatorName (OperatorSyntax Start End target) = targetName target"

fun exportTag :: "definition_syntax export_of \<Rightarrow> member_tag option" where
  "exportTag (Export_Definition D) = Some (ConceptTag (definedName D))"
| "exportTag (Export_Function (FunctionSyntax Start End target)) = Some (FunctionTag (targetName target))"
| "exportTag (Export_Procedure (ProcedureSyntax Start End target)) = Some (FunctionTag (targetName target))"
| "exportTag (Export_Operator T) = Some (OperatorTag (operatorName T))"
| "exportTag _ = None"

fun declaredTag :: "declaration_syntax \<Rightarrow> member_tag option" where
  "declaredTag (Declaration_Private (PrivateSyntax Start End E)) = exportTag E"
| "declaredTag (Declaration_Definition D) = Some (ConceptTag (definedName D))"
| "declaredTag (Declaration_Function (FunctionSyntax Start End target)) = Some (FunctionTag (targetName target))"
| "declaredTag (Declaration_Procedure (ProcedureSyntax Start End target)) = Some (FunctionTag (targetName target))"
| "declaredTag (Declaration_Operator T) = Some (OperatorTag (operatorName T))"
| "declaredTag (Declaration_Mutable (MutableSyntax Start End (BindingSyntax BStart BEnd name a i))) =
     Some (VariableTag name)"
| "declaredTag _ = None"

fun declaredModule :: "declaration_syntax \<Rightarrow> string option" where
  "declaredModule (Declaration_Private (PrivateSyntax Start End (Export_Module (ModuleSyntax S E name)))) = Some name"
| "declaredModule (Declaration_Module (ModuleSyntax Start End name)) = Some name"
| "declaredModule _ = None"

lemma withResult_Inr: "withResult r k = Inr x \<longleftrightarrow> (\<exists>a. r = Inr a \<and> k a = Inr x)"
  by (cases r) simp_all

lemma fromModel_Some: "fromModel r s = Some (Inr a, t) \<longleftrightarrow> r = Inr a \<and> t = s"
  by (auto simp: fromModel_def failed_def returned_def split: sum.split)

lemma andThen_Inr: "andThen b k s = Some (Inr x, t) \<longleftrightarrow>
    (\<exists>a s1. b s = Some (Inr a, s1) \<and> k a s1 = Some (Inr x, t))"
  by (auto simp: andThen_Some)

lemma returned_Some: "returned a s = Some (r, t) \<longleftrightarrow> r = Inr a \<and> t = s"
  by (auto simp: returned_def)

lemmas outcome = fromModel_Some andThen_Inr returned_Some

lemma buildFunction_name: "buildFunction M Start End target p q = Inr F \<Longrightarrow> fn_Name F = targetName target"
proof -
  assume b: "buildFunction M Start End target p q = Inr F"
  then obtain S E name r where t: "target = Target_Named (NamedSyntax S E name r)"
    by (cases target rule: targetName.cases) (auto simp: buildFunction_def)
  then show ?thesis using b
    by (cases r) (auto simp: buildFunction_def withResult_Inr Let_def case_prod_beta
      split: option.splits lifetime_syntax.splits)
qed

lemma handleOperator_name: "handleOperator M T p = Inr Op \<Longrightarrow> op_Name Op = operatorName T"
proof -
  assume h: "handleOperator M T p = Inr Op"
  obtain Start End target where T: "T = OperatorSyntax Start End target" by (cases T)
  from h show ?thesis unfolding T
    by (cases target rule: targetName.cases)
      (auto simp: handleOperator_def withResult_Inr Let_def split: routine_syntax.splits)
qed

lemma handleDefinition_name:
  "handleDefinition W R Path D p s = Some (Inr C, t) \<Longrightarrow>
     memberTag (ModuleMember_Concept C) = ConceptTag (definedName D)"
  by (cases D) (auto simp: handleDefinition_body definitionBody_def outcome)

lemma buildModule_name:
  "buildModule W R Path FileName Name Syntax p s = Some (Inr M, t) \<Longrightarrow> moduleName M = Name"
  by (auto simp: buildModule_def outcome)

lemma buildReferencedModule_name:
  "buildReferencedModule n W Path Name p s = Some (Inr M, t) \<Longrightarrow> moduleName M = Name"
proof (induction n arbitrary: Path p s)
  case (Suc n)
  then show ?case
    by (auto simp: referencedModule_def Let_def failed_def buildModule_name
      split: option.splits sum.splits if_splits)
qed simp

text \<open>What one declaration adds.\<close>

definition adds :: "member_tag option \<Rightarrow> string option \<Rightarrow> module_state \<Rightarrow> module_state \<Rightarrow> bool" where
  "adds tag name st st' \<longleftrightarrow>
     map memberTag (ms_Members st') = map memberTag (ms_Members st) @ (case tag of None \<Rightarrow> [] | Some x \<Rightarrow> [x]) \<and>
     map moduleName (ms_Modules st') = map moduleName (ms_Modules st) @ (case name of None \<Rightarrow> [] | Some x \<Rightarrow> [x]) \<and>
     (\<forall>x. map_of (ms_Symbols st') x \<noteq> None \<longleftrightarrow> map_of (ms_Symbols st) x \<noteq> None \<or> tag = Some (VariableTag x))"

lemmas names = buildFunction_name handleDefinition_name handleOperator_name

lemma adds_nothing: "adds None None st st"
  by (simp add: adds_def)

lemma adds_member:
  "memberTag m = x \<Longrightarrow> \<forall>y. x \<noteq> VariableTag y \<Longrightarrow> adds (Some x) None st (withMember st m)"
  by (simp add: adds_def withMember_def)

lemma adds_module: "moduleName M = N \<Longrightarrow> adds None (Some N) st (withModule st M)"
  by (simp add: adds_def withModule_def)

lemma moduleExport_adds:
  assumes R: "\<And>P N p s M t. R P N p s = Some (Inr M, t) \<Longrightarrow> moduleName M = N"
    and "moduleExport H R (handleDefinition W R) Path st E s = Some (Inr st', t)"
  shows "adds (exportTag E) (declaredModule (Declaration_Private (PrivateSyntax S F E))) st st'"
  using assms(2)
proof (cases "(H, R, handleDefinition W R, Path, st, E)" rule: moduleExport.cases)
  case (5 M R' D Path' st' C)
  with assms(2) show ?thesis
    by (cases C) (auto simp: outcome intro!: adds_module intro: R)
qed (auto simp: outcome names intro!: adds_member adds_nothing)

lemma moduleDeclaration_adds:
  assumes R: "\<And>P N p s M t. R P N p s = Some (Inr M, t) \<Longrightarrow> moduleName M = N"
    and run: "moduleDeclaration H R (handleDefinition W R) Path st d s = Some (Inr st', t)"
  shows "adds (declaredTag d) (declaredModule d) st st'"
  using run
proof (cases "(H, R, handleDefinition W R, Path, st, d)" rule: moduleDeclaration.cases)
  case (1 M R' D Path' st' Start End E)
  then show ?thesis using run moduleExport_adds [OF R] by auto
next
  case (6 M R' D Path' st' C)
  with run show ?thesis by (cases C) (auto simp: outcome intro!: adds_module intro: R)
next
  case (7 M R' D Path' st' C)
  with run show ?thesis
    by (cases "(M, st', C)" rule: handleMutable.cases)
      (auto simp: outcome Let_def failed_def adds_def withMember_def split: option.splits)
qed (auto simp: outcome names intro!: adds_member adds_nothing)

lemma eachOf_adds:
  assumes "\<And>st d s st' t. f st d s = Some (Inr st', t) \<Longrightarrow> adds (tag d) (name d) st st'"
  shows "eachOf f st ds s = Some (Inr st', t) \<Longrightarrow>
    map memberTag (ms_Members st') = map memberTag (ms_Members st) @ List.map_filter tag ds \<and>
    map moduleName (ms_Modules st') = map moduleName (ms_Modules st) @ List.map_filter name ds \<and>
    (\<forall>x. map_of (ms_Symbols st') x \<noteq> None \<longleftrightarrow>
       map_of (ms_Symbols st) x \<noteq> None \<or> VariableTag x \<in> set (List.map_filter tag ds))"
proof (induction ds arbitrary: st s)
  case (Cons d ds)
  then obtain st1 s1 where one: "f st d s = Some (Inr st1, s1)" and rest: "eachOf f st1 ds s1 = Some (Inr st', t)"
    by (auto simp: outcome)
  from Cons.IH [OF rest] assms [OF one] show ?case
    by (auto simp: adds_def List.map_filter_simps split: option.split)
qed (simp add: outcome List.map_filter_simps)

text \<open>C16. A module has a member for each declaration of a definition, function, procedure, operator
  or variable of its file, public or private, in their order and by their names, its modules are those declared, and its symbols are
  its variables. (Traits and macros are the declarations left out.)\<close>

theorem members_kept:
  assumes "buildModule W (buildReferencedModule n W) Path FileName Name Syntax p s =
    Some (Inr (Module Private File1 Name1 Modules Uses Members Symbols), t)"
  shows "map memberTag Members = List.map_filter declaredTag (declarationsOf Syntax) \<and>
    map moduleName Modules = List.map_filter declaredModule (declarationsOf Syntax) \<and>
    (\<forall>x. map_of Symbols x \<noteq> None \<longleftrightarrow> VariableTag x \<in> set (map memberTag Members)) \<and>
    Private = p \<and> File1 = FileName \<and> Name1 = Name"
proof -
  obtain st u where run: "eachOf (moduleDeclaration (handlers W) (buildReferencedModule n W)
      (handleDefinition W (buildReferencedModule n W)) Path) emptyModule (declarationsOf Syntax) s = Some (Inr st, u)"
    and st: "Modules = ms_Modules st" "Members = ms_Members st" "Symbols = ms_Symbols st"
      "Private = p" "File1 = FileName" "Name1 = Name"
    using assms by (auto simp: buildModule_def outcome)
  from eachOf_adds [OF moduleDeclaration_adds [OF buildReferencedModule_name] run] show ?thesis
    by (simp add: emptyModule_def st)
qed

theorem members_kept_witness:
  "\<exists>Modules Uses Members Symbols t. buildModule sampleWorld (buildReferencedModule 1 sampleWorld) [] [] ''b'' mutable_x False newModelerState =
     Some (Inr (Module False [] ''b'' Modules Uses Members Symbols), t) \<and>
     map memberTag Members = [VariableTag ''x'']"
proof -
  let ?b = "buildModule sampleWorld (buildReferencedModule 1 sampleWorld) [] [] ''b'' mutable_x False newModelerState"
  have "succeeds ?b" by code_simp
  then obtain P F N Modules Uses Members Symbols t where
    run: "?b = Some (Inr (Module P F N Modules Uses Members Symbols), t)"
    unfolding succeeds_def by (auto split: option.splits sum.splits) (metis module_m.exhaust)
  from members_kept [OF run] run show ?thesis
    by (simp add: mutable_x_def List.map_filter_simps)
qed

end
