(* ===== verification/Planner_Inference.thy ===== *)
theory Planner_Inference
  imports Plan
begin

text \<open>
  Type inference in the planner: substitutions, unification, the solving of constraints and type
  schemes, the functions at the end of retired/scalyc0/Planner.cpp, and the methods of the class
  that use them.

  \<open>applySubstitution\<close> follows chains of variables without looking for cycles, so it may not
  return: it is a partial function, and \<open>None\<close> is "does not return" here and in everything that
  calls it. An error of the planner is \<open>Some (Inl e)\<close>.
\<close>

section \<open>Substitutions\<close>

text \<open>A loop over a vector whose body may not return.\<close>

primrec each :: "('a \<Rightarrow> 'b option) \<Rightarrow> 'a list \<Rightarrow> 'b list option" where
  "each f [] = Some []"
| "each f (x # xs) = Option.bind (f x) (\<lambda>y. Option.bind (each f xs) (\<lambda>ys. Some (y # ys)))"

lemma each_mono [partial_function_mono]:
  assumes "\<And>x. mono_option (\<lambda>f. B f x)"
  shows "mono_option (\<lambda>f. each (B f) xs)"
proof (induction xs)
  case Nil
  show ?case by (simp add: option.const_mono)
next
  case (Cons x xs)
  show ?case unfolding each.simps
    by (intro partial_function_mono assms Cons)
qed

partial_function (option) applySubstitution :: "substitution \<Rightarrow> planned_type \<Rightarrow> planned_type option" where
  "applySubstitution Subst T =
     (case pt_Variable T of
        Some v \<Rightarrow>
          (case map_of Subst (Id v) of
             Some It \<Rightarrow> applySubstitution Subst It
           | None \<Rightarrow> Some T)
      | None \<Rightarrow>
          Option.bind (each (applySubstitution Subst) (pt_Generics T)) (\<lambda>Generics.
            Some (set_Generics Generics T)))"

text \<open>\<open>std::set\<close> of the numbers, in ascending order.\<close>

fun freeTypeVars :: "planned_type \<Rightarrow> 64 word list" where
  "freeTypeVars (PlannedType l n m Generics lt og a v) =
     fold (\<lambda>Arg Result. fold insort_insert (freeTypeVars Arg) Result) Generics
       (case v of Some v \<Rightarrow> [Id v] | None \<Rightarrow> [])"

fun occursIn :: "64 word \<Rightarrow> planned_type \<Rightarrow> bool" where
  "occursIn VarId (PlannedType l n m Generics lt og a v) \<longleftrightarrow>
     (case v of Some v \<Rightarrow> Id v = VarId | None \<Rightarrow> False) \<or> (\<exists>Arg\<in>set Generics. occursIn VarId Arg)"

text \<open>\<open>S2\<close> after \<open>S1\<close>: the entries of \<open>S1\<close>, with \<open>S2\<close> applied, overwrite those of \<open>S2\<close>.\<close>

fun composeLoop :: "substitution \<Rightarrow> substitution \<Rightarrow> substitution \<Rightarrow> substitution option" where
  "composeLoop [] S2 Result = Some Result"
| "composeLoop ((VarId, T) # S1) S2 Result =
     Option.bind (applySubstitution S2 T) (\<lambda>T'. composeLoop S1 S2 (map_put VarId T' Result))"

definition composeSubstitutions :: "substitution \<Rightarrow> substitution \<Rightarrow> substitution option" where
  "composeSubstitutions S1 S2 = composeLoop S1 S2 S2"

section \<open>Unification\<close>

type_synonym 'a planned = "(planner_error + 'a) option"

definition isIntegerTypeName :: "string \<Rightarrow> bool" where
  "isIntegerTypeName Name \<longleftrightarrow> Name \<in> set [
     ''int'', ''i8'', ''i16'', ''i32'', ''i64'',
     ''uint'', ''u8'', ''u16'', ''u32'', ''u64'',
     ''size_t'', ''usize'', ''isize'', ''size'', ''char'']"

definition areCompatibleIntegerTypes :: "string \<Rightarrow> string \<Rightarrow> bool" where
  "areCompatibleIntegerTypes Lhs Rhs \<longleftrightarrow> isIntegerTypeName Lhs \<and> isIntegerTypeName Rhs"

definition isOptionName :: "string \<Rightarrow> bool" where
  "isOptionName Name \<longleftrightarrow> Name = ''Option'' \<or> take 7 Name = ''Option.''"

definition isNullType :: "planned_type \<Rightarrow> bool" where
  "isNullType T \<longleftrightarrow> pt_Name T = ''pointer'' \<and>
     (case pt_Generics T of [] \<Rightarrow> False | G # _ \<Rightarrow> pt_Name G = ''void'')"

text \<open>The special cases in which two concrete types unify whatever their arguments.\<close>

definition unifiesAnyhow :: "planned_type \<Rightarrow> planned_type \<Rightarrow> bool" where
  "unifiesAnyhow L R \<longleftrightarrow>
     pt_Name L = ''void'' \<or> pt_Name R = ''void'' \<or>
     areCompatibleIntegerTypes (pt_Name L) (pt_Name R) \<or>
     isOptionName (pt_Name L) \<and> isNullType R \<or>
     isOptionName (pt_Name R) \<and> isNullType L"

text \<open>The variable of a side: the side itself, or the one embedded in a type.\<close>

fun variableOf :: "type_or_variable \<Rightarrow> type_variable option" where
  "variableOf (TypePart T) = pt_Variable T"
| "variableOf (VariablePart v) = Some v"

fun size_side :: "type_or_variable \<Rightarrow> nat" where
  "size_side (TypePart T) = Suc (size T)"
| "size_side (VariablePart v) = 1"

lemma size_pt_Generics: "size_list size (pt_Generics T) < size T"
  by (cases T) simp

lemma size_both_Generics:
  "size_list size (pt_Generics L) + size_list size (pt_Generics R) < Suc (size L + size R)"
  using size_pt_Generics [of L] size_pt_Generics [of R] by simp

function (sequential) unify :: "type_or_variable \<Rightarrow> type_or_variable \<Rightarrow> span \<Rightarrow> string \<Rightarrow> substitution planned"
  and unifyGenerics :: "planned_type list \<Rightarrow> planned_type list \<Rightarrow> substitution \<Rightarrow> span \<Rightarrow> string \<Rightarrow>
    substitution planned" where
  "unify Lhs Rhs Loc File =
     (case (variableOf Lhs, variableOf Rhs) of
        (Some LeftVar, Some RightVar) \<Rightarrow>
          if Id LeftVar = Id RightVar then Some (Inr [])
          else Some (Inr [(Id LeftVar, variableType RightVar)])
      | (Some LeftVar, None) \<Rightarrow>
          (case Rhs of
             TypePart RightType \<Rightarrow>
               if occursIn (Id LeftVar) RightType
               then Some (Inl (InfiniteTypeError File Loc (DebugName LeftVar)))
               else Some (Inr [(Id LeftVar, RightType)])
           | _ \<Rightarrow> Some (Inr []))
      | (None, Some RightVar) \<Rightarrow>
          (case Lhs of
             TypePart LeftType \<Rightarrow>
               if occursIn (Id RightVar) LeftType
               then Some (Inl (InfiniteTypeError File Loc (DebugName RightVar)))
               else Some (Inr [(Id RightVar, LeftType)])
           | _ \<Rightarrow> Some (Inr []))
      | (None, None) \<Rightarrow>
          (case (Lhs, Rhs) of
             (TypePart L, TypePart R) \<Rightarrow>
               if unifiesAnyhow L R then Some (Inr [])
               else if pt_Name L \<noteq> pt_Name R
               then Some (Inl (TypeMismatchError File Loc (pt_Name L) (pt_Name R)))
               else if length (pt_Generics L) \<noteq> length (pt_Generics R)
               then Some (Inl (GenericArityError File Loc (pt_Name L)
                 (length (pt_Generics L)) (length (pt_Generics R))))
               else unifyGenerics (pt_Generics L) (pt_Generics R) [] Loc File
           | _ \<Rightarrow> Some (Inr [])))"
| "unifyGenerics (L # Ls) (R # Rs) Result Loc File =
     (case unify (TypePart L) (TypePart R) Loc File of
        None \<Rightarrow> None
      | Some (Inl e) \<Rightarrow> Some (Inl e)
      | Some (Inr SubResult) \<Rightarrow>
          Option.bind (composeSubstitutions Result SubResult) (\<lambda>Result.
            unifyGenerics Ls Rs Result Loc File))"
| "unifyGenerics _ _ Result Loc File = Some (Inr Result)"
  by pat_completeness auto
termination
  by (relation "measure (\<lambda>x. case x of
      Inl (Lhs, Rhs, _, _) \<Rightarrow> size_side Lhs + size_side Rhs
    | Inr (Ls, Rs, _, _, _) \<Rightarrow> Suc (size_list size Ls + size_list size Rs))")
    (auto simp: size_both_Generics)

declare unify.simps [simp del]

section \<open>Constraints\<close>

definition applyToSide :: "substitution \<Rightarrow> type_or_variable \<Rightarrow> type_or_variable option" where
  "applyToSide Solution Side = (case Side of
     TypePart T \<Rightarrow> map_option TypePart (applySubstitution Solution T)
   | VariablePart v \<Rightarrow> Some (VariablePart v))"

fun solveLoop :: "type_constraint list \<Rightarrow> substitution \<Rightarrow> substitution planned" where
  "solveLoop [] Solution = Some (Inr Solution)"
| "solveLoop (InstanceConstraint v Trait Loc # Constraints) Solution = solveLoop Constraints Solution"
| "solveLoop (EqualityConstraint Lhs Rhs Loc File # Constraints) Solution =
     Option.bind (applyToSide Solution Lhs) (\<lambda>Lhs.
     Option.bind (applyToSide Solution Rhs) (\<lambda>Rhs.
     Option.bind (unify Lhs Rhs Loc File) (\<lambda>UnifyResult.
       case UnifyResult of
         Inl e \<Rightarrow> Some (Inl e)
       | Inr U \<Rightarrow>
           Option.bind (composeSubstitutions Solution U) (\<lambda>Solution.
             solveLoop Constraints Solution))))"

definition solveConstraints :: "type_constraint list \<Rightarrow> substitution planned" where
  "solveConstraints Constraints = solveLoop Constraints []"

section \<open>Type schemes\<close>

definition generalize :: "planned_type \<Rightarrow> 64 word list \<Rightarrow> type_scheme" where
  "generalize T FreeInEnvironment = TypeScheme
     (map (\<lambda>VarId. TypeVariable VarId [])
       (filter (\<lambda>VarId. VarId \<notin> set FreeInEnvironment) (freeTypeVars T)))
     (Some T)"

text \<open>The part of \<open>Plan\<close> that is the state of inference.\<close>

record inference =
  NextTypeVarId :: "64 word"
  Constraints :: "type_constraint list"
  Solution :: substitution

definition plan_freshTypeVar :: "string \<Rightarrow> inference \<Rightarrow> type_variable \<times> inference" where
  "plan_freshTypeVar debugName P =
     (TypeVariable (NextTypeVarId P) debugName, P\<lparr>NextTypeVarId := NextTypeVarId P + 1\<rparr>)"

fun freshLoop :: "type_variable list \<Rightarrow> substitution \<Rightarrow> inference \<Rightarrow> substitution \<times> inference" where
  "freshLoop [] Fresh P = (Fresh, P)"
| "freshLoop (QVar # QVars) Fresh P =
     (let (NewVar, P) = plan_freshTypeVar (DebugName QVar) P in
      freshLoop QVars (map_put (Id QVar) (variableType NewVar) Fresh) P)"

fun instantiate :: "type_scheme \<Rightarrow> inference \<Rightarrow> (planned_type \<times> inference) option" where
  "instantiate (TypeScheme Quantified None) P = Some (emptyType, P)"
| "instantiate (TypeScheme Quantified (Some T)) P =
     (let (Fresh, P) = freshLoop Quantified [] P in
      map_option (\<lambda>T. (T, P)) (applySubstitution Fresh T))"

section \<open>The planner\<close>

text \<open>\<open>CurrentPlan\<close> is null outside of \<open>plan\<close>.\<close>

definition freshTypeVar :: "string \<Rightarrow> inference option \<Rightarrow> planned_type \<times> inference option" where
  "freshTypeVar debugName CurrentPlan = (case CurrentPlan of
     None \<Rightarrow> (set_Name ''?'' emptyType, None)
   | Some P \<Rightarrow>
       (let (Var, P) = plan_freshTypeVar debugName P in
        (set_Name (if debugName = [] then ''?'' @ to_string (unat (Id Var)) else debugName)
           (variableType Var), Some P)))"

definition addConstraint ::
    "string \<Rightarrow> planned_type \<Rightarrow> planned_type \<Rightarrow> span \<Rightarrow> inference option \<Rightarrow> inference option" where
  "addConstraint File Lhs Rhs Loc CurrentPlan = map_option (\<lambda>P.
     P\<lparr>Constraints := Constraints P @ [EqualityConstraint (TypePart Lhs) (TypePart Rhs) Loc File]\<rparr>)
     CurrentPlan"

definition solveAndApply ::
    "inference option \<Rightarrow> ((planner_error + substitution) \<times> inference option) option" where
  "solveAndApply CurrentPlan = (case CurrentPlan of
     None \<Rightarrow> Some (Inr [], None)
   | Some P \<Rightarrow>
       if Constraints P = [] then Some (Inr [], Some P)
       else map_option (\<lambda>r. case r of
           Inl e \<Rightarrow> (Inl e, Some P)
         | Inr S \<Rightarrow> (Inr S, Some (P\<lparr>Solution := S, Constraints := []\<rparr>)))
         (solveConstraints (Constraints P)))"

definition applyCurrentSubstitution :: "inference option \<Rightarrow> planned_type \<Rightarrow> planned_type option" where
  "applyCurrentSubstitution CurrentPlan T = (case CurrentPlan of
     None \<Rightarrow> Some T
   | Some P \<Rightarrow> if Solution P = [] then Some T else applySubstitution (Solution P) T)"

end
