(* ===== verification/Planner_Inference_Theorems.thy ===== *)
theory Planner_Inference_Theorems
  imports Planner_Inference
begin

text \<open>
  What inference promises: when \<open>applySubstitution\<close> returns, that unification is sound for types in
  which no variable is repeated, and that the constraints the planner makes are solved.
\<close>

section \<open>Variables of a type\<close>

text \<open>The occurrences of variables that a substitution sees. Below a variable there is nothing.\<close>

fun varsOf :: "planned_type \<Rightarrow> 64 word list" where
  "varsOf (PlannedType l n m Generics lt og a v) =
     (case v of Some v \<Rightarrow> [Id v] | None \<Rightarrow> concat (map varsOf Generics))"

fun wf_type :: "planned_type \<Rightarrow> bool" where
  "wf_type (PlannedType l n m Generics lt og a v) \<longleftrightarrow>
     (v \<noteq> None \<longrightarrow> Generics = [] \<and> n \<noteq> ''void'') \<and> (\<forall>Arg\<in>set Generics. wf_type Arg)"

lemma varsOf_variable [simp]: "pt_Variable T = Some v \<Longrightarrow> varsOf T = [Id v]"
  and varsOf_concrete: "pt_Variable T = None \<Longrightarrow> varsOf T = concat (map varsOf (pt_Generics T))"
  by (cases T; simp)+

lemma wf_type_variable: "wf_type T \<Longrightarrow> pt_Variable T = Some v \<Longrightarrow> pt_Generics T = [] \<and> pt_Name T \<noteq> ''void''"
  and wf_type_Generics: "wf_type T \<Longrightarrow> Arg \<in> set (pt_Generics T) \<Longrightarrow> wf_type Arg"
  by (cases T; simp)+

lemma occursIn_varsOf: "wf_type T \<Longrightarrow> occursIn x T \<longleftrightarrow> x \<in> set (varsOf T)"
  by (induction T) (auto split: option.split)

lemma set_Generics_sel [simp]:
  "pt_Name (set_Generics g T) = pt_Name T" "pt_Generics (set_Generics g T) = g"
  "pt_Variable (set_Generics g T) = pt_Variable T" "set_Generics (pt_Generics T) T = T"
  by (cases T; simp)+

lemma variableType_sel [simp]:
  "pt_Variable (variableType v) = Some v" "pt_Generics (variableType v) = []" "pt_Name (variableType v) = []"
  by (simp_all add: variableType_def)

lemma wf_variableType [simp]: "wf_type (variableType v)"
  by (simp add: variableType_def)

section \<open>When substitution returns\<close>

lemma each_Some: "each f xs = Some ys \<longleftrightarrow> list_all2 (\<lambda>x y. f x = Some y) xs ys"
  by (induction xs arbitrary: ys)
    (auto simp: bind_eq_Some_conv list_all2_Cons1)

lemma each_map: "(\<And>x. x \<in> set xs \<Longrightarrow> f x = Some (g x)) \<Longrightarrow> each f xs = Some (map g xs)"
  by (induction xs) simp_all

lemma each_returns: "(\<exists>ys. each f xs = Some ys) \<longleftrightarrow> (\<forall>x\<in>set xs. \<exists>y. f x = Some y)"
proof
  assume "\<exists>ys. each f xs = Some ys"
  then show "\<forall>x\<in>set xs. \<exists>y. f x = Some y"
    by (auto simp: each_Some list_all2_conv_all_nth in_set_conv_nth)
next
  assume "\<forall>x\<in>set xs. \<exists>y. f x = Some y"
  then have "each f xs = Some (map (\<lambda>x. the (f x)) xs)" by (intro each_map) auto
  then show "\<exists>ys. each f xs = Some ys" by blast
qed

text \<open>A variable depends on those of the type that a substitution has for it.\<close>

definition dependsOn :: "substitution \<Rightarrow> (64 word \<times> 64 word) set" where
  "dependsOn S = {(y, x). \<exists>T. map_of S x = Some T \<and> y \<in> set (varsOf T)}"

lemma apply_variable:
  "pt_Variable T = Some v \<Longrightarrow> applySubstitution S T =
     (case map_of S (Id v) of Some It \<Rightarrow> applySubstitution S It | None \<Rightarrow> Some T)"
  by (subst applySubstitution.simps) simp

lemma apply_concrete:
  "pt_Variable T = None \<Longrightarrow> applySubstitution S T =
     Option.bind (each (applySubstitution S) (pt_Generics T)) (\<lambda>g. Some (set_Generics g T))"
  by (subst applySubstitution.simps) simp

lemma apply_concrete_returns:
  "pt_Variable T = None \<Longrightarrow>
     (\<exists>T'. applySubstitution S T = Some T') \<longleftrightarrow> (\<forall>G\<in>set (pt_Generics T). \<exists>G'. applySubstitution S G = Some G')"
  by (simp add: apply_concrete bind_eq_Some_conv flip: each_returns)

lemma apply_returns_acc:
  assumes "\<forall>x\<in>set (varsOf T). \<forall>T'. map_of S x = Some T' \<longrightarrow> (\<exists>R. applySubstitution S T' = Some R)"
  shows "\<exists>R. applySubstitution S T = Some R"
  using assms
proof (induction T)
  case (PlannedType l n m Generics lt og a v)
  show ?case
  proof (cases v)
    case None
    with PlannedType show ?thesis by (subst apply_concrete_returns) auto
  next
    case (Some u)
    with PlannedType.prems show ?thesis by (subst apply_variable) (auto split: option.split)
  qed
qed

lemma acc_apply_returns:
  "x \<in> Wellfounded.acc (dependsOn S) \<Longrightarrow> map_of S x = Some T \<Longrightarrow> \<exists>R. applySubstitution S T = Some R"
proof (induction x arbitrary: T rule: acc.induct)
  case (accI x)
  have "\<forall>y\<in>set (varsOf T). \<forall>T'. map_of S y = Some T' \<longrightarrow> (\<exists>R. applySubstitution S T' = Some R)"
    using accI by (auto simp: dependsOn_def)
  then show ?case by (rule apply_returns_acc)
qed

lemma apply_returns_imp_acc:
  "applySubstitution S T = Some R \<Longrightarrow> set (varsOf T) \<subseteq> Wellfounded.acc (dependsOn S)"
proof (rule applySubstitution.raw_induct
    [where P = "\<lambda>S T R. set (varsOf T) \<subseteq> Wellfounded.acc (dependsOn S)"])
  fix f S T R
  assume IH: "\<And>S T R. f S T = Some R \<Longrightarrow> set (varsOf T) \<subseteq> Wellfounded.acc (dependsOn S)"
    and step: "(case pt_Variable T of
        Some v \<Rightarrow> (case map_of S (Id v) of Some It \<Rightarrow> f S It | None \<Rightarrow> Some T)
      | None \<Rightarrow> Option.bind (each (f S) (pt_Generics T)) (\<lambda>g. Some (set_Generics g T))) = Some R"
  show "set (varsOf T) \<subseteq> Wellfounded.acc (dependsOn S)"
  proof (cases "pt_Variable T")
    case None
    with step have "\<forall>G\<in>set (pt_Generics T). \<exists>G'. f S G = Some G'"
      by (auto simp: bind_eq_Some_conv simp flip: each_returns)
    with IH None show ?thesis by (fastforce simp: varsOf_concrete)
  next
    case (Some v)
    have "Id v \<in> Wellfounded.acc (dependsOn S)"
    proof (rule accI)
      fix y assume "(y, Id v) \<in> dependsOn S"
      then obtain It where It: "map_of S (Id v) = Some It" "y \<in> set (varsOf It)"
        by (auto simp: dependsOn_def)
      with step Some have "f S It = Some R" by simp
      from IH [OF this] It(2) show "y \<in> Wellfounded.acc (dependsOn S)" by blast
    qed
    with Some show ?thesis by simp
  qed
qed

text \<open>C19. \<open>applySubstitution\<close> returns exactly when no variable of the type depends on itself: when
  every chain of variables, each one in the type that the substitution has for the one before,
  ends. Otherwise it recurs for ever.\<close>

theorem applySubstitution_returns:
  "(\<exists>R. applySubstitution S T = Some R) \<longleftrightarrow> set (varsOf T) \<subseteq> Wellfounded.acc (dependsOn S)"
proof
  assume "set (varsOf T) \<subseteq> Wellfounded.acc (dependsOn S)"
  then show "\<exists>R. applySubstitution S T = Some R"
    by (intro apply_returns_acc) (blast intro: acc_apply_returns)
qed (auto dest: apply_returns_imp_acc)

section \<open>Resolved substitutions\<close>

text \<open>A substitution is resolved when no type in it has a variable that it substitutes. Then it is
  enough to replace each variable once.\<close>

fun subst :: "substitution \<Rightarrow> planned_type \<Rightarrow> planned_type" where
  "subst S (PlannedType l n m Generics lt og a v) =
     (case v of
        Some u \<Rightarrow> (case map_of S (Id u) of Some T \<Rightarrow> T | None \<Rightarrow> PlannedType l n m Generics lt og a v)
      | None \<Rightarrow> PlannedType l n m (map (subst S) Generics) lt og a v)"

definition domain :: "substitution \<Rightarrow> 64 word set" where
  "domain S = fst ` set S"

definition range_vars :: "substitution \<Rightarrow> 64 word set" where
  "range_vars S = (\<Union>(x, T)\<in>set S. set (varsOf T))"

definition resolved :: "substitution \<Rightarrow> bool" where
  "resolved S \<longleftrightarrow> ordered S \<and> range_vars S \<inter> domain S = {} \<and> (\<forall>(x, T)\<in>set S. wf_type T)"

lemma resolved_Nil [simp]: "resolved []" "domain [] = {}" "range_vars [] = {}"
  by (simp_all add: resolved_def domain_def range_vars_def)

lemma map_of_domain: "map_of S x = None \<longleftrightarrow> x \<notin> domain S"
  by (simp add: map_of_eq_None_iff domain_def)

lemma not_domain [simp]: "x \<notin> domain S \<Longrightarrow> map_of S x = None"
  by (simp add: map_of_domain)

lemma subst_variable:
  "pt_Variable T = Some u \<Longrightarrow> subst S T = (case map_of S (Id u) of Some T' \<Rightarrow> T' | None \<Rightarrow> T)"
  by (cases T) (simp split: option.split)

lemma subst_concrete:
  "pt_Variable T = None \<Longrightarrow> subst S T = set_Generics (map (subst S) (pt_Generics T)) T"
  by (cases T) simp

lemma subst_concrete_sel [simp]:
  assumes "pt_Variable T = None"
  shows "pt_Variable (subst S T) = None" "pt_Name (subst S T) = pt_Name T"
    "pt_Generics (subst S T) = map (subst S) (pt_Generics T)"
  using assms by (simp_all add: subst_concrete)

lemma subst_agree:
  "\<forall>x\<in>set (varsOf T). map_of S x = map_of S' x \<Longrightarrow> subst S T = subst S' T"
  by (induction T) (auto split: option.split)

lemma subst_away: "set (varsOf T) \<inter> domain S = {} \<Longrightarrow> subst S T = T"
proof (induction T)
  case (PlannedType l n m Generics lt og a v)
  show ?case
  proof (cases v)
    case None
    with PlannedType have "\<forall>G\<in>set Generics. subst S G = G" by fastforce
    with None show ?thesis by (simp add: map_idI)
  qed (use PlannedType.prems in simp)
qed

lemma subst_Nil [simp]: "subst [] T = T"
  by (simp add: subst_away)

lemma map_subst_Nil [simp]: "map (subst []) Ts = Ts"
  by (simp add: map_idI)

lemma apply_away: "set (varsOf T) \<inter> domain S = {} \<Longrightarrow> applySubstitution S T = Some T"
proof (induction T)
  case (PlannedType l n m Generics lt og a v)
  show ?case
  proof (cases v)
    case None
    with PlannedType have "\<forall>G\<in>set Generics. applySubstitution S G = Some G" by fastforce
    with None show ?thesis
      by (subst apply_concrete) (simp_all add: each_map [where g = "\<lambda>x. x"])
  qed (use PlannedType.prems in \<open>simp add: apply_variable\<close>)
qed

lemma apply_resolved: "resolved S \<Longrightarrow> applySubstitution S T = Some (subst S T)"
proof (induction T)
  case (PlannedType l n m Generics lt og a v)
  show ?case
  proof (cases v)
    case None
    with PlannedType show ?thesis
      by (subst apply_concrete) (simp_all add: each_map [where g = "subst S"])
  next
    case (Some u)
    have "applySubstitution S T = Some T" if "map_of S (Id u) = Some T" for T
      using PlannedType.prems map_of_SomeD [OF that]
      by (intro apply_away) (fastforce simp: resolved_def range_vars_def)
    with Some show ?thesis by (subst apply_variable) (auto split: option.split)
  qed
qed

lemma wf_subst: "wf_type T \<Longrightarrow> resolved S \<Longrightarrow> wf_type (subst S T)"
proof (induction T)
  case (PlannedType l n m Generics lt og a v)
  then show ?case
    by (auto simp: resolved_def split: option.split dest: map_of_SomeD)
qed

lemma varsOf_subst: "set (varsOf (subst S T)) \<subseteq> (set (varsOf T) - domain S) \<union> range_vars S"
proof (induction T)
  case (PlannedType l n m Generics lt og a v)
  show ?case
  proof (cases v)
    case None
    with PlannedType show ?thesis by fastforce
  next
    case (Some u)
    show ?thesis
    proof (cases "map_of S (Id u)")
      case None
      with Some show ?thesis by (auto simp: map_of_domain)
    next
      case (Some T)
      with \<open>v = Some u\<close> show ?thesis by (auto simp: range_vars_def dest: map_of_SomeD)
    qed
  qed
qed

section \<open>Composition\<close>

lemma composeLoop_resolved:
  "resolved S2 \<Longrightarrow> composeLoop S1 S2 R =
     Some (fold (\<lambda>(x, T). map_put x (subst S2 T)) S1 R)"
  by (induction S1 arbitrary: R) (auto simp: apply_resolved)

lemma map_of_fold_put:
  "distinct (map fst S1) \<Longrightarrow> map_of (fold (\<lambda>(x, T). map_put x (g T)) S1 R) x =
     (case map_of S1 x of Some T \<Rightarrow> Some (g T) | None \<Rightarrow> map_of R x)"
proof (induction S1 arbitrary: R)
  case (Cons e S1)
  obtain a T where e: "e = (a, T)" by (cases e)
  with Cons.prems have "map_of S1 a = None" by (simp add: map_of_eq_None_iff)
  with e Cons show ?case by (auto split: option.split)
qed simp

lemma ordered_fold_put: "ordered R \<Longrightarrow> ordered (fold (\<lambda>(x, T). map_put x (g T)) S1 R)"
  by (induction S1 arbitrary: R) (auto simp: ordered_put)

lemma set_fold_put:
  "set (fold (\<lambda>(x, T). map_put x (g T)) S1 R) \<subseteq> (\<lambda>(x, T). (x, g T)) ` set S1 \<union> set R"
proof (induction S1 arbitrary: R)
  case (Cons e S1)
  then show ?case using set_put by (cases e) fastforce
qed simp

lemma domain_fold_put: "domain (fold (\<lambda>(x, T). map_put x (g T)) S1 R) = domain S1 \<union> domain R"
  by (induction S1 arbitrary: R) (simp_all add: domain_def split: prod.split)

text \<open>Two resolved substitutions, the second without a word on the variables of the first.\<close>

lemma composeSubstitutions_resolved:
  assumes "resolved S1" "resolved S2" "domain S2 \<inter> domain S1 = {}" "range_vars S2 \<inter> domain S1 = {}"
  obtains S where "composeSubstitutions S1 S2 = Some S" "resolved S" "domain S = domain S1 \<union> domain S2"
    "range_vars S \<subseteq> range_vars S1 \<union> range_vars S2" "\<And>T. subst S T = subst S2 (subst S1 T)"
proof -
  let ?S = "fold (\<lambda>(x, T). map_put x (subst S2 T)) S1 S2"
  have comp: "composeSubstitutions S1 S2 = Some ?S"
    by (simp add: composeSubstitutions_def composeLoop_resolved assms(2))
  have dom: "domain ?S = domain S1 \<union> domain S2" by (rule domain_fold_put)
  have elems: "\<exists>T0. (x, T0) \<in> set S1 \<and> T = subst S2 T0 \<or> (x, T) \<in> set S2" if "(x, T) \<in> set ?S" for x T
    using set_fold_put [of "subst S2" S1 S2] that by fastforce
  have range: "range_vars ?S \<subseteq> (range_vars S1 - domain S2) \<union> range_vars S2"
  proof
    fix y assume "y \<in> range_vars ?S"
    then obtain x T where "(x, T) \<in> set ?S" "y \<in> set (varsOf T)" by (auto simp: range_vars_def)
    with elems [of x T] varsOf_subst [of S2]
    show "y \<in> (range_vars S1 - domain S2) \<union> range_vars S2"
      unfolding range_vars_def by fastforce
  qed
  have "resolved ?S"
    unfolding resolved_def
  proof (intro conjI ballI)
    show "ordered ?S" using assms(2) by (intro ordered_fold_put) (simp add: resolved_def)
    show "range_vars ?S \<inter> domain ?S = {}"
      using range dom assms by (auto simp: resolved_def)
    fix e assume "e \<in> set ?S"
    moreover obtain x T where e: "e = (x, T)" by (cases e)
    ultimately consider T0 where "(x, T0) \<in> set S1" "T = subst S2 T0" | "(x, T) \<in> set S2"
      using elems [of x T] by blast
    then show "case e of (x, T) \<Rightarrow> wf_type T"
      unfolding e prod.case
    proof cases
      case 1
      then show "wf_type T" using assms(1) wf_subst [OF _ assms(2)] by (auto simp: resolved_def)
    next
      case 2
      then show "wf_type T" using assms(2) by (auto simp: resolved_def)
    qed
  qed
  moreover have "subst ?S T = subst S2 (subst S1 T)" for T
  proof (induction T)
    case (PlannedType l n m Generics lt og a v)
    have "distinct (map fst S1)" using assms(1) by (simp add: resolved_def ordered_distinct)
    with PlannedType show ?case
      by (cases v) (auto simp: map_of_fold_put split: option.split)
  qed
  ultimately show thesis using that comp dom range by blast
qed

section \<open>Unification\<close>

text \<open>Two types match when they are the same up to the special cases of the code: \<open>void\<close> matches
  everything, integer types match each other, null matches every \<open>Option\<close>.\<close>

inductive matches :: "planned_type \<Rightarrow> planned_type \<Rightarrow> bool" where
  variable: "pt_Variable L = Some l \<Longrightarrow> pt_Variable R = Some r \<Longrightarrow> Id l = Id r \<Longrightarrow> matches L R"
| anyhow: "pt_Variable L = None \<Longrightarrow> pt_Variable R = None \<Longrightarrow> unifiesAnyhow L R \<Longrightarrow> matches L R"
| arguments: "pt_Variable L = None \<Longrightarrow> pt_Variable R = None \<Longrightarrow> pt_Name L = pt_Name R \<Longrightarrow>
    list_all2 matches (pt_Generics L) (pt_Generics R) \<Longrightarrow> matches L R"
monos list_all2_mono

lemma matches_refl: "matches T T"
proof (induction T)
  case (PlannedType l n m Generics lt og a v)
  show ?case
  proof (cases v)
    case None
    then show ?thesis
      using PlannedType by (intro matches.arguments) (simp_all add: list.rel_refl_strong)
  qed (auto intro: matches.variable)
qed

lemma unifiesAnyhow_subst:
  assumes "wf_type L" "wf_type R" "pt_Variable L = None" "pt_Variable R = None" "unifiesAnyhow L R"
  shows "unifiesAnyhow (subst S L) (subst S R)"
proof -
  have "isNullType (subst S T)" if "wf_type T" "pt_Variable T = None" "isNullType T" for T
  proof (cases "pt_Generics T")
    case (Cons G Gs)
    with that have "wf_type G" "pt_Name G = ''void''"
      using wf_type_Generics [of T G] by (simp_all add: isNullType_def)
    then have "pt_Variable G = None" using wf_type_variable by fastforce
    with that Cons show ?thesis by (simp add: isNullType_def)
  qed (use that in \<open>simp add: isNullType_def\<close>)
  with assms show ?thesis by (auto simp: unifiesAnyhow_def)
qed

lemma matches_subst: "matches L R \<Longrightarrow> wf_type L \<Longrightarrow> wf_type R \<Longrightarrow> matches (subst S L) (subst S R)"
proof (induction L R rule: matches.induct)
  case (variable L l R r)
  then show ?case
    by (auto simp: subst_variable matches_refl intro: matches.variable split: option.split)
next
  case (anyhow L R)
  then show ?case by (intro matches.anyhow) (simp_all add: unifiesAnyhow_subst)
next
  case (arguments L R)
  have "list_all2 matches (map (subst S) (pt_Generics L)) (map (subst S) (pt_Generics R))"
    using arguments.IH wf_type_Generics [OF arguments.prems(1)] wf_type_Generics [OF arguments.prems(2)]
    by (auto simp: list_all2_conv_all_nth)
  with arguments.hyps show ?case by (intro matches.arguments) simp_all
qed

lemma resolved_single:
  "wf_type T \<Longrightarrow> x \<notin> set (varsOf T) \<Longrightarrow> resolved [(x, T)]"
  "domain [(x, T)] = {x}" "range_vars [(x, T)] = set (varsOf T)"
  by (simp_all add: resolved_def domain_def range_vars_def)

text \<open>What \<open>unify\<close> and its loop give for types without a repeated variable.\<close>

abbreviation sound_for :: "64 word set \<Rightarrow> substitution \<Rightarrow> bool" where
  "sound_for V S \<equiv> resolved S \<and> domain S \<union> range_vars S \<subseteq> V"

abbreviation unify_ok :: "planned_type \<Rightarrow> planned_type \<Rightarrow> span \<Rightarrow> string \<Rightarrow> bool" where
  "unify_ok L R Loc File \<equiv>
     (\<exists>e. unify (TypePart L) (TypePart R) Loc File = Some (Inl e)) \<or>
     (\<exists>S. unify (TypePart L) (TypePart R) Loc File = Some (Inr S) \<and>
       sound_for (set (varsOf L) \<union> set (varsOf R)) S \<and> matches (subst S L) (subst S R))"

text \<open>A map on types that keeps matching types matching.\<close>

definition stable :: "(planned_type \<Rightarrow> planned_type) \<Rightarrow> bool" where
  "stable f \<longleftrightarrow> (\<forall>A B. wf_type A \<longrightarrow> wf_type B \<longrightarrow> matches A B \<longrightarrow> matches (f A) (f B))"

lemma stable_subst: "stable f \<Longrightarrow> resolved S \<Longrightarrow> stable (\<lambda>T. f (subst S T))"
  by (auto simp: stable_def intro: matches_subst wf_subst)

lemma unifyGenerics_linear:
  assumes "\<And>L R. L \<in> set Ls \<Longrightarrow> wf_type L \<Longrightarrow> wf_type R \<Longrightarrow> distinct (varsOf L @ varsOf R) \<Longrightarrow>
      unify_ok L R Loc File"
    and "\<forall>T\<in>set Ls \<union> set Rs. wf_type T"
    and "distinct (concat (map varsOf Ls) @ concat (map varsOf Rs))"
    and "length Ls = length Rs" "sound_for V Result"
    and "V \<inter> (set (concat (map varsOf Ls)) \<union> set (concat (map varsOf Rs))) = {}"
  shows "(\<exists>e. unifyGenerics Ls Rs Result Loc File = Some (Inl e)) \<or>
     (\<exists>S f. unifyGenerics Ls Rs Result Loc File = Some (Inr S) \<and>
       sound_for (V \<union> set (concat (map varsOf Ls)) \<union> set (concat (map varsOf Rs))) S \<and>
       stable f \<and> (\<forall>T. subst S T = f (subst Result T)) \<and>
       list_all2 (\<lambda>L R. matches (subst S L) (subst S R)) Ls Rs)"
  using assms
proof (induction Ls arbitrary: Rs Result V)
  case Nil
  then show ?case by (auto simp: stable_def intro!: exI [of _ "\<lambda>T. T"])
next
  case (Cons L Ls)
  obtain R Rs' where Rs: "Rs = R # Rs'" using Cons.prems(4) by (cases Rs) auto
  note prems = Cons.prems [unfolded Rs]
  have head: "unify_ok L R Loc File" using prems by (intro Cons.prems(1)) auto
  show ?case
  proof (cases "\<exists>e. unify (TypePart L) (TypePart R) Loc File = Some (Inl e)")
    case True
    then show ?thesis by (auto simp: Rs)
  next
    case False
    with head obtain S1 where S1: "unify (TypePart L) (TypePart R) Loc File = Some (Inr S1)"
      "sound_for (set (varsOf L) \<union> set (varsOf R)) S1" "matches (subst S1 L) (subst S1 R)" by blast
    let ?V = "V \<union> set (varsOf L) \<union> set (varsOf R)"
    have "domain S1 \<inter> domain Result = {}" "range_vars S1 \<inter> domain Result = {}"
      using S1(2) prems(5,6) by auto
    with S1 prems(5) obtain S' where S': "composeSubstitutions Result S1 = Some S'" "resolved S'"
      "domain S' = domain Result \<union> domain S1" "range_vars S' \<subseteq> range_vars Result \<union> range_vars S1"
      "\<And>T. subst S' T = subst S1 (subst Result T)"
      by (metis composeSubstitutions_resolved)
    have "(\<exists>e. unifyGenerics Ls Rs' S' Loc File = Some (Inl e)) \<or>
     (\<exists>S f. unifyGenerics Ls Rs' S' Loc File = Some (Inr S) \<and>
       sound_for (?V \<union> set (concat (map varsOf Ls)) \<union> set (concat (map varsOf Rs'))) S \<and>
       stable f \<and> (\<forall>T. subst S T = f (subst S' T)) \<and>
       list_all2 (\<lambda>L R. matches (subst S L) (subst S R)) Ls Rs')"
    proof (rule Cons.IH)
      show "sound_for ?V S'" using S' S1(2) prems(5) by auto
      show "?V \<inter> (set (concat (map varsOf Ls)) \<union> set (concat (map varsOf Rs'))) = {}"
        using prems(3,6) by auto
    qed (use prems in auto)
    then show ?thesis
    proof (elim disjE exE conjE)
      fix e assume "unifyGenerics Ls Rs' S' Loc File = Some (Inl e)"
      then show ?thesis by (simp add: Rs S1 S')
    next
      fix S f
      assume S: "unifyGenerics Ls Rs' S' Loc File = Some (Inr S)" "stable f"
        "resolved S" "domain S \<union> range_vars S \<subseteq>
          ?V \<union> set (concat (map varsOf Ls)) \<union> set (concat (map varsOf Rs'))"
        "\<forall>T. subst S T = f (subst S' T)" "list_all2 (\<lambda>L R. matches (subst S L) (subst S R)) Ls Rs'"
      have "subst Result L = L" "subst Result R = R"
        using prems(5,6) by (auto intro!: subst_away)
      moreover have "wf_type (subst S1 L)" "wf_type (subst S1 R)"
        using prems(2) S1(2) by (auto intro: wf_subst)
      ultimately have "matches (subst S L) (subst S R)"
        using S1(3) S(2,5) by (simp add: S'(5) stable_def)
      moreover have "stable (\<lambda>T. f (subst S1 T))" using S(2) S1(2) by (simp add: stable_subst)
      ultimately show ?thesis
        using S by (intro disjI2 exI [of _ S] exI [of _ "\<lambda>T. f (subst S1 T)"]) (auto simp: Rs S1 S')
    qed
  qed
qed

lemma unify_linear:
  "wf_type L \<Longrightarrow> wf_type R \<Longrightarrow> distinct (varsOf L @ varsOf R) \<Longrightarrow> unify_ok L R Loc File"
proof (induction L arbitrary: R)
  case (PlannedType l n m Generics lt og a v)
  let ?L = "PlannedType l n m Generics lt og a v"
  show ?case
  proof (cases v)
    case (Some u)
    show ?thesis
    proof (cases "pt_Variable R")
      case None
      with Some PlannedType.prems show ?thesis
        by (auto simp: unify.simps occursIn_varsOf resolved_single subst_away matches_refl)
    next
      case (Some r)
      with \<open>v = Some u\<close> PlannedType.prems show ?thesis
        by (auto simp: unify.simps resolved_single subst_variable intro: matches.variable)
    qed
  next
    case None
    note v = None
    show ?thesis
    proof (cases "pt_Variable R")
      case (Some r)
      with v PlannedType.prems show ?thesis
        by (auto simp: unify.simps occursIn_varsOf resolved_single subst_away matches_refl
            subst_variable simp del: subst.simps)
    next
      case None
      consider "unifiesAnyhow ?L R"
        | "\<not> unifiesAnyhow ?L R" "n = pt_Name R \<longrightarrow> length Generics \<noteq> length (pt_Generics R)"
        | "\<not> unifiesAnyhow ?L R" "n = pt_Name R" "length Generics = length (pt_Generics R)"
        by blast
      then show ?thesis
      proof cases
        case 1
        with v None show ?thesis by (auto simp: unify.simps intro!: matches.anyhow)
      next
        case 2
        with v None show ?thesis by (simp add: unify.simps)
      next
        case 3
        have "(\<exists>e. unifyGenerics Generics (pt_Generics R) [] Loc File = Some (Inl e)) \<or>
         (\<exists>S f. unifyGenerics Generics (pt_Generics R) [] Loc File = Some (Inr S) \<and>
           sound_for ({} \<union> set (concat (map varsOf Generics)) \<union> set (concat (map varsOf (pt_Generics R)))) S \<and>
           stable f \<and> (\<forall>T. subst S T = f (subst [] T)) \<and>
           list_all2 (\<lambda>L R. matches (subst S L) (subst S R)) Generics (pt_Generics R))"
        proof (rule unifyGenerics_linear)
          show "\<forall>T\<in>set Generics \<union> set (pt_Generics R). wf_type T"
            using PlannedType.prems wf_type_Generics by auto
          show "distinct (concat (map varsOf Generics) @ concat (map varsOf (pt_Generics R)))"
            using PlannedType.prems(3) v None by (simp add: varsOf_concrete)
        qed (use PlannedType.IH 3 in auto)
        then have "(\<exists>e. unifyGenerics Generics (pt_Generics R) [] Loc File = Some (Inl e)) \<or>
         (\<exists>S. unifyGenerics Generics (pt_Generics R) [] Loc File = Some (Inr S) \<and>
           sound_for (set (concat (map varsOf Generics)) \<union> set (concat (map varsOf (pt_Generics R)))) S \<and>
           list_all2 (\<lambda>L R. matches (subst S L) (subst S R)) Generics (pt_Generics R))" by auto
        with v None 3 show ?thesis
          by (auto simp: unify.simps varsOf_concrete list.rel_map intro!: matches.arguments)
      qed
    qed
  qed
qed

text \<open>C20. Unification is sound for types in which no variable occurs twice: it returns, and when it
  finds a substitution, applying that to both sides returns types that match.\<close>

theorem unify_sound:
  assumes "wf_type L" "wf_type R" "distinct (varsOf L @ varsOf R)"
  shows "case unify (TypePart L) (TypePart R) Loc File of
      None \<Rightarrow> False
    | Some (Inl e) \<Rightarrow> True
    | Some (Inr S) \<Rightarrow> \<exists>L' R'. applySubstitution S L = Some L' \<and> applySubstitution S R = Some R' \<and>
        matches L' R'"
  using unify_linear [OF assms, of Loc File] by (auto simp: apply_resolved)

text \<open>\<open>Pair[int, x]\<close> and \<open>Pair[y, List[z]]\<close>.\<close>

abbreviation plain :: "string \<Rightarrow> planned_type list \<Rightarrow> planned_type" where
  "plain n Generics \<equiv> PlannedType (Span 0 0) n [] Generics UnspecifiedLifetime None [] None"

abbreviation var :: "64 word \<Rightarrow> planned_type" where
  "var x \<equiv> variableType (TypeVariable x [])"

lemma matches_same_arguments:
  "n = n' \<Longrightarrow> list_all2 matches g g' \<Longrightarrow> matches (plain n g) (plain n' g')"
  by (rule matches.arguments) simp_all

lemma varsOf_variableType [simp]: "varsOf (variableType v) = [Id v]"
  by (simp add: variableType_def)

theorem unify_sound_witness:
  "\<exists>S L' R'. unify (TypePart (plain ''Pair'' [plain ''int'' [], var 0]))
      (TypePart (plain ''Pair'' [var 1, plain ''List'' [var 2]])) (Span 0 0) ''f'' = Some (Inr S) \<and>
    applySubstitution S (plain ''Pair'' [plain ''int'' [], var 0]) = Some L' \<and>
    applySubstitution S (plain ''Pair'' [var 1, plain ''List'' [var 2]]) = Some R' \<and> matches L' R'"
proof -
  have "\<exists>S. unify (TypePart (plain ''Pair'' [plain ''int'' [], var 0]))
      (TypePart (plain ''Pair'' [var 1, plain ''List'' [var 2]])) (Span 0 0) ''f'' = Some (Inr S)"
    by (simp add: unify.simps unifiesAnyhow_def areCompatibleIntegerTypes_def isIntegerTypeName_def
        isOptionName_def isNullType_def variableType_def composeSubstitutions_def apply_variable
        apply_concrete)
  with unify_sound [of "plain ''Pair'' [plain ''int'' [], var 0]"
      "plain ''Pair'' [var 1, plain ''List'' [var 2]]" "Span 0 0" "''f''"] show ?thesis
    by auto
qed

section \<open>Solving\<close>

text \<open>The simplest sides of a constraint: bare variables and types without variables.\<close>

definition atomic :: "planned_type \<Rightarrow> bool" where
  "atomic T \<longleftrightarrow> wf_type T \<and> (pt_Variable T \<noteq> None \<or> varsOf T = [])"

definition atomic_range :: "substitution \<Rightarrow> bool" where
  "atomic_range S \<longleftrightarrow> (\<forall>(x, T)\<in>set S. atomic T)"

lemma atomic_subst: "atomic T \<Longrightarrow> atomic_range S \<Longrightarrow> atomic (subst S T)"
  by (cases "pt_Variable T")
    (auto simp: atomic_def atomic_range_def subst_away subst_variable split: option.split
      dest!: map_of_SomeD)

lemma unify_atomic:
  assumes "atomic L" "atomic R"
  shows "(\<exists>e. unify (TypePart L) (TypePart R) Loc File = Some (Inl e)) \<or>
     (\<exists>S. unify (TypePart L) (TypePart R) Loc File = Some (Inr S) \<and>
       sound_for (set (varsOf L) \<union> set (varsOf R)) S \<and> matches (subst S L) (subst S R) \<and> atomic_range S)"
proof (cases "\<exists>l r. pt_Variable L = Some l \<and> pt_Variable R = Some r \<and> Id l = Id r")
  case True
  then show ?thesis
    by (auto simp: unify.simps atomic_range_def intro: matches.variable)
next
  case False
  then have "distinct (varsOf L @ varsOf R)"
    using assms by (auto simp: atomic_def)
  then have ok: "unify_ok L R Loc File" using assms by (intro unify_linear) (auto simp: atomic_def)
  show ?thesis
  proof (cases "pt_Variable L = None \<and> pt_Variable R = None")
    case True
    then have "varsOf L = []" "varsOf R = []" using assms by (auto simp: atomic_def)
    with ok show ?thesis by (auto simp: atomic_range_def domain_def)
  next
    case False
    have "atomic_range S" if "unify (TypePart L) (TypePart R) Loc File = Some (Inr S)" for S
      using that False assms
      by (auto simp: unify.simps atomic_range_def atomic_def split: option.splits if_splits)
    with ok show ?thesis by blast
  qed
qed

fun atomic_constraint :: "type_constraint \<Rightarrow> bool" where
  "atomic_constraint (EqualityConstraint (TypePart L) (TypePart R) Loc File) \<longleftrightarrow> atomic L \<and> atomic R"
| "atomic_constraint (InstanceConstraint v Trait Loc) \<longleftrightarrow> True"
| "atomic_constraint C \<longleftrightarrow> False"

fun satisfied :: "substitution \<Rightarrow> type_constraint \<Rightarrow> bool" where
  "satisfied S (EqualityConstraint (TypePart L) (TypePart R) Loc File) \<longleftrightarrow>
     matches (subst S L) (subst S R)"
| "satisfied S C \<longleftrightarrow> True"

lemma composeSubstitutions_atomic:
  assumes "composeSubstitutions S1 S2 = Some S" "resolved S2" "atomic_range S1" "atomic_range S2"
  shows "atomic_range S"
proof -
  have S: "S = fold (\<lambda>(x, T). map_put x (subst S2 T)) S1 S2"
    using assms by (simp add: composeSubstitutions_def composeLoop_resolved)
  show ?thesis
    unfolding atomic_range_def
  proof safe
    fix x T assume "(x, T) \<in> set S"
    then consider T0 where "(x, T0) \<in> set S1" "T = subst S2 T0" | "(x, T) \<in> set S2"
      using set_fold_put [of "subst S2" S1 S2] unfolding S by fastforce
    then show "atomic T" using assms(3,4) by cases (auto simp: atomic_range_def intro!: atomic_subst)
  qed
qed

lemma solveLoop_atomic:
  "\<forall>C\<in>set Cs. atomic_constraint C \<Longrightarrow> resolved S \<Longrightarrow> atomic_range S \<Longrightarrow>
   (\<exists>e. solveLoop Cs S = Some (Inl e)) \<or>
   (\<exists>S' f. solveLoop Cs S = Some (Inr S') \<and> resolved S' \<and> stable f \<and>
      (\<forall>T. subst S' T = f (subst S T)) \<and> (\<forall>C\<in>set Cs. satisfied S' C))"
proof (induction Cs arbitrary: S)
  case Nil
  then show ?case by (auto simp: stable_def intro!: exI [of _ "\<lambda>T. T"])
next
  case (Cons C Cs)
  show ?case
  proof (cases "atomic_constraint C \<and> (\<nexists>v Trait Loc. C = InstanceConstraint v Trait Loc)")
    case False
    with Cons show ?thesis by (cases C) auto
  next
    case True
    then obtain L R Loc File where C: "C = EqualityConstraint (TypePart L) (TypePart R) Loc File"
      "atomic L" "atomic R" by (cases C rule: atomic_constraint.cases) auto
    let ?L = "subst S L" and ?R = "subst S R"
    have atoms: "atomic ?L" "atomic ?R" using C Cons.prems by (simp_all add: atomic_subst)
    have step: "solveLoop (C # Cs) S = Option.bind (unify (TypePart ?L) (TypePart ?R) Loc File)
        (\<lambda>r. case r of Inl e \<Rightarrow> Some (Inl e)
          | Inr U \<Rightarrow> Option.bind (composeSubstitutions S U) (solveLoop Cs))"
      using Cons.prems by (simp add: C(1) applyToSide_def apply_resolved)
    from unify_atomic [OF atoms, of Loc File] show ?thesis
    proof (elim disjE exE conjE)
      fix e assume "unify (TypePart ?L) (TypePart ?R) Loc File = Some (Inl e)"
      then show ?thesis by (simp add: step)
    next
      fix U assume U: "unify (TypePart ?L) (TypePart ?R) Loc File = Some (Inr U)" "resolved U"
        "domain U \<union> range_vars U \<subseteq> set (varsOf ?L) \<union> set (varsOf ?R)"
        "matches (subst U ?L) (subst U ?R)" "atomic_range U"
      have "(set (varsOf ?L) \<union> set (varsOf ?R)) \<inter> domain S = {}"
        using varsOf_subst [of S L] varsOf_subst [of S R] Cons.prems(2) by (auto simp: resolved_def)
      with U(3) have "domain U \<inter> domain S = {}" "range_vars U \<inter> domain S = {}" by auto
      with Cons.prems(2) U(2) obtain S1 where S1: "composeSubstitutions S U = Some S1" "resolved S1"
        "\<And>T. subst S1 T = subst U (subst S T)" by (metis composeSubstitutions_resolved)
      have "atomic_range S1"
        using S1(1) U(2) Cons.prems(3) U(5) by (rule composeSubstitutions_atomic)
      with Cons.IH [of S1] Cons.prems(1) S1(2) consider
          e where "solveLoop Cs S1 = Some (Inl e)"
        | S' f where "solveLoop Cs S1 = Some (Inr S')" "resolved S'" "stable f"
            "\<forall>T. subst S' T = f (subst S1 T)" "\<forall>C\<in>set Cs. satisfied S' C" by auto
      then show ?thesis
      proof cases
        case 1
        then show ?thesis by (simp add: step U S1)
      next
        case (2 S' f)
        have "matches (f (subst U ?L)) (f (subst U ?R))"
          using 2(3) U(2,4) atoms by (simp add: stable_def wf_subst atomic_def)
        with 2(4) have "satisfied S' C" by (simp add: C(1) S1(3))
        moreover have "stable (\<lambda>T. f (subst U T))" using 2(3) U(2) by (rule stable_subst)
        ultimately show ?thesis
          using 2 by (intro disjI2 exI [of _ S'] exI [of _ "\<lambda>T. f (subst U T)"])
            (auto simp: step U S1)
      qed
    qed
  qed
qed

text \<open>C21. Solving is sound for constraints between variables and types without variables (a binding
  without a type and its expression give such a constraint), with variables repeated as one likes:
  it returns, and after success the two sides of every equality, each with the solution applied,
  match.\<close>

theorem solveConstraints_sound:
  assumes "\<forall>C\<in>set Cs. atomic_constraint C"
  shows "case solveConstraints Cs of
      None \<Rightarrow> False
    | Some (Inl e) \<Rightarrow> True
    | Some (Inr S) \<Rightarrow> \<forall>L R Loc File. EqualityConstraint (TypePart L) (TypePart R) Loc File \<in> set Cs \<longrightarrow>
        (\<exists>L' R'. applySubstitution S L = Some L' \<and> applySubstitution S R = Some R' \<and> matches L' R')"
proof -
  have "atomic_range []" by (simp add: atomic_range_def)
  with solveLoop_atomic [OF assms, of "[]"] show ?thesis
    by (fastforce simp: solveConstraints_def apply_resolved)
qed

theorem solveConstraints_sound_witness:
  "\<exists>S L' R'. solveConstraints [EqualityConstraint (TypePart (var 0)) (TypePart (var 1)) (Span 0 0) ''f'',
      EqualityConstraint (TypePart (var 1)) (TypePart (plain ''int'' [])) (Span 0 0) ''f''] = Some (Inr S) \<and>
    applySubstitution S (var 0) = Some L' \<and> applySubstitution S (var 1) = Some R' \<and> matches L' R'"
proof -
  let ?Cs = "[EqualityConstraint (TypePart (var 0)) (TypePart (var 1)) (Span 0 0) ''f'',
      EqualityConstraint (TypePart (var 1)) (TypePart (plain ''int'' [])) (Span 0 0) ''f'']"
  have "\<exists>S. solveConstraints ?Cs = Some (Inr S)"
    by (simp add: solveConstraints_def applyToSide_def unify.simps variableType_def apply_variable
        apply_concrete composeSubstitutions_def)
  moreover have "\<forall>C\<in>set ?Cs. atomic_constraint C" by (simp add: atomic_def)
  ultimately show ?thesis using solveConstraints_sound [of ?Cs] by fastforce
qed

text \<open>With a repeated variable it is not: the arguments found first are not substituted in those
  that follow, and their entries are overwritten. \<open>Pair[x, x]\<close> and \<open>Pair[int, bool]\<close> unify, with the
  second value of \<open>x\<close> lost; \<open>Pair[x, List[x]]\<close> and \<open>Pair[List[y], y]\<close> unify with a substitution in
  which \<open>x\<close> depends on itself, although there is an occurs check, and applying it does not
  return.\<close>

lemma unify_repeated:
  "unify (TypePart (plain ''Pair'' [var 0, var 0]))
      (TypePart (plain ''Pair'' [plain ''int'' [], plain ''bool'' []])) Loc File =
    Some (Inr [(0, plain ''int'' [])])"
  by (simp add: unify.simps unifiesAnyhow_def areCompatibleIntegerTypes_def isIntegerTypeName_def
      isOptionName_def isNullType_def variableType_def composeSubstitutions_def apply_concrete)

lemma acc_no_loop: "x \<in> Wellfounded.acc r \<Longrightarrow> (x, x) \<notin> r"
  by (induction rule: acc.induct) blast

lemma unify_cyclic:
  "\<exists>S. unify (TypePart (plain ''Pair'' [var 0, plain ''List'' [var 0]]))
      (TypePart (plain ''Pair'' [plain ''List'' [var 1], var 1])) Loc File = Some (Inr S) \<and>
    applySubstitution S (var 0) = None"
proof -
  let ?S = "[(0, plain ''List'' [plain ''List'' [var 0]]), (1, plain ''List'' [var 0])]"
  have "unify (TypePart (plain ''Pair'' [var 0, plain ''List'' [var 0]]))
      (TypePart (plain ''Pair'' [plain ''List'' [var 1], var 1])) Loc File = Some (Inr ?S)"
    by (simp add: unify.simps unifiesAnyhow_def areCompatibleIntegerTypes_def isIntegerTypeName_def
        isOptionName_def isNullType_def variableType_def composeSubstitutions_def apply_variable
        apply_concrete)
  moreover have "(0, 0) \<in> dependsOn ?S" by (simp add: dependsOn_def)
  then have "0 \<notin> Wellfounded.acc (dependsOn ?S)" by (blast dest: acc_no_loop)
  then have "applySubstitution ?S (var 0) = None"
    using apply_returns_imp_acc [of ?S "var 0"] by fastforce
  ultimately show ?thesis by blast
qed

end
