(* ===== verification/Word_Alignment.thy ===== *)
theory Word_Alignment
  imports "HOL-Library.Word"
begin

text \<open>
  Rounding an address or a size up to an alignment in 64 bit arithmetic, as the layout of
  retired/scalyc0/Planner.cpp and the pages of retired/packages/scaly/scaly/memory do it.
\<close>

unbundle bit_operations_syntax

type_synonym size_t = "64 word"

text \<open>\<open>(x + a - 1) & ~(a - 1)\<close>\<close>

definition alignUp :: "size_t \<Rightarrow> size_t \<Rightarrow> size_t" where
  "alignUp x a = (x + a - 1) AND NOT (a - 1)"

definition power_of_2 :: "size_t \<Rightarrow> bool" where
  "power_of_2 a \<longleftrightarrow> (\<exists>k<64. a = 2 ^ k)"

lemma power_of_2_simps [simp]: "power_of_2 1" "power_of_2 2" "power_of_2 4" "power_of_2 8"
  unfolding power_of_2_def
  by (rule exI [of _ 0], simp, rule exI [of _ 1], simp, rule exI [of _ 2], simp, rule exI [of _ 3], simp)

lemma power_of_2_unat: "power_of_2 a \<Longrightarrow> \<exists>k<64. a = 2 ^ k \<and> unat a = 2 ^ k"
proof -
  have "unat (2 ^ k :: size_t) = 2 ^ k" if "k < 64" for k
  proof -
    have "unat (word_of_nat (2 ^ k) :: size_t) = 2 ^ k mod 2 ^ 64" by (simp only: unat_of_nat) simp
    moreover have "(2::nat) ^ k < 2 ^ 64" using that by (intro power_strict_increasing) simp_all
    ultimately show ?thesis by (simp only: mod_less of_nat_power of_nat_numeral)
  qed
  then show "power_of_2 a \<Longrightarrow> \<exists>k<64. a = 2 ^ k \<and> unat a = 2 ^ k" by (auto simp: power_of_2_def)
qed

lemma power_of_2_pos: "power_of_2 a \<Longrightarrow> 0 < unat a"
  using power_of_2_unat by fastforce

lemma power_of_2_nonzero: "power_of_2 a \<Longrightarrow> a \<noteq> 0"
  using power_of_2_pos by fastforce

lemma power_of_2_dvd: "power_of_2 a \<Longrightarrow> power_of_2 b \<Longrightarrow> unat a \<le> unat b \<Longrightarrow> unat a dvd unat b"
  by (auto dest!: power_of_2_unat simp: le_imp_power_dvd)

lemma unat_and_not_mask: "unat (x AND NOT (mask k) :: size_t) = unat x div 2 ^ k * 2 ^ k"
proof -
  have "unat (x AND NOT (mask k)) = push_bit k (drop_bit k (unat x))"
    by (rule bit_eqI) (auto simp: bit_unsigned_iff bit_and_iff bit_not_iff bit_mask_iff bit_push_bit_iff
        bit_drop_bit_eq possible_bit_def dest: bit_imp_le_length)
  then show ?thesis by (simp add: push_bit_eq_mult drop_bit_eq_div)
qed

lemma unat_alignUp:
  assumes "power_of_2 a" "unat x + unat a \<le> 2 ^ 64"
  shows "unat (alignUp x a) = (unat x + unat a - 1) div unat a * unat a"
proof -
  obtain k where k: "k < 64" "a = 2 ^ k" "unat a = 2 ^ k"
    using power_of_2_unat [OF assms(1)] by blast
  have "a - 1 = mask k" by (simp add: k mask_eq_decr_exp)
  moreover have "unat (x + a - 1) = unat x + unat a - 1"
  proof -
    have "unat (a - 1) = unat a - 1"
      using power_of_2_nonzero [OF assms(1)] by (rule unat_minus_one)
    then have "unat (x + (a - 1)) = unat x + (unat a - 1)"
      using assms(2) power_of_2_pos [OF assms(1)] by (subst unat_plus_if') simp
    then show ?thesis using power_of_2_pos [OF assms(1)] by (simp add: add_diff_eq)
  qed
  ultimately show ?thesis by (simp add: alignUp_def unat_and_not_mask flip: k(3))
qed

lemma alignUp_bounds:
  assumes "power_of_2 a" "unat x + unat a \<le> 2 ^ 64"
  shows "unat a dvd unat (alignUp x a)" "unat x \<le> unat (alignUp x a)"
    "unat (alignUp x a) < unat x + unat a"
proof -
  define n where "n = unat x + unat a - 1"
  have n: "unat (alignUp x a) = n div unat a * unat a" "unat x + unat a = Suc n" "n mod unat a < unat a"
    using unat_alignUp [OF assms] power_of_2_pos [OF assms(1)] by (simp_all add: n_def)
  then show "unat a dvd unat (alignUp x a)" by simp
  have "n = n div unat a * unat a + n mod unat a" by simp
  with n show "unat x \<le> unat (alignUp x a)" "unat (alignUp x a) < unat x + unat a" by linarith+
qed

end
