(* ===== verification/Planner_Layout.thy ===== *)
theory Planner_Layout
  imports Plan Word_Alignment
begin

text \<open>
  The sizes, alignments and offsets of Planner.cpp: \<open>getPropSizeAndAlign\<close>, \<open>computeStructLayout\<close> and
  \<open>computeUnionLayout\<close>, in the 64 bit arithmetic of the code. The theorems say that the fields of a
  structure are aligned, do not overlap and lie within it, with no more padding than the alignments
  ask for.
\<close>

unbundle bit_operations_syntax

section \<open>Definitions\<close>

text \<open>The caches of \<open>Planner\<close> that the layout reads.\<close>

record layout_caches =
  InstantiatedStructures :: "(string \<times> planned_structure) list"
  InstantiatedUnions :: "(string \<times> planned_union) list"

definition TryStruct :: "layout_caches \<Rightarrow> string \<Rightarrow> size_t \<times> size_t" where
  "TryStruct C Key = (case map_of (InstantiatedStructures C) Key of
     Some S \<Rightarrow> if st_Size S \<noteq> 0 then (st_Size S, st_Alignment S) else (0, 0)
   | None \<Rightarrow> (0, 0))"

definition TryUnion :: "layout_caches \<Rightarrow> string \<Rightarrow> size_t \<times> size_t" where
  "TryUnion C Key = (case map_of (InstantiatedUnions C) Key of
     Some U \<Rightarrow> if un_Size U \<noteq> 0 then (un_Size U, un_Alignment U) else (0, 0)
   | None \<Rightarrow> (0, 0))"

text \<open>The first of several lookups that finds something.\<close>

fun firstKnown :: "(size_t \<times> size_t) list \<Rightarrow> size_t \<times> size_t" where
  "firstKnown [] = (0, 0)"
| "firstKnown (R # Rs) = (if fst R \<noteq> 0 then R else firstKnown Rs)"

definition otherKey :: "string \<Rightarrow> string" where
  "otherKey Mang = (if 2 < length Mang \<and> take 2 Mang = ''_Z'' then drop 2 Mang else ''_Z'' @ Mang)"

definition cachedSizeAndAlign :: "layout_caches \<Rightarrow> string \<Rightarrow> string \<Rightarrow> size_t \<times> size_t" where
  "cachedSizeAndAlign C Mang N = firstKnown
     ((if Mang = [] then [] else
         [TryStruct C Mang, TryStruct C (otherKey Mang), TryUnion C Mang, TryUnion C (otherKey Mang)]) @
      [TryStruct C N, TryUnion C N])"

definition primitiveSizeAndAlign :: "string \<Rightarrow> (size_t \<times> size_t) option" where
  "primitiveSizeAndAlign N =
    (if N \<in> set [''bool'', ''i1''] then Some (1, 1)
     else if N \<in> set [''i8'', ''u8'', ''char'', ''const_char''] then Some (1, 1)
     else if N \<in> set [''i16'', ''u16''] then Some (2, 2)
     else if N \<in> set [''i32'', ''u32'', ''float'', ''f32''] then Some (4, 4)
     else if N \<in> set [''i64'', ''u64'', ''int'', ''uint'', ''long'', ''ulong'', ''size'', ''size_t'',
       ''double'', ''f64'', ''ptr''] then Some (8, 8)
     else if N \<in> set [''pointer'', ''ref''] then Some (8, 8)
     else None)"

fun getPropSizeAndAlign :: "layout_caches \<Rightarrow> planned_type \<Rightarrow> size_t \<times> size_t" where
  "getPropSizeAndAlign C (PlannedType l N Mang Generics lt og a v) =
     (case primitiveSizeAndAlign N of
        Some R \<Rightarrow> R
      | None \<Rightarrow>
          (case Generics of
             G # _ \<Rightarrow>
               if N = ''Option'' \<and> (pt_Name G = ''ref'' \<or> pt_Name G = ''pointer'') then (8, 8)
               else if take 10 N = ''Option.ref'' then (8, 8)
               else if take 14 N = ''Option.pointer'' then (8, 8)
               else if N = ''Option'' then
                 (let (InnerSize, InnerAlign) = getPropSizeAndAlign C G in
                  if InnerSize = 0 then (0, 0)
                  else
                    (let A = if 1 < InnerAlign then InnerAlign else 1 in
                     (alignUp (1 + InnerSize) A, A)))
               else cachedSizeAndAlign C Mang N
           | [] \<Rightarrow>
               if take 10 N = ''Option.ref'' then (8, 8)
               else if take 14 N = ''Option.pointer'' then (8, 8)
               else cachedSizeAndAlign C Mang N))"

record layout_state =
  ly_Offset :: size_t
  ly_MaxAlign :: size_t
  ly_AnyUnknown :: bool

definition unknown :: "size_t \<times> size_t \<Rightarrow> bool" where
  "unknown R \<longleftrightarrow> fst R = 0 \<or> snd R = 0"

definition orGuess :: "size_t \<times> size_t \<Rightarrow> size_t \<times> size_t" where
  "orGuess R = (if unknown R then (8, 8) else R)"

definition set_Offset :: "size_t \<Rightarrow> planned_property \<Rightarrow> planned_property" where
  "set_Offset Offset Prop = PlannedProperty (prop_Loc Prop) (prop_Private Prop) (prop_Name Prop)
     (prop_MangledName Prop) (prop_Type Prop) (prop_Initializer Prop) (prop_Attributes Prop) Offset"

definition layoutProperty :: "layout_caches \<Rightarrow> planned_property \<Rightarrow> layout_state \<Rightarrow>
    planned_property \<times> layout_state" where
  "layoutProperty C Prop L =
     (let R = getPropSizeAndAlign C (prop_Type Prop);
          (Size, Align) = orGuess R;
          Offset = alignUp (ly_Offset L) Align in
      (set_Offset Offset Prop,
       \<lparr>ly_Offset = Offset + Size,
        ly_MaxAlign = if ly_MaxAlign L < Align then Align else ly_MaxAlign L,
        ly_AnyUnknown = (ly_AnyUnknown L \<or> unknown R)\<rparr>))"

fun layoutProperties :: "layout_caches \<Rightarrow> planned_property list \<Rightarrow> layout_state \<Rightarrow>
    planned_property list \<times> layout_state" where
  "layoutProperties C [] L = ([], L)"
| "layoutProperties C (Prop # Props) L =
     (let (Prop, L) = layoutProperty C Prop L;
          (Props, L) = layoutProperties C Props L in
      (Prop # Props, L))"

definition computeStructLayout :: "layout_caches \<Rightarrow> planned_structure \<Rightarrow> planned_structure" where
  "computeStructLayout C Struct =
     (let (Props, L) = layoutProperties C (st_Properties Struct)
            \<lparr>ly_Offset = 0, ly_MaxAlign = 1, ly_AnyUnknown = False\<rparr> in
      if ly_AnyUnknown L
      then Struct\<lparr>st_Properties := Props, st_Size := 0, st_Alignment := 0\<rparr>
      else Struct\<lparr>st_Properties := Props, st_Size := alignUp (ly_Offset L) (ly_MaxAlign L),
             st_Alignment := ly_MaxAlign L\<rparr>)"

record variants_state =
  va_MaxSize :: size_t
  va_MaxAlign :: size_t
  va_AnyUnknown :: bool

fun layoutVariants :: "layout_caches \<Rightarrow> planned_variant list \<Rightarrow> variants_state \<Rightarrow> variants_state" where
  "layoutVariants C [] L = L"
| "layoutVariants C (Var # Vars) L =
     (case pv_Type Var of
        None \<Rightarrow> layoutVariants C Vars L
      | Some T \<Rightarrow>
          (let R = getPropSizeAndAlign C T;
               (Size, Align) = orGuess R in
           layoutVariants C Vars
             \<lparr>va_MaxSize = if va_MaxSize L < Size then Size else va_MaxSize L,
              va_MaxAlign = if va_MaxAlign L < Align then Align else va_MaxAlign L,
              va_AnyUnknown = (va_AnyUnknown L \<or> unknown R)\<rparr>))"

definition TagSize :: "planned_union \<Rightarrow> size_t" where
  "TagSize U = (if length (un_Variants U) \<le> 256 then 1 else 4)"

definition computeUnionLayout :: "layout_caches \<Rightarrow> planned_union \<Rightarrow> planned_union" where
  "computeUnionLayout C U =
     (let L = layoutVariants C (un_Variants U)
            \<lparr>va_MaxSize = 0, va_MaxAlign = 1, va_AnyUnknown = False\<rparr> in
      if va_AnyUnknown L then U\<lparr>un_Size := 0, un_Alignment := 0\<rparr>
      else U\<lparr>un_Size := alignUp (va_MaxSize L + TagSize U) (va_MaxAlign L),
             un_Alignment := va_MaxAlign L\<rparr>)"

text \<open>What the caches keep: a known size comes with an alignment that is a power of two.\<close>

definition caches_ok :: "layout_caches \<Rightarrow> bool" where
  "caches_ok C \<longleftrightarrow>
     (\<forall>(Key, S)\<in>set (InstantiatedStructures C). st_Size S \<noteq> 0 \<longrightarrow> power_of_2 (st_Alignment S)) \<and>
     (\<forall>(Key, U)\<in>set (InstantiatedUnions C). un_Size U \<noteq> 0 \<longrightarrow> power_of_2 (un_Alignment U))"

abbreviation known_ok :: "size_t \<times> size_t \<Rightarrow> bool" where
  "known_ok R \<equiv> fst R \<noteq> 0 \<longrightarrow> power_of_2 (snd R)"

lemma firstKnown_ok: "\<forall>R\<in>set Rs. known_ok R \<Longrightarrow> known_ok (firstKnown Rs)"
  by (induction Rs) simp_all

lemma TryStruct_ok: "caches_ok C \<Longrightarrow> known_ok (TryStruct C Key)"
  and TryUnion_ok: "caches_ok C \<Longrightarrow> known_ok (TryUnion C Key)"
  by (auto simp: TryStruct_def TryUnion_def caches_ok_def split: option.split dest!: map_of_SomeD)

lemma cached_ok: "caches_ok C \<Longrightarrow> known_ok (cachedSizeAndAlign C Mang N)"
  unfolding cachedSizeAndAlign_def by (rule firstKnown_ok) (auto dest: TryStruct_ok TryUnion_ok)

lemma primitive_ok: "primitiveSizeAndAlign N = Some R \<Longrightarrow> fst R \<noteq> 0 \<and> power_of_2 (snd R)"
  unfolding primitiveSizeAndAlign_def by (auto simp del: list.set split: if_split_asm)

lemma getPropSizeAndAlign_ok: "caches_ok C \<Longrightarrow> known_ok (getPropSizeAndAlign C T)"
proof (induction C T rule: getPropSizeAndAlign.induct)
  case (1 C l N Mang Generics lt og a v)
  show ?case
  proof (cases "primitiveSizeAndAlign N")
    case None
    show ?thesis
    proof (cases Generics)
      case Nil
      with None cached_ok [OF 1(2)] show ?thesis by simp
    next
      case (Cons G Gs)
      have IH: "known_ok (getPropSizeAndAlign C G)"
        if "\<not> (N = ''Option'' \<and> (pt_Name G = ''ref'' \<or> pt_Name G = ''pointer''))" "N = ''Option''"
        using None Cons that 1 by simp
      from None Cons IH cached_ok [OF 1(2)] show ?thesis
        by (auto simp: Let_def split: prod.split)
    qed
  qed (use primitive_ok in \<open>auto dest: primitive_ok\<close>)
qed

lemma orGuess_ok:
  assumes "caches_ok C" "orGuess (getPropSizeAndAlign C T) = (Size, Align)"
  shows "power_of_2 Align" "Size \<noteq> 0"
  using getPropSizeAndAlign_ok [OF assms(1), of T] assms(2)
  by (auto simp: orGuess_def unknown_def split: if_splits)

section \<open>The layout of a structure\<close>

text \<open>The room that properties take at most, in unbounded arithmetic.\<close>

definition room :: "layout_caches \<Rightarrow> planned_property \<Rightarrow> nat" where
  "room C Prop = (case orGuess (getPropSizeAndAlign C (prop_Type Prop)) of
     (Size, Align) \<Rightarrow> unat Size + unat Align)"

text \<open>Properties placed one after the other from an offset on, each at the first offset that its
  alignment allows.\<close>

fun placed :: "layout_caches \<Rightarrow> nat \<Rightarrow> planned_property list \<Rightarrow> nat \<Rightarrow> bool" where
  "placed C x [] y \<longleftrightarrow> x = y"
| "placed C x (Prop # Props) y \<longleftrightarrow>
     (case orGuess (getPropSizeAndAlign C (prop_Type Prop)) of (Size, Align) \<Rightarrow>
        unat Align dvd unat (prop_Offset Prop) \<and>
        x \<le> unat (prop_Offset Prop) \<and> unat (prop_Offset Prop) < x + unat Align \<and>
        placed C (unat (prop_Offset Prop) + unat Size) Props y)"

lemma set_Offset_sel [simp]: "prop_Type (set_Offset x Prop) = prop_Type Prop" "prop_Offset (set_Offset x Prop) = x"
  by (simp_all add: set_Offset_def)

lemma layoutProperties_placed:
  assumes "caches_ok C" "layoutProperties C Props L = (Props', L')"
    "unat (ly_Offset L) + (\<Sum>Prop\<leftarrow>Props. room C Prop) < 2 ^ 64"
  shows "placed C (unat (ly_Offset L)) Props' (unat (ly_Offset L')) \<and>
    map prop_Type Props' = map prop_Type Props \<and>
    unat (ly_Offset L') \<le> unat (ly_Offset L) + (\<Sum>Prop\<leftarrow>Props. room C Prop)"
  using assms(2,3)
proof (induction Props arbitrary: L Props')
  case (Cons Prop Props)
  obtain Size Align where R: "orGuess (getPropSizeAndAlign C (prop_Type Prop)) = (Size, Align)"
    by (cases "orGuess (getPropSizeAndAlign C (prop_Type Prop))")
  obtain Prop1 L1 where one: "layoutProperty C Prop L = (Prop1, L1)" by (cases "layoutProperty C Prop L")
  with Cons.prems obtain Props1 where rest: "layoutProperties C Props L1 = (Props1, L')"
    "Props' = Prop1 # Props1" by (auto split: prod.splits)
  define O1 where "O1 = alignUp (ly_Offset L) Align"
  have room: "room C Prop = unat Size + unat Align" by (simp add: room_def R)
  have L1: "ly_Offset L1 = O1 + Size" "Prop1 = set_Offset O1 Prop"
    using one by (auto simp: layoutProperty_def R O1_def Let_def)
  have "unat (ly_Offset L) + unat Align \<le> 2 ^ 64" using Cons.prems(2) by (simp add: room)
  then have O1: "unat Align dvd unat O1" "unat (ly_Offset L) \<le> unat O1" "unat O1 < unat (ly_Offset L) + unat Align"
    unfolding O1_def by (intro alignUp_bounds orGuess_ok [OF assms(1) R]; assumption)+
  then have "unat O1 + unat Size < 2 ^ 64" using Cons.prems(2) by (simp add: room)
  then have sum: "unat (ly_Offset L1) = unat O1 + unat Size"
    by (subst L1, subst unat_plus_if') simp
  with Cons.IH [OF rest(1)] Cons.prems(2) O1 show ?case by (simp add: room rest(2) L1 R)
qed simp

lemma layoutProperties_align:
  assumes "caches_ok C" "layoutProperties C Props L = (Props', L')" "power_of_2 (ly_MaxAlign L)"
  shows "power_of_2 (ly_MaxAlign L') \<and> unat (ly_MaxAlign L) \<le> unat (ly_MaxAlign L') \<and>
    (\<forall>Prop\<in>set Props. case orGuess (getPropSizeAndAlign C (prop_Type Prop)) of (Size, Align) \<Rightarrow>
       unat Align \<le> unat (ly_MaxAlign L')) \<and>
    unat (ly_MaxAlign L') \<le> unat (ly_MaxAlign L) + (\<Sum>Prop\<leftarrow>Props. room C Prop)"
  using assms(2,3)
proof (induction Props arbitrary: L Props')
  case (Cons Prop Props)
  obtain Size Align where R: "orGuess (getPropSizeAndAlign C (prop_Type Prop)) = (Size, Align)"
    by (cases "orGuess (getPropSizeAndAlign C (prop_Type Prop))")
  obtain Prop1 L1 where one: "layoutProperty C Prop L = (Prop1, L1)" by (cases "layoutProperty C Prop L")
  with Cons.prems obtain Props1 where rest: "layoutProperties C Props L1 = (Props1, L')"
    by (auto split: prod.splits)
  have L1: "ly_MaxAlign L1 = (if ly_MaxAlign L < Align then Align else ly_MaxAlign L)"
    using one by (auto simp: layoutProperty_def R Let_def)
  then have "power_of_2 (ly_MaxAlign L1)" using Cons.prems(2) orGuess_ok [OF assms(1) R] by simp
  with Cons.IH [OF rest(1)] L1 show ?case
    by (auto simp: R room_def word_less_nat_alt split: if_splits)
qed simp

lemma layoutProperties_known:
  "layoutProperties C Props L = (Props', L') \<Longrightarrow> ly_AnyUnknown L' \<longleftrightarrow>
     ly_AnyUnknown L \<or> (\<exists>Prop\<in>set Props. unknown (getPropSizeAndAlign C (prop_Type Prop)))"
  by (induction Props arbitrary: L Props')
    (auto simp: layoutProperty_def Let_def split: prod.splits)

abbreviation sizeOf :: "layout_caches \<Rightarrow> planned_type \<Rightarrow> nat" where
  "sizeOf C T \<equiv> unat (fst (getPropSizeAndAlign C T))"

abbreviation alignOf :: "layout_caches \<Rightarrow> planned_type \<Rightarrow> nat" where
  "alignOf C T \<equiv> unat (snd (getPropSizeAndAlign C T))"

lemma placed_bounds:
  "placed C x Props y \<Longrightarrow> x \<le> y \<and> (\<forall>P\<in>set Props. x \<le> unat (prop_Offset P) \<and>
     (case orGuess (getPropSizeAndAlign C (prop_Type P)) of (Size, Align) \<Rightarrow>
        unat Align dvd unat (prop_Offset P) \<and> unat (prop_Offset P) + unat Size \<le> y))"
proof (induction Props arbitrary: x)
  case (Cons P Props)
  obtain Size Align where R: "orGuess (getPropSizeAndAlign C (prop_Type P)) = (Size, Align)"
    by (cases "orGuess (getPropSizeAndAlign C (prop_Type P))")
  with Cons.prems have P: "unat Align dvd unat (prop_Offset P)" "x \<le> unat (prop_Offset P)"
    "placed C (unat (prop_Offset P) + unat Size) Props y" by simp_all
  from Cons.IH [OF P(3)] P(2) have le: "x \<le> y" "unat (prop_Offset P) + unat Size \<le> y"
    "\<forall>Q\<in>set Props. x \<le> unat (prop_Offset Q)" by auto
  from Cons.IH [OF P(3)] P(1,2) le show ?case by (simp add: R)
qed simp

lemma placed_disjoint:
  "placed C x Props y \<Longrightarrow> sorted_wrt (\<lambda>P Q. unat (prop_Offset P) +
     unat (fst (orGuess (getPropSizeAndAlign C (prop_Type P)))) \<le> unat (prop_Offset Q)) Props"
  by (induction Props arbitrary: x) (auto split: prod.splits dest: placed_bounds)

lemma sum_room_less: "(\<Sum>Prop\<leftarrow>Props. room C Prop) < 2 ^ 63 \<Longrightarrow>
    x + y \<le> 1 + 2 * (\<Sum>Prop\<leftarrow>Props. room C Prop) \<Longrightarrow> x + y \<le> (2::nat) ^ 64"
  by simp

text \<open>C22. The layout of a structure whose properties have known sizes, as long as it fits into 63
  bits: every property begins at the first offset after the one before that its alignment allows,
  so that properties are aligned and do not overlap; all lie within the size; the alignment is one
  for all properties, and the size is the least multiple of it behind the last property.\<close>

theorem struct_layout:
  assumes "caches_ok C" "(\<Sum>Prop\<leftarrow>st_Properties S. room C Prop) < 2 ^ 63"
    and "\<forall>Prop\<in>set (st_Properties S). \<not> unknown (getPropSizeAndAlign C (prop_Type Prop))"
    and "S' = computeStructLayout C S"
  shows "sorted_wrt (\<lambda>P Q. unat (prop_Offset P) + sizeOf C (prop_Type P) \<le> unat (prop_Offset Q))
      (st_Properties S') \<and>
    (\<forall>P\<in>set (st_Properties S').
      alignOf C (prop_Type P) dvd unat (prop_Offset P) \<and>
      alignOf C (prop_Type P) dvd unat (st_Alignment S') \<and>
      unat (prop_Offset P) + sizeOf C (prop_Type P) \<le> unat (st_Size S')) \<and>
    map prop_Type (st_Properties S') = map prop_Type (st_Properties S) \<and>
    unat (st_Alignment S') dvd unat (st_Size S') \<and>
    (\<exists>End. placed C 0 (st_Properties S') End \<and> End \<le> unat (st_Size S') \<and>
      unat (st_Size S') < End + unat (st_Alignment S'))"
proof -
  let ?L0 = "\<lparr>ly_Offset = 0, ly_MaxAlign = 1, ly_AnyUnknown = False\<rparr>"
  obtain Props L where lay: "layoutProperties C (st_Properties S) ?L0 = (Props, L)"
    by (cases "layoutProperties C (st_Properties S) ?L0")
  have "\<not> ly_AnyUnknown L" using layoutProperties_known [OF lay] assms(3) by simp
  then have S': "st_Properties S' = Props" "st_Alignment S' = ly_MaxAlign L"
    "st_Size S' = alignUp (ly_Offset L) (ly_MaxAlign L)"
    by (simp_all add: assms(4) computeStructLayout_def lay)
  have placed: "placed C 0 Props (unat (ly_Offset L))"
    and types: "map prop_Type Props = map prop_Type (st_Properties S)"
    and bound: "unat (ly_Offset L) \<le> (\<Sum>Prop\<leftarrow>st_Properties S. room C Prop)"
    using layoutProperties_placed [OF assms(1) lay] assms(2) by simp_all
  note align = layoutProperties_align [OF assms(1) lay, simplified]
  have "unat (ly_Offset L) + unat (ly_MaxAlign L) \<le> 2 ^ 64"
    using assms(2) bound align by simp
  note up = alignUp_bounds [OF conjunct1 [OF align] this]
  have same: "orGuess (getPropSizeAndAlign C (prop_Type P)) = getPropSizeAndAlign C (prop_Type P)"
    "unat (snd (getPropSizeAndAlign C (prop_Type P))) dvd unat (ly_MaxAlign L)" if "P \<in> set Props" for P
  proof -
    from that have "prop_Type P \<in> set (map prop_Type Props)" by simp
    then obtain Q where Q: "Q \<in> set (st_Properties S)" "prop_Type P = prop_Type Q"
      unfolding types by auto
    then show same: "orGuess (getPropSizeAndAlign C (prop_Type P)) = getPropSizeAndAlign C (prop_Type P)"
      using assms(3) by (simp add: orGuess_def)
    obtain Size Align where R: "getPropSizeAndAlign C (prop_Type P) = (Size, Align)"
      by (cases "getPropSizeAndAlign C (prop_Type P)")
    with same have R': "orGuess (getPropSizeAndAlign C (prop_Type Q)) = (Size, Align)" by (simp add: Q)
    then have "unat Align \<le> unat (ly_MaxAlign L)" using align Q(1) by (auto dest!: bspec)
    then show "unat (snd (getPropSizeAndAlign C (prop_Type P))) dvd unat (ly_MaxAlign L)"
      using align orGuess_ok(1) [OF assms(1) R'] by (simp add: R power_of_2_dvd)
  qed
  have "sorted_wrt (\<lambda>P Q. unat (prop_Offset P) + sizeOf C (prop_Type P) \<le> unat (prop_Offset Q)) Props"
    using placed_disjoint [OF placed] by (rule sorted_wrt_mono_rel [rotated]) (simp add: same)
  moreover have "alignOf C (prop_Type P) dvd unat (prop_Offset P)"
      "unat (prop_Offset P) + sizeOf C (prop_Type P) \<le> unat (alignUp (ly_Offset L) (ly_MaxAlign L))"
    if "P \<in> set Props" for P
  proof -
    obtain Size Align where R: "getPropSizeAndAlign C (prop_Type P) = (Size, Align)"
      by (cases "getPropSizeAndAlign C (prop_Type P)")
    with same(1) [OF that] have "unat Align dvd unat (prop_Offset P)"
      "unat (prop_Offset P) + unat Size \<le> unat (ly_Offset L)"
      using bspec [OF conjunct2 [OF placed_bounds [OF placed]] that] by simp_all
    with up(2) show "alignOf C (prop_Type P) dvd unat (prop_Offset P)"
      "unat (prop_Offset P) + sizeOf C (prop_Type P) \<le> unat (alignUp (ly_Offset L) (ly_MaxAlign L))"
      by (simp_all add: R)
  qed
  ultimately show ?thesis
    unfolding S' using placed types up same(2)
    by (intro conjI ballI exI [of _ "unat (ly_Offset L)"]) assumption+
qed

definition exampleProperty :: "string \<Rightarrow> planned_property" where
  "exampleProperty N = PlannedProperty (Span 0 0) False ''p'' ''p''
     (PlannedType (Span 0 0) N [] [] UnspecifiedLifetime None [] None) None [] 0"

definition exampleStructure :: planned_structure where
  "exampleStructure = \<lparr>st_Loc = Span 0 0, st_Private = False, st_IsGenericPlaceholder = False,
     st_Name = ''S'', st_MangledName = ''S'',
     st_Properties = map exampleProperty [''bool'', ''i64'', ''i16''],
     st_Initializers = [], st_Deinitializer = None, st_Methods = [], st_Operators = [],
     st_Size = 0, st_Alignment = 0, st_Origin = None, st_DeferredInfo = None\<rparr>"

abbreviation noCaches :: layout_caches where
  "noCaches \<equiv> \<lparr>InstantiatedStructures = [], InstantiatedUnions = []\<rparr>"

theorem struct_layout_witness:
  "map prop_Offset (st_Properties (computeStructLayout noCaches exampleStructure)) = [0, 8, 16] \<and>
   st_Size (computeStructLayout noCaches exampleStructure) = 24 \<and>
   sorted_wrt (\<lambda>P Q. unat (prop_Offset P) + sizeOf noCaches (prop_Type P) \<le> unat (prop_Offset Q))
     (st_Properties (computeStructLayout noCaches exampleStructure))"
proof -
  have "caches_ok noCaches" by (simp add: caches_ok_def)
  moreover have "(\<Sum>Prop\<leftarrow>st_Properties exampleStructure. room noCaches Prop) < 2 ^ 63"
    "\<forall>Prop\<in>set (st_Properties exampleStructure).
      \<not> unknown (getPropSizeAndAlign noCaches (prop_Type Prop))"
    by (simp_all add: exampleStructure_def exampleProperty_def room_def primitiveSizeAndAlign_def
        orGuess_def unknown_def)
  ultimately have "sorted_wrt (\<lambda>P Q. unat (prop_Offset P) + sizeOf noCaches (prop_Type P) \<le> unat (prop_Offset Q))
     (st_Properties (computeStructLayout noCaches exampleStructure))"
    using struct_layout [of noCaches exampleStructure] by simp
  moreover have "map prop_Offset (st_Properties (computeStructLayout noCaches exampleStructure)) = [0, 8, 16] \<and>
   st_Size (computeStructLayout noCaches exampleStructure) = 24"
    by code_simp
  ultimately show ?thesis by simp
qed

section \<open>The layout of a union\<close>

lemma layoutVariants_known:
  "va_AnyUnknown (layoutVariants C Vars L) \<longleftrightarrow> va_AnyUnknown L \<or>
     (\<exists>Var\<in>set Vars. \<exists>T. pv_Type Var = Some T \<and> unknown (getPropSizeAndAlign C T))"
  by (induction Vars arbitrary: L) (auto simp: Let_def split: option.split prod.split)

lemma layoutVariants_align:
  assumes "caches_ok C"
  shows "power_of_2 (va_MaxAlign L) \<Longrightarrow> power_of_2 (va_MaxAlign (layoutVariants C Vars L))"
  using orGuess_ok(1) [OF assms]
  by (induction Vars arbitrary: L) (auto simp: Let_def split: option.split prod.split)

lemma layoutVariants_max:
  assumes "\<forall>Var\<in>set Vars. \<forall>T. pv_Type Var = Some T \<longrightarrow> \<not> unknown (getPropSizeAndAlign C T)"
  shows "va_MaxSize L \<le> va_MaxSize (layoutVariants C Vars L) \<and>
      (\<forall>Var\<in>set Vars. \<forall>T. pv_Type Var = Some T \<longrightarrow>
        fst (getPropSizeAndAlign C T) \<le> va_MaxSize (layoutVariants C Vars L)) \<and>
      (va_MaxSize (layoutVariants C Vars L) = va_MaxSize L \<or> (\<exists>Var\<in>set Vars. \<exists>T. pv_Type Var = Some T \<and>
        va_MaxSize (layoutVariants C Vars L) = fst (getPropSizeAndAlign C T)))" (is ?size)
    and "va_MaxAlign L \<le> va_MaxAlign (layoutVariants C Vars L) \<and>
      (\<forall>Var\<in>set Vars. \<forall>T. pv_Type Var = Some T \<longrightarrow>
        snd (getPropSizeAndAlign C T) \<le> va_MaxAlign (layoutVariants C Vars L)) \<and>
      (va_MaxAlign (layoutVariants C Vars L) = va_MaxAlign L \<or> (\<exists>Var\<in>set Vars. \<exists>T. pv_Type Var = Some T \<and>
        va_MaxAlign (layoutVariants C Vars L) = snd (getPropSizeAndAlign C T)))" (is ?align)
proof -
  have "?size \<and> ?align" using assms
  proof (induction Vars arbitrary: L)
    case (Cons Var Vars)
    show ?case
    proof (cases "pv_Type Var")
      case None
      then show ?thesis using Cons.IH [of L] Cons.prems by simp
    next
      case (Some T)
      obtain Size Align where R: "getPropSizeAndAlign C T = (Size, Align)" by fastforce
      with Some Cons.prems have "orGuess (Size, Align) = (Size, Align)" by (simp add: orGuess_def)
      moreover define L1 where "L1 = \<lparr>va_MaxSize = if va_MaxSize L < Size then Size else va_MaxSize L,
              va_MaxAlign = if va_MaxAlign L < Align then Align else va_MaxAlign L,
              va_AnyUnknown = (va_AnyUnknown L \<or> unknown (Size, Align))\<rparr>"
      ultimately have step: "layoutVariants C (Var # Vars) L = layoutVariants C Vars L1"
        using Some R by (simp add: Let_def)
      have L1: "va_MaxSize L \<le> va_MaxSize L1" "Size \<le> va_MaxSize L1"
        "va_MaxSize L1 = va_MaxSize L \<or> va_MaxSize L1 = Size"
        "va_MaxAlign L \<le> va_MaxAlign L1" "Align \<le> va_MaxAlign L1"
        "va_MaxAlign L1 = va_MaxAlign L \<or> va_MaxAlign L1 = Align"
        by (auto simp: L1_def)
      from Cons.prems have "\<forall>Var\<in>set Vars. \<forall>T. pv_Type Var = Some T \<longrightarrow> \<not> unknown (getPropSizeAndAlign C T)"
        by simp
      from Cons.IH [OF this, of L1] L1 Some R show ?thesis
        unfolding step by (auto intro: order_trans)
    qed
  qed simp
  then show ?size ?align by blast+
qed

text \<open>C23. The layout of a union whose variants have known sizes (the largest size and alignment
  together within 63 bits): the size leaves room for the tag and the data of every variant, it is a
  multiple of the alignment, which is one for all variants, and no smaller size would do.\<close>

theorem union_layout:
  assumes "caches_ok C"
    and "\<forall>Var\<in>set (un_Variants U). \<forall>T. pv_Type Var = Some T \<longrightarrow>
      \<not> unknown (getPropSizeAndAlign C T) \<and> sizeOf C T < 2 ^ 62 \<and> alignOf C T < 2 ^ 62"
    and "U' = computeUnionLayout C U"
  shows "(\<forall>Var\<in>set (un_Variants U). \<forall>T. pv_Type Var = Some T \<longrightarrow>
      unat (TagSize U) + sizeOf C T \<le> unat (un_Size U') \<and> alignOf C T dvd unat (un_Alignment U')) \<and>
    unat (un_Alignment U') dvd unat (un_Size U') \<and>
    (\<forall>n. unat (un_Alignment U') dvd n \<and> unat (TagSize U) \<le> n \<and>
      (\<forall>Var\<in>set (un_Variants U). \<forall>T. pv_Type Var = Some T \<longrightarrow> unat (TagSize U) + sizeOf C T \<le> n) \<longrightarrow>
      unat (un_Size U') \<le> n)"
proof -
  define L where "L = layoutVariants C (un_Variants U) \<lparr>va_MaxSize = 0, va_MaxAlign = 1, va_AnyUnknown = False\<rparr>"
  have known: "\<forall>Var\<in>set (un_Variants U). \<forall>T. pv_Type Var = Some T \<longrightarrow> \<not> unknown (getPropSizeAndAlign C T)"
    using assms(2) by blast
  then have "\<not> va_AnyUnknown L" unfolding L_def layoutVariants_known by auto
  then have U': "un_Size U' = alignUp (va_MaxSize L + TagSize U) (va_MaxAlign L)"
    "un_Alignment U' = va_MaxAlign L"
    by (simp_all add: assms(3) computeUnionLayout_def flip: L_def)
  note size = layoutVariants_max(1) [OF known, where L = "\<lparr>va_MaxSize = 0, va_MaxAlign = 1, va_AnyUnknown = False\<rparr>",
      folded L_def, simplified]
  note align = layoutVariants_max(2) [OF known, where L = "\<lparr>va_MaxSize = 0, va_MaxAlign = 1, va_AnyUnknown = False\<rparr>",
      folded L_def, simplified]
  have pow: "power_of_2 (va_MaxAlign L)"
    unfolding L_def by (rule layoutVariants_align [OF assms(1)]) simp
  have small: "unat (va_MaxSize L) < 2 ^ 62" "unat (va_MaxAlign L) < 2 ^ 62"
    using size align assms(2) by auto
  have tag: "unat (TagSize U) \<le> 4" by (simp add: TagSize_def)
  have sum: "unat (va_MaxSize L + TagSize U) = unat (va_MaxSize L) + unat (TagSize U)"
    using small tag by (subst unat_plus_if') simp
  then have "unat (va_MaxSize L + TagSize U) + unat (va_MaxAlign L) \<le> 2 ^ 64"
    using small tag by simp
  note up = alignUp_bounds [OF pow this, unfolded sum]
  have "unat (TagSize U) + sizeOf C T \<le> unat (un_Size U') \<and> alignOf C T dvd unat (un_Alignment U')"
    if "Var \<in> set (un_Variants U)" "pv_Type Var = Some T" for Var T
  proof -
    have "fst (getPropSizeAndAlign C T) \<noteq> 0" using known that by (auto simp: unknown_def)
    then have "power_of_2 (snd (getPropSizeAndAlign C T))" using getPropSizeAndAlign_ok [OF assms(1)] by blast
    moreover have "sizeOf C T \<le> unat (va_MaxSize L)" "alignOf C T \<le> unat (va_MaxAlign L)"
      using size align that by (auto simp flip: word_le_nat_alt)
    ultimately show ?thesis using up(2) pow unfolding U' by (auto intro: power_of_2_dvd)
  qed
  moreover have "unat (un_Size U') \<le> n"
    if n: "unat (un_Alignment U') dvd n" "unat (TagSize U) \<le> n"
      "\<forall>Var\<in>set (un_Variants U). \<forall>T. pv_Type Var = Some T \<longrightarrow> unat (TagSize U) + sizeOf C T \<le> n" for n
  proof -
    have le: "unat (va_MaxSize L) + unat (TagSize U) \<le> n"
      using size n(2,3) by (auto simp: add.commute)
    show ?thesis
    proof (rule ccontr)
      assume "\<not> ?thesis"
      then have "n < unat (un_Size U')" by simp
      moreover have "unat (va_MaxAlign L) dvd unat (un_Size U') - n"
        using up(1) n(1) unfolding U' by (rule dvd_diff_nat)
      ultimately have "unat (va_MaxAlign L) \<le> unat (un_Size U') - n" by (intro dvd_imp_le) simp_all
      with up(3) le \<open>n < unat (un_Size U')\<close> show False unfolding U' by linarith
    qed
  qed
  ultimately show ?thesis using up(1) unfolding U' by blast
qed

definition exampleUnion :: planned_union where
  "exampleUnion = \<lparr>un_Loc = Span 0 0, un_Private = False, un_Name = ''U'', un_MangledName = ''U'',
     un_Variants = [
       \<lparr>pv_Loc = Span 0 0, pv_Name = ''A'', pv_MangledName = ''A'', pv_Type = None, pv_Attributes = [], pv_Tag = 0\<rparr>,
       \<lparr>pv_Loc = Span 0 0, pv_Name = ''B'', pv_MangledName = ''B'',
        pv_Type = Some (PlannedType (Span 0 0) ''i64'' [] [] UnspecifiedLifetime None [] None),
        pv_Attributes = [], pv_Tag = 1\<rparr>],
     un_Methods = [], un_Operators = [], un_Size = 0, un_Alignment = 0, un_Origin = None,
     un_DeferredInfo = None\<rparr>"

theorem union_layout_witness:
  "un_Size (computeUnionLayout noCaches exampleUnion) = 16 \<and>
   unat (un_Alignment (computeUnionLayout noCaches exampleUnion)) dvd
     unat (un_Size (computeUnionLayout noCaches exampleUnion))"
proof -
  have "caches_ok noCaches" by (simp add: caches_ok_def)
  moreover have "\<forall>Var\<in>set (un_Variants exampleUnion). \<forall>T. pv_Type Var = Some T \<longrightarrow>
      \<not> unknown (getPropSizeAndAlign noCaches T) \<and> sizeOf noCaches T < 2 ^ 62 \<and> alignOf noCaches T < 2 ^ 62"
    by (simp add: exampleUnion_def primitiveSizeAndAlign_def unknown_def)
  ultimately have "unat (un_Alignment (computeUnionLayout noCaches exampleUnion)) dvd
      unat (un_Size (computeUnionLayout noCaches exampleUnion))"
    using union_layout [of noCaches exampleUnion] by simp
  moreover have "un_Size (computeUnionLayout noCaches exampleUnion) = 16" by code_simp
  ultimately show ?thesis by simp
qed

section \<open>The caches\<close>

lemma computeStructLayout_align:
  assumes "caches_ok C" "st_Size (computeStructLayout C S) \<noteq> 0"
  shows "power_of_2 (st_Alignment (computeStructLayout C S))"
proof -
  let ?L0 = "\<lparr>ly_Offset = 0, ly_MaxAlign = 1, ly_AnyUnknown = False\<rparr>"
  obtain Props L where lay: "layoutProperties C (st_Properties S) ?L0 = (Props, L)"
    by (cases "layoutProperties C (st_Properties S) ?L0")
  then show ?thesis
    using layoutProperties_align [OF assms(1) lay] assms(2)
    by (simp add: computeStructLayout_def split: if_splits)
qed

lemma computeUnionLayout_align:
  assumes "caches_ok C" "un_Size (computeUnionLayout C U) \<noteq> 0"
  shows "power_of_2 (un_Alignment (computeUnionLayout C U))"
  using layoutVariants_align [OF assms(1)] assms(2)
  by (simp add: computeUnionLayout_def Let_def split: if_splits)

text \<open>A layout that is computed with caches in order, also one that overflows, leaves them in order when it is entered:
  it has an alignment that is a power of two whenever it has a size, which is
  what the rounding in the layouts of the types that contain it relies on. (The placeholder of a union that is entered before its
  layout is computed has no size that was ever set.)\<close>

theorem layout_keeps_caches:
  assumes "caches_ok C"
  shows "caches_ok (C\<lparr>InstantiatedStructures :=
      map_put Key (computeStructLayout C S) (InstantiatedStructures C)\<rparr>) \<and>
    caches_ok (C\<lparr>InstantiatedUnions := map_put Key (computeUnionLayout C U) (InstantiatedUnions C)\<rparr>)"
  using assms computeStructLayout_align [OF assms, of S] computeUnionLayout_align [OF assms, of U]
    set_put [of Key "computeStructLayout C S" "InstantiatedStructures C"]
    set_put [of Key "computeUnionLayout C U" "InstantiatedUnions C"]
  unfolding caches_ok_def by fastforce

theorem layout_keeps_caches_witness:
  "caches_ok \<lparr>InstantiatedStructures = [(''S'', computeStructLayout noCaches exampleStructure)],
     InstantiatedUnions = []\<rparr>"
  using layout_keeps_caches [of noCaches "''S''" exampleStructure] by (simp add: caches_ok_def)

end
