(* ===== verification/Planner_Mangling.thy ===== *)
theory Planner_Mangling
  imports Plan
begin

text \<open>
  The name mangling of Planner.cpp (\<open>stripPackagePrefix\<close> to \<open>mangleOperator\<close>), the types that the types
  of the planner denote, read off their names and arguments with no regard to the mangling, and the
  theorems that two mangled names are the same exactly when what they name is the same: the planner
  uses them as the keys of its caches and the linker as the names of functions.
\<close>

section \<open>Definitions\<close>

text \<open>\<open>Name.rfind('.')\<close>, and what follows that dot.\<close>

definition afterLastDot :: "string \<Rightarrow> string" where
  "afterLastDot Name = rev (takeWhile (\<lambda>C. C \<noteq> CHR ''.'') (rev Name))"

definition stripPackagePrefix :: "string \<Rightarrow> string" where
  "stripPackagePrefix Name = (if take 6 Name = ''scaly.'' then afterLastDot Name else Name)"

definition encodeName :: "string \<Rightarrow> string" where
  "encodeName Name = to_string (length Name) @ Name"

text \<open>The part of \<open>MangledName\<close> that stands in for the name and arguments of a type.\<close>

definition usedMangledName :: "planned_type \<Rightarrow> string option" where
  "usedMangledName T =
    (let Mang = pt_MangledName T in
     if Mang \<noteq> [] \<and> pt_Generics T = []
     then if 2 < length Mang \<and> take 2 Mang = ''_Z'' then Some (drop 2 Mang)
       else if decimal_digit (hd Mang) then Some Mang
       else None
     else None)"

definition builtinCode :: "string \<Rightarrow> string option" where
  "builtinCode Name = map_of [(''void'', ''v''), (''bool'', ''b''), (''char'', ''c''), (''int'', ''i''),
     (''uint'', ''j''), (''long'', ''l''), (''ulong'', ''m''), (''float'', ''f''), (''double'', ''d''),
     (''size'', ''m''), (''size_t'', ''m'')] Name"

lemma set_Name_sel [simp]: "size (set_Name n T) = size T" "pt_Name (set_Name n T) = n"
    "pt_Generics (set_Name n T) = pt_Generics T" "pt_MangledName (set_Name n T) = pt_MangledName T"
  by (cases T; simp)+

lemma size_Generics_less: "G \<in> set (pt_Generics T) \<Longrightarrow> size G < size T"
  by (cases T) (auto dest: size_list_estimation' [OF _ order_refl] simp: less_Suc_eq_le)

lemma size_hd_Generics [simp]: "length (pt_Generics T) = Suc n \<Longrightarrow> size (hd (pt_Generics T)) < size T"
  by (rule size_Generics_less) (cases "pt_Generics T"; simp)

function encodeType :: "planned_type \<Rightarrow> string" where
  "encodeType T =
     (case usedMangledName T of
        Some Mang \<Rightarrow> Mang
      | None \<Rightarrow>
     (case builtinCode (pt_Name T) of
        Some Code \<Rightarrow> Code
      | None \<Rightarrow>
        (if 1 < length (pt_Name T) \<and> last (pt_Name T) = CHR ''*''
         then ''P'' @ encodeType (set_Name (butlast (pt_Name T)) T)
         else if 1 < length (pt_Name T) \<and> last (pt_Name T) = CHR ''&''
         then ''R'' @ encodeType (set_Name (butlast (pt_Name T)) T)
         else if pt_Name T = ''pointer'' \<and> length (pt_Generics T) = 1
         then ''P'' @ encodeType (hd (pt_Generics T))
         else if pt_Name T = ''ref'' \<and> length (pt_Generics T) = 1
         then ''R'' @ encodeType (hd (pt_Generics T))
         else if pt_Generics T \<noteq> []
         then encodeName (takeWhile (\<lambda>C. C \<noteq> CHR ''.'') (pt_Name T)) @ ''I'' @
           concat (map encodeType (pt_Generics T)) @ ''E''
         else encodeName (stripPackagePrefix (pt_Name T)))))"
  by pat_completeness auto
termination
  by (relation "measures [size, \<lambda>T. length (pt_Name T)]") (auto simp: size_Generics_less)

declare encodeType.simps [simp del]

definition mangleType :: "planned_type \<Rightarrow> string" where
  "mangleType T = ''_Z'' @ encodeType T"

definition mangleStructure :: "string \<Rightarrow> planned_type list \<Rightarrow> string" where
  "mangleStructure Name GenericArgs =
     (if GenericArgs = [] then ''_Z'' @ encodeName Name
      else ''_Z'' @ encodeName Name @ ''I'' @ concat (map encodeType GenericArgs) @ ''E'')"

text \<open>The types of the parameters that have one.\<close>

definition parameterTypes :: "planned_item list \<Rightarrow> planned_type list" where
  "parameterTypes Params = List.map_filter it_Type Params"

definition explicitTypes :: "planned_item list \<Rightarrow> planned_type list" where
  "explicitTypes Params = parameterTypes (filter (\<lambda>Param. it_Name Param \<noteq> Some ''this'') Params)"

definition mangleFunction :: "string \<Rightarrow> planned_item list \<Rightarrow> planned_type option \<Rightarrow> bool \<Rightarrow> string" where
  "mangleFunction Name Params Parent hasPageParam =
     ''_Z'' @
     (case Parent of
        Some P \<Rightarrow> ''N'' @ encodeType P @ encodeName Name @ ''E''
      | None \<Rightarrow> encodeName Name) @
     (if hasPageParam then ''PN4scaly6memory4PageE'' else []) @
     concat (map encodeType (explicitTypes Params)) @
     (if hasPageParam \<or> explicitTypes Params \<noteq> [] then [] else ''v'')"

definition operatorCodes :: "(string \<times> string) list" where
  "operatorCodes = [(''+'', ''pl''), (''-'', ''mi''), (''*'', ''ml''), (''/'', ''dv''), (''%'', ''rm''),
     (''=='', ''eq''), (''!='', ''ne''), (''<'', ''lt''), (''>'', ''gt''), (''<='', ''le''), (''>='', ''ge''),
     (''&&'', ''aa''), (''||'', ''oo''), (''!'', ''nt''), (''&'', ''an''), (''|'', ''or''), (''^'', ''eo''),
     (''~'', ''co''), (''<<'', ''ls''), (''>>'', ''rs''), (''[]'', ''ix''), (''()'', ''cl'')]"

definition operatorCode :: "string \<Rightarrow> string" where
  "operatorCode Name = (case map_of operatorCodes Name of
     Some OpCode \<Rightarrow> OpCode | None \<Rightarrow> ''v0'' @ encodeName Name)"

definition operatorParameters :: "planned_item list \<Rightarrow> bool \<Rightarrow> planned_item list" where
  "operatorParameters Params hasParent =
     (if hasParent \<and> Params \<noteq> [] \<and> it_Name (hd Params) = Some ''this'' then tl Params else Params)"

definition mangleOperator :: "string \<Rightarrow> planned_item list \<Rightarrow> planned_type option \<Rightarrow> string" where
  "mangleOperator Name Params Parent =
     ''_Z'' @
     (case Parent of
        Some P \<Rightarrow> ''N'' @ encodeType P @ operatorCode Name @ ''E''
      | None \<Rightarrow> operatorCode Name) @
     (let Params = operatorParameters Params (Parent \<noteq> None) in
      if Params = [] then ''v'' else concat (map encodeType (parameterTypes Params)))"

section \<open>The types of the language\<close>

text \<open>The built-in types and their names; \<open>size\<close> and \<open>size_t\<close> are other names of \<open>ulong\<close>.\<close>

datatype basic_type = Basic_Void | Basic_Bool | Basic_Char | Basic_Int | Basic_Uint | Basic_Long
  | Basic_Ulong | Basic_Float | Basic_Double

definition basicNames :: "(string \<times> basic_type) list" where
  "basicNames = [(''void'', Basic_Void), (''bool'', Basic_Bool), (''char'', Basic_Char),
     (''int'', Basic_Int), (''uint'', Basic_Uint), (''long'', Basic_Long), (''ulong'', Basic_Ulong),
     (''size'', Basic_Ulong), (''size_t'', Basic_Ulong), (''float'', Basic_Float), (''double'', Basic_Double)]"

text \<open>A built-in type, a pointer, a reference, or a named type with its arguments.\<close>

datatype abi = Builtin basic_type | Pointer abi | Reference abi | Named string "abi list"

text \<open>The letters of the built-in types and the names of types in the Itanium ABI.\<close>

fun basicCode :: "basic_type \<Rightarrow> char" where
  "basicCode Basic_Void = CHR ''v''"
| "basicCode Basic_Bool = CHR ''b''"
| "basicCode Basic_Char = CHR ''c''"
| "basicCode Basic_Int = CHR ''i''"
| "basicCode Basic_Uint = CHR ''j''"
| "basicCode Basic_Long = CHR ''l''"
| "basicCode Basic_Ulong = CHR ''m''"
| "basicCode Basic_Float = CHR ''f''"
| "basicCode Basic_Double = CHR ''d''"

lemma basicCode_inj [simp]: "basicCode B = basicCode C \<longleftrightarrow> B = C"
  by (cases B; cases C) simp_all

lemma basicCode_in: "basicCode B \<in> set ''vbcijlmfd''"
  by (cases B) simp_all

fun mangled :: "abi \<Rightarrow> string" where
  "mangled (Builtin B) = [basicCode B]"
| "mangled (Pointer A) = ''P'' @ mangled A"
| "mangled (Reference A) = ''R'' @ mangled A"
| "mangled (Named n Args) =
     encodeName n @ (if Args = [] then [] else ''I'' @ concat (map mangled Args) @ ''E'')"

definition ok_name :: "string \<Rightarrow> bool" where
  "ok_name n \<longleftrightarrow> n \<noteq> [] \<and> \<not> decimal_digit (hd n)"

fun ok_abi :: "abi \<Rightarrow> bool" where
  "ok_abi (Builtin B) \<longleftrightarrow> True"
| "ok_abi (Pointer A) \<longleftrightarrow> ok_abi A"
| "ok_abi (Reference A) \<longleftrightarrow> ok_abi A"
| "ok_abi (Named n Args) \<longleftrightarrow> ok_name n \<and> (\<forall>A\<in>set Args. ok_abi A)"

lemma span_digits:
  assumes "ok_name n"
  shows "takeWhile decimal_digit (encodeName n @ xs) = to_string (length n)"
    "dropWhile decimal_digit (encodeName n @ xs) = n @ xs"
proof -
  have digits: "\<And>C. C \<in> set (to_string (length n)) \<Longrightarrow> decimal_digit C" by (rule to_string_digits)
  obtain C n' where n: "n = C # n'" "\<not> decimal_digit C" using assms by (cases n) (auto simp: ok_name_def)
  have "takeWhile decimal_digit (encodeName n @ xs) = to_string (length n) @ takeWhile decimal_digit (n @ xs)"
    "dropWhile decimal_digit (encodeName n @ xs) = dropWhile decimal_digit (n @ xs)"
    unfolding encodeName_def append_assoc
    by (rule takeWhile_append2, erule digits, rule dropWhile_append2, erule digits)
  with n show "takeWhile decimal_digit (encodeName n @ xs) = to_string (length n)"
    "dropWhile decimal_digit (encodeName n @ xs) = n @ xs" by simp_all
qed

lemma encodeName_inj:
  assumes "ok_name n" "ok_name n'" "encodeName n @ xs = encodeName n' @ ys"
  shows "n = n' \<and> xs = ys"
proof -
  have "to_string (length n) = to_string (length n')"
    using arg_cong [OF assms(3), of "takeWhile decimal_digit"] by (simp only: span_digits assms(1,2))
  moreover have "n @ xs = n' @ ys"
    using arg_cong [OF assms(3), of "dropWhile decimal_digit"] by (simp only: span_digits assms(1,2))
  ultimately show ?thesis by simp
qed

text \<open>No name of a type begins with one of these characters.\<close>

lemma hd_encodeName: "decimal_digit (hd (encodeName n))" "decimal_digit (hd (encodeName n @ xs))"
    "encodeName n \<noteq> []"
proof -
  have "hd (to_string (length n)) \<in> set (to_string (length n))" by simp
  then show "decimal_digit (hd (encodeName n))" "decimal_digit (hd (encodeName n @ xs))"
    using to_string_digits [of _ "length n"] by (auto simp: encodeName_def simp del: hd_in_set)
qed (simp add: encodeName_def)

text \<open>Mangled names of types are a prefix code, except that the arguments may follow a name.\<close>

definition no_arguments :: "string \<Rightarrow> bool" where
  "no_arguments xs \<longleftrightarrow> xs = [] \<or> hd xs \<noteq> CHR ''I''"

lemma not_digit [simp]: "\<not> decimal_digit CHR ''I''" "\<not> decimal_digit CHR ''E''" "\<not> decimal_digit CHR ''N''"
  "\<not> decimal_digit CHR ''P''" "\<not> decimal_digit CHR ''R''" "\<not> decimal_digit CHR ''v''"
  "\<not> decimal_digit CHR ''b''" "\<not> decimal_digit CHR ''c''" "\<not> decimal_digit CHR ''i''" "\<not> decimal_digit CHR ''j''"
  "\<not> decimal_digit CHR ''l''" "\<not> decimal_digit CHR ''m''" "\<not> decimal_digit CHR ''f''" "\<not> decimal_digit CHR ''d''"
  by (simp_all add: decimal_digit_def less_eq_char_def)

lemma mangled_starts:
  assumes "ok_abi A"
  obtains (builtin) B where "A = Builtin B"
  | (pointer) B where "A = Pointer B" "ok_abi B"
  | (reference) B where "A = Reference B" "ok_abi B"
  | (named) n Args where "A = Named n Args" "ok_name n" "\<forall>B\<in>set Args. ok_abi B"
  using assms by (cases A) auto

lemma basicCode_not [simp]: "\<not> decimal_digit (basicCode B)" "basicCode B \<noteq> CHR ''P''" "basicCode B \<noteq> CHR ''R''"
    "basicCode B \<noteq> CHR ''I''" "basicCode B \<noteq> CHR ''E''" "basicCode B \<noteq> CHR ''N''"
    "CHR ''P'' \<noteq> basicCode B" "CHR ''R'' \<noteq> basicCode B"
  by (cases B; simp)+

lemma hd_encodeName_not:
  assumes "\<not> decimal_digit C"
  shows "hd (encodeName n @ xs) \<noteq> C" "hd (encodeName n) \<noteq> C"
  using hd_encodeName(1,2) assms by blast+

lemmas not_digit_hd [simp] = not_digit [THEN hd_encodeName_not(1)] not_digit [THEN hd_encodeName_not(2)]

lemmas not_digit_hd' [simp] = not_digit_hd [symmetric]

lemma basicCode_not_hd [simp]: "basicCode B \<noteq> hd (encodeName n @ xs)"
  using hd_encodeName_not(1) [OF basicCode_not(1)] by metis

lemma encodeName_Cons: "encodeName n @ xs = C # ys \<Longrightarrow> C = hd (encodeName n @ xs)"
  by simp

lemma hd_mangled_not_N: "ok_abi A \<Longrightarrow> hd (mangled A @ xs) \<noteq> CHR ''N''"
  by (erule mangled_starts) auto

lemma no_arguments_mangled [simp]:
  assumes "ok_abi A" shows "no_arguments (mangled A @ xs)"
  using assms by (rule mangled_starts) (auto simp: no_arguments_def)

definition unique :: "abi \<Rightarrow> bool" where
  "unique A \<longleftrightarrow> (\<forall>B xs ys. ok_abi B \<longrightarrow> no_arguments xs \<longrightarrow> no_arguments ys \<longrightarrow>
     mangled A @ xs = mangled B @ ys \<longrightarrow> A = B \<and> xs = ys)"

lemma uniqueI: "(\<And>B xs ys. ok_abi B \<Longrightarrow> no_arguments xs \<Longrightarrow> no_arguments ys \<Longrightarrow>
    mangled A @ xs = mangled B @ ys \<Longrightarrow> A = B \<and> xs = ys) \<Longrightarrow> unique A"
  and uniqueD: "unique A \<Longrightarrow> ok_abi B \<Longrightarrow> no_arguments xs \<Longrightarrow> no_arguments ys \<Longrightarrow>
    mangled A @ xs = mangled B @ ys \<Longrightarrow> A = B \<and> xs = ys"
  unfolding unique_def by blast+

text \<open>What may follow the last of several types.\<close>

definition stops :: "string \<Rightarrow> bool" where
  "stops xs \<longleftrightarrow> xs = [] \<or> hd xs = CHR ''E''"

lemma stops_simps [simp]: "stops []" "stops (CHR ''E'' # xs)" "stops xs \<Longrightarrow> no_arguments xs"
  by (auto simp: stops_def no_arguments_def)

lemma not_stops_mangled: "ok_abi A \<Longrightarrow> \<not> stops (mangled A @ xs)"
  by (erule mangled_starts) (auto simp: stops_def hd_encodeName)

lemma no_arguments_concat:
  "\<forall>A\<in>set Args. ok_abi A \<Longrightarrow> stops xs \<Longrightarrow> no_arguments (concat (map mangled Args) @ xs)"
  by (cases Args) simp_all

lemma unique_concat:
  assumes "\<forall>A\<in>set Args. ok_abi A \<and> unique A" "\<forall>B\<in>set Brgs. ok_abi B" "stops xs" "stops ys"
    "concat (map mangled Args) @ xs = concat (map mangled Brgs) @ ys"
  shows "Args = Brgs \<and> xs = ys"
  using assms
proof (induction Args arbitrary: Brgs)
  case Nil
  then show ?case by (cases Brgs) (use not_stops_mangled in fastforce)+
next
  case (Cons A Args)
  show ?case
  proof (cases Brgs)
    case Nil
    then have "stops (mangled A @ concat (map mangled Args) @ xs)" using Cons.prems by simp
    then show ?thesis using not_stops_mangled Cons.prems(1) by simp
  next
    case (Cons B Brgs')
    have "ok_abi B" "no_arguments (concat (map mangled Args) @ xs)"
      "no_arguments (concat (map mangled Brgs') @ ys)"
      using Cons.prems(1-4) Cons by (simp_all add: no_arguments_concat)
    moreover have "mangled A @ concat (map mangled Args) @ xs = mangled B @ concat (map mangled Brgs') @ ys"
      using Cons.prems(5) Cons by simp
    ultimately have "A = B \<and> concat (map mangled Args) @ xs = concat (map mangled Brgs') @ ys"
      using Cons.prems(1) by (intro uniqueD [of A B]) simp_all
    with Cons.IH [of Brgs'] Cons.prems Cons show ?thesis by simp
  qed
qed

lemma mangled_unique: "ok_abi A \<Longrightarrow> unique A"
proof (induction A)
  case (Builtin C)
  show ?case
  proof (rule uniqueI)
    fix B xs ys assume "ok_abi B" "mangled (Builtin C) @ xs = mangled B @ ys"
    then show "Builtin C = B \<and> xs = ys"
    proof (cases rule: mangled_starts)
      case (named n Args)
      have "basicCode C = hd (mangled (Builtin C) @ xs)" by simp
      also have "\<dots> = hd (encodeName n @ (if Args = [] then [] else ''I'' @ concat (map mangled Args) @ ''E'') @ ys)"
        unfolding \<open>mangled (Builtin C) @ xs = mangled B @ ys\<close> named by simp
      finally show ?thesis using hd_encodeName_not(1) [OF basicCode_not(1)] by metis
    qed (use \<open>mangled (Builtin C) @ xs = mangled B @ ys\<close> in auto)
  qed
next
  case (Pointer A)
  show ?case
  proof (rule uniqueI)
    fix B xs ys assume B: "ok_abi B" "mangled (Pointer A) @ xs = mangled B @ ys" "no_arguments xs" "no_arguments ys"
    from B(1) show "Pointer A = B \<and> xs = ys"
    proof (cases rule: mangled_starts)
      case (pointer B')
      then have "A = B' \<and> xs = ys" using Pointer B(2-) by (intro uniqueD [of A]) simp_all
      then show ?thesis by (simp add: pointer)
    qed (use B(2) in \<open>auto dest!: encodeName_Cons [OF sym]\<close>)
  qed
next
  case (Reference A)
  show ?case
  proof (rule uniqueI)
    fix B xs ys assume B: "ok_abi B" "mangled (Reference A) @ xs = mangled B @ ys" "no_arguments xs" "no_arguments ys"
    from B(1) show "Reference A = B \<and> xs = ys"
    proof (cases rule: mangled_starts)
      case (reference B')
      then have "A = B' \<and> xs = ys" using Reference B(2-) by (intro uniqueD [of A]) simp_all
      then show ?thesis by (simp add: reference)
    qed (use B(2) in \<open>auto dest!: encodeName_Cons [OF sym]\<close>)
  qed
next
  case (Named n Args)
  show ?case
  proof (rule uniqueI)
    fix B xs ys assume B: "ok_abi B" "mangled (Named n Args) @ xs = mangled B @ ys" "no_arguments xs" "no_arguments ys"
    from B(1) show "Named n Args = B \<and> xs = ys"
    proof (cases rule: mangled_starts)
      case (named n' Brgs)
      have "n = n' \<and>
        (if Args = [] then [] else ''I'' @ concat (map mangled Args) @ ''E'') @ xs =
        (if Brgs = [] then [] else ''I'' @ concat (map mangled Brgs) @ ''E'') @ ys"
        using Named.prems named B(2) by (intro encodeName_inj) (auto simp del: append_eq_append_conv)
      moreover have "\<forall>A\<in>set Args. ok_abi A \<and> unique A" using Named by simp
      moreover have "Args = Brgs \<and> xs = ys"
        if "concat (map mangled Args) @ ''E'' @ xs = concat (map mangled Brgs) @ ''E'' @ ys"
        using unique_concat [of Args Brgs "''E'' @ xs" "''E'' @ ys"] that calculation(2) named(3) by simp
      ultimately show ?thesis
        using named(1) B(3,4) by (cases "Args = []"; cases "Brgs = []") (auto simp: no_arguments_def)
    qed (use B(2) in \<open>auto dest!: encodeName_Cons\<close>)
  qed
qed

section \<open>What the types of the planner denote\<close>

text \<open>A name that is given to a structure, a union or a namespace.\<close>

definition plain_name :: "string \<Rightarrow> bool" where
  "plain_name n \<longleftrightarrow> ok_name n \<and> CHR ''.'' \<notin> set n \<and> last n \<notin> set ''*&'' \<and> map_of basicNames n = None"

definition generic_name :: "string \<Rightarrow> planned_type list \<Rightarrow> bool" where
  "generic_name n Gs \<longleftrightarrow> plain_name n \<and> Gs \<noteq> [] \<and> \<not> (n \<in> {''pointer'', ''ref''} \<and> length Gs = 1)"

text \<open>An instance is called by the name of its generic and those of its arguments, with dots between.\<close>

definition instanceName :: "string \<Rightarrow> planned_type list \<Rightarrow> string" where
  "instanceName n Gs = n @ concat (map (\<lambda>G. CHR ''.'' # pt_Name G) Gs)"

text \<open>A type without a label: a mangled name is one when it begins with a digit or with \<open>_Z\<close> and
  the type has no arguments, any other is for debugging.\<close>

definition unlabelled :: "planned_type \<Rightarrow> bool" where
  "unlabelled T \<longleftrightarrow> pt_Generics T \<noteq> [] \<or> pt_MangledName T = [] \<or>
     \<not> decimal_digit (hd (pt_MangledName T)) \<and> take 2 (pt_MangledName T) \<noteq> ''_Z''"

fun dropLabel :: "planned_type \<Rightarrow> planned_type" where
  "dropLabel (PlannedType l n m g lt og a v) = PlannedType l n [] g lt og a v"

text \<open>The type that a type of the planner denotes: by its name and its arguments, or by the label of
  an instance, which is the key of the caches for the generic and its arguments. A name in a package
  denotes nothing here: the mangling cuts it, at its last dot or, with arguments, at its first one.\<close>

inductive denotes :: "planned_type \<Rightarrow> abi \<Rightarrow> bool" where
  basic: "unlabelled T \<Longrightarrow> pt_Generics T = [] \<Longrightarrow> map_of basicNames (pt_Name T) = Some B \<Longrightarrow>
    denotes T (Builtin B)"
| star: "unlabelled T \<Longrightarrow> pt_Name T = n @ ''*'' \<Longrightarrow> n \<noteq> [] \<Longrightarrow> denotes (set_Name n T) A \<Longrightarrow> denotes T (Pointer A)"
| ampersand: "unlabelled T \<Longrightarrow> pt_Name T = n @ ''&'' \<Longrightarrow> n \<noteq> [] \<Longrightarrow> denotes (set_Name n T) A \<Longrightarrow> denotes T (Reference A)"
| pointer: "pt_Name T = ''pointer'' \<Longrightarrow> pt_Generics T = [G] \<Longrightarrow> denotes G A \<Longrightarrow> denotes T (Pointer A)"
| reference: "pt_Name T = ''ref'' \<Longrightarrow> pt_Generics T = [G] \<Longrightarrow> denotes G A \<Longrightarrow> denotes T (Reference A)"
| generic: "generic_name n (pt_Generics T) \<Longrightarrow> list_all2 denotes (pt_Generics T) Args \<Longrightarrow>
    pt_Name T = n \<or> pt_Name T = instanceName n (pt_Generics T) \<and> last (pt_Name T) \<notin> set ''*&'' \<Longrightarrow>
    denotes T (Named n Args)"
| labelled: "pt_Generics T = [] \<Longrightarrow> pt_MangledName T = mangleStructure n Gs \<Longrightarrow> generic_name n Gs \<Longrightarrow>
    list_all2 denotes Gs Args \<Longrightarrow> denotes T (Named n Args)"
| plain: "plain_name (pt_Name T) \<Longrightarrow> pt_Generics T = [] \<Longrightarrow>
    unlabelled T \<or> pt_MangledName T = encodeName (pt_Name T) \<Longrightarrow> denotes T (Named (pt_Name T) [])"
| own_label: "pt_Generics T = [] \<Longrightarrow> pt_MangledName T = mangleType (dropLabel T) \<Longrightarrow> denotes (dropLabel T) A \<Longrightarrow>
    denotes T A"
monos list_all2_mono

lemma generic_name_plain: "generic_name n Gs \<Longrightarrow> plain_name n"
  by (simp add: generic_name_def)

lemma plain_name_ok: "plain_name n \<Longrightarrow> ok_name n"
  by (simp add: plain_name_def)

lemma denotes_ok: "denotes T A \<Longrightarrow> ok_abi A"
proof (induction rule: denotes.induct)
  case (generic n T Args)
  then show ?case by (auto simp: list_all2_conv_all_nth in_set_conv_nth generic_name_plain plain_name_ok)
next
  case (labelled T n Gs Args)
  then show ?case by (auto simp: list_all2_conv_all_nth in_set_conv_nth generic_name_plain plain_name_ok)
qed (simp_all add: plain_name_ok)

lemma builtinCode_basic: "map_of basicNames n = Some B \<Longrightarrow> builtinCode n = Some [basicCode B]"
  by (auto simp: basicNames_def builtinCode_def split: if_splits)

lemma builtinCode_None:
  "map_of basicNames n = None \<Longrightarrow> builtinCode n = None"
  "builtinCode (n @ ''*'') = None" "builtinCode (n @ ''&'') = None"
  "builtinCode (n @ CHR ''.'' # m) = None"
proof -
  have none: "CHR ''.'' \<notin> set x \<and> last x \<noteq> CHR ''*'' \<and> last x \<noteq> CHR ''&''"
    if "builtinCode x = Some c" for x c
    using that by (auto simp: builtinCode_def split: if_splits)
  show "map_of basicNames n = None \<Longrightarrow> builtinCode n = None"
    by (auto simp: basicNames_def builtinCode_def split: if_splits)
  show "builtinCode (n @ ''*'') = None" "builtinCode (n @ ''&'') = None" "builtinCode (n @ CHR ''.'' # m) = None"
    using none by fastforce+
qed

lemma unlabelled_None: "unlabelled T \<Longrightarrow> usedMangledName T = None"
  by (auto simp: unlabelled_def usedMangledName_def Let_def)

lemma dropLabel_sel [simp]: "pt_Name (dropLabel T) = pt_Name T" "pt_Generics (dropLabel T) = pt_Generics T"
    "pt_MangledName (dropLabel T) = []"
  by (cases T; simp)+

lemma mangled_not_empty [simp]: "mangled A \<noteq> []"
  by (cases A) (simp_all add: hd_encodeName(3))

lemma usedMangledName_label:
  assumes "pt_Generics T = []" "pt_MangledName T = ''_Z'' @ xs" "xs \<noteq> []"
  shows "usedMangledName T = Some xs"
  using assms by (cases xs) (simp_all add: usedMangledName_def)

text \<open>The name of a type that does not end as a pointer or reference, in the two cases of the code.\<close>

lemma plain_last: "plain_name n \<Longrightarrow> last n \<noteq> CHR ''*'' \<and> last n \<noteq> CHR ''&''"
  and plain_builtin: "plain_name n \<Longrightarrow> builtinCode n = None"
  and plain_strip: "plain_name n \<Longrightarrow> stripPackagePrefix n = n"
  and plain_cut: "plain_name n \<Longrightarrow> takeWhile (\<lambda>C. C \<noteq> CHR ''.'') n = n"
proof -
  assume n: "plain_name n"
  then show "last n \<noteq> CHR ''*'' \<and> last n \<noteq> CHR ''&''" "builtinCode n = None" "takeWhile (\<lambda>C. C \<noteq> CHR ''.'') n = n"
    by (auto simp: plain_name_def builtinCode_None(1) takeWhile_eq_all_conv)
  have "take 6 n \<noteq> ''scaly.''"
  proof
    assume "take 6 n = ''scaly.''"
    then have "CHR ''.'' \<in> set (take 6 n)" by simp
    with n show False by (auto simp: plain_name_def dest: in_set_takeD)
  qed
  then show "stripPackagePrefix n = n" by (simp add: stripPackagePrefix_def)
qed

lemma instanceName_cut:
  assumes "plain_name n" "Gs \<noteq> []"
  shows "takeWhile (\<lambda>C. C \<noteq> CHR ''.'') (instanceName n Gs) = n" "builtinCode (instanceName n Gs) = None"
    "instanceName n Gs \<noteq> ''pointer''" "instanceName n Gs \<noteq> ''ref''"
proof -
  obtain m where m: "instanceName n Gs = n @ CHR ''.'' # m"
    using assms(2) by (cases Gs) (auto simp: instanceName_def)
  have "\<And>C. C \<in> set n \<Longrightarrow> C \<noteq> CHR ''.''" using assms(1) by (auto simp: plain_name_def)
  then show "takeWhile (\<lambda>C. C \<noteq> CHR ''.'') (instanceName n Gs) = n" by (simp add: m takeWhile_append2)
  show "builtinCode (instanceName n Gs) = None" unfolding m by (rule builtinCode_None)
  have "CHR ''.'' \<in> set (instanceName n Gs)" by (simp add: m)
  then show "instanceName n Gs \<noteq> ''pointer''" "instanceName n Gs \<noteq> ''ref''" by auto
qed

lemma encodeType_generic:
  assumes "generic_name n (pt_Generics T)" "map encodeType (pt_Generics T) = map mangled Args"
    and "pt_Name T = n \<or> pt_Name T = instanceName n (pt_Generics T) \<and> last (pt_Name T) \<notin> set ''*&''"
  shows "encodeType T = mangled (Named n Args)"
proof -
  have n: "plain_name n" "pt_Generics T \<noteq> []" using assms(1) by (simp_all add: generic_name_def)
  then have Args: "Args \<noteq> []" "usedMangledName T = None" using assms(2) by (auto simp: usedMangledName_def Let_def)
  have "builtinCode (pt_Name T) = None \<and> takeWhile (\<lambda>C. C \<noteq> CHR ''.'') (pt_Name T) = n \<and>
      last (pt_Name T) \<noteq> CHR ''*'' \<and> last (pt_Name T) \<noteq> CHR ''&'' \<and>
      \<not> (pt_Name T \<in> {''pointer'', ''ref''} \<and> length (pt_Generics T) = 1)"
    using assms(1,3) n instanceName_cut [OF n] by (auto simp: generic_name_def plain_last plain_builtin plain_cut)
  then show ?thesis using n Args assms(2) by (subst encodeType.simps) auto
qed

lemma encodeType_plain:
  assumes "plain_name (pt_Name T)" "pt_Generics T = []" "unlabelled T \<or> pt_MangledName T = encodeName (pt_Name T)"
  shows "encodeType T = mangled (Named (pt_Name T) [])"
  using assms(3)
proof
  assume "unlabelled T"
  then show ?thesis
    using assms(1,2) by (subst encodeType.simps) (auto simp: unlabelled_None plain_last plain_builtin plain_strip)
next
  assume "pt_MangledName T = encodeName (pt_Name T)"
  moreover have "take 2 (encodeName n) \<noteq> ''_Z''" for n
    using hd_encodeName(1,3) [of n] by (cases "encodeName n") (auto simp: decimal_digit_def less_eq_char_def)
  ultimately have "usedMangledName T = Some (encodeName (pt_Name T))"
    using assms(2) by (simp add: usedMangledName_def hd_encodeName)
  then show ?thesis by (subst encodeType.simps) simp
qed

lemma denotes_encodeType: "denotes T A \<Longrightarrow> encodeType T = mangled A"
proof (induction rule: denotes.induct)
  case (basic T B)
  then show ?case by (subst encodeType.simps) (simp add: unlabelled_None builtinCode_basic)
next
  case (star T n A)
  then show ?case by (subst encodeType.simps) (simp add: unlabelled_None builtinCode_None)
next
  case (ampersand T n A)
  then show ?case by (subst encodeType.simps) (simp add: unlabelled_None builtinCode_None)
next
  case (pointer T G A)
  then have "builtinCode (pt_Name T) = None" "usedMangledName T = None"
    by (simp_all add: builtinCode_def usedMangledName_def)
  with pointer show ?case by (subst encodeType.simps) simp
next
  case (reference T G A)
  then have "builtinCode (pt_Name T) = None" "usedMangledName T = None"
    by (simp_all add: builtinCode_def usedMangledName_def)
  with reference show ?case by (subst encodeType.simps) simp
next
  case (generic n T Args)
  then have "map encodeType (pt_Generics T) = map mangled Args"
    by (intro nth_equalityI) (auto simp: list_all2_conv_all_nth)
  with generic show ?case by (intro encodeType_generic)
next
  case (labelled T n Gs Args)
  then have "map encodeType Gs = map mangled Args" "Gs \<noteq> []" "Args \<noteq> []"
    by (auto simp: list_all2_conv_all_nth generic_name_def intro!: nth_equalityI)
  then have "mangleStructure n Gs = ''_Z'' @ mangled (Named n Args)" by (simp add: mangleStructure_def)
  with labelled have "usedMangledName T = Some (mangled (Named n Args))"
    by (intro usedMangledName_label) (simp_all add: hd_encodeName(3))
  then show ?case by (subst encodeType.simps) simp
next
  case (plain T)
  then show ?case by (intro encodeType_plain)
next
  case (own_label T A)
  then have "usedMangledName T = Some (encodeType (dropLabel T))"
    by (intro usedMangledName_label) (auto simp: mangleType_def)
  with own_label show ?case by (subst encodeType.simps) simp
qed

text \<open>C24. Two types of the planner have the same mangled name exactly when they denote the same type:
  the same built-in type, whose name only \<open>ulong\<close>, \<open>size\<close> and \<open>size_t\<close> share, a pointer or a reference
  to the same type, in either notation, or a type of the same name with the same arguments, whether
  these are listed or stand in the label of an instance. The names are those outside of packages, without dots.\<close>

theorem mangleType_same:
  assumes "denotes S A" "denotes T B"
  shows "mangleType S = mangleType T \<longleftrightarrow> A = B"
proof
  assume "mangleType S = mangleType T"
  then have "mangled A @ [] = mangled B @ []"
    by (simp add: mangleType_def denotes_encodeType [OF assms(1)] denotes_encodeType [OF assms(2)])
  then show "A = B"
    using uniqueD [OF mangled_unique [OF denotes_ok [OF assms(1)]] denotes_ok [OF assms(2)], of "[]" "[]"] by simp
qed (simp add: mangleType_def denotes_encodeType [OF assms(1)] denotes_encodeType [OF assms(2)])

abbreviation bare :: "string \<Rightarrow> string \<Rightarrow> planned_type list \<Rightarrow> planned_type" where
  "bare n Mang Generics \<equiv> PlannedType (Span 0 0) n Mang Generics UnspecifiedLifetime None [] None"

lemma plain_List: "plain_name ''List''" "plain_name ''Map''"
  by (simp_all add: plain_name_def basicNames_def ok_name_def decimal_digit_def less_eq_char_def)

lemma denotes_int: "denotes (bare ''int'' [] []) (Builtin Basic_Int)"
  by (rule denotes.basic) (simp_all add: unlabelled_def basicNames_def)

lemma denotes_uint: "denotes (bare ''uint'' [] []) (Builtin Basic_Uint)"
  by (rule denotes.basic) (simp_all add: unlabelled_def basicNames_def)

lemma denotes_List_int: "denotes (bare ''List'' [] [bare ''int'' [] []]) (Named ''List'' [Builtin Basic_Int])"
  using denotes_int by (intro denotes.generic) (simp_all add: generic_name_def plain_List)

lemma denotes_List_int_instance: "denotes (bare ''List.int'' ''_Z4ListIiE'' []) (Named ''List'' [Builtin Basic_Int])"
proof (rule denotes.labelled)
  have "encodeName ''List'' = ''4List''" by code_simp
  then show "pt_MangledName (bare ''List.int'' ''_Z4ListIiE'' []) = mangleStructure ''List'' [bare ''int'' [] []]"
    by (simp add: mangleStructure_def denotes_encodeType [OF denotes_int])
qed (simp_all add: generic_name_def plain_List denotes_int)

theorem mangleType_same_witness:
  "mangleType (bare ''List'' [] [bare ''int'' [] []]) = mangleType (bare ''List.int'' ''_Z4ListIiE'' []) \<and>
   mangleType (bare ''List'' [] [bare ''int'' [] []]) \<noteq> mangleType (bare ''int'' [] []) \<and>
   mangleType (bare ''uint'' [] []) \<noteq> mangleType (bare ''int'' [] [])"
  by (simp add: mangleType_same [OF denotes_List_int denotes_List_int_instance]
      mangleType_same [OF denotes_List_int denotes_int] mangleType_same [OF denotes_uint denotes_int])

lemma denotes_map: "list_all2 denotes Ts Args \<Longrightarrow> map encodeType Ts = map mangled Args"
  by (auto simp: list_all2_conv_all_nth denotes_encodeType intro!: nth_equalityI)

lemma denotes_ok_list: "list_all2 denotes Ts Args \<Longrightarrow> \<forall>A\<in>set Args. ok_abi A"
  by (induction rule: list_all2_induct) (auto intro: denotes_ok)

lemma mangleStructure_Named: "list_all2 denotes Gs Args \<Longrightarrow> mangleStructure n Gs = ''_Z'' @ mangled (Named n Args)"
  by (cases Gs) (auto simp: mangleStructure_def list_all2_Cons1 denotes_encodeType
      arg_cong [OF denotes_map, where f = concat])

text \<open>The keys of the cache of instances: two generics have the same name with the same arguments
  only if they have the same name and each argument denotes the same type.\<close>

theorem mangleStructure_same:
  assumes "ok_name n" "ok_name n'" "list_all2 denotes Gs Args" "list_all2 denotes Gs' Brgs"
  shows "mangleStructure n Gs = mangleStructure n' Gs' \<longleftrightarrow> n = n' \<and> Args = Brgs"
proof
  assume "mangleStructure n Gs = mangleStructure n' Gs'"
  then have "mangled (Named n Args) @ [] = mangled (Named n' Brgs) @ []"
    by (simp add: mangleStructure_Named [OF assms(3)] mangleStructure_Named [OF assms(4)])
  moreover have "unique (Named n Args)" "ok_abi (Named n' Brgs)"
    using assms denotes_ok_list by (auto intro!: mangled_unique)
  ultimately show "n = n' \<and> Args = Brgs"
    using uniqueD [of "Named n Args" "Named n' Brgs" "[]" "[]"] by simp
qed (simp add: mangleStructure_Named [OF assms(3)] mangleStructure_Named [OF assms(4)])

theorem mangleStructure_same_witness:
  "mangleStructure ''Map'' [bare ''int'' [] [], bare ''List'' [] [bare ''int'' [] []]] \<noteq>
   mangleStructure ''Map'' [bare ''List'' [] [bare ''int'' [] []], bare ''int'' [] []]"
proof -
  have ok: "ok_name ''Map''" by (simp add: ok_name_def decimal_digit_def less_eq_char_def)
  have l: "list_all2 denotes [bare ''int'' [] [], bare ''List'' [] [bare ''int'' [] []]]
      [Builtin Basic_Int, Named ''List'' [Builtin Basic_Int]]"
    and r: "list_all2 denotes [bare ''List'' [] [bare ''int'' [] []], bare ''int'' [] []]
      [Named ''List'' [Builtin Basic_Int], Builtin Basic_Int]"
    by (simp_all only: list_all2_Cons list.rel_inject denotes_int denotes_List_int)
  show ?thesis using mangleStructure_same [OF ok ok l r] by simp
qed

section \<open>Functions and operators\<close>

text \<open>The types of the parameters in a name: \<open>void\<close> when there are none.\<close>

definition orVoid :: "bool \<Rightarrow> abi list \<Rightarrow> abi list" where
  "orVoid hasPageParam Args = (if Args = [] \<and> \<not> hasPageParam then [Builtin Basic_Void] else Args)"

lemma orVoid_True [simp]: "orVoid True Args = Args"
  by (simp add: orVoid_def)

lemma orVoid_ok: "\<forall>A\<in>set Args. ok_abi A \<Longrightarrow> \<forall>A\<in>set (orVoid b Args). ok_abi A"
  by (simp add: orVoid_def)

definition mangledParameters :: "bool \<Rightarrow> abi list \<Rightarrow> string" where
  "mangledParameters hasPageParam Args =
     (if hasPageParam then ''PN4scaly6memory4PageE'' else []) @ concat (map mangled (orVoid hasPageParam Args))"

lemma mangledParameters_page:
  assumes "\<forall>A\<in>set Args. ok_abi A" "\<forall>A\<in>set Bs. ok_abi A"
  shows "mangledParameters True Args \<noteq> mangledParameters False Bs"
proof
  assume eq: "mangledParameters True Args = mangledParameters False Bs"
  obtain A Cs where Cs: "orVoid False Bs = A # Cs" by (cases "orVoid False Bs") (simp add: orVoid_def split: if_splits)
  then have A: "ok_abi A" using orVoid_ok [OF assms(2), of False] by simp
  have "''PN4scaly6memory4PageE'' @ concat (map mangled Args) = mangled A @ concat (map mangled Cs)"
    using eq by (simp add: mangledParameters_def Cs)
  with A show False
  proof (cases rule: mangled_starts)
    case (pointer B)
    then have "CHR ''N'' = hd (mangled B @ concat (map mangled Cs))"
      using \<open>_ = mangled A @ _\<close> by (auto dest: arg_cong [where f = hd])
    with hd_mangled_not_N [OF pointer(2)] show False by metis
  qed (auto dest!: encodeName_Cons [OF sym])
qed

lemma mangledParameters_inj:
  assumes "\<forall>A\<in>set Args. ok_abi A" "\<forall>A\<in>set Bs. ok_abi A" "mangledParameters b Args = mangledParameters c Bs"
  shows "b = c \<and> orVoid b Args = orVoid c Bs"
proof -
  have "b = c"
    using mangledParameters_page [OF assms(1,2)] mangledParameters_page [OF assms(2,1)] assms(3)
    by (cases b; cases c) simp_all
  moreover have "orVoid b Args = orVoid b Bs" if "b = c"
    using unique_concat [of "orVoid b Args" "orVoid b Bs" "[]" "[]"] assms that
      orVoid_ok [OF assms(1)] orVoid_ok [OF assms(2)]
    by (simp add: mangledParameters_def mangled_unique)
  ultimately show ?thesis by simp
qed

definition mangledName :: "abi option \<Rightarrow> string \<Rightarrow> string" where
  "mangledName Parent Code = (case Parent of
     Some P \<Rightarrow> ''N'' @ mangled P @ Code @ ''E'' | None \<Rightarrow> Code)"

lemma mangleFunction_eq:
  assumes "list_all2 denotes (explicitTypes Params) Args" "rel_option denotes Parent P"
  shows "mangleFunction Name Params Parent page =
    ''_Z'' @ mangledName P (encodeName Name) @ mangledParameters page Args"
proof -
  have "explicitTypes Params = [] \<longleftrightarrow> Args = []" using assms(1) by auto
  then show ?thesis
    using assms(2) denotes_map [OF assms(1)]
    by (cases Parent; cases P)
      (auto simp: mangleFunction_def mangledName_def mangledParameters_def orVoid_def denotes_encodeType)
qed


definition exampleItem :: "string \<Rightarrow> planned_type \<Rightarrow> planned_item" where
  "exampleItem n T = \<lparr>it_Loc = Span 0 0, it_Private = False, it_Name = Some n, it_Type = Some T, it_Attributes = []\<rparr>"


lemma distinct_snd: "distinct (map snd xs) \<Longrightarrow> (a, c) \<in> set xs \<Longrightarrow> (b, c) \<in> set xs \<Longrightarrow> a = b"
  by (metis distinct_map inj_onD prod.inject snd_conv)

lemma operatorCodes_two: "(n, c) \<in> set operatorCodes \<Longrightarrow> length c = 2 \<and> c \<noteq> ''v0'' \<and> hd c \<noteq> CHR ''I''"
  by (auto simp: operatorCodes_def)

lemma operatorCodes_distinct: "distinct (map snd operatorCodes)"
  by (simp add: operatorCodes_def)

lemma operatorCode_cases:
  obtains (known) c where "operatorCode n = c" "(n, c) \<in> set operatorCodes"
  | (unknown) "operatorCode n = ''v0'' @ encodeName n" "map_of operatorCodes n = None"
  by (cases "map_of operatorCodes n") (auto simp: operatorCode_def dest: map_of_SomeD)

lemma operatorCode_inj:
  assumes "ok_name n" "ok_name n'" "operatorCode n @ xs = operatorCode n' @ ys"
  shows "n = n' \<and> xs = ys"
proof (cases n rule: operatorCode_cases)
  case (known c)
  show ?thesis
  proof (cases n' rule: operatorCode_cases)
    case (known c')
    then have "length c = length c'" using operatorCodes_two \<open>(n, c) \<in> _\<close> by fastforce
    then have "c = c' \<and> xs = ys" using assms(3) known \<open>operatorCode n = c\<close> by simp
    with distinct_snd [OF operatorCodes_distinct \<open>(n, c) \<in> _\<close>] known(2) show ?thesis by blast
  next
    case unknown
    have "take 2 (c @ xs) = take 2 (''v0'' @ encodeName n' @ ys)"
      using assms(3) known unknown by simp
    then show ?thesis using operatorCodes_two [OF known(2)] by simp
  qed
next
  case unknown
  show ?thesis
  proof (cases n' rule: operatorCode_cases)
    case (known c')
    have "take 2 (c' @ ys) = take 2 (''v0'' @ encodeName n @ xs)"
      using assms(3) known unknown by simp
    then show ?thesis using operatorCodes_two [OF known(2)] by simp
  next
    case unknown': unknown
    have "encodeName n @ xs = encodeName n' @ ys" using assms(3) unknown(1) unknown'(1) by simp
    then show ?thesis by (rule encodeName_inj [OF assms(1,2)])
  qed
qed

lemma no_arguments_operatorCode: "no_arguments (operatorCode n @ xs)"
proof (cases n rule: operatorCode_cases)
  case (known c)
  then show ?thesis using operatorCodes_two [OF known(2)] by (cases c) (auto simp: no_arguments_def)
qed (simp add: no_arguments_def)

lemma hd_operatorCode: "hd (operatorCode n @ xs) \<noteq> CHR ''N''"
proof (cases n rule: operatorCode_cases)
  case (known c)
  then have "c \<in> snd ` set operatorCodes" by force
  then show ?thesis using known by (auto simp: operatorCodes_def)
qed simp

definition operatorAbi :: "planned_item list \<Rightarrow> abi list \<Rightarrow> abi list" where
  "operatorAbi Params Args = (if Params = [] then [Builtin Basic_Void] else Args)"

lemma mangleOperator_eq:
  assumes "list_all2 denotes (parameterTypes (operatorParameters Params (Parent \<noteq> None))) Args" "rel_option denotes Parent P"
  shows "mangleOperator Name Params Parent =
    ''_Z'' @ mangledName P (operatorCode Name) @
      concat (map mangled (operatorAbi (operatorParameters Params (Parent \<noteq> None)) Args))"
  using assms(2) denotes_map [OF assms(1)]
  by (cases Parent; cases P)
    (auto simp: mangleOperator_def mangledName_def operatorAbi_def denotes_encodeType)

text \<open>The names of operators: two of them are the same only if the operators have the same name and are
  members of the same type or of none, and their other parameters denote the same types, no
  parameters counting as one of type \<open>void\<close>.\<close>

theorem mangleOperator_same:
  assumes "ok_name n" "ok_name n'"
    and "list_all2 denotes (parameterTypes (operatorParameters Params (Parent \<noteq> None))) Args"
    and "list_all2 denotes (parameterTypes (operatorParameters Params' (Parent' \<noteq> None))) Brgs"
    and "rel_option denotes Parent P" "rel_option denotes Parent' P'"
  shows "mangleOperator n Params Parent = mangleOperator n' Params' Parent' \<longleftrightarrow>
    n = n' \<and> P = P' \<and> operatorAbi (operatorParameters Params (Parent \<noteq> None)) Args =
      operatorAbi (operatorParameters Params' (Parent' \<noteq> None)) Brgs"
proof
  let ?A = "operatorAbi (operatorParameters Params (Parent \<noteq> None)) Args"
  let ?B = "operatorAbi (operatorParameters Params' (Parent' \<noteq> None)) Brgs"
  assume "mangleOperator n Params Parent = mangleOperator n' Params' Parent'"
  then have eq: "mangledName P (operatorCode n) @ concat (map mangled ?A) =
      mangledName P' (operatorCode n') @ concat (map mangled ?B)"
    by (simp add: mangleOperator_eq [OF assms(3,5)] mangleOperator_eq [OF assms(4,6)])
  have P: "\<And>A. P = Some A \<Longrightarrow> ok_abi A" "\<And>A. P' = Some A \<Longrightarrow> ok_abi A"
    using assms(5,6) denotes_ok by (auto elim!: option.rel_cases)
  have "n = n' \<and> P = P' \<and> concat (map mangled ?A) = concat (map mangled ?B)"
  proof (cases P)
    case None
    show ?thesis
    proof (cases P')
      case None
      with \<open>P = None\<close> eq operatorCode_inj [OF assms(1,2)] show ?thesis by (simp add: mangledName_def)
    next
      case (Some A')
      with \<open>P = None\<close> eq have "operatorCode n @ concat (map mangled ?A) =
        CHR ''N'' # mangled A' @ operatorCode n' @ ''E'' @ concat (map mangled ?B)"
        by (simp add: mangledName_def)
      with hd_operatorCode show ?thesis by (metis list.sel(1))
    qed
  next
    case (Some A)
    show ?thesis
    proof (cases P')
      case None
      with Some eq have "operatorCode n' @ concat (map mangled ?B) =
        CHR ''N'' # mangled A @ operatorCode n @ ''E'' @ concat (map mangled ?A)"
        by (simp add: mangledName_def)
      with hd_operatorCode show ?thesis by (metis list.sel(1))
    next
      case (Some A')
      have "A = A' \<and> operatorCode n @ ''E'' @ concat (map mangled ?A) =
          operatorCode n' @ ''E'' @ concat (map mangled ?B)"
        using P Some \<open>P = Some A\<close> eq
        by (intro uniqueD [OF mangled_unique [of A]]) (simp_all add: mangledName_def no_arguments_operatorCode)
      with operatorCode_inj [OF assms(1,2)] Some \<open>P = Some A\<close> show ?thesis by fastforce
    qed
  qed
  moreover have "\<forall>A\<in>set ?A. ok_abi A \<and> unique A" "\<forall>A\<in>set ?B. ok_abi A"
    using denotes_ok_list [OF assms(3)] denotes_ok_list [OF assms(4)] mangled_unique
    by (simp_all add: operatorAbi_def)
  ultimately show "n = n' \<and> P = P' \<and> ?A = ?B" using unique_concat [of ?A ?B "[]" "[]"] by simp
qed (auto simp: mangleOperator_eq [OF assms(3,5)] mangleOperator_eq [OF assms(4,6)])

theorem mangleOperator_same_witness:
  "mangleOperator ''+'' [exampleItem ''x'' (bare ''int'' [] [])] None \<noteq>
   mangleOperator ''-'' [exampleItem ''x'' (bare ''int'' [] [])] None"
proof -
  have ok: "ok_name ''+''" "ok_name ''-''" by (simp_all add: ok_name_def decimal_digit_def less_eq_char_def)
  have l: "list_all2 denotes (parameterTypes (operatorParameters [exampleItem ''x'' (bare ''int'' [] [])] (None \<noteq> (None :: planned_type option)))) [Builtin Basic_Int]"
    by (simp add: operatorParameters_def parameterTypes_def exampleItem_def List.map_filter_simps denotes_int)
  have none: "rel_option denotes None None" by simp
  show ?thesis using mangleOperator_same [OF ok l l none none] by simp
qed

text \<open>A name in the package \<open>scaly\<close> is mangled as its last part.\<close>

lemma mangle_package_name:
  assumes "plain_name n" "unlabelled T" "pt_Generics T = []" "pt_Name T = ''scaly.'' @ p @ n" "p = [] \<or> last p = CHR ''.''"
  shows "mangleType T = ''_Z'' @ encodeName n"
proof -
  let ?N = "''scaly.'' @ p @ n"
  obtain q where q: "?N = q @ CHR ''.'' # n"
    using assms(5) by (cases p rule: rev_cases) (auto simp: Cons_eq_append_conv)
  have "takeWhile (\<lambda>C. C \<noteq> CHR ''.'') (rev n @ CHR ''.'' # rev q) = rev n"
    using assms(1) by (subst takeWhile_append2) (auto simp: plain_name_def)
  then have "afterLastDot ?N = n" unfolding q afterLastDot_def by simp
  then have "stripPackagePrefix ?N = n" by (simp add: stripPackagePrefix_def)
  moreover have "builtinCode ?N = None" unfolding q by (rule builtinCode_None)
  moreover have "last ?N = last n" using assms(1) by (auto simp: plain_name_def ok_name_def)
  ultimately show ?thesis
    using assms(3,4) unlabelled_None [OF assms(2)] plain_last [OF assms(1)]
    by (simp add: mangleType_def) (subst encodeType.simps, simp)
qed

text \<open>A generic type with a qualified name is cut at the first dot, not the last, so that two types of
  one package get the same name.\<close>

lemma mangle_qualified_generics:
  "mangleType (bare ''scaly.containers.List'' [] [bare ''int'' [] []]) = ''_Z5scalyIiE''"
  "mangleType (bare ''scaly.containers.Vector'' [] [bare ''int'' [] []]) = ''_Z5scalyIiE''"
proof -
  have "encodeName ''scaly'' = ''5scaly''" by code_simp
  then show "mangleType (bare ''scaly.containers.List'' [] [bare ''int'' [] []]) = ''_Z5scalyIiE''"
    "mangleType (bare ''scaly.containers.Vector'' [] [bare ''int'' [] []]) = ''_Z5scalyIiE''"
    by (simp_all add: mangleType_def encodeType.simps usedMangledName_def builtinCode_def)
qed

end
