(* ===== verification/Planner_Scopes.thy ===== *)
theory Planner_Scopes
  imports Plan
begin

text \<open>
  The scopes of Planner.cpp: a stack of maps from the names of local variables to what is known of
  them, and beside it a stack of what the emitter has to know of each scope. The interface that the
  planner uses them through is the locale \<open>scoping\<close>; the abstract specification is a stack of
  environments, each with all the names that are visible.
\<close>

section \<open>Definitions\<close>

record local_binding =
  lb_Type :: planned_type
  lb_IsMutable :: bool
  lb_IsOnPage :: bool
  lb_IsParameter :: bool

text \<open>The last element of a vector is the innermost scope. An element of \<open>ScopeInfoStack\<close> is its
  \<open>HasLocalAllocations\<close>.\<close>

record scopes =
  Scopes :: "(string \<times> local_binding) list list"
  ScopeInfoStack :: "bool list"

definition pushScope :: "scopes \<Rightarrow> scopes" where
  "pushScope P = P\<lparr>Scopes := Scopes P @ [[]], ScopeInfoStack := ScopeInfoStack P @ [False]\<rparr>"

definition popScope :: "scopes \<Rightarrow> scopes" where
  "popScope P =
    (let P = (if Scopes P \<noteq> [] then P\<lparr>Scopes := butlast (Scopes P)\<rparr> else P) in
     if ScopeInfoStack P \<noteq> [] then P\<lparr>ScopeInfoStack := butlast (ScopeInfoStack P)\<rparr> else P)"

definition defineBinding :: "string \<Rightarrow> local_binding \<Rightarrow> scopes \<Rightarrow> scopes" where
  "defineBinding Name B P =
    (if Scopes P \<noteq> [] then P\<lparr>Scopes := butlast (Scopes P) @ [map_put Name B (last (Scopes P))]\<rparr> else P)"

definition defineLocal ::
    "string \<Rightarrow> planned_type \<Rightarrow> bool \<Rightarrow> bool \<Rightarrow> bool \<Rightarrow> scopes \<Rightarrow> scopes" where
  "defineLocal Name T IsMutable IsOnPage IsParameter P = defineBinding Name
     \<lparr>lb_Type = T, lb_IsMutable = IsMutable, lb_IsOnPage = IsOnPage, lb_IsParameter = IsParameter\<rparr> P"

definition defineParameter :: "string \<Rightarrow> planned_type \<Rightarrow> scopes \<Rightarrow> scopes" where
  "defineParameter Name T = defineLocal Name T False False True"

fun searchScopes :: "string \<Rightarrow> (string \<times> local_binding) list list \<Rightarrow> local_binding option" where
  "searchScopes Name [] = None"
| "searchScopes Name (It # Its) =
     (case map_of It Name of Some Found \<Rightarrow> Some Found | None \<Rightarrow> searchScopes Name Its)"

definition lookupLocalBinding :: "string \<Rightarrow> scopes \<Rightarrow> local_binding option" where
  "lookupLocalBinding Name P = searchScopes Name (rev (Scopes P))"

definition lookupLocal :: "string \<Rightarrow> scopes \<Rightarrow> planned_type option" where
  "lookupLocal Name P = map_option lb_Type (searchScopes Name (rev (Scopes P)))"

text \<open>What the planner does at each allocation with \<open>$\<close>.\<close>

definition noteLocalAllocation :: "scopes \<Rightarrow> scopes" where
  "noteLocalAllocation P =
    (if ScopeInfoStack P \<noteq> [] then P\<lparr>ScopeInfoStack := butlast (ScopeInfoStack P) @ [True]\<rparr> else P)"

section \<open>The interface\<close>

locale scoping =
  fixes enter :: "'s \<Rightarrow> 's" and leave :: "'s \<Rightarrow> 's"
    and bind :: "'n \<Rightarrow> 'b \<Rightarrow> 's \<Rightarrow> 's" and find :: "'n \<Rightarrow> 's \<Rightarrow> 'b option"
    and inside :: "'s \<Rightarrow> bool"
  assumes find_enter: "find n (enter s) = find n s"
    and find_bind: "inside s \<Longrightarrow> find n (bind m b s) = (if n = m then Some b else find n s)"
    and leave_enter: "leave (enter s) = s"
    and leave_bind: "leave (bind m b s) = leave s"
    and inside_enter: "inside (enter s)"
    and inside_bind: "inside (bind m b s) \<longleftrightarrow> inside s"
begin

definition bindAll :: "('n \<times> 'b) list \<Rightarrow> 's \<Rightarrow> 's" where
  "bindAll bs s = fold (\<lambda>(n, b). bind n b) bs s"

lemma bindAll_simps [simp]: "bindAll [] s = s" "bindAll (e # bs) s = bindAll bs (bind (fst e) (snd e) s)"
  by (simp_all add: bindAll_def split_beta)

lemma inside_bindAll [simp]: "inside (bindAll bs s) = inside s"
  by (induction bs arbitrary: s) (simp_all add: inside_bind)

lemma leave_bindAll: "leave (bindAll bs s) = leave s"
  by (induction bs arbitrary: s) (simp_all add: leave_bind)

lemma find_bindAll: "inside s \<Longrightarrow> find n (bindAll bs s) = (case map_of (rev bs) n of Some b \<Rightarrow> Some b | None \<Rightarrow> find n s)"
proof (induction bs arbitrary: s)
  case (Cons e bs)
  then show ?case
    by (cases e) (simp add: find_bind inside_bind map_add_def split: option.split)
qed simp

lemma block_restores: "leave (bindAll bs (enter s)) = s"
  by (simp add: leave_bindAll leave_enter)

lemma block_shadows:
  "find n (bindAll bs (enter s)) = (case map_of (rev bs) n of Some b \<Rightarrow> Some b | None \<Rightarrow> find n s)"
  by (simp add: find_bindAll inside_enter find_enter split: option.split)

end

interpretation scope: scoping pushScope popScope defineBinding lookupLocalBinding "\<lambda>P. Scopes P \<noteq> []"
proof
  fix n m :: string and b :: local_binding and P :: scopes
  show "lookupLocalBinding n (pushScope P) = lookupLocalBinding n P"
    by (simp add: lookupLocalBinding_def pushScope_def)
  show "popScope (pushScope P) = P" by (simp add: popScope_def pushScope_def)
  show "popScope (defineBinding m b P) = popScope P"
    by (cases P) (simp add: popScope_def defineBinding_def Let_def)
  show "Scopes (pushScope P) \<noteq> []" by (simp add: pushScope_def)
  show "Scopes (defineBinding m b P) \<noteq> [] \<longleftrightarrow> Scopes P \<noteq> []" by (simp add: defineBinding_def)
  assume "Scopes P \<noteq> []"
  then obtain Ss S where "Scopes P = Ss @ [S]" by (cases "Scopes P" rule: rev_cases) auto
  then show "lookupLocalBinding n (defineBinding m b P) = (if n = m then Some b else lookupLocalBinding n P)"
    by (simp add: lookupLocalBinding_def defineBinding_def)
qed

text \<open>C27. A block leaves the planner's scopes as they were before it, whatever it defined, and within it
  a name means its last definition in the block, or else what it meant outside.\<close>

theorem scope_block:
  "popScope (fold (\<lambda>(n, b). defineBinding n b) bs (pushScope P)) = P \<and>
   lookupLocalBinding n (fold (\<lambda>(n, b). defineBinding n b) bs (pushScope P)) =
     (case map_of (rev bs) n of Some b \<Rightarrow> Some b | None \<Rightarrow> lookupLocalBinding n P)"
  using scope.block_restores [of bs P] scope.block_shadows [of n bs P]
  by (simp add: scope.bindAll_def)

section \<open>The abstract specification\<close>

text \<open>A stack of environments, the innermost first, over the empty one that is always there.\<close>

type_synonym environments = "(string \<Rightarrow> local_binding option) list"

fun env_define :: "string \<Rightarrow> local_binding \<Rightarrow> environments \<Rightarrow> environments" where
  "env_define n b (E # F # Es) = E(n \<mapsto> b) # F # Es"
| "env_define n b Es = Es"

fun env_pop :: "environments \<Rightarrow> environments" where
  "env_pop (E # F # Es) = F # Es"
| "env_pop Es = Es"

fun env_push :: "environments \<Rightarrow> environments" where
  "env_push (E # Es) = E # E # Es"
| "env_push [] = []"

fun visible :: "(string \<times> local_binding) list list \<Rightarrow> environments" where
  "visible [] = [Map.empty]"
| "visible (S # Ss) = (hd (visible Ss) ++ map_of S) # visible Ss"

definition environments :: "scopes \<Rightarrow> environments" where
  "environments P = visible (rev (Scopes P))"

lemma visible_nonempty: "visible Ss \<noteq> []"
  by (cases Ss) simp_all

lemma visible_cons: "\<exists>E Es. visible Ss = E # Es"
  by (cases Ss) simp_all

lemma hd_visible: "hd (visible Ss) n = searchScopes n Ss"
  by (induction Ss) (simp_all add: map_add_def split: option.split)

text \<open>C28. The planner's scopes implement a stack of environments: each operation is the abstract one,
  and looking up a name, which searches the scopes one after the other, gives what the innermost
  environment has for it; without a scope, definitions and \<open>popScope\<close> do nothing.\<close>

theorem scopes_refine_environments:
  "environments (pushScope P) = env_push (environments P) \<and>
   environments (popScope P) = env_pop (environments P) \<and>
   environments (defineBinding n b P) = env_define n b (environments P) \<and>
   environments (noteLocalAllocation P) = environments P \<and>
   lookupLocalBinding m P = hd (environments P) m \<and>
   lookupLocal m P = map_option lb_Type (hd (environments P) m)"
proof (cases "Scopes P" rule: rev_cases)
  case Nil
  then show ?thesis
    by (simp add: environments_def pushScope_def popScope_def defineBinding_def lookupLocalBinding_def
        lookupLocal_def noteLocalAllocation_def Let_def)
next
  case (snoc Ss S)
  obtain E Es where "visible (rev Ss) = E # Es" using visible_cons by blast
  with snoc show ?thesis
    using hd_visible [of "rev Ss"]
    by (auto simp: environments_def pushScope_def popScope_def defineBinding_def lookupLocalBinding_def
        lookupLocal_def noteLocalAllocation_def Let_def map_add_def fun_eq_iff split: option.split)
qed

end
