(* ===== verification/Planner_Types.thy ===== *)
theory Planner_Types
  imports Plan Modeler
begin

text \<open>
  The utilities of Planner.cpp on types, lifetimes and characters: which types count as equal and
  which values are passed where another type is expected, which values die with the local page of a
  function, and the single character that a string literal may stand for.
\<close>

unbundle bit_operations_syntax

section \<open>Lifetimes\<close>

definition isOnPageLifetime :: "lifetime \<Rightarrow> bool" where
  "isOnPageLifetime Life = (case Life of UnspecifiedLifetime \<Rightarrow> False | _ \<Rightarrow> True)"

definition isLocalLifetime :: "lifetime \<Rightarrow> bool" where
  "isLocalLifetime Life = (case Life of LocalLifetime _ \<Rightarrow> True | _ \<Rightarrow> False)"

definition isReferenceToLocalPage :: "planned_type \<Rightarrow> bool" where
  "isReferenceToLocalPage T =
     (if isLocalLifetime (pt_Life T) then True
      else if \<not> (pt_Name T = ''pointer'' \<or> pt_Name T = ''ref'') then False
      else (case pt_Generics T of [] \<Rightarrow> False | G # _ \<Rightarrow> isLocalLifetime (pt_Life G)))"

definition stampValueResultLifetime :: "planned_type \<Rightarrow> lifetime \<Rightarrow> planned_type" where
  "stampValueResultLifetime RT L = (if isOnPageLifetime L then set_Life L RT else RT)"

definition resultOwnsPageGuts :: "planned_type \<Rightarrow> bool" where
  "resultOwnsPageGuts T =
     (if pt_Name T = ''pointer'' \<or> pt_Name T = ''ref'' then False
      else if take 4 (pt_Name T) = ''LLVM'' then False
      else if pt_Name T = ''Option'' then
        (case pt_Generics T of [] \<Rightarrow> True | G # _ \<Rightarrow> \<not> (pt_Name G = ''pointer'' \<or> pt_Name G = ''ref''))
      else True)"

definition defaultCallLifeToLocal :: "lifetime \<Rightarrow> planned_type \<Rightarrow> lifetime" where
  "defaultCallLifeToLocal L RT =
     (if \<not> isOnPageLifetime L \<and> resultOwnsPageGuts RT then LocalLifetime (Span 0 0) else L)"

section \<open>Characters\<close>

text \<open>The code works on \<open>unsigned char\<close>s promoted to \<open>int\<close>; \<open>-1\<close> stands for no character.\<close>

definition decodeUtf8ToCodePoint :: "string \<Rightarrow> int" where
  "decodeUtf8ToCodePoint Str =
    (let s = map of_char Str :: nat list; len = length s;
         one = (\<lambda>charLen codePoint. if charLen \<noteq> len then -1 else int codePoint) in
     if Str = [] then -1
     else if s ! 0 AND 0x80 = 0 then one 1 (s ! 0)
     else if s ! 0 AND 0xE0 = 0xC0 \<and> 2 \<le> len then
       if s ! 1 AND 0xC0 \<noteq> 0x80 then -1
       else
         (let codePoint = push_bit 6 (s ! 0 AND 0x1F) OR (s ! 1 AND 0x3F) in
          if codePoint < 0x80 then -1 else one 2 codePoint)
     else if s ! 0 AND 0xF0 = 0xE0 \<and> 3 \<le> len then
       if s ! 1 AND 0xC0 \<noteq> 0x80 \<or> s ! 2 AND 0xC0 \<noteq> 0x80 then -1
       else
         (let codePoint = push_bit 12 (s ! 0 AND 0x0F) OR push_bit 6 (s ! 1 AND 0x3F) OR (s ! 2 AND 0x3F) in
          if codePoint < 0x800 then -1 else one 3 codePoint)
     else if s ! 0 AND 0xF8 = 0xF0 \<and> 4 \<le> len then
       if s ! 1 AND 0xC0 \<noteq> 0x80 \<or> s ! 2 AND 0xC0 \<noteq> 0x80 \<or> s ! 3 AND 0xC0 \<noteq> 0x80 then -1
       else
         (let codePoint = push_bit 18 (s ! 0 AND 0x07) OR push_bit 12 (s ! 1 AND 0x3F) OR
            push_bit 6 (s ! 2 AND 0x3F) OR (s ! 3 AND 0x3F) in
          if codePoint < 0x10000 \<or> codePoint > 0x10FFFF then -1 else one 4 codePoint)
     else -1)"

section \<open>Types\<close>

text \<open>Strings joined with a separator.\<close>

fun joined :: "string \<Rightarrow> string list \<Rightarrow> string" where
  "joined Sep [] = []"
| "joined Sep [s] = s"
| "joined Sep (s # t # ss) = s @ Sep @ joined Sep (t # ss)"

fun getReadableName :: "planned_type \<Rightarrow> string" where
  "getReadableName (PlannedType l n m Generics lt og a v) =
     (if Generics = [] then n else n @ ''['' @ joined '', '' (map getReadableName Generics) @ '']'')"

definition lastComponent :: "string \<Rightarrow> string" where
  "lastComponent Name = (if take 6 Name = ''scaly.''
     then rev (takeWhile (\<lambda>C. C \<noteq> CHR ''.'') (rev Name)) else Name)"

definition normalizeTypeName :: "string \<Rightarrow> string" where
  "normalizeTypeName Name =
    (let Name = lastComponent Name in
     if Name = ''int'' \<or> Name = ''i64'' then ''i64''
     else if Name = ''i32'' then ''i32''
     else if Name = ''i16'' then ''i16''
     else if Name = ''i8'' then ''i8''
     else if Name = ''size_t'' \<or> Name = ''size'' \<or> Name = ''u64'' \<or> Name = ''usize'' then ''u64''
     else if Name = ''u32'' then ''u32''
     else if Name = ''u16'' then ''u16''
     else if Name = ''u8'' \<or> Name = ''char'' then ''u8''
     else if Name = ''double'' \<or> Name = ''f64'' then ''f64''
     else if Name = ''float'' \<or> Name = ''f32'' then ''f32''
     else Name)"

fun typesEqual :: "planned_type \<Rightarrow> planned_type \<Rightarrow> bool" where
  "typesEqual (PlannedType l n m Generics lt og a v) B \<longleftrightarrow>
     normalizeTypeName n = normalizeTypeName (pt_Name B) \<and>
     list_all2 typesEqual Generics (pt_Generics B)"

definition isIntegerType :: "string \<Rightarrow> bool" where
  "isIntegerType Normalized \<longleftrightarrow> Normalized \<in> set [''i64'', ''i32'', ''i16'', ''i8'', ''u64'', ''u32'',
     ''u16'', ''u8'', ''size_t'', ''int'', ''uint'', ''char'']"

text \<open>Whether a pointer to characters of one kind may be passed for a pointer to another.\<close>

definition charPointersCompatible :: "string \<Rightarrow> string \<Rightarrow> bool" where
  "charPointersCompatible P A \<longleftrightarrow>
     P = ''const_char'' \<and> A = ''i8'' \<or> P = ''i8'' \<and> A = ''const_char'' \<or>
     P = ''const_char'' \<and> A = ''char'' \<or>
     P = ''char'' \<and> A = ''i8'' \<or> P = ''i8'' \<and> A = ''char'' \<or>
     (P = ''u8'' \<or> A = ''u8'') \<and>
       (if P = ''u8'' then A else P) \<in> set [''char'', ''const_char'', ''i8'', ''u8'']"

definition typesCompatible :: "planned_type \<Rightarrow> planned_type \<Rightarrow> bool" where
  "typesCompatible ParamType ArgType \<longleftrightarrow>
     (let P = pt_Name ParamType; A = pt_Name ArgType in
      typesEqual ParamType ArgType \<or>
      isIntegerType (normalizeTypeName P) \<and> isIntegerType (normalizeTypeName A) \<or>
      (case pt_Generics ArgType of [] \<Rightarrow> False | G # _ \<Rightarrow>
        (A = ''pointer'' \<and> typesEqual ParamType G) \<or>
        (A = ''ref'' \<and> typesEqual ParamType G) \<or>
        (case pt_Generics ParamType of [] \<Rightarrow> False | H # _ \<Rightarrow>
          P = ''pointer'' \<and> A = ''pointer'' \<and> charPointersCompatible (pt_Name H) (pt_Name G))) \<or>
      (case pt_Generics ParamType of [] \<Rightarrow> False | H # _ \<Rightarrow>
        P = ''pointer'' \<and> A = ''pointer'' \<and> pt_Name H = ''void'') \<or>
      (case pt_Generics ArgType of [] \<Rightarrow> False | G # _ \<Rightarrow>
        (P = ''Option'' \<or> take 7 P = ''Option.'') \<and> A = ''pointer'' \<and> pt_Name G = ''void''))"

definition needsImplicitReturnPage :: "function_m \<Rightarrow> bool" where
  "needsImplicitReturnPage F =
    (if fn_PageParameter F \<noteq> None then False
     else (case fn_Impl F of Impl_Extern _ \<Rightarrow> False | _ \<Rightarrow>
      (case fn_Returns F of None \<Rightarrow> False | Some (Type l Name g lt) \<Rightarrow>
        (let RetName = fold (\<lambda>Part RetName. (if RetName = [] then [] else RetName @ ''.'') @ Part) Name [] in
         if RetName = [] then False
         else if RetName \<in> set [''void'', ''bool'', ''int'', ''uint'', ''char'',
           ''i8'', ''i16'', ''i32'', ''i64'', ''u8'', ''u16'', ''u32'', ''u64'',
           ''f32'', ''f64'', ''float'', ''double'', ''size_t'', ''size'', ''pointer'', ''ref''] then False
         else if length RetName = 1 \<and> CHR ''A'' \<le> hd RetName \<and> hd RetName \<le> CHR ''Z'' then False
         else True))))"

section \<open>Equality of types\<close>

text \<open>What \<open>typesEqual\<close> looks at: names in their canonical form, in the shape of the type.\<close>

datatype shape = Shape string "shape list"

fun shapeOf :: "planned_type \<Rightarrow> shape" where
  "shapeOf (PlannedType l n m Generics lt og a v) = Shape (normalizeTypeName n) (map shapeOf Generics)"

lemma typesEqual_shape: "typesEqual A B \<longleftrightarrow> shapeOf A = shapeOf B"
proof (induction A arbitrary: B)
  case (PlannedType l n m Generics lt og a v)
  have "list_all2 typesEqual Generics Bs \<longleftrightarrow> map shapeOf Generics = map shapeOf Bs" for Bs
    using PlannedType
  proof (induction Generics arbitrary: Bs)
    case (Cons G Gs)
    then show ?case by (cases Bs) auto
  qed (cases Bs; simp)
  then show ?case by (cases B) simp
qed

text \<open>\<open>typesEqual\<close> is an equivalence relation.\<close>

theorem typesEqual_equivalence: "equivp typesEqual"
  by (rule equivpI) (auto simp: reflp_def symp_def transp_def typesEqual_shape)

section \<open>A single character\<close>

text \<open>UTF-8 for all code points, where \<open>utf8\<close> of the modeler has those below \<open>0x10000\<close>.\<close>

definition encoding :: "nat \<Rightarrow> nat list" where
  "encoding c =
     (if c < 0x80 then [c]
      else if c < 0x800 then [0xC0 + c div 0x40, 0x80 + c mod 0x40]
      else if c < 0x10000 then [0xE0 + c div 0x1000, 0x80 + c div 0x40 mod 0x40, 0x80 + c mod 0x40]
      else [0xF0 + c div 0x40000, 0x80 + c div 0x1000 mod 0x40, 0x80 + c div 0x40 mod 0x40, 0x80 + c mod 0x40])"

lemma utf8_encoding: "c < 0x10000 \<Longrightarrow> utf8 c = map char_of (encoding c)"
  by (simp add: utf8_def encoding_def)

lemma and_low: "(n::nat) AND mask k = n mod 2 ^ k"
  by (simp add: take_bit_eq_mod flip: take_bit_eq_mask)

lemma and_high: "(n::nat) AND push_bit k (mask m) = n div 2 ^ k mod 2 ^ m * 2 ^ k"
proof -
  have "n AND push_bit k (mask m) = push_bit k (take_bit m (drop_bit k n))"
    by (rule bit_eqI) (auto simp: bit_simps)
  then show ?thesis by (simp add: push_bit_eq_mult take_bit_eq_mod drop_bit_eq_div)
qed

lemma and_masks:
  fixes n :: nat
  shows "n AND 0x1F = n mod 0x20" "n AND 0x0F = n mod 0x10" "n AND 0x07 = n mod 8" "n AND 0x3F = n mod 0x40"
    "n AND 0x80 = n div 0x80 mod 2 * 0x80" "n AND 0xC0 = n div 0x40 mod 4 * 0x40"
    "n AND 0xE0 = n div 0x20 mod 8 * 0x20" "n AND 0xF0 = n div 0x10 mod 0x10 * 0x10"
    "n AND 0xF8 = n div 8 mod 0x20 * 8"
  using and_low [of n 5] and_low [of n 4] and_low [of n 3] and_low [of n 6]
    and_high [of n 7 1] and_high [of n 6 2] and_high [of n 5 3] and_high [of n 4 4] and_high [of n 3 5]
  by (simp_all add: mask_eq_exp_minus_1 push_bit_eq_mult)

lemma or_disjoint: "(b::nat) < 2 ^ k \<Longrightarrow> push_bit k a OR b = a * 2 ^ k + b"
proof -
  assume "b < 2 ^ k"
  then have b: "take_bit k b = b" by (simp add: take_bit_nat_eq_self)
  have "push_bit k a + take_bit k b = push_bit k a OR take_bit k b"
    by (rule disjunctive_add_eq_or, rule bit_eqI) (auto simp: bit_simps)
  then show ?thesis by (simp add: b push_bit_eq_mult)
qed

text \<open>The bytes that the masks select, as numbers.\<close>

lemma div_range: "0 < k \<Longrightarrow> (n::nat) div k = q \<longleftrightarrow> q * k \<le> n \<and> n < Suc q * k"
  using dividend_less_times_div [of k n] times_div_less_eq_dividend [of k n]
  by (auto simp: algebra_simps intro: div_nat_eqI)

lemma mod_range: "(q::nat) * k \<le> n \<Longrightarrow> n < Suc q * k \<Longrightarrow> n mod k = n - q * k"
  using div_range [of k n q] by (metis minus_div_mult_eq_mod mult_0_right not_less0 neq0_conv)

lemma masked: "0 < k \<Longrightarrow> (n::nat) < m * k \<Longrightarrow> n div k mod m * k = q * k \<longleftrightarrow> q * k \<le> n \<and> n < Suc q * k"
  using div_range [of k n q] by (simp add: less_mult_imp_div_less)

lemma leading:
  fixes n :: nat
  assumes "n < 256"
  shows "n AND 0x80 = 0 \<longleftrightarrow> n < 0x80"
    "n AND 0xE0 = 0xC0 \<longleftrightarrow> 0xC0 \<le> n \<and> n < 0xE0"
    "n AND 0xF0 = 0xE0 \<longleftrightarrow> 0xE0 \<le> n \<and> n < 0xF0"
    "n AND 0xF8 = 0xF0 \<longleftrightarrow> 0xF0 \<le> n \<and> n < 0xF8"
    "n AND 0xC0 = 0x80 \<longleftrightarrow> 0x80 \<le> n \<and> n < 0xC0"
  unfolding and_masks
  using masked [of "0x80" n 2 0] masked [of "0x20" n 8 6] masked [of "0x10" n "0x10" 14] masked [of 8 n "0x20" 30]
    masked [of "0x40" n 4 2] assms
  by simp_all

lemma low_part:
  fixes n :: nat
  shows "0xC0 \<le> n \<and> n < 0xE0 \<Longrightarrow> n AND 0x1F = n - 0xC0" "0xE0 \<le> n \<and> n < 0xF0 \<Longrightarrow> n AND 0x0F = n - 0xE0"
    "0xF0 \<le> n \<and> n < 0xF8 \<Longrightarrow> n AND 0x07 = n - 0xF0" "0x80 \<le> n \<and> n < 0xC0 \<Longrightarrow> n AND 0x3F = n - 0x80"
  unfolding and_masks
  using mod_range [of 6 "0x20" n] mod_range [of 14 "0x10" n] mod_range [of 30 8 n] mod_range [of 2 "0x40" n]
  by simp_all

lemma composed:
  fixes x y z t :: nat
  assumes "y < 0x40" "z < 0x40" "t < 0x40"
  shows "push_bit 6 x OR y = x * 0x40 + y"
    "push_bit 12 x OR push_bit 6 y OR z = (x * 0x40 + y) * 0x40 + z"
    "push_bit 18 x OR push_bit 12 y OR push_bit 6 z OR t = ((x * 0x40 + y) * 0x40 + z) * 0x40 + t"
proof -
  have 1: "push_bit 6 a OR b = a * 0x40 + b" if "b < 0x40" for a b :: nat
    using or_disjoint [of b 6 a] that by simp
  show "push_bit 6 x OR y = x * 0x40 + y" by (rule 1 [OF assms(1)])
  have 2: "push_bit 12 a OR push_bit 6 b OR c = (a * 0x40 + b) * 0x40 + c" if "b < 0x40" "c < 0x40" for a b c :: nat
  proof -
    have "push_bit 12 a OR push_bit 6 b OR c = push_bit 6 (push_bit 6 a OR b) OR c"
      by (simp add: push_bit_or or.assoc)
    then show ?thesis using 1 [OF that(1), of a] 1 [OF that(2), of "a * 0x40 + b"] by simp
  qed
  show "push_bit 12 x OR push_bit 6 y OR z = (x * 0x40 + y) * 0x40 + z" by (rule 2 [OF assms(1,2)])
  have "push_bit 18 x OR push_bit 12 y OR push_bit 6 z OR t = push_bit 6 (push_bit 12 x OR push_bit 6 y OR z) OR t"
    by (simp add: push_bit_or or.assoc)
  then show "push_bit 18 x OR push_bit 12 y OR push_bit 6 z OR t = ((x * 0x40 + y) * 0x40 + z) * 0x40 + t"
    using 2 [OF assms(1,2), of x] 1 [OF assms(3)] by simp
qed

lemma digits_64:
  fixes x y z t :: nat
  assumes "y < 0x40" "z < 0x40" "t < 0x40"
  shows "(x * 0x40 + y) div 0x40 = x" "(x * 0x40 + y) mod 0x40 = y"
    "((x * 0x40 + y) * 0x40 + z) div 0x1000 = x"
    "(((x * 0x40 + y) * 0x40 + z) * 0x40 + t) div 0x40000 = x"
    "(((x * 0x40 + y) * 0x40 + z) * 0x40 + t) div 0x1000 = x * 0x40 + y"
proof -
  have d: "(a * 0x40 + b) div 0x40 = a" if "b < 0x40" for a b :: nat using that by simp
  have "n div 0x1000 = n div 0x40 div 0x40" "n div 0x40000 = n div 0x40 div 0x40 div 0x40" for n :: nat
    by (simp_all flip: div_mult2_eq)
  then show "((x * 0x40 + y) * 0x40 + z) div 0x1000 = x"
    "(((x * 0x40 + y) * 0x40 + z) * 0x40 + t) div 0x40000 = x"
    "(((x * 0x40 + y) * 0x40 + z) * 0x40 + t) div 0x1000 = x * 0x40 + y"
    by (simp_all only: d [OF assms(1)] d [OF assms(2)] d [OF assms(3)])
qed (use assms in simp_all)

fun codePointOf :: "nat list \<Rightarrow> nat option" where
  "codePointOf [a] = (if a < 0x80 then Some a else None)"
| "codePointOf [a, b] =
     (let n = (a - 0xC0) * 0x40 + (b - 0x80) in
      if 0xC0 \<le> a \<and> a < 0xE0 \<and> 0x80 \<le> b \<and> b < 0xC0 \<and> 0x80 \<le> n then Some n else None)"
| "codePointOf [a, b, c] =
     (let n = ((a - 0xE0) * 0x40 + (b - 0x80)) * 0x40 + (c - 0x80) in
      if 0xE0 \<le> a \<and> a < 0xF0 \<and> 0x80 \<le> b \<and> b < 0xC0 \<and> 0x80 \<le> c \<and> c < 0xC0 \<and> 0x800 \<le> n
      then Some n else None)"
| "codePointOf [a, b, c, d] =
     (let n = (((a - 0xF0) * 0x40 + (b - 0x80)) * 0x40 + (c - 0x80)) * 0x40 + (d - 0x80) in
      if 0xF0 \<le> a \<and> a < 0xF8 \<and> 0x80 \<le> b \<and> b < 0xC0 \<and> 0x80 \<le> c \<and> c < 0xC0 \<and> 0x80 \<le> d \<and> d < 0xC0 \<and>
        0x10000 \<le> n \<and> n \<le> 0x10FFFF
      then Some n else None)"
| "codePointOf _ = None"

lemma by_64: "(n::nat) = n div 0x40 * 0x40 + n mod 0x40"
    "n = (n div 0x1000 * 0x40 + n div 0x40 mod 0x40) * 0x40 + n mod 0x40"
    "n = ((n div 0x40000 * 0x40 + n div 0x1000 mod 0x40) * 0x40 + n div 0x40 mod 0x40) * 0x40 + n mod 0x40"
proof -
  have 4: "n div 0x1000 = n div 0x40 div 0x40" "n div 0x40000 = n div 0x40 div 0x40 div 0x40"
    by (simp_all flip: div_mult2_eq)
  show "n = n div 0x40 * 0x40 + n mod 0x40" by (rule div_mult_mod_eq [symmetric])
  show "n = (n div 0x1000 * 0x40 + n div 0x40 mod 0x40) * 0x40 + n mod 0x40"
    by (simp only: 4 div_mult_mod_eq)
  show "n = ((n div 0x40000 * 0x40 + n div 0x1000 mod 0x40) * 0x40 + n div 0x40 mod 0x40) * 0x40 + n mod 0x40"
    by (simp only: 4 div_mult_mod_eq)
qed

lemma codePointOf_encoding:
  assumes "n \<le> 0x10FFFF"
  shows "codePointOf (encoding n) = Some n"
proof -
  consider "n < 0x80" | "0x80 \<le> n" "n < 0x800" | "0x800 \<le> n" "n < 0x10000" | "0x10000 \<le> n" by linarith
  then show ?thesis
  proof cases
    case 1
    then show ?thesis by (simp add: encoding_def)
  next
    case 2
    then have "n div 0x40 < 0x20" by (simp add: less_mult_imp_div_less)
    with 2 show ?thesis using by_64(1) [of n] by (simp add: encoding_def)
  next
    case 3
    then have "n div 0x1000 < 0x10" by (simp add: less_mult_imp_div_less)
    with 3 show ?thesis using by_64(2) [of n] by (simp add: encoding_def)
  next
    case 4
    then have "n div 0x40000 < 8" using assms by (simp add: less_mult_imp_div_less)
    with 4 assms show ?thesis using by_64(3) [of n] by (simp add: encoding_def)
  qed
qed

lemma codePointOf_Some:
  assumes "codePointOf s = Some n"
  shows "n \<le> 0x10FFFF \<and> s = encoding n"
proof (cases s rule: codePointOf.cases)
  case (1 a)
  with assms show ?thesis by (simp add: encoding_def split: if_splits)
next
  case (2 a b)
  define x y where xy: "x = a - 0xC0" "y = b - 0x80"
  with assms 2 have "a = 0xC0 + x" "b = 0x80 + y" "y < 0x40" "x < 0x20" "n = x * 0x40 + y" "0x80 \<le> n"
    by (auto simp: Let_def split: if_splits)
  then show ?thesis by (simp add: encoding_def 2)
next
  case (3 a b c)
  define x y z where xy: "x = a - 0xE0" "y = b - 0x80" "z = c - 0x80"
  with assms 3 have v: "a = 0xE0 + x" "b = 0x80 + y" "c = 0x80 + z" "y < 0x40" "z < 0x40" "x < 0x10"
    "n = (x * 0x40 + y) * 0x40 + z" "0x800 \<le> n"
    by (auto simp: Let_def split: if_splits)
  moreover have "n < 0x10000"
  proof -
    have "x \<le> 15" "y \<le> 63" "z \<le> 63" using v by simp_all
    then show ?thesis unfolding v(7) by simp
  qed
  moreover have "n div 0x1000 = x" "n div 0x40 = x * 0x40 + y" "n mod 0x40 = z"
    using digits_64(3) [of y z 0 x] digits_64(1,2) [of z 0 0 "x * 0x40 + y"] v by simp_all
  ultimately show ?thesis using digits_64(2) [of y 0 0 x] by (simp add: encoding_def 3 del: div_mult_self3 mod_mult_self3)
next
  case (4 a b c d)
  define x y z t where xy: "x = a - 0xF0" "y = b - 0x80" "z = c - 0x80" "t = d - 0x80"
  have c: "(if 0xF0 \<le> a \<and> a < 0xF8 \<and> 0x80 \<le> b \<and> b < 0xC0 \<and> 0x80 \<le> c \<and> c < 0xC0 \<and> 0x80 \<le> d \<and> d < 0xC0 \<and>
      0x10000 \<le> ((x * 0x40 + y) * 0x40 + z) * 0x40 + t \<and> ((x * 0x40 + y) * 0x40 + z) * 0x40 + t \<le> 0x10FFFF
      then Some (((x * 0x40 + y) * 0x40 + z) * 0x40 + t) else None) = Some n" (is "(if ?c then _ else _) = _")
    using assms unfolding 4 codePointOf.simps Let_def xy .
  then have n: ?c "n = ((x * 0x40 + y) * 0x40 + z) * 0x40 + t"
    by (metis option.distinct(1), metis option.distinct(1) option.inject)
  have "a = 0xF0 + x" "b = 0x80 + y" "c = 0x80 + z" "d = 0x80 + t" "y < 0x40" "z < 0x40" "t < 0x40"
    using n(1) xy by linarith+
  moreover have "0x10000 \<le> n" "n \<le> 0x10FFFF" using n by blast+
  moreover note n(2)
  ultimately have v: "a = 0xF0 + x" "b = 0x80 + y" "c = 0x80 + z" "d = 0x80 + t" "y < 0x40" "z < 0x40" "t < 0x40"
    "n = ((x * 0x40 + y) * 0x40 + z) * 0x40 + t" "0x10000 \<le> n" "n \<le> 0x10FFFF" by blast+
  have "n div 0x40000 = x" "n div 0x1000 = x * 0x40 + y" "n div 0x40 = (x * 0x40 + y) * 0x40 + z" "n mod 0x40 = t"
    using digits_64(4,5) [of y z t x] digits_64(1,2) [of t 0 0 "(x * 0x40 + y) * 0x40 + z"] v by simp_all
  then show ?thesis
    using v digits_64(2) [of y 0 0 x] digits_64(2) [of z 0 0 "x * 0x40 + y"] by (simp add: encoding_def 4)
qed (use assms in simp_all)

definition decodeBytes :: "nat list \<Rightarrow> int" where
  "decodeBytes s = (case codePointOf s of Some n \<Rightarrow> int n | None \<Rightarrow> -1)"

lemma decode_codePointOf: "decodeUtf8ToCodePoint Str = decodeBytes (map of_char Str)"
proof -
  define s where "s = (map of_char Str :: nat list)"
  have bytes: "\<forall>b\<in>set s. b < 256" by (auto simp: s_def)
  have Str: "Str = [] \<longleftrightarrow> s = []" by (simp add: s_def)
  note decode = decodeUtf8ToCodePoint_def [of Str, unfolded Str, folded s_def]
  have "decodeUtf8ToCodePoint Str = decodeBytes s"
  proof (cases s rule: codePointOf.cases)
    case (1 a)
    then show ?thesis using bytes leading [of a] by (simp add: decode decodeBytes_def)
  next
    case (2 a b)
    then have ab: "a < 256" "b < 256" using bytes by simp_all
    note masks = leading [OF ab(1)] leading [OF ab(2)]
    show ?thesis
    proof (cases "0xC0 \<le> a \<and> a < 0xE0 \<and> 0x80 \<le> b \<and> b < 0xC0")
      case True
      then have "b - 0x80 < 0x40" by linarith
      with True show ?thesis
        unfolding decode by (simp add: 2 decodeBytes_def masks low_part composed(1) Let_def)
    next
      case False
      then show ?thesis unfolding decode by (auto simp: 2 decodeBytes_def masks Let_def)
    qed
  next
    case (3 a b c)
    then have abc: "a < 256" "b < 256" "c < 256" using bytes by simp_all
    note masks = leading [OF abc(1)] leading [OF abc(2)] leading [OF abc(3)]
    show ?thesis
    proof (cases "0xE0 \<le> a \<and> a < 0xF0 \<and> 0x80 \<le> b \<and> b < 0xC0 \<and> 0x80 \<le> c \<and> c < 0xC0")
      case True
      then have "b - 0x80 < 0x40" "c - 0x80 < 0x40" by linarith+
      with True show ?thesis
        unfolding decode by (simp add: 3 decodeBytes_def masks low_part composed(2) Let_def)
    next
      case False
      then show ?thesis unfolding decode by (auto simp: 3 decodeBytes_def masks Let_def)
    qed
  next
    case (4 a b c d)
    then have abcd: "a < 256" "b < 256" "c < 256" "d < 256" using bytes by simp_all
    note masks = leading [OF abcd(1)] leading [OF abcd(2)] leading [OF abcd(3)] leading [OF abcd(4)]
    show ?thesis
    proof (cases "0xF0 \<le> a \<and> a < 0xF8 \<and> 0x80 \<le> b \<and> b < 0xC0 \<and> 0x80 \<le> c \<and> c < 0xC0 \<and> 0x80 \<le> d \<and> d < 0xC0")
      case True
      define x y z t where xyzt: "x = a - 0xF0" "y = b - 0x80" "z = c - 0x80" "t = d - 0x80"
      define n where "n = ((x * 0x40 + y) * 0x40 + z) * 0x40 + t"
      have "y < 0x40" "z < 0x40" "t < 0x40" using True xyzt by linarith+
      then have n: "push_bit 18 x OR push_bit 12 y OR push_bit 6 z OR t = n" by (simp add: composed(3) n_def)
      have low: "a AND 0x07 = x" "b AND 0x3F = y" "c AND 0x3F = z" "d AND 0x3F = t"
        using True by (simp_all add: low_part xyzt)
      have lead: "\<not> a < 0x80" "\<not> a < 0xE0" "\<not> a < 0xF0" "0xF0 \<le> a" "a < 0xF8" "0x80 \<le> b" "b < 0xC0"
        "0x80 \<le> c" "c < 0xC0" "0x80 \<le> d" "d < 0xC0"
        using True by simp_all
      have "decodeBytes s = (if 0x10000 \<le> n \<and> n \<le> 0x10FFFF then int n else -1)"
        unfolding decodeBytes_def 4 codePointOf.simps Let_def xyzt [symmetric] n_def [symmetric]
        by (simp add: lead)
      moreover have "decodeUtf8ToCodePoint Str = (if n < 0x10000 \<or> n > 0x10FFFF then -1 else int n)"
        unfolding decode by (simp add: 4 masks lead low n Let_def)
      ultimately show ?thesis by (simp add: not_less)
    next
      case False
      then have "codePointOf s = None" unfolding 4 codePointOf.simps Let_def by (intro if_not_P) blast
      moreover have "decodeUtf8ToCodePoint Str = -1"
      proof (cases "0xF0 \<le> a \<and> a < 0xF8")
        case True
        then have "\<not> a < 0x80" "\<not> a < 0xE0" "\<not> a < 0xF0" "0xF0 \<le> a" "a < 0xF8" by simp_all
        moreover have "b AND 0xC0 \<noteq> 0x80 \<or> c AND 0xC0 \<noteq> 0x80 \<or> d AND 0xC0 \<noteq> 0x80"
          using False True masks(10,15,20) by blast
        ultimately show ?thesis unfolding decode by (simp add: 4 leading [OF abcd(1)] Let_def)
      next
        case False
        then show ?thesis
          unfolding decode by (cases "0xF0 \<le> a") (simp_all add: 4 leading [OF abcd(1)] Let_def)
      qed
      ultimately show ?thesis by (simp add: decodeBytes_def)
    qed
  next
    case "5_2"
    then show ?thesis unfolding decode by (auto simp: decodeBytes_def Let_def)
  qed (simp_all add: decode decodeBytes_def)
  then show ?thesis by (simp add: s_def)
qed

text \<open>C26. \<open>decodeUtf8ToCodePoint\<close> gives a code point exactly for its encoding in UTF-8, the shortest one,
  and -1 for every other string; the code points are those up to \<open>0x10FFFF\<close>, surrogates among
  them.\<close>

theorem decodeUtf8_correct:
  "(\<forall>n. decodeUtf8ToCodePoint Str = int n \<longleftrightarrow> n \<le> 0x10FFFF \<and> map of_char Str = encoding n) \<and>
   (decodeUtf8ToCodePoint Str = -1 \<longleftrightarrow> (\<nexists>n. n \<le> 0x10FFFF \<and> map of_char Str = encoding n))"
  using codePointOf_Some [of "map of_char Str"] codePointOf_encoding
  by (auto simp: decode_codePointOf decodeBytes_def split: option.splits)

end
