(* ===== verification/Planner_Escape.thy ===== *)
theory Planner_Escape
  imports Planner_Types
begin

text \<open>
  The escape checker of Planner.cpp (\<open>checkInterproceduralEscapes\<close>): a walk over all planned functions
  that finds out which parameters they store beyond their frame, and a second one that finds the
  calls that pass a reference to the local page for such a parameter. The walk is stated with the
  state that the planner keeps for it; the theorems say what it computes.
\<close>

section \<open>The state\<close>

text \<open>A set of strings is a list without repetitions.\<close>

record escape =
  EscapeSummary :: "(string \<times> (string \<times> string list) list) list"
  CalleeParamNames :: "(string \<times> string list) list"
  EscapeWalkMode :: int
  EscapeFnParams :: "string list"
  EscapeFnMangled :: string
  EscapeCurrentFile :: string
  EscapeFound :: bool
  EscapeLoc :: span
  EscapeFile :: string

definition initialEscape :: escape where
  "initialEscape = \<lparr>EscapeSummary = [], CalleeParamNames = [], EscapeWalkMode = 0, EscapeFnParams = [],
     EscapeFnMangled = [], EscapeCurrentFile = [], EscapeFound = False, EscapeLoc = Span 0 0, EscapeFile = []\<rparr>"

definition isReferenceLikeType :: "planned_type \<Rightarrow> bool" where
  "isReferenceLikeType T \<longleftrightarrow> pt_Name T = ''pointer'' \<or> pt_Name T = ''ref''"

definition escapeRegisterParams :: "string \<Rightarrow> planned_item list \<Rightarrow> escape \<Rightarrow> escape" where
  "escapeRegisterParams Mangled Input P =
     (let Names = map (\<lambda>I. case it_Name I of Some n \<Rightarrow> n | None \<Rightarrow> []) Input in
      P\<lparr>CalleeParamNames := map_put Mangled Names (CalleeParamNames P)\<rparr>)"

section \<open>Calls and stores\<close>

definition outlivesFrame :: "lifetime \<Rightarrow> bool" where
  "outlivesFrame L = (case L of CallLifetime _ \<Rightarrow> True | ReferenceLifetime _ _ \<Rightarrow> True | _ \<Rightarrow> False)"

definition escapeDestArgOutlives :: "planned_operand \<Rightarrow> escape \<Rightarrow> bool" where
  "escapeDestArgOutlives Op P = (case po_Expr Op of
     PExpr_Variable V \<Rightarrow>
       if va_Name V \<in> set (EscapeFnParams P) then True
       else if outlivesFrame (pt_Life (po_ResultType Op)) then True
       else if outlivesFrame (pt_Life (va_Type V)) then True
       else False
   | PExpr_GlobalRef _ \<Rightarrow> True
   | _ \<Rightarrow> False)"

definition hasMember :: "planned_operand \<Rightarrow> bool" where
  "hasMember Op = (case po_MemberAccess Op of Some (_ # _) \<Rightarrow> True | _ \<Rightarrow> False)"

definition addSummary :: "string \<Rightarrow> string \<Rightarrow> string \<Rightarrow> (string \<times> (string \<times> string list) list) list \<Rightarrow>
    (string \<times> (string \<times> string list) list) list" where
  "addSummary Mangled Param Dest Summary =
     (let Entry = (case map_of Summary Mangled of Some E \<Rightarrow> E | None \<Rightarrow> []);
          Dests = (case map_of Entry Param of Some D \<Rightarrow> D | None \<Rightarrow> []) in
      map_put Mangled (map_put Param (List.insert Dest Dests) Entry) Summary)"

text \<open>The destination of a store of a parameter, when it is one that outlives the frame.\<close>

definition storeDest :: "planned_operand \<Rightarrow> string list \<Rightarrow> string option" where
  "storeDest Tgt Params = (case po_Expr Tgt of
     PExpr_Variable TV \<Rightarrow>
       if \<not> hasMember Tgt then None
       else if va_Name TV \<in> set Params then Some (va_Name TV)
       else None
   | PExpr_GlobalRef _ \<Rightarrow> Some ''@ext''
   | PExpr_Call _ \<Rightarrow> Some ''@ext''
   | _ \<Rightarrow> None)"

definition escapeHandleStore :: "planned_operand list \<Rightarrow> planned_operand list \<Rightarrow> escape \<Rightarrow> escape" where
  "escapeHandleStore Src Targets P =
    (if EscapeWalkMode P \<noteq> 0 then P
     else (case (Targets, Src) of
       (Tgt # _, Val # _) \<Rightarrow>
         (case po_Expr Val of
            PExpr_Variable V \<Rightarrow>
              if hasMember Val then P
              else if va_Name V \<notin> set (EscapeFnParams P) then P
              else if \<not> isReferenceLikeType (po_ResultType Val) then P
              else (case storeDest Tgt (EscapeFnParams P) of
                None \<Rightarrow> P
              | Some Dest \<Rightarrow>
                  P\<lparr>EscapeSummary := addSummary (EscapeFnMangled P) (va_Name V) Dest (EscapeSummary P)\<rparr>)
          | _ \<Rightarrow> P)
     | _ \<Rightarrow> P))"

fun indexOf :: "string \<Rightarrow> string list \<Rightarrow> nat option" where
  "indexOf N [] = None"
| "indexOf N (p # ps) = (if p = N then Some 0 else map_option Suc (indexOf N ps))"

text \<open>Whether one of the destinations that a parameter escapes to outlives the argument for it.\<close>

definition destViolates :: "planned_operand list \<Rightarrow> nat \<Rightarrow> string list \<Rightarrow> escape \<Rightarrow> string \<Rightarrow> bool" where
  "destViolates Args Off Params P Dest =
    (if Dest = ''@ext'' then True
     else (case indexOf Dest Params of
       None \<Rightarrow> False
     | Some di \<Rightarrow> escapeDestArgOutlives (Args ! (Off + di)) P))"

definition paramViolates ::
    "planned_operand list \<Rightarrow> nat \<Rightarrow> string list \<Rightarrow> escape \<Rightarrow> string \<times> string list \<Rightarrow> bool" where
  "paramViolates Args Off Params P E = (case E of (EscParam, Dests) \<Rightarrow>
     (case indexOf EscParam Params of
       None \<Rightarrow> False
     | Some ei \<Rightarrow>
         isReferenceToLocalPage (po_ResultType (Args ! (Off + ei))) \<and>
         list_ex (destViolates Args Off Params P) Dests))"

definition escapeHandleCall :: "planned_call \<Rightarrow> escape \<Rightarrow> escape" where
  "escapeHandleCall Call P =
    (if EscapeWalkMode P \<noteq> 1 \<or> EscapeFound P then P
     else (case map_of (EscapeSummary P) (pc_MangledName Call) of
       None \<Rightarrow> P
     | Some Entry \<Rightarrow>
        (case map_of (CalleeParamNames P) (pc_MangledName Call) of
          None \<Rightarrow> P
        | Some Params \<Rightarrow>
           (case pc_Args Call of
             None \<Rightarrow> P
           | Some Args \<Rightarrow>
              if length Args < length Params then P
              else
                (let Off = length Args - length Params in
                 if list_ex (paramViolates Args Off Params P) Entry
                 then P\<lparr>EscapeFound := True, EscapeLoc := pc_Loc Call, EscapeFile := EscapeCurrentFile P\<rparr>
                 else P)))))"

abbreviation stopped :: "escape \<Rightarrow> bool" where
  "stopped P \<equiv> EscapeWalkMode P = 1 \<and> EscapeFound P"

section \<open>The walk\<close>

text \<open>The sizes of what is walked over, counting operands within it.\<close>

abbreviation operands_size :: "planned_operand list \<Rightarrow> nat" where
  "operands_size \<equiv> size_list size"

abbreviation statement_size :: "planned_statement option \<Rightarrow> nat" where
  "statement_size \<equiv> size_option (size_planned_statement_of size)"

abbreviation action_size :: "planned_action \<Rightarrow> nat" where
  "action_size \<equiv> size_planned_action_of size"

lemma size_in_list: "x \<in> set xs \<Longrightarrow> f x \<le> size_list f xs"
  by (induction xs) auto

lemma size_members:
  "PlannedComponent l n Value at \<in> set Cs \<Longrightarrow> operands_size Value < size_list (size_planned_component_of size) Cs"
  "PlannedCase l Value \<in> set Cases \<Longrightarrow> operands_size Value < size_list (size_planned_case_of size) Cases"
  "PlannedBranch l Cases Stmt \<in> set Brs \<Longrightarrow>
     size_list (size_planned_case_of size) Cases + statement_size Stmt < size_list (size_planned_branch_of size) Brs"
  "PlannedWhen l w ty i Stmt \<in> set Ws \<Longrightarrow> statement_size Stmt < size_list (size_planned_when_of size) Ws"
  by (drule size_in_list [where f = "size_planned_component_of size"], simp)
    (drule size_in_list [where f = "size_planned_case_of size"], simp,
     drule size_in_list [where f = "size_planned_branch_of size"], simp,
     drule size_in_list [where f = "size_planned_when_of size"], simp)

function (sequential) escapeWalkOperand :: "planned_operand \<Rightarrow> escape \<Rightarrow> escape"
  and escapeWalkOperands :: "planned_operand list \<Rightarrow> escape \<Rightarrow> escape"
  and escapeWalkStatement :: "planned_statement option \<Rightarrow> escape \<Rightarrow> escape"
  and escapeWalkAction :: "planned_action \<Rightarrow> escape \<Rightarrow> escape" where
  "escapeWalkOperand (PlannedOperand l E ma rt) P =
    (if stopped P then P
     else (case E of
       PExpr_Call (PlannedCall cl n m i io ct rp Args crt tt lf ind) \<Rightarrow>
         (let P = escapeHandleCall (PlannedCall cl n m i io ct rp Args crt tt lf ind) P in
          case Args of Some Args \<Rightarrow> escapeWalkOperands Args P | None \<Rightarrow> P)
     | PExpr_Tuple (PlannedTuple sl Components ty ra lf rg) \<Rightarrow>
         fold (\<lambda>Comp P. case Comp of PlannedComponent cl n Value at \<Rightarrow> escapeWalkOperands Value P) Components P
     | PExpr_Block (PlannedBlock bl Statements nl) \<Rightarrow>
         fold (\<lambda>S P. escapeWalkStatement (Some S) P) Statements P
     | PExpr_If (PlannedIf il Condition pr Consequent Alternative) \<Rightarrow>
         (let P = escapeWalkOperands Condition P;
              P = escapeWalkStatement Consequent P in
          escapeWalkStatement Alternative P)
     | PExpr_Match (PlannedMatch mm Condition Branches Alternative) \<Rightarrow>
         (let P = escapeWalkOperands Condition P;
              P = fold (\<lambda>Br P. case Br of PlannedBranch bl Cases Consequent \<Rightarrow>
                    (let P = fold (\<lambda>Cs P. case Cs of PlannedCase cl Condition \<Rightarrow>
                           escapeWalkOperands Condition P) Cases P in
                     escapeWalkStatement Consequent P)) Branches P in
          escapeWalkStatement Alternative P)
     | PExpr_Choose (PlannedChoose cl Condition Cases Alternative) \<Rightarrow>
         (let P = escapeWalkOperands Condition P;
              P = fold (\<lambda>Cs P. case Cs of PlannedWhen wl n vt vi Consequent \<Rightarrow>
                    escapeWalkStatement Consequent P) Cases P in
          escapeWalkStatement Alternative P)
     | PExpr_For (PlannedFor fl n Expr Body it ct ity et gm nm) \<Rightarrow>
         (let P = escapeWalkOperands Expr P in escapeWalkAction Body P)
     | PExpr_While (PlannedWhile wl (PlannedBinding bl bt bi Operation) Body) \<Rightarrow>
         (let P = escapeWalkOperands Operation P in escapeWalkAction Body P)
     | PExpr_Try (PlannedTry sl lf (PlannedBinding bl bt bi Operation) Catches Alternative tt tc) \<Rightarrow>
         (let P = escapeWalkOperands Operation P;
              P = fold (\<lambda>Ca P. case Ca of PlannedWhen wl n vt vi Consequent \<Rightarrow>
                    escapeWalkStatement Consequent P) Catches P in
          escapeWalkStatement Alternative P)
     | PExpr_Is (PlannedIs il ty vi n Value neg) \<Rightarrow>
         (case Value of Some Op \<Rightarrow> escapeWalkOperand Op P | None \<Rightarrow> P)
     | PExpr_As (PlannedAs al ty Value) \<Rightarrow>
         (case Value of Some Op \<Rightarrow> escapeWalkOperand Op P | None \<Rightarrow> P)
     | PExpr_VariantConstruction (PlannedVariantConstruction vl ty n i Value) \<Rightarrow>
         (case Value of Some Op \<Rightarrow> escapeWalkOperand Op P | None \<Rightarrow> P)
     | PExpr_Matrix (PlannedMatrix mm Operations ty) \<Rightarrow>
         fold (\<lambda>Row P. escapeWalkOperands Row P) Operations P
     | _ \<Rightarrow> P))"
| "escapeWalkOperands [] P = P"
| "escapeWalkOperands (Op # Ops) P =
     (if stopped P then P else escapeWalkOperands Ops (escapeWalkOperand Op P))"
| "escapeWalkStatement None P = P"
| "escapeWalkStatement (Some Stmt) P =
    (if stopped P then P
     else (case Stmt of
       PStmt_Action A \<Rightarrow> escapeWalkAction A P
     | PStmt_Binding (PlannedBinding bl bt bi Operation) \<Rightarrow> escapeWalkOperands Operation P
     | PStmt_Return l Result \<Rightarrow> escapeWalkOperands Result P
     | PStmt_Throw l Result \<Rightarrow> escapeWalkOperands Result P
     | PStmt_Break l Result \<Rightarrow> escapeWalkOperands Result P
     | PStmt_Continue l \<Rightarrow> P))"
| "escapeWalkAction (PlannedAction Src Targets ty) P =
     (let P = escapeHandleStore Src Targets P;
          P = escapeWalkOperands Src P in
      escapeWalkOperands Targets P)"
  by pat_completeness auto
termination
  by (relation "measure (\<lambda>x. case x of
      Inl (Inl (Op, P)) \<Rightarrow> size Op
    | Inl (Inr (Ops, P)) \<Rightarrow> operands_size Ops
    | Inr (Inl (Stmt, P)) \<Rightarrow> statement_size Stmt
    | Inr (Inr (Act, P)) \<Rightarrow> action_size Act)")
    (auto dest!: size_members size_in_list [where f = operands_size]
      size_in_list [where f = "size_planned_statement_of size"])

declare escapeWalkOperand.simps [simp del]

section \<open>The check\<close>

definition escapeWalkImpl :: "planned_implementation \<Rightarrow> escape \<Rightarrow> escape" where
  "escapeWalkImpl Impl P = (case Impl of PImpl_Action A \<Rightarrow> escapeWalkAction A P | _ \<Rightarrow> P)"

definition escapeWalkFunction ::
    "string \<Rightarrow> planned_item list \<Rightarrow> string option \<Rightarrow> planned_implementation \<Rightarrow> string \<Rightarrow> escape \<Rightarrow> escape" where
  "escapeWalkFunction Mangled Input PageParam Impl FnFile P =
     escapeWalkImpl Impl
       (P\<lparr>EscapeFnMangled := Mangled, EscapeCurrentFile := FnFile,
         EscapeFnParams := List.map_filter it_Name Input @ (case PageParam of Some n \<Rightarrow> [n] | None \<Rightarrow> [])\<rparr>)"

definition walkFunction :: "planned_function \<Rightarrow> escape \<Rightarrow> escape" where
  "walkFunction F P =
     escapeWalkFunction (pf_MangledName F) (pf_Input F) (pf_PageParameter F) (pf_Impl F) (pf_File F) P"

fun checkFunctions :: "(string \<times> planned_function) list \<Rightarrow> escape \<Rightarrow> (planner_error + unit) \<times> escape" where
  "checkFunctions [] P = (Inr (), P)"
| "checkFunctions ((Name, F) # Fs) P =
     (let P = walkFunction F P in
      if EscapeFound P then (Inl (EscapingReferenceError (EscapeFile P) (EscapeLoc P) ''call''), P)
      else checkFunctions Fs P)"

definition checkInterproceduralEscapes ::
    "(string \<times> planned_function) list \<Rightarrow> escape \<Rightarrow> (planner_error + unit) \<times> escape" where
  "checkInterproceduralEscapes InstantiatedFunctions P =
     (let P = fold (\<lambda>(Name, F) P. escapeRegisterParams (pf_MangledName F) (pf_Input F) P) InstantiatedFunctions P;
          P = P\<lparr>EscapeWalkMode := 0\<rparr>;
          P = fold (\<lambda>(Name, F) P. walkFunction F P) InstantiatedFunctions P;
          P = P\<lparr>EscapeWalkMode := 1, EscapeFound := False\<rparr> in
      checkFunctions InstantiatedFunctions P)"

end
