(* ===== verification/Planner_Escape_Theorems.thy ===== *)
theory Planner_Escape_Theorems
  imports Planner_Escape
begin

text \<open>
  What the escape checker computes. The walk visits calls and stores in a fixed order; everything it
  does is to handle these one after the other.
\<close>

section \<open>The walk as a list of visits\<close>

datatype visit = Visit_Call planned_call | Visit_Store "planned_operand list" "planned_operand list"

fun handle :: "visit \<Rightarrow> escape \<Rightarrow> escape" where
  "handle (Visit_Call Call) P = escapeHandleCall Call P"
| "handle (Visit_Store Src Targets) P = escapeHandleStore Src Targets P"

function (sequential) visitsOperand :: "planned_operand \<Rightarrow> visit list"
  and visitsOperands :: "planned_operand list \<Rightarrow> visit list"
  and visitsStatement :: "planned_statement option \<Rightarrow> visit list"
  and visitsAction :: "planned_action \<Rightarrow> visit list" where
  "visitsOperand (PlannedOperand l E ma rt) =
    (case E of
       PExpr_Call (PlannedCall cl n m i io ct rp Args crt tt lf ind) \<Rightarrow>
         Visit_Call (PlannedCall cl n m i io ct rp Args crt tt lf ind) #
         (case Args of Some Args \<Rightarrow> visitsOperands Args | None \<Rightarrow> [])
     | PExpr_Tuple (PlannedTuple sl Components ty ra lf rg) \<Rightarrow>
         concat (map (\<lambda>Comp. case Comp of PlannedComponent cl n Value at \<Rightarrow> visitsOperands Value) Components)
     | PExpr_Block (PlannedBlock bl Statements nl) \<Rightarrow>
         concat (map (\<lambda>S. visitsStatement (Some S)) Statements)
     | PExpr_If (PlannedIf il Condition pr Consequent Alternative) \<Rightarrow>
         visitsOperands Condition @ visitsStatement Consequent @ visitsStatement Alternative
     | PExpr_Match (PlannedMatch mm Condition Branches Alternative) \<Rightarrow>
         visitsOperands Condition @
         concat (map (\<lambda>Br. case Br of PlannedBranch bl Cases Consequent \<Rightarrow>
             concat (map (\<lambda>Cs. case Cs of PlannedCase cl Condition \<Rightarrow> visitsOperands Condition) Cases) @
             visitsStatement Consequent) Branches) @
         visitsStatement Alternative
     | PExpr_Choose (PlannedChoose cl Condition Cases Alternative) \<Rightarrow>
         visitsOperands Condition @
         concat (map (\<lambda>Cs. case Cs of PlannedWhen wl n vt vi Consequent \<Rightarrow> visitsStatement Consequent) Cases) @
         visitsStatement Alternative
     | PExpr_For (PlannedFor fl n Expr Body it ct ity et gm nm) \<Rightarrow> visitsOperands Expr @ visitsAction Body
     | PExpr_While (PlannedWhile wl (PlannedBinding bl bt bi Operation) Body) \<Rightarrow>
         visitsOperands Operation @ visitsAction Body
     | PExpr_Try (PlannedTry sl lf (PlannedBinding bl bt bi Operation) Catches Alternative tt tc) \<Rightarrow>
         visitsOperands Operation @
         concat (map (\<lambda>Ca. case Ca of PlannedWhen wl n vt vi Consequent \<Rightarrow> visitsStatement Consequent) Catches) @
         visitsStatement Alternative
     | PExpr_Is (PlannedIs il ty vi n Value neg) \<Rightarrow> (case Value of Some Op \<Rightarrow> visitsOperand Op | None \<Rightarrow> [])
     | PExpr_As (PlannedAs al ty Value) \<Rightarrow> (case Value of Some Op \<Rightarrow> visitsOperand Op | None \<Rightarrow> [])
     | PExpr_VariantConstruction (PlannedVariantConstruction vl ty n i Value) \<Rightarrow>
         (case Value of Some Op \<Rightarrow> visitsOperand Op | None \<Rightarrow> [])
     | PExpr_Matrix (PlannedMatrix mm Operations ty) \<Rightarrow> concat (map visitsOperands Operations)
     | _ \<Rightarrow> [])"
| "visitsOperands [] = []"
| "visitsOperands (Op # Ops) = visitsOperand Op @ visitsOperands Ops"
| "visitsStatement None = []"
| "visitsStatement (Some Stmt) =
    (case Stmt of
       PStmt_Action A \<Rightarrow> visitsAction A
     | PStmt_Binding (PlannedBinding bl bt bi Operation) \<Rightarrow> visitsOperands Operation
     | PStmt_Return l Result \<Rightarrow> visitsOperands Result
     | PStmt_Throw l Result \<Rightarrow> visitsOperands Result
     | PStmt_Break l Result \<Rightarrow> visitsOperands Result
     | PStmt_Continue l \<Rightarrow> [])"
| "visitsAction (PlannedAction Src Targets ty) =
     Visit_Store Src Targets # visitsOperands Src @ visitsOperands Targets"
  by pat_completeness auto
termination
  by (relation "measure (\<lambda>x. case x of
      Inl (Inl Op) \<Rightarrow> size Op
    | Inl (Inr Ops) \<Rightarrow> operands_size Ops
    | Inr (Inl Stmt) \<Rightarrow> statement_size Stmt
    | Inr (Inr Act) \<Rightarrow> action_size Act)")
    (auto dest!: size_members size_in_list [where f = operands_size]
      size_in_list [where f = "size_planned_statement_of size"])

declare visitsOperand.simps [simp del]

lemma handle_stopped: "stopped P \<Longrightarrow> handle v P = P"
  by (cases v) (simp_all add: escapeHandleCall_def escapeHandleStore_def)

lemma fold_handle_stopped: "stopped P \<Longrightarrow> fold handle vs P = P"
  by (induction vs) (simp_all add: handle_stopped)

lemma fold_visits:
  "(\<And>x P. x \<in> set xs \<Longrightarrow> f x P = fold handle (v x) P) \<Longrightarrow> fold f xs P = fold handle (concat (map v xs)) P"
  by (induction xs arbitrary: P) simp_all

definition walked :: "planned_operand \<Rightarrow> bool" where
  "walked Op \<longleftrightarrow> (\<forall>P. escapeWalkOperand Op P = fold handle (visitsOperand Op) P)"

lemma walked_operands:
  "\<forall>Op\<in>set Ops. walked Op \<Longrightarrow> escapeWalkOperands Ops P = fold handle (visitsOperands Ops) P"
  by (induction Ops arbitrary: P) (simp_all add: walked_def fold_handle_stopped)

lemma walked_action:
  "\<forall>Op\<in>set_planned_action_of Act. walked Op \<Longrightarrow> escapeWalkAction Act P = fold handle (visitsAction Act) P"
  by (cases Act) (simp add: walked_operands Let_def)

lemma walked_statement:
  "\<forall>Op\<in>\<Union> (set_planned_statement_of ` set_option Stmt). walked Op \<Longrightarrow>
     escapeWalkStatement Stmt P = fold handle (visitsStatement Stmt) P"
proof (cases Stmt)
  case (Some S)
  assume "\<forall>Op\<in>\<Union> (set_planned_statement_of ` set_option Stmt). walked Op"
  with Some show ?thesis
    by (cases S) (auto simp: walked_operands walked_action fold_handle_stopped
        split: planned_binding_of.split)
qed simp

lemma walked_option:
  "\<forall>Op\<in>set_option Value. walked Op \<Longrightarrow> (case Value of Some Op \<Rightarrow> escapeWalkOperand Op P | None \<Rightarrow> P) =
     fold handle (case Value of Some Op \<Rightarrow> visitsOperand Op | None \<Rightarrow> []) P"
  by (cases Value) (simp_all add: walked_def)

lemma walked_whens:
  assumes "\<forall>Op\<in>\<Union> (set_planned_when_of ` set Ws). walked Op"
  shows "fold (\<lambda>Cs P. case Cs of PlannedWhen wl n vt vi Stmt \<Rightarrow> escapeWalkStatement Stmt P) Ws P =
    fold handle (concat (map (\<lambda>Cs. case Cs of PlannedWhen wl n vt vi Stmt \<Rightarrow> visitsStatement Stmt) Ws)) P"
  using assms by (intro fold_visits) (auto simp: walked_statement split: planned_when_of.split)

lemma walked_branches:
  assumes "\<forall>Op\<in>\<Union> (set_planned_branch_of ` set Brs). walked Op"
  shows "fold (\<lambda>Br P. case Br of PlannedBranch bl Cases Stmt \<Rightarrow>
      (let P = fold (\<lambda>Cs P. case Cs of PlannedCase cl Condition \<Rightarrow> escapeWalkOperands Condition P) Cases P in
       escapeWalkStatement Stmt P)) Brs P =
    fold handle (concat (map (\<lambda>Br. case Br of PlannedBranch bl Cases Stmt \<Rightarrow>
      concat (map (\<lambda>Cs. case Cs of PlannedCase cl Condition \<Rightarrow> visitsOperands Condition) Cases) @
      visitsStatement Stmt) Brs)) P"
proof (rule fold_visits)
  fix Br P assume "Br \<in> set Brs"
  then have Br: "\<forall>Op\<in>set_planned_branch_of Br. walked Op" using assms by blast
  obtain bl Cases Stmt where B: "Br = PlannedBranch bl Cases Stmt" by (cases Br)
  have "fold (\<lambda>Cs P. case Cs of PlannedCase cl Condition \<Rightarrow> escapeWalkOperands Condition P) Cases P =
      fold handle (concat (map (\<lambda>Cs. case Cs of PlannedCase cl Condition \<Rightarrow> visitsOperands Condition) Cases)) P" for P
  proof (rule fold_visits)
    fix Cs P assume "Cs \<in> set Cases"
    with Br B show "(case Cs of PlannedCase cl Condition \<Rightarrow> escapeWalkOperands Condition P) =
        fold handle (case Cs of PlannedCase cl Condition \<Rightarrow> visitsOperands Condition) P"
      by (cases Cs) (force intro!: walked_operands)
  qed
  moreover have "\<forall>Op\<in>\<Union> (set_planned_statement_of ` set_option Stmt). walked Op" using Br B by auto
  ultimately show "(case Br of PlannedBranch bl Cases Stmt \<Rightarrow>
      (let P = fold (\<lambda>Cs P. case Cs of PlannedCase cl Condition \<Rightarrow> escapeWalkOperands Condition P) Cases P in
       escapeWalkStatement Stmt P)) =
    fold handle (case Br of PlannedBranch bl Cases Stmt \<Rightarrow>
      concat (map (\<lambda>Cs. case Cs of PlannedCase cl Condition \<Rightarrow> visitsOperands Condition) Cases) @
      visitsStatement Stmt) P"
    by (simp add: B walked_statement)
qed

lemma walked_components:
  assumes "\<forall>Op\<in>\<Union> (set_planned_component_of ` set Cs). walked Op"
  shows "fold (\<lambda>Comp P. case Comp of PlannedComponent cl n Value at \<Rightarrow> escapeWalkOperands Value P) Cs P =
    fold handle (concat (map (\<lambda>Comp. case Comp of PlannedComponent cl n Value at \<Rightarrow> visitsOperands Value) Cs)) P"
  using assms by (intro fold_visits) (auto simp: walked_operands split: planned_component_of.split)

lemma walked_rows:
  "\<forall>Op\<in>\<Union> (set ` set Rows). walked Op \<Longrightarrow> fold escapeWalkOperands Rows P = fold handle (concat (map visitsOperands Rows)) P"
  by (intro fold_visits) (auto simp: walked_operands)

lemma walked_statements:
  "\<forall>Op\<in>\<Union> (set_planned_statement_of ` set Ss). walked Op \<Longrightarrow>
    fold (\<lambda>S P. escapeWalkStatement (Some S) P) Ss P = fold handle (concat (map (\<lambda>S. visitsStatement (Some S)) Ss)) P"
  by (intro fold_visits walked_statement) auto

lemmas walked_parts = walked_operands walked_action walked_statement walked_option walked_whens walked_branches
  walked_components walked_rows walked_statements

lemma all_walked: "walked Op"
proof (induction Op)
  case (PlannedOperand l E ma rt)
  then have IH: "\<forall>Op\<in>set_planned_expression_of E. walked Op" by blast
  have "escapeWalkOperand (PlannedOperand l E ma rt) P = fold handle (visitsOperand (PlannedOperand l E ma rt)) P" for P
  proof (cases "stopped P")
    case True
    then show ?thesis by (simp add: escapeWalkOperand.simps fold_handle_stopped)
  next
    case False
    note step = escapeWalkOperand.simps [of _ _ _ _ P, unfolded if_not_P [OF False]] visitsOperand.simps
    show ?thesis
    proof (cases E)
      case (PExpr_Call C)
      with IH show ?thesis by (cases C) (simp add: step Let_def walked_parts split: option.split)
    next
      case (PExpr_Tuple C)
      with IH show ?thesis by (cases C) (simp add: step walked_parts)
    next
      case (PExpr_Matrix C)
      with IH show ?thesis by (cases C) (simp add: step walked_parts)
    next
      case (PExpr_Block C)
      with IH show ?thesis by (cases C) (simp add: step walked_parts)
    next
      case (PExpr_If C)
      with IH show ?thesis by (cases C) (simp add: step Let_def walked_parts)
    next
      case (PExpr_Match C)
      with IH show ?thesis by (cases C) (simp add: step Let_def walked_parts)
    next
      case (PExpr_Choose C)
      with IH show ?thesis by (cases C) (simp add: step Let_def walked_parts)
    next
      case (PExpr_For C)
      with IH show ?thesis by (cases C) (simp add: step Let_def walked_parts)
    next
      case (PExpr_While C)
      with IH show ?thesis by (cases C) (simp add: step Let_def walked_parts split: planned_binding_of.split)
    next
      case (PExpr_Try C)
      with IH show ?thesis by (cases C) (simp add: step Let_def walked_parts split: planned_binding_of.split)
    next
      case (PExpr_Is C)
      with IH show ?thesis by (cases C) (simp add: step walked_parts)
    next
      case (PExpr_As C)
      with IH show ?thesis by (cases C) (simp add: step walked_parts)
    next
      case (PExpr_VariantConstruction C)
      with IH show ?thesis by (cases C) (simp add: step walked_parts)
    qed (simp_all add: step)
  qed
  then show ?case by (simp add: walked_def)
qed

section \<open>Functions\<close>

definition bodyVisits :: "planned_function \<Rightarrow> visit list" where
  "bodyVisits F = (case pf_Impl F of PImpl_Action A \<Rightarrow> visitsAction A | _ \<Rightarrow> [])"

definition frameParams :: "planned_function \<Rightarrow> string list" where
  "frameParams F = List.map_filter it_Name (pf_Input F) @
     (case pf_PageParameter F of Some n \<Rightarrow> [n] | None \<Rightarrow> [])"

definition enterFunction :: "planned_function \<Rightarrow> escape \<Rightarrow> escape" where
  "enterFunction F P = P\<lparr>EscapeFnMangled := pf_MangledName F, EscapeCurrentFile := pf_File F,
     EscapeFnParams := frameParams F\<rparr>"

lemma walkFunction_visits: "walkFunction F P = fold handle (bodyVisits F) (enterFunction F P)"
proof -
  have "escapeWalkAction Act P = fold handle (visitsAction Act) P" for Act P
    using walked_action all_walked by blast
  then show ?thesis
    by (simp add: walkFunction_def escapeWalkFunction_def escapeWalkImpl_def bodyVisits_def enterFunction_def
        frameParams_def split: planned_implementation.split)
qed

section \<open>The summary\<close>

text \<open>The parameter and the destination that a store adds to the summary of its function.\<close>

definition stored :: "string list \<Rightarrow> visit \<Rightarrow> (string \<times> string) option" where
  "stored Params v = (case v of
     Visit_Store (Val # _) (Tgt # _) \<Rightarrow>
       (case po_Expr Val of
          PExpr_Variable V \<Rightarrow>
            if hasMember Val \<or> va_Name V \<notin> set Params \<or> \<not> isReferenceLikeType (po_ResultType Val) then None
            else map_option (Pair (va_Name V)) (storeDest Tgt Params)
        | _ \<Rightarrow> None)
   | _ \<Rightarrow> None)"

lemma handle_collect:
  assumes "EscapeWalkMode P = 0"
  shows "handle v P = (case stored (EscapeFnParams P) v of
     Some (p, d) \<Rightarrow> P\<lparr>EscapeSummary := addSummary (EscapeFnMangled P) p d (EscapeSummary P)\<rparr>
   | None \<Rightarrow> P)"
proof (cases v)
  case (Visit_Call C)
  then show ?thesis using assms by (simp add: escapeHandleCall_def stored_def)
next
  case (Visit_Store Src Targets)
  then show ?thesis
    using assms
    by (auto simp: escapeHandleStore_def stored_def split: list.split planned_expression_of.split option.split)
qed

definition escapes :: "(string \<times> (string \<times> string list) list) list \<Rightarrow> string \<Rightarrow> string \<Rightarrow> string \<Rightarrow> bool" where
  "escapes Summary g p d \<longleftrightarrow> (\<exists>Entry Dests. map_of Summary g = Some Entry \<and> map_of Entry p = Some Dests \<and> d \<in> set Dests)"

definition summary_ok :: "(string \<times> (string \<times> string list) list) list \<Rightarrow> bool" where
  "summary_ok Summary \<longleftrightarrow> (\<forall>(g, Entry)\<in>set Summary. ordered Entry)"

lemma summary_ok_entry: "summary_ok Summary \<Longrightarrow> map_of Summary g = Some Entry \<Longrightarrow> ordered Entry"
  by (auto simp: summary_ok_def dest: map_of_SomeD)

lemma escapes_add: "escapes (addSummary g p d S) g' p' d' \<longleftrightarrow> escapes S g' p' d' \<or> g' = g \<and> p' = p \<and> d' = d"
  by (auto simp: escapes_def addSummary_def Let_def split: option.splits) (intro exI conjI, rule sym, assumption+)

lemma summary_ok_add:
  assumes "summary_ok S" shows "summary_ok (addSummary g p d S)"
proof -
  let ?Entry = "case map_of S g of Some E \<Rightarrow> E | None \<Rightarrow> []"
  have "ordered ?Entry" using summary_ok_entry [OF assms] by (auto split: option.split)
  then have "\<forall>Ds. ordered (map_put p Ds ?Entry)" by (blast intro: ordered_put)
  with assms set_put show ?thesis
    unfolding summary_ok_def addSummary_def Let_def by fastforce
qed

lemma collect_visits:
  assumes "EscapeWalkMode P = 0" "summary_ok (EscapeSummary P)"
  shows "\<exists>S. fold handle vs P = P\<lparr>EscapeSummary := S\<rparr> \<and> summary_ok S \<and>
    (\<forall>g p d. escapes S g p d \<longleftrightarrow> escapes (EscapeSummary P) g p d \<or>
      g = EscapeFnMangled P \<and> (\<exists>v\<in>set vs. stored (EscapeFnParams P) v = Some (p, d)))"
  using assms
proof (induction vs arbitrary: P)
  case Nil
  then show ?case by (intro exI [of _ "EscapeSummary P"]) simp
next
  case (Cons v vs)
  show ?case
  proof (cases "stored (EscapeFnParams P) v")
    case None
    with Cons show ?thesis by (simp add: handle_collect)
  next
    case (Some pd)
    obtain p d where pd: "pd = (p, d)" by (cases pd)
    let ?P = "P\<lparr>EscapeSummary := addSummary (EscapeFnMangled P) p d (EscapeSummary P)\<rparr>"
    have step: "handle v P = ?P" using Cons.prems(1) Some pd by (simp add: handle_collect)
    from Cons.IH [of ?P] Cons.prems obtain S where S: "fold handle vs ?P = ?P\<lparr>EscapeSummary := S\<rparr>" "summary_ok S"
      "\<forall>g p d. escapes S g p d \<longleftrightarrow> escapes (EscapeSummary ?P) g p d \<or>
        g = EscapeFnMangled ?P \<and> (\<exists>v\<in>set vs. stored (EscapeFnParams ?P) v = Some (p, d))"
      by (auto simp: summary_ok_add)
    show ?thesis
      using S Some pd by (intro exI [of _ S]) (auto simp: step escapes_add)
  qed
qed

text \<open>What a program stores: the destinations that a parameter of a function escapes to.\<close>

definition storesParam :: "(string \<times> planned_function) list \<Rightarrow> string \<Rightarrow> string \<Rightarrow> string \<Rightarrow> bool" where
  "storesParam Fs g p d \<longleftrightarrow> (\<exists>F\<in>snd ` set Fs. pf_MangledName F = g \<and>
     (\<exists>v\<in>set (bodyVisits F). stored (frameParams F) v = Some (p, d)))"

lemma collect_functions:
  assumes "EscapeWalkMode P = 0" "summary_ok (EscapeSummary P)"
  shows "summary_ok (EscapeSummary (fold (\<lambda>(Name, F) P. walkFunction F P) Fs P)) \<and>
    CalleeParamNames (fold (\<lambda>(Name, F) P. walkFunction F P) Fs P) = CalleeParamNames P \<and>
    (\<forall>g p d. escapes (EscapeSummary (fold (\<lambda>(Name, F) P. walkFunction F P) Fs P)) g p d \<longleftrightarrow>
      escapes (EscapeSummary P) g p d \<or> storesParam Fs g p d)"
  using assms
proof (induction Fs arbitrary: P)
  case Nil
  then show ?case by (simp add: storesParam_def)
next
  case (Cons e Fs)
  obtain Name F where e: "e = (Name, F)" by (cases e)
  obtain S where S: "walkFunction F P = (enterFunction F P)\<lparr>EscapeSummary := S\<rparr>" "summary_ok S"
      "\<forall>g p d. escapes S g p d \<longleftrightarrow> escapes (EscapeSummary P) g p d \<or>
        g = pf_MangledName F \<and> (\<exists>v\<in>set (bodyVisits F). stored (frameParams F) v = Some (p, d))"
    using collect_visits [of "enterFunction F P" "bodyVisits F"] Cons.prems
    by (auto simp: walkFunction_visits enterFunction_def)
  from Cons.IH [of "walkFunction F P"] S Cons.prems show ?case
    by (auto simp: e enterFunction_def storesParam_def)
qed

section \<open>The calls\<close>

definition callsOf :: "planned_function \<Rightarrow> planned_call list" where
  "callsOf F = List.map_filter (\<lambda>v. case v of Visit_Call C \<Rightarrow> Some C | _ \<Rightarrow> None) (bodyVisits F)"

text \<open>The names of the parameters of the function with a mangled name.\<close>

definition calleeParams :: "(string \<times> planned_function) list \<Rightarrow> string \<Rightarrow> string list option" where
  "calleeParams Fs = map_of (rev (map (\<lambda>(Name, F). (pf_MangledName F,
     map (\<lambda>I. case it_Name I of Some n \<Rightarrow> n | None \<Rightarrow> []) (pf_Input F))) Fs))"

text \<open>A call passes a reference to the local page of \<open>F\<close> for a parameter that the callee stores beyond
  its frame, in memory that outlives the frame of \<open>F\<close>.\<close>

definition leaks :: "(string \<times> planned_function) list \<Rightarrow> planned_function \<Rightarrow> planned_call \<Rightarrow> bool" where
  "leaks Fs F C \<longleftrightarrow> (\<exists>Params Args p d i.
     calleeParams Fs (pc_MangledName C) = Some Params \<and> pc_Args C = Some Args \<and>
     length Params \<le> length Args \<and>
     storesParam Fs (pc_MangledName C) p d \<and> indexOf p Params = Some i \<and>
     isReferenceToLocalPage (po_ResultType (Args ! (length Args - length Params + i))) \<and>
     (d = ''@ext'' \<or> (\<exists>j. indexOf d Params = Some j \<and>
       escapeDestArgOutlives (Args ! (length Args - length Params + j)) (enterFunction F initialEscape))))"

text \<open>What the first pass leaves for the second.\<close>

definition collected :: "(string \<times> planned_function) list \<Rightarrow> escape \<Rightarrow> bool" where
  "collected Fs P \<longleftrightarrow> EscapeWalkMode P = 1 \<and> \<not> EscapeFound P \<and> summary_ok (EscapeSummary P) \<and>
     map_of (CalleeParamNames P) = calleeParams Fs \<and>
     (\<forall>g p d. escapes (EscapeSummary P) g p d \<longleftrightarrow> storesParam Fs g p d)"

lemma outlives_params:
  "EscapeFnParams P = EscapeFnParams Q \<Longrightarrow> escapeDestArgOutlives Op P = escapeDestArgOutlives Op Q"
  by (simp add: escapeDestArgOutlives_def split: planned_expression_of.split)

lemma violates_escapes:
  assumes "ordered Entry"
  shows "list_ex (paramViolates Args Off Params P) Entry \<longleftrightarrow> (\<exists>p Dests d i. map_of Entry p = Some Dests \<and>
      d \<in> set Dests \<and> indexOf p Params = Some i \<and> isReferenceToLocalPage (po_ResultType (Args ! (Off + i))) \<and>
      (d = ''@ext'' \<or> (\<exists>j. indexOf d Params = Some j \<and> escapeDestArgOutlives (Args ! (Off + j)) P)))"
proof -
  have dest: "destViolates Args Off Params P d \<longleftrightarrow>
      d = ''@ext'' \<or> (\<exists>j. indexOf d Params = Some j \<and> escapeDestArgOutlives (Args ! (Off + j)) P)" for d
    by (auto simp: destViolates_def split: option.split)
  have param: "paramViolates Args Off Params P (p, Dests) \<longleftrightarrow> (\<exists>d i. d \<in> set Dests \<and> indexOf p Params = Some i \<and>
      isReferenceToLocalPage (po_ResultType (Args ! (Off + i))) \<and> destViolates Args Off Params P d)" for p Dests
    by (auto simp: paramViolates_def list_ex_iff split: option.split)
  have "list_ex (paramViolates Args Off Params P) Entry \<longleftrightarrow>
      (\<exists>p Dests. (p, Dests) \<in> set Entry \<and> paramViolates Args Off Params P (p, Dests))"
    by (auto simp: list_ex_iff)
  also have "\<dots> \<longleftrightarrow> (\<exists>p Dests. map_of Entry p = Some Dests \<and> paramViolates Args Off Params P (p, Dests))"
    using map_of_ordered [OF assms] map_of_SomeD by metis
  finally show ?thesis unfolding param dest by blast
qed

lemma handle_call:
  assumes "collected Fs P" "EscapeFnParams P = frameParams F"
  shows "handle (Visit_Call C) P =
    (if leaks Fs F C then P\<lparr>EscapeFound := True, EscapeLoc := pc_Loc C, EscapeFile := EscapeCurrentFile P\<rparr> else P)"
proof -
  have out: "escapeDestArgOutlives Op P = escapeDestArgOutlives Op (enterFunction F initialEscape)" for Op
    using assms(2) by (intro outlives_params) (simp add: enterFunction_def)
  have state: "EscapeWalkMode P = 1" "\<not> EscapeFound P" "map_of (CalleeParamNames P) = calleeParams Fs"
    "summary_ok (EscapeSummary P)"
    and stores: "\<And>g p d. escapes (EscapeSummary P) g p d \<longleftrightarrow> storesParam Fs g p d"
    using assms(1) by (simp_all add: collected_def)
  show ?thesis
  proof (cases "map_of (EscapeSummary P) (pc_MangledName C)")
    case None
    then have "\<not> leaks Fs F C" by (auto simp: leaks_def escapes_def simp flip: stores)
    with None state show ?thesis by (simp add: escapeHandleCall_def)
  next
    case (Some Entry)
    have Entry: "storesParam Fs (pc_MangledName C) p d \<longleftrightarrow> (\<exists>Dests. map_of Entry p = Some Dests \<and> d \<in> set Dests)" for p d
      using Some by (auto simp: escapes_def simp flip: stores)
    note violates = violates_escapes [OF summary_ok_entry [OF state(4) Some]]
    show ?thesis
    proof (cases "calleeParams Fs (pc_MangledName C)")
      case None
      then have "\<not> leaks Fs F C" by (simp add: leaks_def)
      with None Some state show ?thesis by (simp add: escapeHandleCall_def)
    next
      case (Some Params)
      show ?thesis
      proof (cases "pc_Args C")
        case None
        then have "\<not> leaks Fs F C" by (simp add: leaks_def)
        with None Some \<open>map_of _ _ = Some Entry\<close> state show ?thesis by (simp add: escapeHandleCall_def)
      next
        case (Some Args)
        have "leaks Fs F C \<longleftrightarrow> \<not> length Args < length Params \<and>
            list_ex (paramViolates Args (length Args - length Params) Params P) Entry"
          unfolding violates leaks_def Entry out
          using Some \<open>calleeParams _ _ = Some Params\<close> by (simp add: not_less) blast
        with Some \<open>calleeParams _ _ = Some Params\<close> \<open>map_of _ _ = Some Entry\<close> state
        show ?thesis by (simp add: escapeHandleCall_def)
      qed
    qed
  qed
qed

lemma handle_store: "EscapeWalkMode P = 1 \<Longrightarrow> handle (Visit_Store Src Targets) P = P"
  by (simp add: escapeHandleStore_def)

definition found :: "escape \<Rightarrow> planned_call \<Rightarrow> escape" where
  "found P C = P\<lparr>EscapeFound := True, EscapeLoc := pc_Loc C, EscapeFile := EscapeCurrentFile P\<rparr>"

lemma check_visits:
  assumes "collected Fs P" "EscapeFnParams P = frameParams F"
  shows "fold handle vs P = (case filter (leaks Fs F)
      (List.map_filter (\<lambda>v. case v of Visit_Call C \<Rightarrow> Some C | _ \<Rightarrow> None) vs) of
     [] \<Rightarrow> P | C # _ \<Rightarrow> found P C)"
  using assms
proof (induction vs)
  case (Cons v vs)
  show ?case
  proof (cases v)
    case (Visit_Call C)
    show ?thesis
    proof (cases "leaks Fs F C")
      case True
      then have "handle v P = found P C"
        using handle_call [OF Cons.prems] Visit_Call by (simp add: found_def)
      moreover have "stopped (found P C)" using Cons.prems by (simp add: found_def collected_def)
      ultimately show ?thesis
        using Visit_Call True by (simp add: fold_handle_stopped List.map_filter_simps)
    next
      case False
      then show ?thesis
        using handle_call [OF Cons.prems] Visit_Call Cons by (simp add: List.map_filter_simps)
    qed
  next
    case (Visit_Store Src Targets)
    have "EscapeWalkMode P = 1" using Cons.prems by (simp add: collected_def)
    then have "handle v P = P" using handle_store Visit_Store by simp
    with Cons Visit_Store show ?thesis by (simp add: List.map_filter_simps)
  qed
qed (simp add: List.map_filter_simps)

definition leakingCalls :: "(string \<times> planned_function) list \<Rightarrow> (string \<times> planned_function) list \<Rightarrow> (string \<times> span) list" where
  "leakingCalls Gs Fs = concat (map (\<lambda>(Name, F). map (\<lambda>C. (pf_File F, pc_Loc C)) (filter (leaks Gs F) (callsOf F))) Fs)"

lemma checkFunctions_leaks:
  "collected Gs P \<Longrightarrow> fst (checkFunctions Fs P) = (case leakingCalls Gs Fs of
     [] \<Rightarrow> Inr () | (file, loc) # _ \<Rightarrow> Inl (EscapingReferenceError file loc ''call''))"
proof (induction Fs arbitrary: P)
  case Nil
  then show ?case by (simp add: leakingCalls_def)
next
  case (Cons e Fs)
  obtain Name F where e: "e = (Name, F)" by (cases e)
  have "collected Gs (enterFunction F P)" "EscapeFnParams (enterFunction F P) = frameParams F"
    using Cons.prems by (simp_all add: collected_def enterFunction_def)
  note walk = walkFunction_visits [of F P, unfolded check_visits [OF this], folded callsOf_def]
  show ?case
  proof (cases "filter (leaks Gs F) (callsOf F)")
    case Nil
    then have "walkFunction F P = enterFunction F P" by (simp add: walk)
    moreover have "\<not> EscapeFound (enterFunction F P)" using Cons.prems by (simp add: enterFunction_def collected_def)
    ultimately show ?thesis
      using Cons.IH [OF \<open>collected Gs (enterFunction F P)\<close>] Nil by (simp add: e leakingCalls_def Let_def)
  next
    case (Cons C Cs)
    then have "walkFunction F P = found (enterFunction F P) C" by (simp add: walk)
    then show ?thesis using Cons by (simp add: e leakingCalls_def found_def enterFunction_def Let_def)
  qed
qed

lemma register_functions:
  "CalleeParamNames (fold (\<lambda>(Name, F) P. escapeRegisterParams (pf_MangledName F) (pf_Input F) P) Fs P) =
     fold (\<lambda>(Name, F). map_put (pf_MangledName F) (map (\<lambda>I. case it_Name I of Some n \<Rightarrow> n | None \<Rightarrow> []) (pf_Input F)))
       Fs (CalleeParamNames P)"
  "EscapeSummary (fold (\<lambda>(Name, F) P. escapeRegisterParams (pf_MangledName F) (pf_Input F) P) Fs P) = EscapeSummary P"
  by (induction Fs arbitrary: P) (auto simp: escapeRegisterParams_def Let_def)

lemma register_calleeParams:
  "map_of (fold (\<lambda>(Name, F). map_put (pf_MangledName F) (map (\<lambda>I. case it_Name I of Some n \<Rightarrow> n | None \<Rightarrow> []) (pf_Input F)))
     Fs M) = map_of M ++ calleeParams Fs"
proof (induction Fs arbitrary: M)
  case Nil
  then show ?case by (simp add: calleeParams_def)
next
  case (Cons e Fs)
  then show ?case
    by (cases e) (simp add: calleeParams_def map_add_def fun_eq_iff split: option.split)
qed

text \<open>C29. The check reports the first call, in the order of the functions and of the walk through their
  bodies, that passes a reference to the local page for a parameter that the callee stores in memory
  which outlives the caller's frame, with the file of the calling function and the position of the
  call; without such a call it succeeds.\<close>

theorem escape_check:
  "fst (checkInterproceduralEscapes Fs initialEscape) = (case leakingCalls Fs Fs of
     [] \<Rightarrow> Inr () | (file, loc) # _ \<Rightarrow> Inl (EscapingReferenceError file loc ''call''))"
proof -
  define P1 where "P1 = (fold (\<lambda>(Name, F) P. escapeRegisterParams (pf_MangledName F) (pf_Input F) P) Fs
    initialEscape)\<lparr>EscapeWalkMode := 0\<rparr>"
  define P2 where "P2 = fold (\<lambda>(Name, F) P. walkFunction F P) Fs P1"
  have P1: "EscapeSummary P1 = []" "map_of (CalleeParamNames P1) = calleeParams Fs" "EscapeWalkMode P1 = 0"
    by (simp_all add: P1_def register_functions register_calleeParams initialEscape_def)
  then have "summary_ok (EscapeSummary P1)" "\<And>g p d. \<not> escapes (EscapeSummary P1) g p d"
    by (simp_all add: summary_ok_def escapes_def)
  with collect_functions [of P1 Fs] P1 have "collected Fs (P2\<lparr>EscapeWalkMode := 1, EscapeFound := False\<rparr>)"
    by (simp add: P2_def collected_def)
  from checkFunctions_leaks [OF this, of Fs] show ?thesis
    by (simp add: checkInterproceduralEscapes_def P1_def P2_def Let_def)
qed

end
