(* ===== verification/Planner_Operators.thy ===== *)
theory Planner_Operators
  imports Planner_Layout Planner_Mangling Planner_Types
begin

text \<open>
  Operators in the planner of retired/scalyc0/Planner.cpp: what is an operator, how tight it
  binds, and which function an application of one stands for. Beside it the helpers of
  \<open>PlannedType\<close> in retired/scalyc0/Plan.h that look through pointers.

  The parts of class Planner that are read and changed are the record \<open>operator_state\<close>. The
  methods for types and methods, which work on all the rest of the planner, are the fields of
  \<open>planner_calls\<close>: functions from the state, with any further fields, to their answer
  and the state they leave. \<open>movedFrom\<close> is what an operand holds once it was moved away, which
  the language leaves open.
\<close>

record operator_state = layout_caches +
  Operators :: "(string \<times> operator_m list) list"
  ModuleStack :: "module list"
  PlannerFile :: string

type_synonym 'x planner_state = "'x operator_state_scheme"

record method_match =
  mm_MangledName :: string
  mm_ReturnType :: planned_type
  mm_CanThrow :: bool
  mm_IsIntrinsic :: bool
  mm_ThrowsType :: "planned_type option"

record 's planner_calls =
  resolveType :: "type_ref \<Rightarrow> span \<Rightarrow> 's \<Rightarrow> (planner_error + planned_type) \<times> 's"
  lookupMethod :: "planned_type \<Rightarrow> string \<Rightarrow> planned_type list \<Rightarrow> span \<Rightarrow> 's \<Rightarrow>
    method_match option \<times> 's"
  movedFrom :: "planned_operand \<Rightarrow> planned_operand"

section \<open>Types behind pointers\<close>

definition isResolved :: "planned_type \<Rightarrow> bool" where
  "isResolved T \<longleftrightarrow> pt_Variable T = None"

definition isPointer :: "planned_type \<Rightarrow> bool" where
  "isPointer T \<longleftrightarrow> pt_Name T = ''pointer'' \<and> pt_Generics T \<noteq> []"

definition isRef :: "planned_type \<Rightarrow> bool" where
  "isRef T \<longleftrightarrow> pt_Name T = ''ref'' \<and> pt_Generics T \<noteq> []"

definition isPointerLike :: "planned_type \<Rightarrow> bool" where
  "isPointerLike T \<longleftrightarrow> isPointer T \<or> isRef T"

definition getInnerTypeIfPointer :: "planned_type \<Rightarrow> planned_type" where
  "getInnerTypeIfPointer T =
     (if pt_Name T = ''pointer'' \<and> pt_Generics T \<noteq> [] then hd (pt_Generics T) else T)"

definition getInnerTypeIfRef :: "planned_type \<Rightarrow> planned_type" where
  "getInnerTypeIfRef T =
     (if pt_Name T = ''ref'' \<and> pt_Generics T \<noteq> [] then hd (pt_Generics T) else T)"

definition getInnerTypeIfPointerLike :: "planned_type \<Rightarrow> planned_type" where
  "getInnerTypeIfPointerLike T =
     (if (pt_Name T = ''pointer'' \<or> pt_Name T = ''ref'') \<and> pt_Generics T \<noteq> []
      then hd (pt_Generics T) else T)"

definition getInnerTypeForMethodLookup :: "planned_type \<Rightarrow> planned_type" where
  "getInnerTypeForMethodLookup T =
     (let Result = (if pt_Name T = ''Option'' \<and> pt_Generics T \<noteq> [] then hd (pt_Generics T) else T) in
      if (pt_Name Result = ''pointer'' \<or> pt_Name Result = ''ref'') \<and> pt_Generics Result \<noteq> []
      then hd (pt_Generics Result) else Result)"

text \<open>A type with a readable and a mangled name and arguments, nothing else set.\<close>

definition named :: "string \<Rightarrow> string \<Rightarrow> planned_type list \<Rightarrow> planned_type" where
  "named Name Mangled Generics = PlannedType (Span 0 0) Name Mangled Generics UnspecifiedLifetime None [] None"

text \<open>\<open>pointer[T]\<close>.\<close>

definition pointerTo :: "span \<Rightarrow> planned_type \<Rightarrow> planned_type" where
  "pointerTo Loc T =
     PlannedType Loc ''pointer'' (''P'' @ pt_MangledName T) [T] UnspecifiedLifetime None [] None"

text \<open>The parts of a name between its dots.\<close>

fun splitDots :: "string \<Rightarrow> string list" where
  "splitDots [] = [[]]"
| "splitDots (C # Remaining) =
     (if C = CHR ''.'' then [] # splitDots Remaining
      else case splitDots Remaining of
        [] \<Rightarrow> [[C]]
      | P # Parts \<Rightarrow> (C # P) # Parts)"

text \<open>The nested type that a flattened name stands for: the last part has the arguments.\<close>

definition nestedType :: "string list \<Rightarrow> planned_type list \<Rightarrow> planned_type" where
  "nestedType Parts Generics =
     foldr (\<lambda>Part Inner. named Part Part [Inner]) (butlast Parts) (named (last Parts) (last Parts) Generics)"

text \<open>The type in the variant \<open>Some\<close> of an instantiated union.\<close>

definition someType :: "'x planner_state \<Rightarrow> string \<Rightarrow> planned_type option" where
  "someType s Mangled =
     (if Mangled = [] then None
      else case map_of (InstantiatedUnions s) Mangled of
        None \<Rightarrow> None
      | Some U \<Rightarrow>
          (case find (\<lambda>V. pv_Name V = ''Some'' \<and> pv_Type V \<noteq> None) (un_Variants U) of
             None \<Rightarrow> None
           | Some V \<Rightarrow> pv_Type V))"

definition flattenedElement :: "'x planner_state \<Rightarrow> string \<Rightarrow> planned_type \<Rightarrow> planned_type option" where
  "flattenedElement s Rest T =
     (if Rest = [] then
        (if pt_Generics T \<noteq> [] then Some (hd (pt_Generics T)) else someType s (pt_MangledName T))
      else let Rest = (if hd Rest = CHR ''.'' then tl Rest else Rest) in
        Some (nestedType (splitDots Rest) (pt_Generics T)))"

definition getPointerElementType :: "'x planner_state \<Rightarrow> planned_type \<Rightarrow> planned_type option" where
  "getPointerElementType s T =
     (if pt_Name T = ''pointer'' \<and> pt_Generics T \<noteq> [] then Some (hd (pt_Generics T))
      else if pt_Name T = ''ref'' \<and> pt_Generics T \<noteq> [] then Some (hd (pt_Generics T))
      else if pt_Name T = ''Option'' \<and> pt_Generics T \<noteq> [] \<and>
        (let Inner = hd (pt_Generics T) in
         (pt_Name Inner = ''pointer'' \<or> pt_Name Inner = ''ref'') \<and> pt_Generics Inner \<noteq> [])
      then Some (hd (pt_Generics (hd (pt_Generics T))))
      else if take 10 (pt_Name T) = ''Option.ref'' then flattenedElement s (drop 10 (pt_Name T)) T
      else if take 14 (pt_Name T) = ''Option.pointer'' then flattenedElement s (drop 14 (pt_Name T)) T
      else if take 8 (pt_Name T) = ''pointer['' then None
      else if take 4 (pt_Name T) = ''ref['' then None
      else if pt_Name T = ''Option'' \<and> pt_Generics T \<noteq> [] then Some (hd (pt_Generics T))
      else None)"

section \<open>Operators and their precedence\<close>

definition isOperatorName :: "string \<Rightarrow> bool" where
  "isOperatorName Name = (case Name of
     [] \<Rightarrow> False
   | First # _ \<Rightarrow> Name = ''abs'' \<or> First \<in> set ''+-*/%=<>!&|^~[('')"

definition isOperator :: "'x planner_state \<Rightarrow> string \<Rightarrow> bool" where
  "isOperator s Name \<longleftrightarrow> map_of (Operators s) Name \<noteq> None"

definition getOperatorPrecedence :: "'x planner_state \<Rightarrow> string \<Rightarrow> nat" where
  "getOperatorPrecedence s Op =
     (if Op = ''||'' then 1
      else if Op = ''&&'' then 2
      else if Op = ''|'' then 3
      else if Op = ''^'' then 4
      else if Op = ''&'' then 5
      else if Op = ''='' \<or> Op = ''<>'' then 6
      else if Op = ''<'' \<or> Op = ''>'' \<or> Op = ''<='' \<or> Op = ''>='' then 7
      else if Op = ''<<'' \<or> Op = ''>>'' then 8
      else if Op = ''+'' \<or> Op = ''-'' then 9
      else if Op = ''*'' \<or> Op = ''/'' \<or> Op = ''%'' \<or> Op = ''div'' \<or> Op = ''mod'' then 10
      else if \<not> isOperatorName Op \<and> isOperator s Op then 1
      else 0)"

section \<open>Which operator is meant\<close>

fun membersOf :: "module \<Rightarrow> member list" where
  "membersOf (Module Private FileName Name Modules Uses Members Symbols) = Members"

fun subModules :: "module \<Rightarrow> module list" where
  "subModules (Module Private FileName Name Modules Uses Members Symbols) = Modules"

fun operatorNamed :: "string \<Rightarrow> member \<Rightarrow> operator_m option" where
  "operatorNamed Name (ModuleMember_Operator Op) = (if op_Name Op = Name then Some Op else None)"
| "operatorNamed Name _ = None"

definition moduleOperators :: "string \<Rightarrow> module \<Rightarrow> operator_m list" where
  "moduleOperators Name Mod = List.map_filter (operatorNamed Name) (membersOf Mod)"

text \<open>All operators of a name, the innermost module first; the answer is kept.\<close>

definition lookupOperator :: "string \<Rightarrow> 'x planner_state \<Rightarrow> operator_m list \<times> 'x planner_state" where
  "lookupOperator Name s = (case map_of (Operators s) Name of
     Some Result \<Rightarrow> (Result, s)
   | None \<Rightarrow>
      (let Result = concat (map (\<lambda>Mod. moduleOperators Name Mod @
             concat (map (moduleOperators Name) (subModules Mod))) (rev (ModuleStack s))) in
       (Result, s\<lparr>Operators := map_put Name Result (Operators s)\<rparr>)))"

record operator_match =
  om_Op :: "operator_m option"
  om_MangledName :: string
  om_IsIntrinsic :: bool
  om_ResultType :: planned_type

definition itemOf :: "planned_type \<Rightarrow> planned_item" where
  "itemOf T = \<lparr>it_Loc = Span 0 0, it_Private = False, it_Name = None, it_Type = Some T, it_Attributes = []\<rparr>"

fun itemTypeOf :: "item \<Rightarrow> type_ref option" where
  "itemTypeOf (Item Loc Private Name ItemType Attributes) = ItemType"

definition operandTypes :: "operator_m \<Rightarrow> (type_ref \<times> type_ref) option" where
  "operandTypes Op = (case op_Input Op of
     A # B # _ \<Rightarrow> (case (itemTypeOf A, itemTypeOf B) of (Some L, Some R) \<Rightarrow> Some (L, R) | _ \<Rightarrow> None)
   | _ \<Rightarrow> None)"

definition binaryName :: "string \<Rightarrow> planned_type \<Rightarrow> planned_type \<Rightarrow> string" where
  "binaryName Name Lhs Rhs = mangleOperator Name [itemOf Lhs, itemOf Rhs] None"

definition isIntrinsicImpl :: "implementation \<Rightarrow> bool" where
  "isIntrinsicImpl Impl = (case Impl of Impl_Intrinsic _ \<Rightarrow> True | _ \<Rightarrow> False)"

text \<open>The first candidate whose parameter types can be resolved and are those of the operands.\<close>

fun declaredOperator :: "('x planner_state) planner_calls \<Rightarrow> string \<Rightarrow> planned_type \<Rightarrow> planned_type \<Rightarrow>
    operator_m list \<Rightarrow> 'x planner_state \<Rightarrow> operator_match option \<times> 'x planner_state" where
  "declaredOperator E Name Lhs Rhs [] s = (None, s)"
| "declaredOperator E Name Lhs Rhs (Op # Ops) s = (case operandTypes Op of
     None \<Rightarrow> declaredOperator E Name Lhs Rhs Ops s
   | Some (L, R) \<Rightarrow> (case resolveType E L (Span 0 0) s of
       (Inl _, s) \<Rightarrow> declaredOperator E Name Lhs Rhs Ops s
     | (Inr LeftParam, s) \<Rightarrow> (case resolveType E R (Span 0 0) s of
         (Inl _, s) \<Rightarrow> declaredOperator E Name Lhs Rhs Ops s
       | (Inr RightParam, s) \<Rightarrow>
           if typesEqual LeftParam Lhs \<and> typesEqual RightParam Rhs
           then (Some \<lparr>om_Op = Some Op, om_MangledName = binaryName Name Lhs Rhs,
                   om_IsIntrinsic = isIntrinsicImpl (op_Impl Op), om_ResultType = emptyType\<rparr>, s)
           else declaredOperator E Name Lhs Rhs Ops s)))"

definition isIntegerOperand :: "string \<Rightarrow> bool" where
  "isIntegerOperand N \<longleftrightarrow> N \<in> set [''i64'', ''i32'', ''i16'', ''i8'', ''u64'', ''u32'', ''u16'', ''u8'',
     ''int'', ''size_t'', ''size'', ''char'']"

definition isFloatOperand :: "string \<Rightarrow> bool" where
  "isFloatOperand N \<longleftrightarrow> N \<in> set [''f64'', ''f32'', ''float'', ''double'']"

definition isNumericOperand :: "string \<Rightarrow> bool" where
  "isNumericOperand N \<longleftrightarrow> isIntegerOperand N \<or> isFloatOperand N"

text \<open>Operators on numbers and truth values, known to the compiler.\<close>

definition primitiveOperator :: "string \<Rightarrow> planned_type \<Rightarrow> planned_type \<Rightarrow> bool" where
  "primitiveOperator Name Lhs Rhs \<longleftrightarrow>
     (isNumericOperand (pt_Name Lhs) \<or> pt_Name Lhs = ''bool'') \<and>
     (isNumericOperand (pt_Name Rhs) \<or> pt_Name Rhs = ''bool'') \<and>
     (typesEqual Lhs Rhs \<or>
       isIntegerOperand (pt_Name Lhs) \<and> isIntegerOperand (pt_Name Rhs) \<or>
       isNumericOperand (pt_Name Lhs) \<and> isNumericOperand (pt_Name Rhs)) \<and>
     (Name \<in> set [''+'', ''-'', ''*'', ''/'', ''%''] \<or>
      Name \<in> set [''='', ''<>'', ''<'', ''>'', ''<='', ''>=''] \<or>
      Name \<in> set [''&'', ''|'', ''^'', ''<<'', ''>>''] \<and> pt_Name Lhs \<noteq> ''f64'' \<and> pt_Name Lhs \<noteq> ''f32'' \<or>
      (Name = ''&&'' \<or> Name = ''||'') \<and> pt_Name Lhs = ''bool'' \<and> pt_Name Rhs = ''bool'')"

definition isStructOperand :: "string \<Rightarrow> bool" where
  "isStructOperand N \<longleftrightarrow> N \<noteq> [] \<and> N \<notin> set [''pointer'', ''i64'', ''i32'', ''i16'', ''i8'', ''u64'', ''u32'',
     ''u16'', ''u8'', ''f64'', ''f32'', ''bool'', ''int'', ''float'', ''double'', ''size_t'', ''char'', ''void'']"

definition isPointerOffset :: "string \<Rightarrow> bool" where
  "isPointerOffset N \<longleftrightarrow> N \<in> set [''i64'', ''i32'', ''i16'', ''i8'', ''u64'', ''u32'', ''u16'', ''u8'', ''int'', ''size_t'']"

definition isNullable :: "planned_type \<Rightarrow> bool" where
  "isNullable T \<longleftrightarrow> pt_Name T = ''pointer'' \<and> pt_Generics T \<noteq> [] \<or> pt_Name T = ''ref'' \<and> pt_Generics T \<noteq> [] \<or>
     pt_Name T = ''Option'' \<and> pt_Generics T \<noteq> [] \<or> take 7 (pt_Name T) = ''Option.''"

definition intrinsicMatch :: "string \<Rightarrow> planned_type \<Rightarrow> planned_type \<Rightarrow> planned_type \<Rightarrow> operator_match" where
  "intrinsicMatch Name Lhs Rhs ResultType =
     \<lparr>om_Op = None, om_MangledName = binaryName Name Lhs Rhs, om_IsIntrinsic = True, om_ResultType = ResultType\<rparr>"

definition intrinsicOperator :: "string \<Rightarrow> planned_type \<Rightarrow> planned_type \<Rightarrow> operator_match option" where
  "intrinsicOperator Name Lhs Rhs =
     (let found = (\<lambda>ResultType. Some (intrinsicMatch Name Lhs Rhs ResultType)) in
      if primitiveOperator Name Lhs Rhs then found emptyType
      else if isPointer Lhs \<and> isPointerOffset (pt_Name Rhs) \<and> (Name = ''+'' \<or> Name = ''-'') then found Lhs
      else if isPointer Lhs \<and> isPointer Rhs \<and> Name = ''-'' \<and> typesEqual Lhs Rhs
      then found (named ''size_t'' ''y'' [])
      else if (isPointer Lhs \<or> isNullable Lhs) \<and> (pt_Name Rhs = ''pointer'' \<or> isNullable Rhs) \<and>
        Name \<in> set [''='', ''=='', ''<>'', ''!='', ''<'', ''>'', ''<='', ''>='']
      then found (named ''bool'' ''b'' [])
      else if isStructOperand (pt_Name Lhs) \<and> isPointerOffset (pt_Name Rhs) \<and> (Name = ''+'' \<or> Name = ''-'')
      then found (pointerTo (pt_Loc Lhs) Lhs)
      else None)"

definition findOperator :: "('x planner_state) planner_calls \<Rightarrow> string \<Rightarrow> planned_type \<Rightarrow> planned_type \<Rightarrow>
    'x planner_state \<Rightarrow> operator_match option \<times> 'x planner_state" where
  "findOperator E Name Lhs Rhs s =
     (let (OpCandidates, s) = lookupOperator Name s in
      case declaredOperator E Name Lhs Rhs OpCandidates s of
        (Some found, s) \<Rightarrow> (Some found, s)
      | (None, s) \<Rightarrow> (intrinsicOperator Name Lhs Rhs, s))"

end
