(* ===== verification/Planner_Collapse.thy ===== *)
theory Planner_Collapse
  imports Planner_Operators
begin

text \<open>
  \<open>collapseOperandSequence\<close> of retired/scalyc0/Planner.cpp: a sequence of operands and operators
  as it stands in the source becomes one operand, by precedence. An operator is an operand whose
  expression is a type with the operator's name.

  The loop of the method replaces elements of \<open>Ops\<close> from its position on and never looks back:
  the model keeps the operand on the left and the rest of the sequence.
\<close>

section \<open>Operands\<close>

definition newOperand :: "span \<Rightarrow> planned_type \<Rightarrow> planned_expression \<Rightarrow> planned_operand" where
  "newOperand Loc ResultType Expr = PlannedOperand Loc Expr None ResultType"

fun set_ResultType :: "planned_type \<Rightarrow> planned_operand \<Rightarrow> planned_operand" where
  "set_ResultType T (PlannedOperand Loc Expr Access R) = PlannedOperand Loc Expr Access T"

definition typeName :: "planned_operand \<Rightarrow> string option" where
  "typeName Op = (case po_Expr Op of PExpr_Type T \<Rightarrow> Some (pt_Name T) | _ \<Rightarrow> None)"

text \<open>\<open>(Type)\<close>: the type a cast converts to.\<close>

definition castType :: "planned_operand \<Rightarrow> planned_type option" where
  "castType Op = (case po_Expr Op of
     PExpr_Tuple (PlannedTuple Loc [PlannedComponent CLoc None [Inner] Attributes] TupleType Region Life Arg) \<Rightarrow>
       (if typeName Inner \<noteq> None then Some TupleType else None)
   | _ \<Rightarrow> None)"

definition prefixName :: "planned_operand \<Rightarrow> string option" where
  "prefixName Op = (case typeName Op of
     Some Name \<Rightarrow> if isOperatorName Name then Some Name else None
   | None \<Rightarrow> None)"

definition binaryOperatorName :: "'x planner_state \<Rightarrow> planned_operand \<Rightarrow> string option" where
  "binaryOperatorName s Op = (case typeName Op of
     Some Name \<Rightarrow> if isOperatorName Name \<or> isOperator s Name then Some Name else None
   | None \<Rightarrow> None)"

definition operatorCall :: "span \<Rightarrow> string \<Rightarrow> string \<Rightarrow> bool \<Rightarrow> planned_operand list \<Rightarrow> planned_type \<Rightarrow>
    planned_operand" where
  "operatorCall Loc Name Mangled IsIntrinsic Args ResultType = newOperand Loc ResultType
     (PExpr_Call (PlannedCall Loc Name Mangled IsIntrinsic True False False (Some Args) ResultType
       None UnspecifiedLifetime False))"

section \<open>Prefix operators\<close>

definition prefixResult :: "'x planner_state \<Rightarrow> span \<Rightarrow> string \<Rightarrow> planned_type \<Rightarrow> planner_error + planned_type" where
  "prefixResult s Loc Name OperandType =
     (if Name = ''!'' \<or> Name = ''not'' then Inr (named ''bool'' ''bool'' [])
      else if Name = ''*'' then
        (case getPointerElementType s OperandType of
           Some ElementType \<Rightarrow> Inr ElementType
         | None \<Rightarrow> Inl (PlannerNotImplementedError (PlannerFile s) Loc
             (''cannot dereference non-pointer type: '' @ pt_Name OperandType)))
      else if Name = ''&'' then Inr (pointerTo Loc OperandType)
      else Inr OperandType)"

definition prefixCall :: "'x planner_state \<Rightarrow> span \<Rightarrow> string \<Rightarrow> planned_operand \<Rightarrow>
    planner_error + planned_operand" where
  "prefixCall s Loc Name PrefixOperand =
     (case prefixResult s Loc Name (po_ResultType PrefixOperand) of
        Inl e \<Rightarrow> Inl e
      | Inr ResultType \<Rightarrow>
          Inr (operatorCall Loc Name (mangleOperator Name [itemOf (po_ResultType PrefixOperand)] None) True
            [PrefixOperand] ResultType))"

section \<open>Binary operators\<close>

definition isComparison :: "string \<Rightarrow> bool" where
  "isComparison Name \<longleftrightarrow> Name \<in> set [''='', ''<>'', ''<'', ''>'', ''<='', ''>='']"

definition matchResult :: "('x planner_state) planner_calls \<Rightarrow> span \<Rightarrow> string \<Rightarrow> operator_match \<Rightarrow> planned_type \<Rightarrow>
    'x planner_state \<Rightarrow> planned_type \<times> 'x planner_state" where
  "matchResult E Loc Name OpMatch LhsType s =
     (case Option.bind (om_Op OpMatch) op_Returns of
        Some Returns \<Rightarrow> (case resolveType E Returns Loc s of
            (Inr RetType, s) \<Rightarrow> (RetType, s)
          | (Inl _, s) \<Rightarrow> (emptyType, s))
      | None \<Rightarrow>
          (if pt_Name (om_ResultType OpMatch) \<noteq> [] then om_ResultType OpMatch
           else if om_IsIntrinsic OpMatch then
             (if isComparison Name then named ''bool'' ''bool'' [] else LhsType)
           else emptyType, s))"

definition binaryCall :: "('x planner_state) planner_calls \<Rightarrow> span \<Rightarrow> string \<Rightarrow> operator_match \<Rightarrow>
    planned_operand \<Rightarrow> planned_operand \<Rightarrow> 'x planner_state \<Rightarrow> planned_operand \<times> 'x planner_state" where
  "binaryCall E Loc Name OpMatch Lhs Rhs s =
     (let (ResultType, s) = matchResult E Loc Name OpMatch (po_ResultType Lhs) s in
      (operatorCall Loc Name (om_MangledName OpMatch) (om_IsIntrinsic OpMatch) [Lhs, Rhs] ResultType, s))"

text \<open>How many elements behind the right operand bind tighter than the operator: up to the first
  operator, at every second place, that binds no tighter.\<close>

fun boundary :: "'x planner_state \<Rightarrow> nat \<Rightarrow> planned_operand list \<Rightarrow> nat" where
  "boundary s CurrentPrec [] = 0"
| "boundary s CurrentPrec [Op] =
     (case typeName Op of
        Some Name \<Rightarrow> if 0 < getOperatorPrecedence s Name \<and> getOperatorPrecedence s Name \<le> CurrentPrec then 0 else 1
      | None \<Rightarrow> 1)"
| "boundary s CurrentPrec (Op # x # Ops) =
     (case typeName Op of
        Some Name \<Rightarrow> if 0 < getOperatorPrecedence s Name \<and> getOperatorPrecedence s Name \<le> CurrentPrec then 0
          else 2 + boundary s CurrentPrec Ops
      | None \<Rightarrow> 2 + boundary s CurrentPrec Ops)"

definition tighterBehind :: "'x planner_state \<Rightarrow> string \<Rightarrow> planned_operand list \<Rightarrow> bool" where
  "tighterBehind s Name Behind \<longleftrightarrow>
     0 < getOperatorPrecedence s Name \<and>
     (case Behind of
        [] \<Rightarrow> False
      | NextOp # _ \<Rightarrow> (case binaryOperatorName s NextOp of
          None \<Rightarrow> False
        | Some NextName \<Rightarrow> getOperatorPrecedence s Name < getOperatorPrecedence s NextName))"

definition startsWithAs :: "planned_operand list \<Rightarrow> bool" where
  "startsWithAs Ops \<longleftrightarrow> (case Ops of
     [] \<Rightarrow> False
   | Op # _ \<Rightarrow> (case po_Expr Op of PExpr_As _ \<Rightarrow> True | _ \<Rightarrow> False))"

section \<open>What else may follow an operand\<close>

fun afterLastDotOf :: "string \<Rightarrow> string" where
  "afterLastDotOf Name = (if CHR ''.'' \<in> set Name
     then rev (takeWhile (\<lambda>C. C \<noteq> CHR ''.'') (rev Name)) else Name)"

text \<open>\<open>value is Variant\<close>: the tag of the variant is looked up in the union of the value.\<close>

definition isExpression :: "'x planner_state \<Rightarrow> planned_operand planned_is_of \<Rightarrow> span \<Rightarrow> planned_operand \<Rightarrow>
    planned_operand" where
  "isExpression s IsExpr Loc Lhs = (case IsExpr of PlannedIs ILoc TestType VariantTag U V IsNullCheck \<Rightarrow>
     (let UnionName = pt_Name (po_ResultType Lhs);
          Found = (case map_of (InstantiatedUnions s) (pt_MangledName (po_ResultType Lhs)) of
            Some U \<Rightarrow> Some U | None \<Rightarrow> map_of (InstantiatedUnions s) UnionName);
          Tag = (case Found of
            None \<Rightarrow> VariantTag
          | Some U \<Rightarrow> (case find (\<lambda>Var. pv_Name Var = afterLastDotOf (pt_Name TestType)) (un_Variants U) of
              None \<Rightarrow> VariantTag | Some Var \<Rightarrow> of_int (pv_Tag Var))) in
      newOperand Loc (named ''bool'' ''bool'' [])
        (PExpr_Is (PlannedIs ILoc TestType Tag UnionName (Some Lhs) IsNullCheck))))"

text \<open>\<open>value as Type\<close>: a string literal becomes a character or a byte.\<close>

definition asExpression :: "planned_operand planned_as_of \<Rightarrow> span \<Rightarrow> planned_operand \<Rightarrow> planned_operand" where
  "asExpression AsExpr Loc Lhs = (case AsExpr of PlannedAs ALoc TargetType V \<Rightarrow>
     (let cast = newOperand Loc TargetType (PExpr_As (PlannedAs ALoc TargetType (Some Lhs))) in
      case po_Expr Lhs of
        PExpr_Constant (StringConstant SLoc Value) \<Rightarrow>
          if pt_Name TargetType = ''char'' \<and> 0 \<le> decodeUtf8ToCodePoint Value
          then newOperand (po_Loc Lhs) (named ''char'' ''i'' []) (PExpr_Constant (CharacterConstant SLoc Value))
          else if pt_Name TargetType = ''u8'' \<and> length Value = 1
          then newOperand (po_Loc Lhs) (named ''u8'' ''h'' [])
            (PExpr_Constant (IntegerConstant SLoc (of_char (hd Value))))
          else cast
      | _ \<Rightarrow> cast))"

fun accessName :: "planned_member_access \<Rightarrow> string" where
  "accessName (PlannedMemberAccess Name Index IsMethod ZeroArg Proc UnionValue Parent Result) = Name"

fun accessParent :: "planned_member_access \<Rightarrow> planned_type" where
  "accessParent (PlannedMemberAccess Name Index IsMethod ZeroArg Proc UnionValue Parent Result) = Parent"

fun accessResult :: "planned_member_access \<Rightarrow> planned_type" where
  "accessResult (PlannedMemberAccess Name Index IsMethod ZeroArg Proc UnionValue Parent Result) = Result"

fun pendingMethod :: "planned_member_access \<Rightarrow> bool" where
  "pendingMethod (PlannedMemberAccess Name Index IsMethod ZeroArg Proc UnionValue Parent Result) \<longleftrightarrow>
     IsMethod \<and> \<not> ZeroArg"

text \<open>The instance of \<open>(expr).method\<close>: the operand without its last access.\<close>

definition instanceOf :: "planned_operand \<Rightarrow> planned_member_access list \<Rightarrow> planned_operand" where
  "instanceOf Lhs Access =
     (let Rest = butlast Access in
      PlannedOperand (po_Loc Lhs) (po_Expr Lhs) (if Rest = [] then None else Some Rest)
        (if Rest = [] then accessParent (last Access) else accessResult (last Rest)))"

fun lastValue :: "planned_operand planned_component_of \<Rightarrow> planned_operand option" where
  "lastValue (PlannedComponent Loc Name Value Attributes) = (if Value = [] then None else Some (last Value))"

text \<open>\<open>(expr).method(args)\<close>: \<open>None\<close> when this is no such call.\<close>

definition methodCall :: "('x planner_state) planner_calls \<Rightarrow> planned_operand \<Rightarrow> planned_operand \<Rightarrow>
    'x planner_state \<Rightarrow> planned_operand option \<times> 'x planner_state" where
  "methodCall E Lhs Op s = (case (po_MemberAccess Lhs, po_Expr Op) of
     (Some Access, PExpr_Tuple (PlannedTuple TLoc Components TupleType Region TLife Arg)) \<Rightarrow>
       if pt_Name (po_ResultType Lhs) = ''function'' \<and> Access \<noteq> [] \<and> pendingMethod (last Access)
       then
         (let Args = List.map_filter lastValue Components in
          case lookupMethod E (getInnerTypeIfPointerLike (accessParent (last Access))) (accessName (last Access))
              (map po_ResultType Args) (po_Loc Lhs) s of
            (None, s) \<Rightarrow> (None, s)
          | (Some found, s) \<Rightarrow>
              (Some (newOperand (po_Loc Lhs) (mm_ReturnType found)
                (PExpr_Call (PlannedCall (po_Loc Lhs) (accessName (last Access)) (mm_MangledName found)
                  (mm_IsIntrinsic found) False (mm_CanThrow found) False
                  (Some (instanceOf Lhs Access # Args)) (mm_ReturnType found) (mm_ThrowsType found)
                  UnspecifiedLifetime False))), s))
       else (None, s)
   | _ \<Rightarrow> (None, s))"

text \<open>What becomes of the left operand when no operator follows it.\<close>

definition following :: "('x planner_state) planner_calls \<Rightarrow> planned_operand \<Rightarrow> planned_operand \<Rightarrow>
    'x planner_state \<Rightarrow> planned_operand \<times> 'x planner_state" where
  "following E Lhs Op s = (case po_Expr Op of
     PExpr_Is IsExpr \<Rightarrow> (isExpression s IsExpr (po_Loc Op) Lhs, s)
   | PExpr_As AsExpr \<Rightarrow> (asExpression AsExpr (po_Loc Op) Lhs, s)
   | _ \<Rightarrow> (case methodCall E Lhs Op s of
       (Some Call, s) \<Rightarrow> (Call, s)
     | (None, s) \<Rightarrow> (Op, s)))"

section \<open>The sequence\<close>

lemma boundary_length: "boundary s p Ops \<le> length Ops"
  by (induction s p Ops rule: boundary.induct) (auto split: option.split)

function (sequential) collapseOperandSequence :: "('x planner_state) planner_calls \<Rightarrow> planned_operand list \<Rightarrow>
    'x planner_state \<Rightarrow> (planner_error + planned_operand) \<times> 'x planner_state"
  and collapseLoop :: "('x planner_state) planner_calls \<Rightarrow> planned_operand \<Rightarrow> planned_operand list \<Rightarrow>
    'x planner_state \<Rightarrow> (planner_error + planned_operand) \<times> 'x planner_state"
  and collapseBinary :: "('x planner_state) planner_calls \<Rightarrow> planned_operand \<Rightarrow> span \<Rightarrow> string \<Rightarrow>
    planned_operand \<Rightarrow> planned_operand list \<Rightarrow> 'x planner_state \<Rightarrow>
    (planner_error + planned_operand) \<times> 'x planner_state"
  and collapseMatch :: "('x planner_state) planner_calls \<Rightarrow> planned_operand \<Rightarrow> span \<Rightarrow> string \<Rightarrow>
    planned_operand \<Rightarrow> planned_operand list \<Rightarrow> 'x planner_state \<Rightarrow>
    (planner_error + planned_operand) \<times> 'x planner_state" where
  "collapseOperandSequence E [] s =
     (Inl (PlannerNotImplementedError (PlannerFile s) (Span 0 0) ''empty operand sequence''), s)"
| "collapseOperandSequence E [Op] s = (Inr Op, s)"
| "collapseOperandSequence E (Op # Next # Rest) s =
     (case castType Op of
        Some CastType \<Rightarrow> (case collapseOperandSequence E (Next # Rest) s of
            (Inl e, s) \<Rightarrow> (Inl e, s)
          | (Inr V, s) \<Rightarrow> (Inr (set_ResultType CastType V), s))
      | None \<Rightarrow> (case prefixName Op of
          Some Name \<Rightarrow>
            if prefixName Next \<noteq> None
            then (case collapseOperandSequence E (Next # Rest) s of
                (Inl e, s) \<Rightarrow> (Inl e, s)
              | (Inr V, s) \<Rightarrow> (prefixCall s (po_Loc Op) Name V, s))
            else (case prefixCall s (po_Loc Op) Name Next of
                Inl e \<Rightarrow> (Inl e, s)
              | Inr PrefixResult \<Rightarrow>
                  if Rest = [] then (Inr PrefixResult, s)
                  else collapseOperandSequence E (PrefixResult # Rest) s)
        | None \<Rightarrow> collapseLoop E Op (Next # Rest) s))"
| "collapseLoop E Lhs [] s = (Inr Lhs, s)"
| "collapseLoop E Lhs (Op # Rest) s =
     (case (binaryOperatorName s Op, Rest) of
        (Some Name, Rhs # Behind) \<Rightarrow>
          if tighterBehind s Name Behind
          then (let b = boundary s (getOperatorPrecedence s Name) Behind in
            case collapseOperandSequence E (Rhs # take b Behind) s of
              (Inl e, s) \<Rightarrow> (Inl e, s)
            | (Inr Rhs, s) \<Rightarrow> collapseBinary E Lhs (po_Loc Op) Name Rhs (drop b Behind) s)
          else collapseBinary E Lhs (po_Loc Op) Name Rhs Behind s
      | _ \<Rightarrow> (case following E Lhs Op s of (Lhs, s) \<Rightarrow> collapseLoop E Lhs Rest s))"
| "collapseBinary E Lhs Loc Name Rhs Behind s =
     (if startsWithAs Behind
      then (case collapseOperandSequence E [Rhs, hd Behind] s of
          (Inl e, s) \<Rightarrow> (Inl e, s)
        | (Inr Rhs, s) \<Rightarrow> collapseMatch E Lhs Loc Name Rhs (tl Behind) s)
      else collapseMatch E Lhs Loc Name Rhs Behind s)"
| "collapseMatch E Lhs Loc Name Rhs Behind s =
     (case findOperator E Name (po_ResultType Lhs) (po_ResultType Rhs) s of
        (Some OpMatch, s) \<Rightarrow>
          (case binaryCall E Loc Name OpMatch Lhs Rhs s of (NewLhs, s) \<Rightarrow> collapseLoop E NewLhs Behind s)
      | (None, s) \<Rightarrow>
          if prefixName Rhs \<noteq> None \<and> Behind \<noteq> []
          then (case collapseOperandSequence E [Rhs, hd Behind] s of
              (Inl e, s) \<Rightarrow> (Inl e, s)
            | (Inr Rhs, s) \<Rightarrow>
                (case findOperator E Name (po_ResultType Lhs) (po_ResultType Rhs) s of
                   (Some OpMatch, s) \<Rightarrow>
                     (case binaryCall E Loc Name OpMatch Lhs Rhs s of
                        (NewLhs, s) \<Rightarrow> collapseLoop E NewLhs (tl Behind) s)
                 | (None, s) \<Rightarrow> collapseLoop E Lhs (Rhs # movedFrom E (hd Behind) # tl Behind) s))
          else collapseLoop E Lhs (Rhs # Behind) s)"
  by pat_completeness auto
termination
  by (relation "measure (\<lambda>x. case x of
       Inl (Inl (E, Ops, s)) \<Rightarrow> 4 * length Ops
     | Inl (Inr (E, Lhs, Rest, s)) \<Rightarrow> 4 * length Rest + 3
     | Inr (Inl (E, Lhs, Loc, Name, Rhs, Behind, s)) \<Rightarrow> 4 * length Behind + 9
     | Inr (Inr (E, Lhs, Loc, Name, Rhs, Behind, s)) \<Rightarrow> 4 * length Behind + 8)")
    (auto simp: startsWithAs_def neq_Nil_conv split: list.splits)

end
