(* ===== verification/Planner_Collapse_Theorems.thy ===== *)
theory Planner_Collapse_Theorems
  imports Planner_Collapse
begin

text \<open>
  Precedence in the planner: a sequence of operands and infix operators becomes the tree that the
  precedences and left associativity prescribe. The statement is a round trip: a tree that
  respects them, written down in order, is collapsed to a call for each of its nodes.
\<close>

section \<open>Trees of operations\<close>

datatype operation =
    Leaf planned_operand
  | Node operation planned_operand operation

fun inOrder :: "operation \<Rightarrow> planned_operand list" where
  "inOrder (Leaf x) = [x]"
| "inOrder (Node l f r) = inOrder l @ f # inOrder r"

text \<open>The infix operators, the weakest first.\<close>

definition levels :: "string list list" where
  "levels = [[''||''], [''&&''], [''|''], [''^''], [''&''], [''='', ''<>''], [''<'', ''>'', ''<='', ''>=''],
     [''<<'', ''>>''], [''+'', ''-''], [''*'', ''/'', ''%'']]"

definition infixOperator :: "planned_operand \<Rightarrow> bool" where
  "infixOperator f \<longleftrightarrow> (\<exists>Name. typeName f = Some Name \<and> Name \<in> set (concat levels))"

definition operatorName :: "planned_operand \<Rightarrow> string" where
  "operatorName f = the (typeName f)"

definition strength :: "planned_operand \<Rightarrow> nat" where
  "strength f = Suc (length (takeWhile (\<lambda>level. operatorName f \<notin> set level) levels))"

text \<open>An operand that starts neither a cast nor a prefix operator.\<close>

definition plain :: "planned_operand \<Rightarrow> bool" where
  "plain x \<longleftrightarrow> castType x = None \<and> prefixName x = None"

text \<open>Each operator binds tighter than those above it, or as tight on the left.\<close>

fun allStrengths :: "(nat \<Rightarrow> bool) \<Rightarrow> operation \<Rightarrow> bool" where
  "allStrengths P (Leaf x) = True"
| "allStrengths P (Node l f r) \<longleftrightarrow> P (strength f) \<and> allStrengths P l \<and> allStrengths P r"

fun byPrecedence :: "operation \<Rightarrow> bool" where
  "byPrecedence (Leaf x) \<longleftrightarrow> plain x"
| "byPrecedence (Node l f r) \<longleftrightarrow> infixOperator f \<and> byPrecedence l \<and> byPrecedence r \<and>
     allStrengths (\<lambda>n. strength f \<le> n) l \<and> allStrengths (\<lambda>n. strength f < n) r"

text \<open>The operand a tree is collapsed to: a call of the operator at each node.\<close>

fun represents :: "operation \<Rightarrow> planned_operand \<Rightarrow> bool" where
  "represents (Leaf x) y \<longleftrightarrow> y = x"
| "represents (Node l f r) y \<longleftrightarrow> (\<exists>Lhs Rhs Mangled IsIntrinsic ResultType.
     represents l Lhs \<and> represents r Rhs \<and>
     y = operatorCall (po_Loc f) (operatorName f) Mangled IsIntrinsic [Lhs, Rhs] ResultType)"

section \<open>The code's table\<close>

lemma levels_names: "Name \<in> set (concat levels) \<Longrightarrow>
  isOperatorName Name \<and>
  getOperatorPrecedence s Name = Suc (length (takeWhile (\<lambda>level. Name \<notin> set level) levels))"
  by (auto simp: levels_def isOperatorName_def getOperatorPrecedence_def)

lemma infix_facts:
  assumes "infixOperator f"
  shows "typeName f = Some (operatorName f)" "prefixName f = Some (operatorName f)"
    "binaryOperatorName s f = Some (operatorName f)" "getOperatorPrecedence s (operatorName f) = strength f"
    "0 < strength f" "operatorName f \<in> set (concat levels)"
proof -
  from assms obtain Name where n: "typeName f = Some Name" "Name \<in> set (concat levels)"
    by (auto simp: infixOperator_def)
  then have "operatorName f = Name" by (simp add: operatorName_def)
  with n levels_names [OF n(2), of s] show "typeName f = Some (operatorName f)" "prefixName f = Some (operatorName f)"
    "binaryOperatorName s f = Some (operatorName f)" "getOperatorPrecedence s (operatorName f) = strength f"
    "0 < strength f" "operatorName f \<in> set (concat levels)"
    by (simp_all only: prefixName_def binaryOperatorName_def strength_def option.case if_True simp_thms zero_less_Suc)
qed

lemma not_as: "infixOperator f \<Longrightarrow> \<not> startsWithAs (f # fs)"
  by (auto simp: infixOperator_def typeName_def startsWithAs_def split: planned_expression_of.splits)

lemma inOrder_nonempty [simp]: "inOrder t \<noteq> []"
  by (cases t) simp_all

lemma tl_inOrder [simp]: "tl (inOrder l @ f # inOrder r) = tl (inOrder l) @ f # hd (inOrder r) # tl (inOrder r)"
  by simp

lemma hd_inOrder [simp]: "hd (inOrder l @ onward) = hd (inOrder l)"
  by simp

text \<open>What may stand behind a tree.\<close>

definition endsAt :: "operation \<Rightarrow> planned_operand list \<Rightarrow> bool" where
  "endsAt t onward \<longleftrightarrow> onward = [] \<or>
     infixOperator (hd onward) \<and> allStrengths (\<lambda>n. strength (hd onward) \<le> n) t"

lemma allStrengths_mono: "allStrengths P t \<Longrightarrow> (\<And>n. P n \<Longrightarrow> Q n) \<Longrightarrow> allStrengths Q t"
  by (induction t) auto

lemma byPrecedence_plain: "byPrecedence t \<Longrightarrow> plain (hd (inOrder t))"
  by (induction t) auto

lemma boundary_more:
  "onward = [] \<or> infixOperator (hd onward) \<and> strength (hd onward) \<le> p \<Longrightarrow> boundary s p onward = 0"
proof (cases onward)
  case (Cons g gs)
  assume "onward = [] \<or> infixOperator (hd onward) \<and> strength (hd onward) \<le> p"
  with Cons have g: "infixOperator g" "strength g \<le> p" by auto
  with infix_facts(1,5) [OF g(1)] infix_facts(4) [OF g(1), of s] Cons show ?thesis
    by (cases gs) simp_all
qed simp

lemma boundary_tree:
  "byPrecedence t \<Longrightarrow> allStrengths (\<lambda>n. p < n) t \<Longrightarrow>
     boundary s p (tl (inOrder t) @ onward) = length (tl (inOrder t)) + boundary s p onward"
proof (induction t arbitrary: onward)
  case (Node l f r)
  then have f: "infixOperator f" "p < strength f" by simp_all
  obtain x xs where r: "inOrder r = x # xs" by (cases "inOrder r") auto
  have "boundary s p (f # x # xs @ onward) = 2 + boundary s p (xs @ onward)"
    using infix_facts(1) [OF f(1)] infix_facts(4) [OF f(1), of s] f(2) by simp
  then show ?case using Node.IH(1) [of "f # x # xs @ onward"] Node.IH(2) [of onward] Node.prems
    by (simp add: r)
qed simp

lemma first_operator:
  "byPrecedence (Node l f r) \<Longrightarrow> \<exists>g gs. tl (inOrder (Node l f r)) = g # gs \<and> infixOperator g \<and>
     (\<forall>P. allStrengths P (Node l f r) \<longrightarrow> P (strength g))"
proof (induction l arbitrary: f r)
  case (Node l1 g l2)
  from Node.prems have "byPrecedence (Node l1 g l2)" by simp
  from Node.IH(1) [OF this] obtain h hs where
    h: "tl (inOrder (Node l1 g l2)) = h # hs" "infixOperator h"
      "\<forall>P. allStrengths P (Node l1 g l2) \<longrightarrow> P (strength h)" by blast
  have "inOrder (Node (Node l1 g l2) f r) = inOrder (Node l1 g l2) @ f # inOrder r"
    by (rule inOrder.simps(2))
  then have "tl (inOrder (Node (Node l1 g l2) f r)) = h # hs @ f # inOrder r"
    using h(1) by (metis append_Cons inOrder_nonempty tl_append2)
  with h(2,3) show ?case by (metis allStrengths.simps(2))
qed simp

text \<open>A sequence that starts with a plain operand goes to the loop.\<close>

lemma collapse_starts:
  assumes "byPrecedence t"
  shows "collapseOperandSequence E (inOrder t) s = collapseLoop E (hd (inOrder t)) (tl (inOrder t)) s"
proof -
  obtain x xs where t: "inOrder t = x # xs" by (cases "inOrder t") auto
  then have "castType x = None" "prefixName x = None"
    using byPrecedence_plain [OF assms] by (simp_all add: plain_def)
  then show ?thesis unfolding t by (cases xs) (simp_all del: collapseLoop.simps(2))
qed

section \<open>The contract of the operators\<close>

text \<open>The kind of a tree, when \<open>Kind\<close> sorts the types and \<open>sig\<close> says what an operator makes of two kinds.\<close>

fun hasKind :: "('c \<Rightarrow> planned_type \<Rightarrow> bool) \<Rightarrow> (string \<Rightarrow> 'c \<Rightarrow> 'c \<Rightarrow> 'c option) \<Rightarrow> operation \<Rightarrow> 'c \<Rightarrow> bool" where
  "hasKind Kind sig (Leaf x) c \<longleftrightarrow> Kind c (po_ResultType x)"
| "hasKind Kind sig (Node l f r) c \<longleftrightarrow>
     (\<exists>a b. hasKind Kind sig l a \<and> hasKind Kind sig r b \<and> sig (operatorName f) a b = Some c)"

text \<open>The operators of a sequence are found: \<open>Kind\<close> sorts the types of operands, \<open>sig\<close> says what an operator makes of two
  kinds, and in the states \<open>K\<close> the operator is found and its result has that kind.\<close>

locale operators =
  fixes E :: "('x planner_state) planner_calls"
    and K :: "'x planner_state \<Rightarrow> bool"
    and Kind :: "'c \<Rightarrow> planned_type \<Rightarrow> bool"
    and sig :: "string \<Rightarrow> 'c \<Rightarrow> 'c \<Rightarrow> 'c option"
  assumes found: "K s \<Longrightarrow> Kind c L \<Longrightarrow> Kind d R \<Longrightarrow> sig Name c d = Some e \<Longrightarrow>
      \<exists>OpMatch s' T s''. findOperator E Name L R s = (Some OpMatch, s') \<and>
        matchResult E Loc Name OpMatch L s' = (T, s'') \<and> Kind e T \<and> K s''"
begin

text \<open>One operator applied.\<close>

lemma applied:
  assumes "K s" "Kind a (po_ResultType Lhs)" "Kind b (po_ResultType Rhs)" "sig Name a b = Some c"
  obtains y s' Mangled IsIntrinsic ResultType where
    "collapseMatch E Lhs Loc Name Rhs Behind s = collapseLoop E y Behind s'"
    "y = operatorCall Loc Name Mangled IsIntrinsic [Lhs, Rhs] ResultType"
    "Kind c (po_ResultType y)" "K s'"
proof -
  from found [OF assms, of Loc] obtain OpMatch s1 T s2 where
    "findOperator E Name (po_ResultType Lhs) (po_ResultType Rhs) s = (Some OpMatch, s1)"
    "matchResult E Loc Name OpMatch (po_ResultType Lhs) s1 = (T, s2)" "Kind c T" "K s2"
    by blast
  then show thesis
    by (intro that [of "operatorCall Loc Name (om_MangledName OpMatch) (om_IsIntrinsic OpMatch) [Lhs, Rhs] T" s2])
      (simp_all add: binaryCall_def operatorCall_def newOperand_def)
qed

text \<open>The loop, with the leftmost operand of a tree on its left, walks over the tree and has the tree's
  operand on its left then; what follows must be the end or an operator that binds no tighter than those of the tree.\<close>

lemma loop_tree:
  "hasKind Kind sig t c \<Longrightarrow> byPrecedence t \<Longrightarrow> K s \<Longrightarrow> endsAt t onward \<Longrightarrow>
   \<exists>y s'. collapseLoop E (hd (inOrder t)) (tl (inOrder t) @ onward) s = collapseLoop E y onward s' \<and>
     represents t y \<and> Kind c (po_ResultType y) \<and> K s'"
proof (induction t arbitrary: c s onward)
  case (Leaf x)
  then show ?case by auto
next
  case (Node l f r)
  from Node.prems(1) obtain a b where kinds: "hasKind Kind sig l a" "hasKind Kind sig r b" "sig (operatorName f) a b = Some c" by auto
  from Node.prems(2) have prec: "infixOperator f" "byPrecedence l" "byPrecedence r"
    "allStrengths (\<lambda>n. strength f \<le> n) l" "allStrengths (\<lambda>n. strength f < n) r" by simp_all
  note f = infix_facts [OF prec(1)]
  have "endsAt l (f # inOrder r @ onward)" using prec by (simp add: endsAt_def)
  from Node.IH(1) [OF kinds(1) prec(2) Node.prems(3) this] obtain yl s1 where
    left: "collapseLoop E (hd (inOrder l)) (tl (inOrder l) @ f # inOrder r @ onward) s =
        collapseLoop E yl (f # inOrder r @ onward) s1"
      "represents l yl" "Kind a (po_ResultType yl)" "K s1" by blast
  have no_as: "\<not> startsWithAs onward" using Node.prems(4) not_as [of "hd onward" "tl onward"]
    by (cases onward) (auto simp: endsAt_def startsWithAs_def)
  have finish: "\<exists>y s'. collapseBinary E yl (po_Loc f) (operatorName f) yr onward u = collapseLoop E y onward s' \<and>
      represents (Node l f r) y \<and> Kind c (po_ResultType y) \<and> K s'"
    if arg: "represents r yr" "Kind b (po_ResultType yr)" "K u" for yr u
  proof -
    obtain y s' Mangled IsIntrinsic ResultType where
      run: "collapseMatch E yl (po_Loc f) (operatorName f) yr onward u = collapseLoop E y onward s'"
      and y: "y = operatorCall (po_Loc f) (operatorName f) Mangled IsIntrinsic [yl, yr] ResultType"
      and "Kind c (po_ResultType y)" "K s'"
      by (rule applied [OF arg(3) left(3) arg(2) kinds(3)])
    moreover have "represents (Node l f r) y"
      unfolding represents.simps using y arg(1) left(2) by blast
    moreover have "collapseBinary E yl (po_Loc f) (operatorName f) yr onward u =
        collapseMatch E yl (po_Loc f) (operatorName f) yr onward u"
      using no_as by (simp del: collapseMatch.simps)
    ultimately show ?thesis by metis
  qed
  define Behind where "Behind = tl (inOrder r) @ onward"
  have rest: "inOrder r @ onward = hd (inOrder r) # Behind" by (simp add: Behind_def)
  have step: "\<exists>y s'. collapseLoop E yl (f # inOrder r @ onward) s1 = collapseLoop E y onward s' \<and>
      represents (Node l f r) y \<and> Kind c (po_ResultType y) \<and> K s'"
  proof (cases r)
    case (Leaf x)
    have "\<not> tighterBehind s1 (operatorName f) Behind"
    proof (cases onward)
      case (Cons g gs)
      then have "infixOperator g" "strength g \<le> strength f"
        using Node.prems(4) by (auto simp: endsAt_def)
      then show ?thesis using Cons Leaf f(4) [of s1] infix_facts(3,4) [of g s1]
        by (simp add: Behind_def tighterBehind_def)
    qed (simp add: Behind_def tighterBehind_def Leaf)
    then have "collapseLoop E yl (f # inOrder r @ onward) s1 =
        collapseBinary E yl (po_Loc f) (operatorName f) x onward s1"
      unfolding rest by (simp add: f(3) Leaf Behind_def del: collapseBinary.simps)
    moreover have "represents r x" "Kind b (po_ResultType x)" using Leaf kinds(2) by simp_all
    ultimately show ?thesis using finish left(4) by metis
  next
    case (Node r1 g r2)
    obtain h hs where h: "tl (inOrder r) = h # hs" "infixOperator h" "strength f < strength h"
      using first_operator [of r1 g r2] prec(3,5) unfolding Node by blast
    have tight: "tighterBehind s1 (operatorName f) Behind"
      using h f(4) [of s1] f(5) infix_facts(3,4) [OF h(2), of s1] by (simp add: Behind_def tighterBehind_def)
    have "boundary s1 (strength f) onward = 0"
      using Node.prems(4) by (intro boundary_more) (auto simp: endsAt_def)
    then have len: "boundary s1 (strength f) Behind = length (tl (inOrder r))"
      using boundary_tree [OF prec(3,5), of s1 onward] by (simp add: Behind_def)
    obtain yr u where yr: "collapseLoop E (hd (inOrder r)) (tl (inOrder r)) s1 = (Inr yr, u)"
      "represents r yr" "Kind b (po_ResultType yr)" "K u"
      using Node.IH(2) [OF kinds(2) prec(3) left(4), of "[]"] by (auto simp: endsAt_def)
    have "collapseOperandSequence E (inOrder r) s1 = (Inr yr, u)"
      unfolding collapse_starts [OF prec(3)] by (rule yr(1))
    then have "collapseLoop E yl (f # inOrder r @ onward) s1 =
        collapseBinary E yl (po_Loc f) (operatorName f) yr onward u"
      unfolding rest using tight len f(3,4) [of s1]
      by (simp add: Behind_def Let_def del: collapseBinary.simps)
    then show ?thesis using finish [OF yr(2-4)] by simp
  qed
  then show ?case using left(1) by simp
qed

lemma collapse_tree:
  assumes "hasKind Kind sig t c" "byPrecedence t" "K s"
  shows "\<exists>y s'. collapseOperandSequence E (inOrder t) s = (Inr y, s') \<and> represents t y"
proof -
  from loop_tree [OF assms, of "[]"] obtain y s' where
    "collapseLoop E (hd (inOrder t)) (tl (inOrder t)) s = (Inr y, s')" "represents t y"
    by (auto simp: endsAt_def)
  then show ?thesis using collapse_starts [OF assms(2), of E s] by auto
qed

end

section \<open>Numbers and truth values\<close>

datatype operand_kind = Number | Truth

fun primitiveKind :: "operand_kind \<Rightarrow> planned_type \<Rightarrow> bool" where
  "primitiveKind Number T \<longleftrightarrow> isIntegerOperand (pt_Name T)"
| "primitiveKind Truth T \<longleftrightarrow> pt_Name T = ''bool'' \<and> pt_Generics T = []"

fun primitiveSignature :: "string \<Rightarrow> operand_kind \<Rightarrow> operand_kind \<Rightarrow> operand_kind option" where
  "primitiveSignature Name Number Number =
     (if Name \<in> set [''+'', ''-'', ''*'', ''/'', ''%'', ''&'', ''|'', ''^'', ''<<'', ''>>''] then Some Number
      else if isComparison Name then Some Truth else None)"
| "primitiveSignature Name Truth Truth =
     (if Name = ''&&'' \<or> Name = ''||'' \<or> isComparison Name then Some Truth else None)"
| "primitiveSignature Name _ _ = None"

definition noOperators :: "'x planner_state \<Rightarrow> bool" where
  "noOperators s \<longleftrightarrow> ModuleStack s = [] \<and> (\<forall>Name Ops. map_of (Operators s) Name = Some Ops \<longrightarrow> Ops = [])"

lemma noOperators_lookup: "noOperators s \<Longrightarrow> \<exists>s'. lookupOperator Name s = ([], s') \<and> noOperators s'"
  by (auto simp: noOperators_def lookupOperator_def split: option.split)

lemma integer_kind: "isIntegerOperand N \<Longrightarrow> N \<noteq> ''f64'' \<and> N \<noteq> ''f32''"
  by (auto simp: isIntegerOperand_def)

lemma primitive_found: "primitiveKind c L \<Longrightarrow> primitiveKind d R \<Longrightarrow> primitiveSignature Name c d = Some e \<Longrightarrow>
    primitiveOperator Name L R \<and>
    primitiveKind e (if isComparison Name then named ''bool'' ''bool'' [] else L)"
proof (induction Name c d rule: primitiveSignature.induct)
  case (1 Name)
  then show ?case using integer_kind [of "pt_Name L"]
    by (auto simp: primitiveOperator_def isNumericOperand_def isComparison_def named_def split: if_splits)
next
  case (2 Name)
  then have "typesEqual L R" by (cases L) auto
  with 2 show ?case
    by (auto simp: primitiveOperator_def isComparison_def named_def split: if_splits)
qed simp_all

interpretation primitive: operators E noOperators primitiveKind primitiveSignature
  for E :: "('x planner_state) planner_calls"
proof unfold_locales
  fix s :: "'x planner_state" and c L d R Name e Loc
  assume "noOperators s" "primitiveKind c L" "primitiveKind d R" "primitiveSignature Name c d = Some e"
  note prim = primitive_found [OF this(2-4)]
  from noOperators_lookup [OF \<open>noOperators s\<close>] obtain s' where
    s': "lookupOperator Name s = ([], s')" "noOperators s'" by blast
  have "findOperator E Name L R s = (Some (intrinsicMatch Name L R emptyType), s')"
    using prim s' by (simp add: findOperator_def intrinsicOperator_def)
  moreover have "matchResult E Loc Name (intrinsicMatch Name L R emptyType) L s' =
      (if isComparison Name then named ''bool'' ''bool'' [] else L, s')"
    by (simp add: matchResult_def intrinsicMatch_def emptyType_def)
  ultimately show "\<exists>OpMatch s' T s''. findOperator E Name L R s = (Some OpMatch, s') \<and>
      matchResult E Loc Name OpMatch L s' = (T, s'') \<and> primitiveKind e T \<and> noOperators s''"
    using prim s'(2) by blast
qed

text \<open>C12. Precedence and associativity of the operators of the language: take any tree of infix operators
  over integers and truth values in which each operator binds tighter than those above it, or as tight on the left, and write
  it down in order without brackets. Where no module is open and no operator was declared (\<open>noOperators\<close>), collapsing
  the sequence gives a call for each node of that tree, and no operand is lost or moved. With operators that
  are declared in a module this need not hold: one that is not found for its operands is dropped (\<open>operator_dropped\<close>).\<close>

theorem precedence_roundtrip:
  assumes "byPrecedence t" "hasKind primitiveKind primitiveSignature t c" "noOperators s"
  shows "\<exists>y s'. collapseOperandSequence E (inOrder t) s = (Inr y, s') \<and> represents t y"
  by (rule primitive.collapse_tree [OF assms(2,1,3)])

definition numberOperand :: "string \<Rightarrow> planned_operand" where
  "numberOperand x = newOperand (Span 0 0) (named ''int'' ''i'' [])
     (PExpr_Variable (PlannedVariable (Span 0 0) x (named ''int'' ''i'' []) False))"

definition signOperand :: "string \<Rightarrow> planned_operand" where
  "signOperand Name = newOperand (Span 0 0) emptyType (PExpr_Type (named Name Name []))"

definition sampleState :: "unit planner_state" where
  "sampleState = \<lparr>InstantiatedStructures = [], InstantiatedUnions = [], Operators = [], ModuleStack = [],
     PlannerFile = []\<rparr>"

definition sampleCalls :: "(unit planner_state) planner_calls" where
  "sampleCalls = \<lparr>resolveType = (\<lambda>T Loc s. (Inl (UndefinedTypeError [] Loc []), s)),
     lookupMethod = (\<lambda>T Name Args Loc s. (None, s)), movedFrom = (\<lambda>x. x)\<rparr>"

text \<open>\<open>a + b * c < d\<close>\<close>

definition sampleTree :: operation where
  "sampleTree = Node (Node (Leaf (numberOperand ''a'')) (signOperand ''+'')
       (Node (Leaf (numberOperand ''b'')) (signOperand ''*'') (Leaf (numberOperand ''c''))))
     (signOperand ''<'') (Leaf (numberOperand ''d''))"

theorem precedence_roundtrip_witness:
  "\<exists>y s'. collapseOperandSequence sampleCalls (map numberOperand [''a''] @ [signOperand ''+'', numberOperand ''b'',
     signOperand ''*'', numberOperand ''c'', signOperand ''<'', numberOperand ''d'']) sampleState = (Inr y, s') \<and>
     represents sampleTree y"
proof -
  have "byPrecedence sampleTree"
    by (simp add: sampleTree_def numberOperand_def signOperand_def newOperand_def named_def plain_def castType_def
      prefixName_def typeName_def infixOperator_def levels_def strength_def operatorName_def)
  moreover have "hasKind primitiveKind primitiveSignature sampleTree Truth"
    by (auto simp: sampleTree_def numberOperand_def signOperand_def newOperand_def named_def operatorName_def typeName_def
      isIntegerOperand_def isComparison_def intro!: exI [of _ Number])
  moreover have "noOperators sampleState" by (simp add: noOperators_def sampleState_def)
  ultimately show ?thesis using precedence_roundtrip [of sampleTree Truth sampleState sampleCalls]
    by (simp add: sampleTree_def)
qed

section \<open>Where the grouping is not the expected one\<close>

text \<open>A prefix operator behind an infix operator is applied before what binds tighter is looked at:
  \<open>a + -b * c\<close> is grouped as \<open>(a + -b) * c\<close>.\<close>

definition rootName :: "planned_operand \<Rightarrow> string option" where
  "rootName y = (case po_Expr y of PExpr_Call C \<Rightarrow> Some (pc_Name C) | _ \<Rightarrow> None)"

lemma prefix_grouping:
  "map_sum (\<lambda>e. ()) rootName (fst (collapseOperandSequence sampleCalls [numberOperand ''a'', signOperand ''+'',
     signOperand ''-'', numberOperand ''b'', signOperand ''*'', numberOperand ''c''] sampleState)) =
   Inr (Some ''*'')"
  by code_simp

text \<open>A chain of prefix operators takes all that follows: \<open>- - a + b\<close> is \<open>-(-a + b)\<close>.\<close>

lemma prefix_chain:
  "map_sum (\<lambda>e. ()) rootName (fst (collapseOperandSequence sampleCalls [signOperand ''-'', signOperand ''-'',
     numberOperand ''a'', signOperand ''+'', numberOperand ''b''] sampleState)) = Inr (Some ''-'')"
  by code_simp

text \<open>When no operator is found for two operands, the left one and the operator are dropped without an error.\<close>

lemma operator_dropped:
  assumes "plain a" "binaryOperatorName s f = Some Name" "prefixName b = None"
    and "findOperator E Name (po_ResultType a) (po_ResultType b) s = (None, s1)"
    and "po_Expr b = PExpr_Variable v"
  shows "fst (collapseOperandSequence E [a, f, b] s) = Inr b"
proof -
  have "typeName b = None" using assms(5) by (simp add: typeName_def)
  then have "binaryOperatorName s1 b = None" by (simp add: binaryOperatorName_def)
  moreover have "\<exists>s2. following E a b s1 = (b, s2)"
    using assms(5) by (auto simp: following_def methodCall_def split: option.split)
  ultimately show ?thesis using assms
    by (auto simp: plain_def tighterBehind_def startsWithAs_def)
qed

end
