(* ===== verification/Library_Strings.thy ===== *)
theory Library_Strings
  imports Prelude "HOL-Library.Word"
begin

text \<open>
  The strings of the runtime library of the older compiler: String.cpp, StringIterator.cpp and
  hashing.cpp of retired/packages/scaly/scaly/containers.

  A string is one pointer to its bytes with their number in front, seven bits to a byte. A pointer
  is the memory from there to the end of its allocation, \<open>None\<close> the null pointer, so that
  reading through the null pointer or past the end shows: a method \<open>Returns\<close> a value, \<open>Exits\<close> with a
  code, \<open>Faults\<close>, which is undefined behaviour of C++, or \<open>Hangs\<close>. Pages have room for everything. As the
  code takes it for granted on its platform, \<open>char\<close> is signed.
\<close>

unbundle bit_operations_syntax

datatype 'a run = Returns 'a | Exits nat | Faults | Hangs

fun andThenRun :: "'a run \<Rightarrow> ('a \<Rightarrow> 'b run) \<Rightarrow> 'b run" where
  "andThenRun (Returns x) f = f x"
| "andThenRun (Exits n) f = Exits n"
| "andThenRun Faults f = Faults"
| "andThenRun Hangs f = Hangs"

type_synonym bytes = "8 word list"
type_synonym address = "bytes option"

definition readByte :: "bytes \<Rightarrow> nat \<Rightarrow> 8 word run" where
  "readByte p i = (if i < length p then Returns (p ! i) else Faults)"

fun memoryAt :: "address \<Rightarrow> bytes run" where
  "memoryAt None = Faults"
| "memoryAt (Some p) = Returns p"

definition copyOf :: "address \<Rightarrow> nat \<Rightarrow> bytes run" where
  "copyOf p n = (if n = 0 then Returns []
     else andThenRun (memoryAt p) (\<lambda>m. if n \<le> length m then Returns (take n m) else Faults))"

text \<open>\<open>memcmp(p, q, n) == 0\<close>; nothing is read when \<open>n\<close> is 0.\<close>

definition sameMemory :: "address \<Rightarrow> address \<Rightarrow> nat \<Rightarrow> bool run" where
  "sameMemory p q n = andThenRun (copyOf p n) (\<lambda>x. andThenRun (copyOf q n) (\<lambda>y. Returns (x = y)))"

fun strlenOf :: "bytes \<Rightarrow> nat run" where
  "strlenOf [] = Faults"
| "strlenOf (b # p) = (if b = 0 then Returns 0 else andThenRun (strlenOf p) (\<lambda>n. Returns (Suc n)))"

section \<open>hashing\<close>

definition HASH_PRIMES :: "64 word list" where
  "HASH_PRIMES = [3, 5, 11, 23, 53, 97, 193, 389, 769, 1543, 3079, 6151, 12289, 24593, 49157, 98317, 196613, 393241,
     786433, 1572869, 3145739, 6291469, 12582917, 25165843, 50331653, 100663319, 201326611, 402653189, 805306457,
     1610612741]"

text \<open>The loops of \<open>is_prime\<close> and \<open>get_prime\<close> answer \<open>None\<close> when they never end. \<open>squareRoot\<close> is the parameter for
  \<open>(size_t)sqrt((double)candidate)\<close> of the C library.\<close>

partial_function (option) isPrimeLoop :: "64 word \<Rightarrow> 64 word \<Rightarrow> 64 word \<Rightarrow> bool option" where
  "isPrimeLoop candidate limit divisor =
     (if divisor \<le> limit then
        if candidate mod (divisor + 2) = 0 then Some False else isPrimeLoop candidate limit (divisor + 2)
      else Some True)"

definition is_prime :: "(64 word \<Rightarrow> 64 word) \<Rightarrow> 64 word \<Rightarrow> bool option" where
  "is_prime squareRoot candidate =
     (if candidate AND 1 \<noteq> 0 then isPrimeLoop candidate (squareRoot candidate) 3
      else Some (candidate = 2))"

partial_function (option) getPrimeLoop :: "(64 word \<Rightarrow> 64 word) \<Rightarrow> 64 word \<Rightarrow> 64 word \<Rightarrow> 64 word option" where
  "getPrimeLoop squareRoot wanted i =
     (if i < -1 then
        case is_prime squareRoot i of
          None \<Rightarrow> None
        | Some prime \<Rightarrow> if prime then Some i else getPrimeLoop squareRoot wanted (i + 2)
      else Some wanted)"

definition get_prime :: "(64 word \<Rightarrow> 64 word) \<Rightarrow> 64 word \<Rightarrow> 64 word option" where
  "get_prime squareRoot wanted =
     (case find (\<lambda>p. p \<ge> wanted) HASH_PRIMES of
        Some p \<Rightarrow> Some p
      | None \<Rightarrow> getPrimeLoop squareRoot wanted (wanted OR 1))"

text \<open>The index is an \<open>int\<close>: beyond \<open>2 ^ 31\<close> bytes it overflows.\<close>

function hashLoop :: "bytes \<Rightarrow> 64 word \<Rightarrow> nat \<Rightarrow> 64 word \<Rightarrow> 64 word run" where
  "hashLoop data length' i h =
     (if i < unat length' \<and> i < 2 ^ 31 then
        andThenRun (readByte data i) (\<lambda>value. hashLoop data length' (i + 1) ((h XOR scast value) * 0x100000001b3))
      else if i < unat length' then Faults
      else Returns h)"
  by pat_completeness auto
termination by (relation "measure (\<lambda>(_, n, i, _). unat n - i)") auto

definition hash_bytes :: "bytes \<Rightarrow> 64 word \<Rightarrow> 64 word run" where
  "hash_bytes data length' = hashLoop data length' 0 0xcbf29ce484222325"

section \<open>class String\<close>

definition PACKED_SIZE :: nat where
  "PACKED_SIZE = 9"

text \<open>The number of bytes, as it is written into \<open>length_array\<close> of \<open>PACKED_SIZE\<close> bytes.\<close>

function packLength :: "nat \<Rightarrow> 64 word \<Rightarrow> bytes run" where
  "packLength counter rest =
     (if counter \<ge> PACKED_SIZE then Faults
      else if rest \<ge> 0x80 then
        andThenRun (packLength (counter + 1) (drop_bit 7 rest)) (\<lambda>bs. Returns ((ucast rest OR 0x80) # bs))
      else Returns [ucast rest])"
  by pat_completeness auto
termination by (relation "measure (\<lambda>(counter, _). PACKED_SIZE - counter)") auto

text \<open>The number of bytes, as every method reads it: the number and the index of its last byte.\<close>

function unpackLength :: "nat \<Rightarrow> bytes \<Rightarrow> 64 word \<Rightarrow> nat \<Rightarrow> nat \<Rightarrow> (64 word \<times> nat) run" where
  "unpackLength code data len bit_count index =
     (if bit_count = PACKED_SIZE * 7 then Exits code
      else if index < length data then
        let byte = data ! index; len = len OR push_bit bit_count (ucast (byte AND 0x7f)) in
        if byte AND 0x80 = 0 then Returns (len, index)
        else unpackLength code data len (bit_count + 7) (index + 1)
      else Faults)"
  by pat_completeness auto
termination by (relation "measure (\<lambda>(_, data, _, _, index). length data - index)") auto

definition String_sized :: "bytes \<Rightarrow> 64 word \<Rightarrow> address run" where
  "String_sized garbage len = andThenRun (packLength 0 len) (\<lambda>bs. Returns (Some (bs @ take (unat len) garbage)))"

definition String_of :: "address \<Rightarrow> 64 word \<Rightarrow> address run" where
  "String_of other len =
     (if len = 0 then Returns None
      else andThenRun (packLength 0 len) (\<lambda>bs. andThenRun (copyOf other (unat len)) (\<lambda>m. Returns (Some (bs @ m)))))"

definition String_c :: "bytes \<Rightarrow> address run" where
  "String_c c_string = andThenRun (strlenOf c_string) (\<lambda>n. String_of (Some c_string) (of_nat n))"

definition String_copy :: "address \<Rightarrow> address run" where
  "String_copy other = (case other of None \<Rightarrow> Returns None
     | Some p \<Rightarrow> andThenRun (unpackLength 12 p 0 0 0) (\<lambda>(len, index).
         andThenRun (copyOf other (index + 1 + unat len)) (\<lambda>m. Returns (Some m))))"

definition String_char :: "8 word \<Rightarrow> address" where
  "String_char character = Some [1, character]"

definition get_buffer :: "address \<Rightarrow> address run" where
  "get_buffer data = (case data of None \<Rightarrow> Returns None
     | Some p \<Rightarrow> andThenRun (unpackLength 11 p 0 0 0) (\<lambda>(len, index). Returns (Some (drop (index + 1) p))))"

definition get_length :: "address \<Rightarrow> 64 word run" where
  "get_length data = (case data of None \<Rightarrow> Returns 0
     | Some p \<Rightarrow> andThenRun (unpackLength 11 p 0 0 0) (\<lambda>(len, index). Returns len))"

text \<open>Number and index, as the methods that take the null pointer for an empty string begin.\<close>

definition lengthOrNone :: "nat \<Rightarrow> address \<Rightarrow> (64 word \<times> nat) run" where
  "lengthOrNone code data = (case data of None \<Rightarrow> Returns (0, 0) | Some p \<Rightarrow> unpackLength code p 0 0 0)"

definition behind :: "address \<Rightarrow> nat \<Rightarrow> address" where
  "behind p n = map_option (drop n) p"

text \<open>The terminating zero goes to \<open>dest + index + length\<close>, which has to be in the \<open>length + 1\<close> bytes of \<open>dest\<close>.\<close>

definition to_c_string :: "address \<Rightarrow> bytes run" where
  "to_c_string data = andThenRun (lengthOrNone 11 data) (\<lambda>(len, index).
     andThenRun (if data = None then Returns [] else copyOf (behind data (index + 1)) (unat len)) (\<lambda>m.
       if index + unat len < unat (len + 1) then Returns (m @ [0]) else Faults))"

definition equals :: "address \<Rightarrow> address \<Rightarrow> bool run" where
  "equals data other = andThenRun (lengthOrNone 11 data) (\<lambda>(len, index).
     andThenRun (get_length other) (\<lambda>n.
       if len \<noteq> n then Returns False
       else if data = None then Returns True
       else sameMemory (behind data (index + 1)) (behind other (index + 1)) (unat len)))"

definition equals_c :: "address \<Rightarrow> bytes \<Rightarrow> bool run" where
  "equals_c data other = andThenRun (lengthOrNone 13 data) (\<lambda>(len, index).
     andThenRun (strlenOf other) (\<lambda>n.
       if len \<noteq> of_nat n then Returns False
       else if data = None then Returns True
       else sameMemory (behind data (index + 1)) (Some other) (unat len)))"

definition equals_vector :: "address \<Rightarrow> address \<Rightarrow> 64 word \<Rightarrow> bool run" where
  "equals_vector data other n = andThenRun (memoryAt data) (\<lambda>p. andThenRun (unpackLength 11 p 0 0 0) (\<lambda>(len, index).
     if len \<noteq> n then Returns False else sameMemory (behind data (index + 1)) other (unat len)))"

definition hash_string :: "address \<Rightarrow> 64 word run" where
  "hash_string data = andThenRun (memoryAt data) (\<lambda>p. andThenRun (unpackLength 11 p 0 0 0) (\<lambda>(len, index).
     hash_bytes (drop (index + 1) p) len))"

section \<open>class StringIterator\<close>

text \<open>The iterator is the memory from \<open>current\<close> on and the bytes to \<open>last\<close>.\<close>

record string_iterator =
  Current :: address
  Rest :: nat

definition StringIterator_of :: "address \<Rightarrow> string_iterator run" where
  "StringIterator_of data = andThenRun (get_buffer data) (\<lambda>buffer. andThenRun (get_length data) (\<lambda>n.
     Returns \<lparr>Current = buffer, Rest = unat n\<rparr>))"

definition next_char :: "string_iterator \<Rightarrow> (8 word option \<times> string_iterator) run" where
  "next_char s = (if Rest s = 0 then Returns (None, s)
     else andThenRun (memoryAt (Current s)) (\<lambda>p. andThenRun (readByte p 0) (\<lambda>b.
       Returns (Some b, s\<lparr>Current := Some (drop 1 p), Rest := Rest s - 1\<rparr>))))"


section \<open>The length in front\<close>

declare packLength.simps [simp del] unpackLength.simps [simp del] hashLoop.simps [simp del]

lemma byte_masks: "bit (0x7f :: 'a::len word) n = (n < 7 \<and> n < LENGTH('a))" "bit (0x80 :: 'a word) n = (n = 7 \<and> n < LENGTH('a))"
proof -
  have "bit (mask 7 :: 'a word) n = (n < 7 \<and> n < LENGTH('a))" "bit (2 ^ 7 :: 'a word) n = (n = 7 \<and> n < LENGTH('a))"
    by (auto simp only: bit_mask_iff bit_exp_iff possible_bit_word)
  then show "bit (0x7f :: 'a word) n = (n < 7 \<and> n < LENGTH('a))" "bit (0x80 :: 'a word) n = (n = 7 \<and> n < LENGTH('a))"
    by (simp_all add: mask_eq_exp_minus_1)
qed

lemma low_bits: "(ucast ((ucast r OR 0x80 :: 8 word) AND 0x7f) :: 64 word) = take_bit 7 (r :: 64 word)"
  by (rule bit_word_eqI) (auto simp only: bit_ucast_iff bit_and_iff bit_or_iff bit_take_bit_iff byte_masks possible_bit_word, auto)

lemma high_bit: "(ucast r OR 0x80 :: 8 word) AND 0x80 \<noteq> 0"
proof
  assume "(ucast r OR 0x80 :: 8 word) AND 0x80 = 0"
  then have "bit ((ucast r OR 0x80 :: 8 word) AND 0x80) 7 = bit (0 :: 8 word) 7" by simp
  then show False by (simp only: bit_and_iff bit_or_iff byte_masks bit_0_eq) simp
qed

lemma last_byte:
  assumes "r < (0x80 :: 64 word)"
  shows "(ucast ((ucast r :: 8 word) AND 0x7f) :: 64 word) = r" and "(ucast r :: 8 word) AND 0x80 = 0"
proof -
  have "unat r < 2 ^ 7" using assms by (simp add: word_less_nat_alt)
  then have r: "take_bit 7 r = r" by (simp add: word_unat_eq_iff unsigned_take_bit_eq take_bit_nat_eq_self)
  have "(ucast ((ucast r :: 8 word) AND 0x7f) :: 64 word) = take_bit 7 r"
    by (rule bit_word_eqI) (auto simp only: bit_ucast_iff bit_and_iff bit_or_iff bit_take_bit_iff byte_masks possible_bit_word, auto)
  then show "(ucast ((ucast r :: 8 word) AND 0x7f) :: 64 word) = r" by (simp add: r)
  have "\<not> bit r 7" using r by (metis bit_take_bit_iff less_irrefl)
  then show "(ucast r :: 8 word) AND 0x80 = 0"
    by (intro bit_word_eqI) (auto simp only: bit_ucast_iff bit_and_iff byte_masks bit_0_eq)
qed

lemma split_low: "push_bit k (take_bit 7 r) OR push_bit (k + 7) (drop_bit 7 r) = push_bit k (r :: 64 word)"
proof (rule bit_word_eqI)
  fix n assume "n < LENGTH(64)"
  show "bit (push_bit k (take_bit 7 r) OR push_bit (k + 7) (drop_bit 7 r)) n = bit (push_bit k r) n"
    by (cases "k + 7 \<le> n") (auto simp: bit_simps)
qed


lemma packLength_total:
  "unat rest < 2 ^ (7 * (9 - k)) \<Longrightarrow> k < 9 \<Longrightarrow> \<exists>bs. packLength k rest = Returns bs \<and> bs \<noteq> [] \<and> length bs \<le> 9 - k"
proof (induction k rest rule: packLength.induct)
  case (1 k rest)
  show ?case
  proof (cases "rest < 0x80")
    case True
    then have "\<not> rest \<ge> 0x80" by simp
    then show ?thesis using "1.prems" by (simp add: packLength.simps [of k] PACKED_SIZE_def)
  next
    case False
    then have big: "unat rest \<ge> 128" by (simp add: word_le_nat_alt not_less)
    then have "k \<noteq> 8" using "1.prems" by auto
    then have k: "k + 1 < 9" using "1.prems" by simp
    have e: "7 * (9 - k) = 7 + 7 * (9 - (k + 1))" using k by simp
    have "unat (drop_bit 7 rest) = unat rest div 128"
      by (simp add: word_unat_eq_iff [symmetric] drop_bit_eq_div unat_div)
    moreover have "unat rest < 128 * 2 ^ (7 * (9 - (k + 1)))" using "1.prems"(1) unfolding e power_add by simp
    ultimately have "unat (drop_bit 7 rest) < 2 ^ (7 * (9 - (k + 1)))" by (simp add: less_mult_imp_div_less mult.commute)
    then have "\<exists>bs. packLength (k + 1) (drop_bit 7 rest) = Returns bs \<and> bs \<noteq> [] \<and> length bs \<le> 9 - (k + 1)"
      using "1.IH" False k by (simp add: PACKED_SIZE_def)
    then show ?thesis using False k by (auto simp: packLength.simps [of k] PACKED_SIZE_def)
  qed
qed

lemma packLength_nonempty: "packLength k rest = Returns bs \<Longrightarrow> bs \<noteq> []"
  by (cases "packLength (k + 1) (drop_bit 7 rest)") (auto simp: packLength.simps [of k] split: if_splits)

lemma andThenRun_Returns: "andThenRun r f = Returns y \<longleftrightarrow> (\<exists>x. r = Returns x \<and> f x = Returns y)"
  by (cases r) auto

lemma unpack_packed:
  assumes "packLength k rest = Returns bs" "drop k data = bs @ m"
  shows "unpackLength code data len (7 * k) k = Returns (len OR push_bit (7 * k) rest, k + length bs - 1)"
  using assms
proof (induction bs arbitrary: k rest len)
  case (Cons b bs)
  have k: "k < 9" using Cons.prems(1) by (auto simp: packLength.simps [of k] PACKED_SIZE_def split: if_splits)
  have data: "k < length data" "data ! k = b" "drop (Suc k) data = bs @ m"
    using Cons.prems(2) by (auto simp: nth_via_drop drop_Suc tl_drop [symmetric]) (metis drop_eq_Nil list.distinct(1) linorder_not_less)
  show ?case
  proof (cases "rest < 0x80")
    case True
    then have "\<not> rest \<ge> 0x80" by simp
    then have "b = ucast rest" "bs = []" using Cons.prems(1) k by (auto simp: packLength.simps [of k] PACKED_SIZE_def)
    then show ?thesis using k data last_byte [OF True] by (simp add: unpackLength.simps [of code data len "7 * k" k] PACKED_SIZE_def Let_def)
  next
    case False
    then have "rest \<ge> 0x80" by simp
    then have p: "packLength (k + 1) (drop_bit 7 rest) = Returns bs" and b: "b = ucast rest OR 0x80"
      using Cons.prems(1) k by (auto simp: packLength.simps [of k] PACKED_SIZE_def andThenRun_Returns)
    have ne: "bs \<noteq> []" using p by (rule packLength_nonempty)
    have "unpackLength code data len (7 * k) k
        = unpackLength code data (len OR push_bit (7 * k) (take_bit 7 rest)) (7 * (k + 1)) (k + 1)"
      using k data b low_bits [of rest] high_bit [of rest] by (simp add: unpackLength.simps [of code data len "7 * k" k] PACKED_SIZE_def Let_def add.commute)
    also have "\<dots> = Returns ((len OR push_bit (7 * k) (take_bit 7 rest)) OR push_bit (7 * (k + 1)) (drop_bit 7 rest), k + 1 + length bs - 1)"
      by (rule Cons.IH [OF p]) (simp add: data)
    also have "(len OR push_bit (7 * k) (take_bit 7 rest)) OR push_bit (7 * (k + 1)) (drop_bit 7 rest) = len OR push_bit (7 * k) rest"
      using split_low [of "7 * k" rest] by (simp add: or.assoc add.commute)
    finally show ?thesis by simp
  qed
qed (auto dest: packLength_nonempty)


section \<open>What a string holds\<close>

definition packed :: "nat \<Rightarrow> bytes" where
  "packed n = (case packLength 0 (of_nat n) of Returns bs \<Rightarrow> bs | _ \<Rightarrow> [])"

definition string_for :: "bytes \<Rightarrow> address" where
  "string_for bs = (if bs = [] then None else Some (packed (length bs) @ bs))"

definition fnv :: "bytes \<Rightarrow> 64 word" where
  "fnv = foldl (\<lambda>h value. (h XOR scast value) * 0x100000001b3) 0xcbf29ce484222325"

lemma unat_length: "n < 2 ^ 63 \<Longrightarrow> unat (of_nat n :: 64 word) = n"
  by (simp add: unat_of_nat)

lemma of_nat_same: "m < 2 ^ 63 \<Longrightarrow> n < 2 ^ 63 \<Longrightarrow> (of_nat m :: 64 word) = of_nat n \<longleftrightarrow> m = n"
  by (metis unat_length)

lemma of_nat_eq_0: "n < 2 ^ 63 \<Longrightarrow> (of_nat n :: 64 word) = 0 \<longleftrightarrow> n = 0"
  using of_nat_same [of n 0] by simp

lemma packed:
  assumes "n < 2 ^ 63"
  shows "packLength 0 (of_nat n) = Returns (packed n)" "packed n \<noteq> []" "length (packed n) \<le> 9"
  using packLength_total [of "of_nat n" 0] assms by (auto simp: packed_def unat_length)

lemma unpack:
  assumes "n < 2 ^ 63"
  shows "unpackLength code (packed n @ m) 0 0 0 = Returns (of_nat n, length (packed n) - 1)"
  using unpack_packed [OF packed(1) [OF assms], of "packed n @ m" m code 0] by simp

lemma String_of_eq:
  assumes "length bs < 2 ^ 63"
  shows "String_of (Some (bs @ behind_it)) (of_nat (length bs)) = Returns (string_for bs)"
  using assms packed [OF assms] by (simp add: String_of_def string_for_def copyOf_def unat_length of_nat_eq_0)

lemma get_length_eq: "length bs < 2 ^ 63 \<Longrightarrow> get_length (string_for bs) = Returns (of_nat (length bs))"
  by (auto simp: get_length_def string_for_def unpack)

lemma behind_packed: "n < 2 ^ 63 \<Longrightarrow> drop (length (packed n) - 1 + 1) (packed n @ m) = m"
  using packed(2) [of n] by simp

lemma get_buffer_eq: "length bs < 2 ^ 63 \<Longrightarrow> get_buffer (string_for bs) = Returns (if bs = [] then None else Some bs)"
  using behind_packed [of "length bs"] by (auto simp: get_buffer_def string_for_def unpack simp del: drop_append)

lemma String_copy_eq: "length bs < 2 ^ 63 \<Longrightarrow> String_copy (string_for bs) = Returns (string_for bs)"
  using packed(2) [of "length bs"] by (auto simp: String_copy_def string_for_def unpack copyOf_def unat_length Suc_leI)

lemma lengthOrNone_eq:
  "length bs < 2 ^ 63 \<Longrightarrow> lengthOrNone code (string_for bs) = Returns (of_nat (length bs), if bs = [] then 0 else length (packed (length bs)) - 1)"
  by (auto simp: lengthOrNone_def string_for_def unpack)

lemma string_for_Nil [simp]: "string_for [] = None"
  by (simp add: string_for_def)

lemma string_for_None [simp]: "string_for bs = None \<longleftrightarrow> bs = []"
  by (simp add: string_for_def)

lemma behind_eq: "bs \<noteq> [] \<Longrightarrow> length bs < 2 ^ 63 \<Longrightarrow> behind (string_for bs) (length (packed (length bs)) - 1 + 1) = Some bs"
  using behind_packed [of "length bs" bs] by (simp add: behind_def string_for_def del: drop_append)

lemma sameMemory_eq: "length a = length b \<Longrightarrow> sameMemory (Some a) (Some b) (length a) = Returns (a = b)"
  by (auto simp: sameMemory_def copyOf_def)

lemma equals_eq:
  assumes "length a < 2 ^ 63" "length b < 2 ^ 63"
  shows "equals (string_for a) (string_for b) = Returns (a = b)"
proof (cases "length a = length b \<and> a \<noteq> [] \<and> b \<noteq> []")
  case True
  then show ?thesis
    using assms True behind_eq [of a] behind_eq [of b] sameMemory_eq [of a b]
    by (simp add: equals_def lengthOrNone_eq get_length_eq unat_length)
next
  case False
  then show ?thesis using assms of_nat_same [OF assms] by (auto simp: equals_def lengthOrNone_eq get_length_eq)
qed

lemma hashLoop_eq:
  assumes "i \<le> n" "n \<le> length data" "n < 2 ^ 31"
  shows "hashLoop data (of_nat n) i h = Returns (foldl (\<lambda>h value. (h XOR scast value) * 0x100000001b3) h (drop i (take n data)))"
  using assms
proof (induction "n - i" arbitrary: i h)
  case 0
  then show ?case by (simp add: hashLoop.simps [of data _ i] unat_length)
next
  case (Suc d)
  then have "i < n" by simp
  then have "drop i (take n data) = data ! i # drop (Suc i) (take n data)"
    using Suc.prems by (simp add: Cons_nth_drop_Suc [symmetric])
  then show ?case using Suc \<open>i < n\<close>
    by (simp add: hashLoop.simps [of data _ i] unat_length readByte_def)
qed

lemma hash_eq: "bs \<noteq> [] \<Longrightarrow> length bs < 2 ^ 31 \<Longrightarrow> hash_string (string_for bs) = Returns (fnv bs)"
  using behind_packed [of "length bs" bs]
  by (simp add: hash_string_def string_for_def unpack hash_bytes_def hashLoop_eq fnv_def del: drop_append)


lemma equals_vector_eq:
  assumes "a \<noteq> []" "length a < 2 ^ 63" "length b < 2 ^ 63"
  shows "equals_vector (string_for a) (Some b) (of_nat (length b)) = Returns (a = b)"
proof -
  have "memoryAt (string_for a) = Returns (packed (length a) @ a)" using assms(1) by (simp add: string_for_def)
  then show ?thesis
    using assms behind_eq [of a] sameMemory_eq [of a b] of_nat_same [OF assms(2,3)]
    by (auto simp: equals_vector_def unpack unat_length)
qed

lemma short_packed: "n < 128 \<Longrightarrow> packed n = [ucast (of_nat n :: 64 word)]"
  by (simp add: packed_def packLength.simps PACKED_SIZE_def word_le_nat_alt unat_of_nat)

lemma long_packed:
  assumes "128 \<le> n" "n < 2 ^ 63"
  shows "length (packed n) \<ge> 2"
proof -
  have "(of_nat n :: 64 word) \<ge> 0x80" using assms by (simp add: word_le_nat_alt unat_length)
  then obtain x where "packLength 1 (drop_bit 7 (of_nat n)) = Returns x" "packed n = (ucast (of_nat n :: 64 word) OR 0x80) # x"
    using packed(1) [OF assms(2)] by (auto simp: packLength.simps [of 0] PACKED_SIZE_def andThenRun_Returns)
  then show ?thesis using packLength_nonempty [of 1 "drop_bit 7 (of_nat n)" x] by (cases x) auto
qed

lemma strlen_eq: "0 \<notin> set bs \<Longrightarrow> strlenOf (bs @ 0 # m) = Returns (length bs)"
  by (induction bs) auto

lemma to_c_string_eq:
  assumes "length bs < 2 ^ 63"
  shows "to_c_string (string_for bs) = (if length bs < 128 then Returns (bs @ [0]) else Faults)"
proof (cases "bs = []")
  case True
  then show ?thesis by (simp add: to_c_string_def lengthOrNone_def)
next
  case False
  have n: "unat (of_nat (length bs) + 1 :: 64 word) = length bs + 1"
    using assms unat_length [OF assms] by (simp add: unat_plus_if' unat_length)
  show ?thesis
  proof (cases "length bs < 128")
    case True
    then show ?thesis using False assms n behind_eq [OF False assms]
      by (simp add: to_c_string_def lengthOrNone_eq copyOf_def unat_length short_packed)
  next
    case long: False
    then show ?thesis using False assms n behind_eq [OF False assms] long_packed [of "length bs"]
      by (simp add: to_c_string_def lengthOrNone_eq copyOf_def unat_length)
  qed
qed

section \<open>The table size\<close>

lemma isPrimeLoop_ends:
  assumes "limit < 2 ^ 63"
  shows "\<exists>b. isPrimeLoop candidate limit divisor = Some b"
proof (induction "unat limit + 1 - unat divisor" arbitrary: divisor rule: less_induct)
  case less
  show ?case
  proof (cases "divisor \<le> limit")
    case True
    then have "unat divisor < 2 ^ 63" using assms by (simp add: word_le_nat_alt word_less_nat_alt)
    then have "unat (divisor + 2) = unat divisor + 2" by (simp add: unat_plus_if')
    then have "unat limit + 1 - unat (divisor + 2) < unat limit + 1 - unat divisor" using True by (simp add: word_le_nat_alt)
    from less.hyps [OF this] show ?thesis using True by (subst isPrimeLoop.simps) auto
  qed (auto simp: isPrimeLoop.simps)
qed

lemma is_prime_ends: "squareRoot c < 2 ^ 63 \<Longrightarrow> \<exists>b. is_prime squareRoot c = Some b"
  by (simp add: is_prime_def isPrimeLoop_ends)

lemma getPrimeLoop_ends:
  assumes "\<forall>n. squareRoot n < 2 ^ 63" "odd (unat i)" "wanted \<le> i"
  shows "\<exists>p. getPrimeLoop squareRoot wanted i = Some p \<and> wanted \<le> p"
  using assms(2,3)
proof (induction "2 ^ 64 - unat i" arbitrary: i rule: less_induct)
  case less
  obtain prime where p: "is_prime squareRoot i = Some prime" using is_prime_ends [of squareRoot i] assms(1) by blast
  show ?case
  proof (cases "i < -1 \<and> \<not> prime")
    case True
    then have lt: "unat i < 2 ^ 64 - 1" by (simp add: word_less_nat_alt unsigned_minus_1_eq_mask mask_eq_exp_minus_1)
    have "unat i \<noteq> 2 ^ 64 - 2" using less.prems(1) by auto
    then have lt: "unat i + 2 < 2 ^ 64" using lt by simp
    then have i: "unat (i + 2) = unat i + 2" by (simp add: unat_plus_if')
    have "\<exists>p. getPrimeLoop squareRoot wanted (i + 2) = Some p \<and> wanted \<le> p"
      using less.prems i lt by (intro less.hyps) (simp_all add: word_le_nat_alt)
    then show ?thesis using True p by (subst getPrimeLoop.simps) simp
  next
    case False
    then show ?thesis using p less.prems by (subst getPrimeLoop.simps) auto
  qed
qed

lemma get_prime_ends:
  assumes "\<forall>n. squareRoot n < 2 ^ 63"
  shows "\<exists>p. get_prime squareRoot wanted = Some p \<and> wanted \<le> p"
proof (cases "find (\<lambda>p. p \<ge> wanted) HASH_PRIMES")
  case None
  have "odd (unat (wanted OR 1))" by (simp add: unsigned_or_eq even_or_iff)
  moreover have "wanted \<le> wanted OR 1" by (rule le_word_or2)
  ultimately show ?thesis using getPrimeLoop_ends [OF assms] None by (simp add: get_prime_def)
qed (auto simp: get_prime_def dest: find_Some_iff [THEN iffD1])

text \<open>\<open>is_prime\<close> adds 2 to the divisor before it divides: 3 is never tried, and one divisor beyond the limit is.\<close>

lemma nine_is_prime: "is_prime (\<lambda>_. 3) 9 = Some True"
  by (simp add: is_prime_def isPrimeLoop.simps)


section \<open>The properties of strings\<close>

text \<open>What a client reads with \<open>n\<close> calls of \<open>next\<close>.\<close>

primrec nextChars :: "nat \<Rightarrow> string_iterator \<Rightarrow> 8 word option list run" where
  "nextChars 0 it = Returns []"
| "nextChars (Suc n) it = andThenRun (next_char it) (\<lambda>(b, it'). andThenRun (nextChars n it') (\<lambda>bs. Returns (b # bs)))"

lemma nextChars_all:
  "nextChars (length bs) \<lparr>Current = Some bs, Rest = length bs\<rparr> = Returns (map Some bs)"
  by (induction bs) (simp_all add: next_char_def readByte_def)

lemma nextChars_none: "nextChars 1 \<lparr>Current = p, Rest = 0\<rparr> = Returns [None]"
  by (simp add: next_char_def)

lemma nextChars_string:
  assumes "length bs < 2 ^ 63"
  shows "andThenRun (StringIterator_of (string_for bs)) (nextChars (length bs)) = Returns (map Some bs)"
  using assms nextChars_all [of bs]
  by (cases "bs = []") (simp_all add: StringIterator_of_def get_buffer_eq get_length_eq unat_length, simp add: get_buffer_def get_length_def)

text \<open>C38. A string holds what it was made of: its length, its bytes, a copy of it and an iterator over it give
  the bytes back, for every length below 2 to the 63, and so for every number of bytes of the length in front.\<close>
theorem string_contents:
  assumes "length bs < 2 ^ 63"
  shows "\<exists>s. String_of (Some (bs @ m)) (of_nat (length bs)) = Returns s
    \<and> get_length s = Returns (of_nat (length bs))
    \<and> get_buffer s = Returns (if bs = [] then None else Some bs)
    \<and> String_copy s = Returns s
    \<and> andThenRun (StringIterator_of s) (nextChars (length bs)) = Returns (map Some bs)"
  using assms by (simp add: String_of_eq get_length_eq get_buffer_eq String_copy_eq nextChars_string)

theorem string_contents_witness:
  "\<exists>s. String_of (Some ([104, 105] @ [0])) (of_nat (length [104 :: 8 word, 105])) = Returns s
    \<and> get_length s = Returns (of_nat (length [104 :: 8 word, 105]))"
  using string_contents [of "[104, 105]" "[0]"] by auto

text \<open>Strings can be the keys of a hash table: two are equal exactly when they hold the same bytes, and the
  hash depends on the bytes alone. Only the empty string cannot: its hash reads through the null pointer.\<close>
theorem string_keys:
  assumes "length a < 2 ^ 31" "length b < 2 ^ 31"
    and "String_of (Some a) (of_nat (length a)) = Returns s" "String_of (Some b) (of_nat (length b)) = Returns t"
  shows "equals s t = Returns (a = b) \<and> hash_string s = (if a = [] then Faults else Returns (fnv a))"
proof -
  have "s = string_for a" "t = string_for b"
    using assms String_of_eq [of a "[]"] String_of_eq [of b "[]"] by simp_all
  then show ?thesis using assms equals_eq [of a b] hash_eq [of a] by (auto simp: hash_string_def)
qed

theorem string_keys_witness:
  "equals (Some [1, 97]) (Some [1, 97]) = Returns ([97] = [97 :: 8 word])
    \<and> hash_string (Some [1, 97]) = (if [97 :: 8 word] = [] then Faults else Returns (fnv [97]))"
  by (rule string_keys) (simp_all add: String_of_def copyOf_def packLength.simps PACKED_SIZE_def word_le_nat_alt)

text \<open>C40. A text without zeros comes back from its C string when it has less than 128 bytes. A longer one does not:
  the terminating zero is written behind the memory that was allocated for it.\<close>
theorem c_string_roundtrip:
  assumes "length bs < 2 ^ 63" "0 \<notin> set bs"
    and "String_of (Some bs) (of_nat (length bs)) = Returns s"
  shows "andThenRun (to_c_string s) String_c = (if length bs < 128 then Returns s else Faults)"
proof -
  have "s = string_for bs" using assms String_of_eq [of bs "[]"] by simp
  then show ?thesis
    using assms strlen_eq [of bs "[]"] String_of_eq [of bs "[0]"] by (simp add: to_c_string_eq String_c_def)
qed

theorem c_string_roundtrip_witness:
  "andThenRun (to_c_string (Some [1, 97])) String_c = (if length [97 :: 8 word] < 128 then Returns (Some [1, 97]) else Faults)"
  by (rule c_string_roundtrip) (simp_all add: String_of_def copyOf_def packLength.simps PACKED_SIZE_def word_le_nat_alt)

end
