(* ===== verification/Library_Maps.thy ===== *)
theory Library_Maps
  imports Library_Strings "HOL-Library.Multiset"
begin

text \<open>
  The hash tables of the runtime library of the older compiler: HashSetBuilder.h, HashMapBuilder.h,
  MultiMapBuilder.h and the tables that are made of them, HashSet.h, HashMap.h and MultiMap.h of
  retired/packages/scaly/scaly/containers.

  The three builders have the same two fields and the same \<open>reallocate\<close>, for entries of different types,
  so they are one record and one definition here. A list of a slot has its newest node first. The
  pointer to the array of a key in a MultiMapBuilder is the list of the values, kept in the slot; nothing else
  points to it. A template is a function of the two methods that it calls of the type of its keys, \<open>hash\<close>
  and \<open>equals\<close>, and \<open>squareRoot\<close> is the parameter of \<open>get_prime\<close>.

  A builder that grows, and an array that is full, give an exclusive page back to the page they live on.
  \<open>deallocate_exclusive_page\<close> frees that page and then reads the node of it, which lies in it
  (\<open>exclusive_page_freed\<close> of Library_Pages_Theorems), so that what happens next is undefined: the outcome is \<open>Faults\<close>.
\<close>

section \<open>Slots\<close>

datatype ('k, 'v) KeyValuePair = KeyValuePair (kvKey: 'k) (kvValue: 'v)

datatype 'e Slot = Slot (slotValue: 'e) (hash_code: "64 word")

record 'e builder =
  Length :: "64 word"
  Slots :: "'e Slot list list option"

type_synonym 'k set_builder = "'k builder"
type_synonym ('k, 'v) map_builder = "('k, 'v) KeyValuePair builder"
type_synonym ('k, 'v) multi_builder = "('k, 'v list) KeyValuePair builder"

definition newBuilder :: "'e builder" where
  "newBuilder = \<lparr>Length = 0, Slots = None\<rparr>"

fun endsWith :: "'a option \<Rightarrow> 'a run" where
  "endsWith None = Hangs"
| "endsWith (Some x) = Returns x"

fun foldRun :: "('s \<Rightarrow> 'a \<Rightarrow> 's run) \<Rightarrow> 'a list \<Rightarrow> 's \<Rightarrow> 's run" where
  "foldRun f [] s = Returns s"
| "foldRun f (x # xs) s = andThenRun (f s x) (foldRun f xs)"

fun firstOf :: "('a \<Rightarrow> bool run) \<Rightarrow> 'a list \<Rightarrow> 'a option run" where
  "firstOf f [] = Returns None"
| "firstOf f (x # xs) = andThenRun (f x) (\<lambda>b. if b then Returns (Some x) else firstOf f xs)"

definition slotNumber :: "64 word \<Rightarrow> 'a list \<Rightarrow> nat run" where
  "slotNumber h ss = (if ss = [] then Faults else Returns (unat (h mod of_nat (length ss))))"

definition addToSlot :: "nat \<Rightarrow> 'e Slot \<Rightarrow> 'e Slot list list \<Rightarrow> 'e Slot list list" where
  "addToSlot n item ss = ss[n := item # ss ! n]"

definition rehashItem :: "'e Slot list list \<Rightarrow> 'e Slot \<Rightarrow> 'e Slot list list run" where
  "rehashItem new_slots item = andThenRun (slotNumber (hash_code item) new_slots) (\<lambda>n. Returns (addToSlot n item new_slots))"

text \<open>\<open>deallocate_exclusive_page\<close> of the page of the old slots, a use of memory after it was freed.\<close>

definition deallocateSlots :: "'e Slot list list \<Rightarrow> unit run" where
  "deallocateSlots ss = Faults"

definition reallocate :: "(64 word \<Rightarrow> 64 word) \<Rightarrow> 64 word \<Rightarrow> 'e builder \<Rightarrow> 'e builder run" where
  "reallocate squareRoot wanted B =
     andThenRun (endsWith (get_prime squareRoot wanted)) (\<lambda>hash_size.
     andThenRun (case Slots B of None \<Rightarrow> Returns (replicate (unat hash_size) [])
         | Some ss \<Rightarrow>
             andThenRun (foldRun (\<lambda>new_slots element. foldRun rehashItem element new_slots) ss (replicate (unat hash_size) []))
               (\<lambda>new_slots. andThenRun (deallocateSlots ss) (\<lambda>_. Returns new_slots)))
       (\<lambda>new_slots. Returns (B\<lparr>Slots := Some new_slots\<rparr>)))"

text \<open>How \<open>add\<close> begins in each of the builders.\<close>

definition makeRoom :: "(64 word \<Rightarrow> 64 word) \<Rightarrow> 'e builder \<Rightarrow> 'e builder run" where
  "makeRoom squareRoot B =
     andThenRun (endsWith (get_prime squareRoot (Length B + 1))) (\<lambda>hash_size.
       if Slots B = None \<or> hash_size > of_nat (length (the (Slots B))) then reallocate squareRoot (Length B + 1) B
       else Returns B)"

fun theSlots :: "'e Slot list list option \<Rightarrow> 'e Slot list list run" where
  "theSlots None = Faults"
| "theSlots (Some ss) = Returns ss"

section \<open>Array\<close>

text \<open>The values an array of elements of \<open>elem_size\<close> bytes, aligned to 16 at most, has room for before it is full: a page
  less its header, its node and the vector. A full one is reallocated, and its page is given back.\<close>

definition firstCapacity :: "nat \<Rightarrow> nat" where
  "firstCapacity elem_size = (4096 - (32 + 16) - 16) div elem_size"

definition array_add :: "nat \<Rightarrow> 'a \<Rightarrow> 'a list \<Rightarrow> 'a list run" where
  "array_add elem_size item array = (if length array < firstCapacity elem_size then Returns (array @ [item]) else Faults)"

section \<open>HashSetBuilder\<close>

definition set_add_internal :: "('k \<Rightarrow> 64 word run) \<Rightarrow> ('k \<Rightarrow> 'k \<Rightarrow> bool run) \<Rightarrow> 'k \<Rightarrow> 'k set_builder \<Rightarrow> (bool \<times> 'k set_builder) run" where
  "set_add_internal hash eq v B =
     andThenRun (hash v) (\<lambda>code. andThenRun (theSlots (Slots B)) (\<lambda>ss. andThenRun (slotNumber code ss) (\<lambda>n.
     andThenRun (firstOf (\<lambda>item. eq v (slotValue item)) (ss ! n)) (\<lambda>found.
       if found \<noteq> None then Returns (False, B)
       else Returns (True, B\<lparr>Slots := Some (addToSlot n (Slot v code) ss), Length := Length B + 1\<rparr>)))))"

definition set_builder_add :: "(64 word \<Rightarrow> 64 word) \<Rightarrow> ('k \<Rightarrow> 64 word run) \<Rightarrow> ('k \<Rightarrow> 'k \<Rightarrow> bool run) \<Rightarrow> 'k \<Rightarrow> 'k set_builder \<Rightarrow> (bool \<times> 'k set_builder) run" where
  "set_builder_add squareRoot hash eq v B = andThenRun (makeRoom squareRoot B) (set_add_internal hash eq v)"

definition set_builder_contains :: "('k \<Rightarrow> 64 word run) \<Rightarrow> ('k \<Rightarrow> 'k \<Rightarrow> bool run) \<Rightarrow> 'k \<Rightarrow> 'k set_builder \<Rightarrow> bool run" where
  "set_builder_contains hash eq v B = (case Slots B of None \<Rightarrow> Returns False
     | Some ss \<Rightarrow> andThenRun (hash v) (\<lambda>code. andThenRun (slotNumber code ss) (\<lambda>n.
         andThenRun (firstOf (\<lambda>item. eq v (slotValue item)) (ss ! n)) (\<lambda>found. Returns (found \<noteq> None)))))"

definition HashSetBuilder_of :: "(64 word \<Rightarrow> 64 word) \<Rightarrow> ('k \<Rightarrow> 64 word run) \<Rightarrow> ('k \<Rightarrow> 'k \<Rightarrow> bool run) \<Rightarrow> 'k list \<Rightarrow> 'k set_builder run" where
  "HashSetBuilder_of squareRoot hash eq vector =
     (if length vector > 0 then
        andThenRun (reallocate squareRoot (of_nat (length vector)) newBuilder)
          (foldRun (\<lambda>B element. andThenRun (set_add_internal hash eq element B) (\<lambda>(added, B). Returns B)) vector)
      else Returns newBuilder)"

section \<open>HashMapBuilder\<close>

definition map_add_internal :: "('k \<Rightarrow> 64 word run) \<Rightarrow> ('k \<Rightarrow> 'k \<Rightarrow> bool run) \<Rightarrow> 'k \<Rightarrow> 'v \<Rightarrow> ('k, 'v) map_builder \<Rightarrow> (bool \<times> ('k, 'v) map_builder) run" where
  "map_add_internal hash eq k v B =
     andThenRun (hash k) (\<lambda>code. andThenRun (theSlots (Slots B)) (\<lambda>ss. andThenRun (slotNumber code ss) (\<lambda>n.
     andThenRun (firstOf (\<lambda>item. eq k (kvKey (slotValue item))) (ss ! n)) (\<lambda>found.
       if found \<noteq> None then Returns (False, B)
       else Returns (True, B\<lparr>Slots := Some (addToSlot n (Slot (KeyValuePair k v) code) ss), Length := Length B + 1\<rparr>)))))"

definition map_builder_add :: "(64 word \<Rightarrow> 64 word) \<Rightarrow> ('k \<Rightarrow> 64 word run) \<Rightarrow> ('k \<Rightarrow> 'k \<Rightarrow> bool run) \<Rightarrow> 'k \<Rightarrow> 'v \<Rightarrow> ('k, 'v) map_builder \<Rightarrow> (bool \<times> ('k, 'v) map_builder) run" where
  "map_builder_add squareRoot hash eq k v B = andThenRun (makeRoom squareRoot B) (map_add_internal hash eq k v)"

definition map_builder_contains :: "('k \<Rightarrow> 64 word run) \<Rightarrow> ('k \<Rightarrow> 'k \<Rightarrow> bool run) \<Rightarrow> 'k \<Rightarrow> ('k, 'v) map_builder \<Rightarrow> bool run" where
  "map_builder_contains hash eq k B = (case Slots B of None \<Rightarrow> Returns False
     | Some ss \<Rightarrow> andThenRun (hash k) (\<lambda>code. andThenRun (slotNumber code ss) (\<lambda>n.
         andThenRun (firstOf (\<lambda>item. eq k (kvKey (slotValue item))) (ss ! n)) (\<lambda>found. Returns (found \<noteq> None)))))"

definition map_builder_get :: "('k \<Rightarrow> 64 word run) \<Rightarrow> ('k \<Rightarrow> 'k \<Rightarrow> bool run) \<Rightarrow> 'k \<Rightarrow> ('k, 'v) map_builder \<Rightarrow> 'v option run" where
  "map_builder_get hash eq k B = (case Slots B of None \<Rightarrow> Returns None
     | Some ss \<Rightarrow> andThenRun (hash k) (\<lambda>code. andThenRun (slotNumber code ss) (\<lambda>n.
         andThenRun (firstOf (\<lambda>item. eq k (kvKey (slotValue item))) (ss ! n)) (\<lambda>found.
           Returns (map_option (\<lambda>item. kvValue (slotValue item)) found)))))"

definition HashMapBuilder_of :: "(64 word \<Rightarrow> 64 word) \<Rightarrow> ('k \<Rightarrow> 64 word run) \<Rightarrow> ('k \<Rightarrow> 'k \<Rightarrow> bool run) \<Rightarrow> ('k, 'v) KeyValuePair list \<Rightarrow> ('k, 'v) map_builder run" where
  "HashMapBuilder_of squareRoot hash eq vector =
     (if length vector > 0 then
        andThenRun (reallocate squareRoot (of_nat (length vector)) newBuilder)
          (foldRun (\<lambda>B element. andThenRun (map_add_internal hash eq (kvKey element) (kvValue element) B) (\<lambda>(added, B). Returns B)) vector)
      else Returns newBuilder)"

section \<open>MultiMapBuilder\<close>

text \<open>The loop goes on behind a match, so it keeps the last one, here with its index.\<close>

fun lastOf :: "('a \<Rightarrow> bool run) \<Rightarrow> 'a list \<Rightarrow> nat \<Rightarrow> nat option \<Rightarrow> nat option run" where
  "lastOf f [] i found = Returns found"
| "lastOf f (x # xs) i found = andThenRun (f x) (\<lambda>b. lastOf f xs (Suc i) (if b then Some i else found))"

definition addValue :: "nat \<Rightarrow> 'v \<Rightarrow> ('k, 'v list) KeyValuePair Slot \<Rightarrow> ('k, 'v list) KeyValuePair Slot run" where
  "addValue elem_size v item = andThenRun (array_add elem_size v (kvValue (slotValue item))) (\<lambda>array.
     Returns (Slot (KeyValuePair (kvKey (slotValue item)) array) (hash_code item)))"

definition multi_add_internal :: "nat \<Rightarrow> ('k \<Rightarrow> 64 word run) \<Rightarrow> ('k \<Rightarrow> 'k \<Rightarrow> bool run) \<Rightarrow> 'k \<Rightarrow> 'v \<Rightarrow> ('k, 'v) multi_builder \<Rightarrow> ('k, 'v) multi_builder run" where
  "multi_add_internal elem_size hash eq k v B =
     andThenRun (hash k) (\<lambda>code. andThenRun (theSlots (Slots B)) (\<lambda>ss. andThenRun (slotNumber code ss) (\<lambda>n.
     andThenRun (lastOf (\<lambda>item. eq k (kvKey (slotValue item))) (ss ! n) 0 None) (\<lambda>found.
       case found of
         Some i \<Rightarrow> andThenRun (addValue elem_size v (ss ! n ! i)) (\<lambda>item. Returns (B\<lparr>Slots := Some (ss[n := (ss ! n)[i := item]])\<rparr>))
       | None \<Rightarrow> andThenRun (addValue elem_size v (Slot (KeyValuePair k []) code)) (\<lambda>item.
           Returns (B\<lparr>Slots := Some (addToSlot n item ss), Length := Length B + 1\<rparr>))))))"

definition multi_builder_add :: "nat \<Rightarrow> (64 word \<Rightarrow> 64 word) \<Rightarrow> ('k \<Rightarrow> 64 word run) \<Rightarrow> ('k \<Rightarrow> 'k \<Rightarrow> bool run) \<Rightarrow> 'k \<Rightarrow> 'v \<Rightarrow> ('k, 'v) multi_builder \<Rightarrow> ('k, 'v) multi_builder run" where
  "multi_builder_add elem_size squareRoot hash eq k v B = andThenRun (makeRoom squareRoot B) (multi_add_internal elem_size hash eq k v)"

definition multi_builder_contains :: "('k \<Rightarrow> 64 word run) \<Rightarrow> ('k \<Rightarrow> 'k \<Rightarrow> bool run) \<Rightarrow> 'k \<Rightarrow> ('k, 'v) multi_builder \<Rightarrow> bool run" where
  "multi_builder_contains hash eq k B = (case Slots B of None \<Rightarrow> Returns False
     | Some ss \<Rightarrow> andThenRun (hash k) (\<lambda>code. andThenRun (slotNumber code ss) (\<lambda>n.
         andThenRun (firstOf (\<lambda>item. eq k (kvKey (slotValue item))) (ss ! n)) (\<lambda>found. Returns (found \<noteq> None)))))"

definition multi_builder_get :: "('k \<Rightarrow> 64 word run) \<Rightarrow> ('k \<Rightarrow> 'k \<Rightarrow> bool run) \<Rightarrow> 'k \<Rightarrow> ('k, 'v) multi_builder \<Rightarrow> 'v list option run" where
  "multi_builder_get hash eq k B = (case Slots B of None \<Rightarrow> Returns None
     | Some ss \<Rightarrow> andThenRun (hash k) (\<lambda>code. andThenRun (slotNumber code ss) (\<lambda>n.
         andThenRun (firstOf (\<lambda>item. eq k (kvKey (slotValue item))) (ss ! n)) (\<lambda>found.
           Returns (map_option (\<lambda>item. kvValue (slotValue item)) found)))))"

section \<open>HashSet, HashMap and MultiMap\<close>

type_synonym 'e vectors = "'e list list option"

text \<open>The loops of the three constructors: the list of each slot is gathered into an array of elements of \<open>elem_size\<close> bytes, which becomes
  the vector of the slot.\<close>

definition gather :: "nat \<Rightarrow> ('e \<Rightarrow> 'f) \<Rightarrow> 'e Slot list \<Rightarrow> 'f list run" where
  "gather elem_size f element = foldRun (\<lambda>array item. array_add elem_size (f (slotValue item)) array) element []"

fun gatherSlots :: "nat \<Rightarrow> ('e \<Rightarrow> 'f) \<Rightarrow> 'e Slot list list \<Rightarrow> 'f list list run" where
  "gatherSlots elem_size f [] = Returns []"
| "gatherSlots elem_size f (element # ss) =
     andThenRun (gather elem_size f element) (\<lambda>array. andThenRun (gatherSlots elem_size f ss) (\<lambda>arrays. Returns (array # arrays)))"

definition HashSet_of :: "nat \<Rightarrow> 'k set_builder \<Rightarrow> 'k vectors run" where
  "HashSet_of elem_size B = (if Length B = 0 then Returns None
     else andThenRun (theSlots (Slots B)) (\<lambda>ss. andThenRun (gatherSlots elem_size (\<lambda>v. v) ss) (\<lambda>slots. Returns (Some slots))))"

definition HashMap_of :: "nat \<Rightarrow> ('k, 'v) map_builder \<Rightarrow> ('k, 'v) KeyValuePair vectors run" where
  "HashMap_of elem_size B = (if Length B = 0 then Returns None
     else andThenRun (theSlots (Slots B)) (\<lambda>ss. andThenRun (gatherSlots elem_size (\<lambda>kv. kv) ss) (\<lambda>slots. Returns (Some slots))))"

definition MultiMap_of :: "nat \<Rightarrow> ('k, 'v) multi_builder \<Rightarrow> ('k, 'v list) KeyValuePair vectors run" where
  "MultiMap_of elem_size B = (if Length B = 0 then Returns None
     else andThenRun (theSlots (Slots B)) (\<lambda>ss. andThenRun (gatherSlots elem_size (\<lambda>kv. KeyValuePair (kvKey kv) (kvValue kv)) ss)
       (\<lambda>slots. Returns (Some slots))))"

definition set_contains :: "('k \<Rightarrow> 64 word run) \<Rightarrow> ('k \<Rightarrow> 'k \<Rightarrow> bool run) \<Rightarrow> 'k \<Rightarrow> 'k vectors \<Rightarrow> bool run" where
  "set_contains hash eq v H = (case H of None \<Rightarrow> Returns False
     | Some ss \<Rightarrow> andThenRun (hash v) (\<lambda>code. andThenRun (slotNumber code ss) (\<lambda>n.
         andThenRun (firstOf (\<lambda>item. eq v item) (ss ! n)) (\<lambda>found. Returns (found \<noteq> None)))))"

definition map_contains :: "('k \<Rightarrow> 64 word run) \<Rightarrow> ('k \<Rightarrow> 'k \<Rightarrow> bool run) \<Rightarrow> 'k \<Rightarrow> ('k, 'v) KeyValuePair vectors \<Rightarrow> bool run" where
  "map_contains hash eq k H = (case H of None \<Rightarrow> Returns False
     | Some ss \<Rightarrow> andThenRun (hash k) (\<lambda>code. andThenRun (slotNumber code ss) (\<lambda>n.
         andThenRun (firstOf (\<lambda>item. eq k (kvKey item)) (ss ! n)) (\<lambda>found. Returns (found \<noteq> None)))))"

definition map_get :: "('k \<Rightarrow> 64 word run) \<Rightarrow> ('k \<Rightarrow> 'k \<Rightarrow> bool run) \<Rightarrow> 'k \<Rightarrow> ('k, 'v) KeyValuePair vectors \<Rightarrow> 'v option run" where
  "map_get hash eq k H = (case H of None \<Rightarrow> Returns None
     | Some ss \<Rightarrow> andThenRun (hash k) (\<lambda>code. andThenRun (slotNumber code ss) (\<lambda>n.
         andThenRun (firstOf (\<lambda>item. eq k (kvKey item)) (ss ! n)) (\<lambda>found. Returns (map_option kvValue found)))))"

definition multi_contains :: "('k \<Rightarrow> 64 word run) \<Rightarrow> ('k \<Rightarrow> 'k \<Rightarrow> bool run) \<Rightarrow> 'k \<Rightarrow> ('k, 'v list) KeyValuePair vectors \<Rightarrow> bool run" where
  "multi_contains hash eq k H = (case H of None \<Rightarrow> Returns False
     | Some ss \<Rightarrow> andThenRun (hash k) (\<lambda>code. andThenRun (slotNumber code ss) (\<lambda>n.
         andThenRun (firstOf (\<lambda>item. eq k (kvKey item)) (ss ! n)) (\<lambda>found. Returns (found \<noteq> None)))))"

definition multi_get :: "('k \<Rightarrow> 64 word run) \<Rightarrow> ('k \<Rightarrow> 'k \<Rightarrow> bool run) \<Rightarrow> 'k \<Rightarrow> ('k, 'v list) KeyValuePair vectors \<Rightarrow> 'v list option run" where
  "multi_get hash eq k H = (case H of None \<Rightarrow> Returns None
     | Some ss \<Rightarrow> andThenRun (hash k) (\<lambda>code. andThenRun (slotNumber code ss) (\<lambda>n.
         andThenRun (firstOf (\<lambda>item. eq k (kvKey item)) (ss ! n)) (\<lambda>found. Returns (map_option kvValue found)))))"

text \<open>The iterator: the elements left in the vector it is in, and the vectors behind it.\<close>

record 'e table_iterator =
  element_iterator :: "'e list"
  slot_iterator :: "'e list list"

definition HashMapIterator_of :: "'e vectors \<Rightarrow> 'e table_iterator" where
  "HashMapIterator_of H = (case H of
       None \<Rightarrow> \<lparr>element_iterator = [], slot_iterator = []\<rparr>
     | Some [] \<Rightarrow> \<lparr>element_iterator = [], slot_iterator = []\<rparr>
     | Some (s # ss) \<Rightarrow> \<lparr>element_iterator = s, slot_iterator = ss\<rparr>)"

function next_value :: "('k, 'v) KeyValuePair table_iterator \<Rightarrow> 'v option \<times> ('k, 'v) KeyValuePair table_iterator" where
  "next_value it = (case element_iterator it of
       e # es \<Rightarrow> (Some (kvValue e), it\<lparr>element_iterator := es\<rparr>)
     | [] \<Rightarrow> (case slot_iterator it of
         [] \<Rightarrow> (None, it)
       | s # ss \<Rightarrow> next_value \<lparr>element_iterator = s, slot_iterator = ss\<rparr>))"
  by pat_completeness auto
termination by (relation "measure (\<lambda>it. length (slot_iterator it))") auto

end
