(* ===== verification/Library_Maps_Theorems.thy ===== *)
theory Library_Maps_Theorems
  imports Library_Maps
begin

text \<open>
  What the hash tables promise. The locale \<open>hash_key\<close> is what a table asks of its keys; \<open>keyed\<close> adds how
  an entry has a key, and its lemmas say what the operations on slots do to the entries, whichever their type. They are interpreted on the strings of
  the library.
\<close>

lemma andThenRun_Hangs [simp]: "andThenRun r (\<lambda>x. Returns x) = r"
  by (cases r) auto

lemma foldRun_append: "foldRun f (xs @ ys) s = andThenRun (foldRun f xs s) (foldRun f ys)"
proof (induction xs arbitrary: s)
  case (Cons x xs)
  then show ?case by (cases "f s x") auto
qed simp

lemma foldRun_foldRun: "foldRun (\<lambda>s xs. foldRun f xs s) xss s = foldRun f (concat xss) s"
proof (induction xss arbitrary: s)
  case (Cons xs xss)
  then show ?case by (cases "foldRun f xs s") (auto simp: foldRun_append)
qed simp

lemma concat_split: "n < length xss \<Longrightarrow> mset (concat (xss[n := xs])) + mset (xss ! n) = mset (concat xss) + mset xs"
  by (induction xss arbitrary: n) (auto simp: less_Suc_eq_0_disj nth_Cons')

lemma unat_succ: "n \<noteq> -1 \<Longrightarrow> unat (n + 1) = unat n + 1"
  for n :: "64 word"
  by (metis Suc_eq_plus1 add.commute add_eq_0_iff unatSuc)

lemma option_eqI: "(\<And>x. a = Some x \<longleftrightarrow> b = Some x) \<Longrightarrow> a = b"
  by (cases a; cases b) auto

definition entries :: "'e builder \<Rightarrow> 'e Slot list" where
  "entries B = (case Slots B of None \<Rightarrow> [] | Some ss \<Rightarrow> concat ss)"

text \<open>An element more needs no new slots.\<close>

definition roomy :: "(64 word \<Rightarrow> 64 word) \<Rightarrow> 'e builder \<Rightarrow> bool" where
  "roomy squareRoot B \<longleftrightarrow> (case Slots B of None \<Rightarrow> True
     | Some ss \<Rightarrow> (\<exists>p. get_prime squareRoot (Length B + 1) = Some p \<and> p \<le> of_nat (length ss)))"

locale hash_key =
  fixes hash :: "'k \<Rightarrow> 64 word run" and eq :: "'k \<Rightarrow> 'k \<Rightarrow> bool run"
    and valid :: "'k \<Rightarrow> bool" and content :: "'k \<Rightarrow> 'c" and code :: "'c \<Rightarrow> 64 word"
  assumes hash: "valid k \<Longrightarrow> hash k = Returns (code (content k))"
    and eq: "valid k \<Longrightarrow> valid k' \<Longrightarrow> eq k k' = Returns (content k = content k')"

locale keyed = hash_key hash eq valid content code
  for hash :: "'k \<Rightarrow> 64 word run" and eq valid and content :: "'k \<Rightarrow> 'c" and code +
  fixes keyOf :: "'e \<Rightarrow> 'k"
begin

abbreviation keyAt :: "'e Slot \<Rightarrow> 'c" where
  "keyAt item \<equiv> content (keyOf (slotValue item))"

text \<open>Each entry has a valid key and lies in the slot of its hash.\<close>

definition placed :: "'e Slot list list \<Rightarrow> bool" where
  "placed ss \<longleftrightarrow> ss \<noteq> [] \<and> (\<forall>n < length ss. \<forall>item \<in> set (ss ! n).
     valid (keyOf (slotValue item)) \<and> hash_code item = code (keyAt item)
     \<and> unat (code (keyAt item) mod of_nat (length ss)) = n)"

definition table :: "'e builder \<Rightarrow> bool" where
  "table B \<longleftrightarrow> (case Slots B of None \<Rightarrow> True | Some ss \<Rightarrow> placed ss \<and> length ss < 2 ^ 64)
     \<and> distinct (map keyAt (entries B)) \<and> unat (Length B) = length (entries B)"

definition find_entry :: "'e builder \<Rightarrow> 'c \<Rightarrow> 'e option" where
  "find_entry B c = map_of (map (\<lambda>item. (keyAt item, slotValue item)) (entries B)) c"

lemma slot_in_range: "ss \<noteq> [] \<Longrightarrow> length ss < 2 ^ 64 \<Longrightarrow> unat ((h :: 64 word) mod of_nat (length ss)) < length ss"
  by (simp add: unat_mod unat_of_nat)

lemma firstOf_find:
  assumes "valid k" "\<forall>item \<in> set items. valid (key item)"
  shows "firstOf (\<lambda>item. eq k (key item)) items = Returns (find (\<lambda>item. content (key item) = content k) items)"
  using assms(2) by (induction items) (auto simp: eq [OF assms(1)])

lemma find_entry_in:
  assumes "table B"
  shows "find_entry B c = Some e \<longleftrightarrow> (\<exists>item \<in> set (entries B). slotValue item = e \<and> content (keyOf e) = c)"
proof -
  have "distinct (map fst (map (\<lambda>item. (keyAt item, slotValue item)) (entries B)))"
    using assms by (simp add: table_def o_def)
  from map_of_eq_Some_iff [OF this] show ?thesis by (auto simp: find_entry_def image_iff)
qed

lemma firstOf_slot:
  assumes "table B" "Slots B = Some ss" "valid k"
  shows "firstOf (\<lambda>item. eq k (keyOf (slotValue item))) (ss ! unat (code (content k) mod of_nat (length ss))) = Returns found
    \<longleftrightarrow> found = find (\<lambda>item. keyAt item = content k) (ss ! unat (code (content k) mod of_nat (length ss)))"
    and "map_option slotValue (find (\<lambda>item. keyAt item = content k) (ss ! unat (code (content k) mod of_nat (length ss))))
      = find_entry B (content k)"
proof -
  let ?n = "unat (code (content k) mod of_nat (length ss))"
  have ss: "placed ss" "length ss < 2 ^ 64" "ss \<noteq> []" using assms by (auto simp: table_def placed_def)
  have n: "?n < length ss" using slot_in_range ss by blast
  show "firstOf (\<lambda>item. eq k (keyOf (slotValue item))) (ss ! ?n) = Returns found
    \<longleftrightarrow> found = find (\<lambda>item. keyAt item = content k) (ss ! ?n)"
    using firstOf_find [OF assms(3), of "ss ! ?n" "\<lambda>item. keyOf (slotValue item)"] ss(1) n by (auto simp: placed_def)
  have entries: "entries B = concat ss" by (simp add: entries_def assms(2))
  show "map_option slotValue (find (\<lambda>item. keyAt item = content k) (ss ! ?n)) = find_entry B (content k)"
  proof (cases "find (\<lambda>item. keyAt item = content k) (ss ! ?n)")
    case (Some item)
    then have "item \<in> set (ss ! ?n)" "keyAt item = content k" by (auto simp: find_Some_iff)
    then have "find_entry B (content k) = Some (slotValue item)"
      using find_entry_in [OF assms(1)] n by (auto simp: entries)
    then show ?thesis by (simp add: Some)
  next
    case None
    have "find_entry B (content k) = None"
    proof (rule ccontr)
      assume "find_entry B (content k) \<noteq> None"
      then obtain item where "item \<in> set (concat ss)" "keyAt item = content k"
        using find_entry_in [OF assms(1)] by (auto simp: entries)
      moreover then obtain m where m: "m < length ss" "item \<in> set (ss ! m)" by (metis UN_E in_set_conv_nth set_concat)
      moreover have "unat (code (keyAt item) mod of_nat (length ss)) = m" using ss(1) m by (simp add: placed_def)
      ultimately show False using None by (auto simp: find_None_iff)
    qed
    then show ?thesis by (simp add: None)
  qed
qed

text \<open>Looking up a key in a builder, step by step.\<close>

lemma lookup:
  assumes "table B" "Slots B = Some ss" "valid k"
  shows "slotNumber (code (content k)) ss = Returns (unat (code (content k) mod of_nat (length ss)))"
    and "firstOf (\<lambda>item. eq k (keyOf (slotValue item))) (ss ! unat (code (content k) mod of_nat (length ss)))
      = Returns (find (\<lambda>item. keyAt item = content k) (ss ! unat (code (content k) mod of_nat (length ss))))"
    and "map_option slotValue (find (\<lambda>item. keyAt item = content k) (ss ! unat (code (content k) mod of_nat (length ss))))
      = find_entry B (content k)"
    and "find (\<lambda>item. keyAt item = content k) (ss ! unat (code (content k) mod of_nat (length ss))) = None
      \<longleftrightarrow> find_entry B (content k) = None"
  using assms firstOf_slot [OF assms] by (auto simp: slotNumber_def table_def placed_def)

text \<open>What the tables need of the entries: the keys, and the entries as a multiset.\<close>

lemma placed_empty: "n > 0 \<Longrightarrow> placed (replicate n [])"
  by (auto simp: placed_def)

lemma placed_add:
  assumes "placed ss" "length ss < 2 ^ 64" "valid (keyOf (slotValue item))" "hash_code item = code (keyAt item)"
    and "n = unat (hash_code item mod of_nat (length ss))"
  shows "placed (addToSlot n item ss)" "mset (concat (addToSlot n item ss)) = add_mset item (mset (concat ss))"
proof -
  have "ss \<noteq> []" using assms(1) by (simp add: placed_def)
  then have n: "n < length ss" using slot_in_range [OF _ assms(2)] assms(5) by simp
  have "m < length ss \<Longrightarrow> set (addToSlot n item ss ! m) = (if m = n then insert item (set (ss ! m)) else set (ss ! m))" for m
    using n by (auto simp: addToSlot_def)
  then show "placed (addToSlot n item ss)"
    using assms n by (auto simp: placed_def addToSlot_def)
  show "mset (concat (addToSlot n item ss)) = add_mset item (mset (concat ss))"
    using concat_split [OF n, of "item # ss ! n"] by (simp add: addToSlot_def)
qed

lemma rehash_all:
  assumes "placed ss" "length ss < 2 ^ 64"
    and "\<forall>item \<in> set items. valid (keyOf (slotValue item)) \<and> hash_code item = code (keyAt item)"
  shows "\<exists>ss'. foldRun rehashItem items ss = Returns ss' \<and> placed ss' \<and> length ss' = length ss
    \<and> mset (concat ss') = mset items + mset (concat ss)"
  using assms
proof (induction items arbitrary: ss)
  case (Cons item items)
  let ?n = "unat (hash_code item mod of_nat (length ss))"
  have p: "placed (addToSlot ?n item ss)" "mset (concat (addToSlot ?n item ss)) = add_mset item (mset (concat ss))"
    using placed_add Cons.prems by auto
  have "length (addToSlot ?n item ss) = length ss" by (simp add: addToSlot_def)
  then obtain ss' where "foldRun rehashItem items (addToSlot ?n item ss) = Returns ss'" "placed ss'" "length ss' = length ss"
    "mset (concat ss') = mset items + mset (concat (addToSlot ?n item ss))"
    using Cons.IH [OF p(1)] Cons.prems by auto
  moreover have "rehashItem ss item = Returns (addToSlot ?n item ss)"
    using Cons.prems(1) by (simp add: rehashItem_def slotNumber_def placed_def)
  ultimately show ?case using p(2) by simp
qed simp

lemma table_hashes: "table B \<Longrightarrow> item \<in> set (entries B) \<Longrightarrow> valid (keyOf (slotValue item)) \<and> hash_code item = code (keyAt item)"
proof -
  assume t: "table B" "item \<in> set (entries B)"
  then obtain ss where ss: "Slots B = Some ss" "item \<in> set (concat ss)" by (cases "Slots B") (auto simp: entries_def)
  then obtain n where "n < length ss" "item \<in> set (ss ! n)" by (metis UN_E in_set_conv_nth set_concat)
  then show ?thesis using t(1) ss(1) by (auto simp: table_def placed_def)
qed

text \<open>Two tables with the same entries, in whichever order, are the same map.\<close>

lemma table_same:
  assumes "table B" "mset (entries B') = mset (entries B)" "Length B' = Length B"
    and "Slots B' = Some ss" "placed ss" "length ss < 2 ^ 64"
  shows "table B'" and "find_entry B' = find_entry B"
proof -
  have "mset (map keyAt (entries B')) = mset (map keyAt (entries B))" using assms(2) by simp
  then have d: "distinct (map keyAt (entries B'))" using assms(1) by (metis table_def mset_eq_imp_distinct_iff)
  have "length (entries B') = length (entries B)" using assms(2) by (rule mset_eq_length)
  then show t: "table B'" using assms d by (simp add: table_def)
  have "set (entries B') = set (entries B)" using assms(2) by (metis set_mset_mset)
  then have "find_entry B' c = Some x \<longleftrightarrow> find_entry B c = Some x" for c x
    using find_entry_in [OF t, of c x] find_entry_in [OF assms(1), of c x] by simp
  then show "find_entry B' = find_entry B" by (intro ext option_eqI)
qed

lemma reallocate_ok:
  assumes "table B" "\<forall>n. squareRoot n < 2 ^ 63" "wanted > 0" "Slots B = None"
  shows "\<exists>B'. reallocate squareRoot wanted B = Returns B' \<and> table B' \<and> find_entry B' = find_entry B \<and> Length B' = Length B
    \<and> Slots B' \<noteq> None"
proof -
  obtain p where p: "get_prime squareRoot wanted = Some p" "wanted \<le> p" using get_prime_ends [OF assms(2)] by blast
  then have pos: "unat p > 0" using assms(3) by (metis unat_gt_0 word_gt_0 leD)
  let ?new = "replicate (unat p) []"
  have new: "placed ?new" "length ?new < 2 ^ 64" "concat ?new = []" using placed_empty pos unsigned_less [of p] by auto
  have "reallocate squareRoot wanted B = Returns (B\<lparr>Slots := Some ?new\<rparr>)"
    using p assms(4) by (simp add: reallocate_def)
  moreover have "table (B\<lparr>Slots := Some ?new\<rparr>)" "find_entry (B\<lparr>Slots := Some ?new\<rparr>) = find_entry B"
    using table_same [OF assms(1), of "B\<lparr>Slots := Some ?new\<rparr>" ?new] new assms(4) by (simp_all add: entries_def)
  ultimately show ?thesis by simp
qed

lemma reallocate_faults:
  assumes "table B" "\<forall>n. squareRoot n < 2 ^ 63" "wanted > 0" "Slots B = Some ss"
  shows "reallocate squareRoot wanted B = Faults"
proof -
  obtain p where p: "get_prime squareRoot wanted = Some p" "wanted \<le> p" using get_prime_ends [OF assms(2)] by blast
  then have pos: "unat p > 0" using assms(3) by (metis unat_gt_0 word_gt_0 leD)
  let ?new = "replicate (unat p) []"
  have new: "placed ?new" "length ?new < 2 ^ 64" using placed_empty pos unsigned_less [of p] by auto
  have "\<forall>item \<in> set (entries B). valid (keyOf (slotValue item)) \<and> hash_code item = code (keyAt item)"
    using table_hashes [OF assms(1)] by blast
  from rehash_all [OF new this] obtain ss' where "foldRun rehashItem (entries B) ?new = Returns ss'" by blast
  then show ?thesis using p assms(4) by (simp add: reallocate_def entries_def foldRun_foldRun deallocateSlots_def)
qed

text \<open>A builder without slots gets some, one with enough is left as it is, and one with too few cannot grow.\<close>

lemma makeRoom_cases:
  assumes "table B" "\<forall>n. squareRoot n < 2 ^ 63" "Length B \<noteq> -1"
  shows "if roomy squareRoot B
    then \<exists>B'. makeRoom squareRoot B = Returns B' \<and> table B' \<and> find_entry B' = find_entry B \<and> Length B' = Length B \<and> Slots B' \<noteq> None
    else makeRoom squareRoot B = Faults"
proof -
  obtain p where p: "get_prime squareRoot (Length B + 1) = Some p" using get_prime_ends [OF assms(2)] by blast
  have "Length B + 1 > 0" using assms(3) by (metis add.inverse_unique add.commute word_gt_0)
  note r = reallocate_ok [OF assms(1,2) this] reallocate_faults [OF assms(1,2) this]
  show ?thesis
  proof (cases "Slots B")
    case None
    then show ?thesis using r(1) p by (simp add: makeRoom_def roomy_def)
  next
    case (Some ss)
    then show ?thesis using r(2) assms(1) p by (auto simp: makeRoom_def roomy_def)
  qed
qed

text \<open>A new entry in front of its slot.\<close>

lemma insert_ok:
  assumes "table B" "Slots B = Some ss" "valid (keyOf e)" "find_entry B (content (keyOf e)) = None"
    and "n = unat (code (content (keyOf e)) mod of_nat (length ss))"
    and "Length B \<noteq> -1"
    and "B' = B\<lparr>Slots := Some (addToSlot n (Slot e (code (content (keyOf e)))) ss), Length := Length B + 1\<rparr>"
  shows "table B'" and "find_entry B' = (find_entry B)(content (keyOf e) \<mapsto> e)"
proof -
  let ?item = "Slot e (code (content (keyOf e)))"
  have ss: "placed ss" "length ss < 2 ^ 64" using assms by (auto simp: table_def)
  have p: "placed (addToSlot n ?item ss)" "mset (concat (addToSlot n ?item ss)) = add_mset ?item (mset (concat ss))"
    using placed_add [OF ss, of ?item n] assms by auto
  have e: "mset (entries B') = mset (?item # entries B)" using p(2) assms by (simp add: entries_def)
  have fresh: "content (keyOf e) \<notin> set (map keyAt (entries B))"
    using assms(4) find_entry_in [OF assms(1)] by force
  have "mset (map keyAt (entries B')) = mset (map keyAt (?item # entries B))" using e by (metis mset_map)
  then have d: "distinct (map keyAt (entries B'))" using assms(1) fresh
    by (metis (no_types, lifting) Slot.sel(1) distinct.simps(2) list.simps(9) mset_eq_imp_distinct_iff table_def)
  have "length (entries B') = length (?item # entries B)" using e by (rule mset_eq_length)
  moreover have "unat (Length B + 1) = unat (Length B) + 1" using assms(6) by (rule unat_succ)
  ultimately show t: "table B'" using assms d p(1) ss by (simp add: table_def addToSlot_def)
  have s: "set (entries B') = insert ?item (set (entries B))" using e by (metis list.simps(15) set_mset_mset)
  show "find_entry B' = (find_entry B)(content (keyOf e) \<mapsto> e)"
  proof
    fix c
    have "find_entry B' c = Some x \<longleftrightarrow> ((find_entry B)(content (keyOf e) \<mapsto> e)) c = Some x" for x
    proof (cases "c = content (keyOf e)")
      case True
      then show ?thesis using find_entry_in [OF t, of c x] fresh unfolding s by (auto simp: image_iff)
    next
      case False
      then show ?thesis using find_entry_in [OF t, of c x] find_entry_in [OF assms(1), of c x] unfolding s by auto
    qed
    then show "find_entry B' c = ((find_entry B)(content (keyOf e) \<mapsto> e)) c" by (rule option_eqI)
  qed
qed

end

sublocale hash_key < sets: keyed hash eq valid content code "\<lambda>v. v" by unfold_locales

sublocale hash_key < maps: keyed hash eq valid content code kvKey by unfold_locales

lemma table_new: "entries newBuilder = []"
  by (simp add: entries_def newBuilder_def)

lemma newBuilder_length: "Length newBuilder = 0"
  by (simp add: newBuilder_def)

lemma newBuilder_slots: "Slots newBuilder = None"
  by (simp add: newBuilder_def)

lemma firstOf_map: "firstOf f (map g xs) = andThenRun (firstOf (\<lambda>x. f (g x)) xs) (\<lambda>found. Returns (map_option g found))"
proof (induction xs)
  case (Cons x xs)
  then show ?case by (cases "f (g x)") auto
qed simp

lemma gather_eq: "length element \<le> firstCapacity elem_size \<Longrightarrow> gather elem_size f element = Returns (map (\<lambda>item. f (slotValue item)) element)"
proof -
  have "length acc + length element \<le> firstCapacity elem_size \<Longrightarrow>
      foldRun (\<lambda>array item. array_add elem_size (f (slotValue item)) array) element acc = Returns (acc @ map (\<lambda>item. f (slotValue item)) element)" for acc
    by (induction element arbitrary: acc) (auto simp: array_add_def)
  from this [of "[]"] show "length element \<le> firstCapacity elem_size \<Longrightarrow> gather elem_size f element = Returns (map (\<lambda>item. f (slotValue item)) element)"
    by (simp add: gather_def)
qed

lemma gatherSlots_eq:
  assumes "length (concat ss) \<le> firstCapacity elem_size"
  shows "gatherSlots elem_size f ss = Returns (map (map (\<lambda>item. f (slotValue item))) ss)"
  using assms by (induction ss) (auto simp: gather_eq)

primrec nextValues :: "nat \<Rightarrow> ('k, 'v) KeyValuePair table_iterator \<Rightarrow> 'v option list" where
  "nextValues 0 it = []"
| "nextValues (Suc n) it = (case next_value it of (v, it') \<Rightarrow> v # nextValues n it')"

declare next_value.simps [simp del]

lemma next_value_eqs:
  "next_value \<lparr>element_iterator = e # es, slot_iterator = ss\<rparr> = (Some (kvValue e), \<lparr>element_iterator = es, slot_iterator = ss\<rparr>)"
  "next_value \<lparr>element_iterator = [], slot_iterator = []\<rparr> = (None, \<lparr>element_iterator = [], slot_iterator = []\<rparr>)"
  "next_value \<lparr>element_iterator = [], slot_iterator = s # ss\<rparr> = next_value \<lparr>element_iterator = s, slot_iterator = ss\<rparr>"
  by (simp_all add: next_value.simps)

lemma nextValues_all:
  "nextValues (Suc (length (es @ concat ss))) \<lparr>element_iterator = es, slot_iterator = ss\<rparr>
    = map (\<lambda>e. Some (kvValue e)) (es @ concat ss) @ [None]"
proof (induction ss arbitrary: es)
  case Nil
  then show ?case by (induction es) (simp_all add: next_value_eqs)
next
  case (Cons s ss)
  then show ?case by (induction es) (simp_all add: next_value_eqs)
qed

lemma nextValues_table:
  "nextValues (Suc (length (case H of None \<Rightarrow> [] | Some ss \<Rightarrow> concat ss))) (HashMapIterator_of H)
    = map (\<lambda>e. Some (kvValue e)) (case H of None \<Rightarrow> [] | Some ss \<Rightarrow> concat ss) @ [None]"
proof (cases H)
  case None
  then show ?thesis using nextValues_all [of "[]" "[]"] by (simp add: HashMapIterator_of_def)
next
  case (Some ss)
  then show ?thesis using nextValues_all [of "[]" "[]"] nextValues_all [of "hd ss" "tl ss"]
    by (cases ss) (simp_all add: HashMapIterator_of_def)
qed

context hash_key
begin

abbreviation value_of :: "('k, 'v) map_builder \<Rightarrow> 'c \<Rightarrow> 'v option" where
  "value_of B c \<equiv> map_option kvValue (maps.find_entry B c)"

lemma new_table: "maps.table newBuilder" "maps.find_entry newBuilder = Map.empty" "sets.table newBuilder" "sets.find_entry newBuilder = Map.empty"
  by (simp_all add: maps.table_def maps.find_entry_def sets.table_def sets.find_entry_def table_new fun_eq_iff) (simp_all add: newBuilder_def)

lemma map_add_internal_ok:
  assumes "maps.table B" "Slots B \<noteq> None" "valid k" "Length B \<noteq> -1"
  shows "\<exists>B'. map_add_internal hash eq k v B = Returns (maps.find_entry B (content k) = None, B') \<and> maps.table B'
    \<and> Slots B' \<noteq> None \<and> maps.find_entry B' = (if maps.find_entry B (content k) = None
        then (maps.find_entry B)(content k \<mapsto> KeyValuePair k v) else maps.find_entry B)
    \<and> Length B' = Length B + (if maps.find_entry B (content k) = None then 1 else 0)"
proof -
  obtain ss where ss: "Slots B = Some ss" using assms(2) by blast
  show ?thesis
    using maps.insert_ok [OF assms(1) ss, of "KeyValuePair k v", OF _ _ refl assms(4) refl] assms ss
    by (simp add: map_add_internal_def hash [OF assms(3)] maps.lookup [OF assms(1) ss assms(3)])
qed

text \<open>A pair that is added to a builder with room for it, or to one that would have to grow.\<close>

theorem map_builder_add_cases:
  assumes "maps.table B" "valid k" "\<forall>n. squareRoot n < 2 ^ 63" "Length B \<noteq> -1"
  shows "if roomy squareRoot B
    then \<exists>B'. map_builder_add squareRoot hash eq k v B = Returns (maps.find_entry B (content k) = None, B') \<and> maps.table B'
      \<and> maps.find_entry B' = (if maps.find_entry B (content k) = None
          then (maps.find_entry B)(content k \<mapsto> KeyValuePair k v) else maps.find_entry B)
    else map_builder_add squareRoot hash eq k v B = Faults"
proof (cases "roomy squareRoot B")
  case True
  then obtain B1 where B1: "makeRoom squareRoot B = Returns B1" "maps.table B1" "maps.find_entry B1 = maps.find_entry B"
    "Length B1 = Length B" "Slots B1 \<noteq> None"
    using maps.makeRoom_cases [OF assms(1,3,4)] by auto
  have "map_builder_add squareRoot hash eq k v B = map_add_internal hash eq k v B1" using B1(1) by (simp add: map_builder_add_def)
  then show ?thesis using True map_add_internal_ok [OF B1(2,5) assms(2), where v = v, unfolded B1(3,4), OF assms(4)] by auto
qed (use maps.makeRoom_cases [OF assms(1,3,4)] in \<open>simp add: map_builder_add_def\<close>)

lemma map_builder_lookup:
  assumes "maps.table B" "valid k"
  shows "map_builder_get hash eq k B = Returns (value_of B (content k))"
    and "map_builder_contains hash eq k B = Returns (value_of B (content k) \<noteq> None)"
proof -
  show "map_builder_get hash eq k B = Returns (value_of B (content k))"
  proof (cases "Slots B")
    case None
    then show ?thesis by (simp add: map_builder_get_def maps.find_entry_def entries_def)
  next
    case (Some ss)
    show ?thesis using maps.lookup(3) [OF assms(1) Some assms(2)]
      by (simp add: map_builder_get_def Some hash [OF assms(2)] maps.lookup(1,2) [OF assms(1) Some assms(2)] option.map_comp o_def
          flip: maps.lookup(3) [OF assms(1) Some assms(2)])
  qed
  show "map_builder_contains hash eq k B = Returns (value_of B (content k) \<noteq> None)"
  proof (cases "Slots B")
    case None
    then show ?thesis by (simp add: map_builder_contains_def maps.find_entry_def entries_def)
  next
    case (Some ss)
    then show ?thesis by (simp add: map_builder_contains_def hash [OF assms(2)] maps.lookup [OF assms(1) Some assms(2)] del: not_None_eq)
  qed
qed

lemma map_elements_ok:
  assumes "maps.table B" "Slots B \<noteq> None" "\<forall>e \<in> set kvs. valid (kvKey e)" "unat (Length B) + length kvs < 2 ^ 64"
  shows "\<exists>B'. foldRun (\<lambda>B element. andThenRun (map_add_internal hash eq (kvKey element) (kvValue element) B) (\<lambda>(added, B). Returns B)) kvs B
      = Returns B' \<and> maps.table B' \<and> value_of B' = map_of (map (\<lambda>e. (content (kvKey e), kvValue e)) kvs) ++ value_of B
    \<and> unat (Length B') \<le> unat (Length B) + length kvs"
  using assms
proof (induction kvs arbitrary: B)
  case (Cons e kvs)
  let ?k = "content (kvKey e)"
  have len: "Length B \<noteq> -1" using Cons.prems(4) by (auto simp: unsigned_minus_1_eq_mask mask_eq_exp_minus_1)
  obtain B1 where B1: "map_add_internal hash eq (kvKey e) (kvValue e) B = Returns (maps.find_entry B ?k = None, B1)" "maps.table B1"
    "Slots B1 \<noteq> None" "maps.find_entry B1 = (if maps.find_entry B ?k = None
        then (maps.find_entry B)(?k \<mapsto> KeyValuePair (kvKey e) (kvValue e)) else maps.find_entry B)"
    "Length B1 = Length B + (if maps.find_entry B ?k = None then 1 else 0)"
    using map_add_internal_ok [OF Cons.prems(1,2) _ len, of "kvKey e" "kvValue e"] Cons.prems(3) by auto
  have l: "unat (Length B1) \<le> unat (Length B) + 1" using B1(5) unat_succ [OF len] by (simp split: if_splits)
  then have "unat (Length B1) + length kvs < 2 ^ 64" using Cons.prems(4) by simp
  then obtain B' where B': "foldRun (\<lambda>B element. andThenRun (map_add_internal hash eq (kvKey element) (kvValue element) B) (\<lambda>(added, B). Returns B)) kvs B1
      = Returns B'" "maps.table B'" "value_of B' = map_of (map (\<lambda>e. (content (kvKey e), kvValue e)) kvs) ++ value_of B1"
    "unat (Length B') \<le> unat (Length B1) + length kvs"
    using Cons.IH [OF B1(2,3)] Cons.prems(3) by auto
  have "value_of B' = map_of (map (\<lambda>e. (content (kvKey e), kvValue e)) (e # kvs)) ++ value_of B"
    unfolding B'(3) by (rule ext) (auto simp: B1(4) map_add_def fun_upd_def split: option.splits)
  then show ?case using B'(1,2,4) B1(1) l by (intro exI [of _ B']) (simp add: fun_upd_def)
qed simp

lemma HashMapBuilder_of_ok:
  fixes kvs :: "('k, 'v) KeyValuePair list"
  assumes "\<forall>n. squareRoot n < 2 ^ 63" "\<forall>e \<in> set kvs. valid (kvKey e)" "length kvs < 2 ^ 64"
  shows "\<exists>B. HashMapBuilder_of squareRoot hash eq kvs = Returns B \<and> maps.table B
    \<and> value_of B = map_of (map (\<lambda>e. (content (kvKey e), kvValue e)) kvs) \<and> length (entries B) \<le> length kvs"
proof (cases "kvs = []")
  case True
  then show ?thesis by (simp add: HashMapBuilder_of_def new_table table_new fun_eq_iff)
next
  case False
  then have "(of_nat (length kvs) :: 64 word) > 0" using assms(3) by (simp add: word_less_nat_alt unat_of_nat)
  from maps.reallocate_ok [OF new_table(1) assms(1) this] obtain B :: "('k, 'v) map_builder" where
    B: "reallocate squareRoot (of_nat (length kvs)) newBuilder = Returns B" "maps.table B" "Slots B \<noteq> None"
      "maps.find_entry B = Map.empty" "Length B = 0" by (auto simp: new_table newBuilder_length newBuilder_slots)
  from map_elements_ok [OF B(2,3) assms(2)] assms(3) B(5) obtain B' where
    B': "foldRun (\<lambda>B element. andThenRun (map_add_internal hash eq (kvKey element) (kvValue element) B) (\<lambda>(added, B). Returns B)) kvs B
      = Returns B'" "maps.table B'" "value_of B' = map_of (map (\<lambda>e. (content (kvKey e), kvValue e)) kvs) ++ value_of B"
      "unat (Length B') \<le> length kvs" by auto
  then have "length (entries B') \<le> length kvs" by (simp add: maps.table_def)
  moreover have "value_of B' = map_of (map (\<lambda>e. (content (kvKey e), kvValue e)) kvs)"
    unfolding B'(3) B(4) by (auto simp: map_add_def split: option.split)
  moreover have "HashMapBuilder_of squareRoot hash eq kvs = Returns B'" using False B(1) B'(1) by (simp add: HashMapBuilder_of_def)
  ultimately show ?thesis using B'(2) by blast
qed

text \<open>The table that is made of a builder.\<close>

lemma find_vector:
  "firstOf (\<lambda>item. eq k (key item)) (map slotValue items) = andThenRun (firstOf (\<lambda>item. eq k (key (slotValue item))) items)
     (\<lambda>found. Returns (map_option slotValue found))"
  by (rule firstOf_map)

lemma HashMap_of_ok:
  assumes "maps.table B" and small: "length (entries B) \<le> firstCapacity elem_size"
  shows "\<exists>H. HashMap_of elem_size B = Returns H \<and> (\<forall>k. valid k \<longrightarrow> map_get hash eq k H = Returns (value_of B (content k))
    \<and> map_contains hash eq k H = Returns (value_of B (content k) \<noteq> None))
    \<and> (case H of None \<Rightarrow> [] | Some ss \<Rightarrow> concat ss) = map slotValue (entries B)"
proof (cases "Length B = 0")
  case True
  then have "entries B = []" using assms by (simp add: maps.table_def)
  then show ?thesis using True by (simp add: HashMap_of_def map_get_def map_contains_def maps.find_entry_def)
next
  case False
  then have "unat (Length B) \<noteq> 0" by (simp add: word_unat_eq_iff)
  then obtain ss where ss: "Slots B = Some ss" using assms by (cases "Slots B") (auto simp: maps.table_def entries_def)
  have ne: "ss \<noteq> []" using assms ss by (simp add: maps.table_def maps.placed_def)
  have len: "length ss < 2 ^ 64" using assms ss by (simp add: maps.table_def)
  have H: "HashMap_of elem_size B = Returns (Some (map (map slotValue) ss))"
    using False ss gatherSlots_eq [of ss elem_size "\<lambda>kv. kv"] small by (simp add: HashMap_of_def entries_def)
  have "map_get hash eq k (Some (map (map slotValue) ss)) = Returns (value_of B (content k))
    \<and> map_contains hash eq k (Some (map (map slotValue) ss)) = Returns (value_of B (content k) \<noteq> None)" if k: "valid k" for k
    using maps.lookup(3) [OF assms(1) ss k] maps.slot_in_range [OF ne len, of "code (content k)"]
    by (simp add: map_get_def map_contains_def hash [OF k] slotNumber_def ne find_vector maps.lookup(2) [OF assms(1) ss k] del: not_None_eq)
  then show ?thesis using H by (simp add: entries_def ss map_concat)
qed

text \<open>Sets: the elements are their own keys.\<close>

lemma set_add_internal_ok:
  assumes "sets.table B" "Slots B \<noteq> None" "valid k" "Length B \<noteq> -1"
  shows "\<exists>B'. set_add_internal hash eq k B = Returns (sets.find_entry B (content k) = None, B') \<and> sets.table B'
    \<and> Slots B' \<noteq> None \<and> dom (sets.find_entry B') = insert (content k) (dom (sets.find_entry B))
    \<and> unat (Length B') \<le> unat (Length B) + 1"
proof -
  obtain ss where ss: "Slots B = Some ss" using assms(2) by blast
  show ?thesis
    using sets.insert_ok [OF assms(1) ss, of k, OF _ _ refl assms(4) refl] assms ss
    by (cases "sets.find_entry B (content k)")
      (auto simp: set_add_internal_def hash [OF assms(3)] sets.lookup [OF assms(1) ss assms(3)] unat_succ)
qed

lemma set_elements_ok:
  assumes "sets.table B" "Slots B \<noteq> None" "\<forall>k \<in> set ks. valid k" "unat (Length B) + length ks < 2 ^ 64"
  shows "\<exists>B'. foldRun (\<lambda>B element. andThenRun (set_add_internal hash eq element B) (\<lambda>(added, B). Returns B)) ks B = Returns B'
    \<and> sets.table B' \<and> dom (sets.find_entry B') = content ` set ks \<union> dom (sets.find_entry B)
    \<and> unat (Length B') \<le> unat (Length B) + length ks"
  using assms
proof (induction ks arbitrary: B)
  case (Cons k ks)
  have len: "Length B \<noteq> -1" using Cons.prems(4) by (auto simp: unsigned_minus_1_eq_mask mask_eq_exp_minus_1)
  obtain B1 where B1: "set_add_internal hash eq k B = Returns (sets.find_entry B (content k) = None, B1)" "sets.table B1"
    "Slots B1 \<noteq> None" "dom (sets.find_entry B1) = insert (content k) (dom (sets.find_entry B))"
    "unat (Length B1) \<le> unat (Length B) + 1"
    using set_add_internal_ok [OF Cons.prems(1,2) _ len, of k] Cons.prems(3) by auto
  have "unat (Length B1) + length ks < 2 ^ 64" using B1(5) Cons.prems(4) by simp
  with Cons.IH [OF B1(2,3)] Cons.prems(3) obtain B' where
    "foldRun (\<lambda>B element. andThenRun (set_add_internal hash eq element B) (\<lambda>(added, B). Returns B)) ks B1 = Returns B'" "sets.table B'"
    "dom (sets.find_entry B') = content ` set ks \<union> dom (sets.find_entry B1)" "unat (Length B') \<le> unat (Length B1) + length ks" by auto
  then show ?case using B1 by (intro exI [of _ B']) auto
qed simp

lemma set_lookup:
  assumes "sets.table B" "valid k"
  shows "set_builder_contains hash eq k B = Returns (content k \<in> dom (sets.find_entry B))"
proof (cases "Slots B")
  case None
  then show ?thesis by (simp add: set_builder_contains_def sets.find_entry_def entries_def domIff)
next
  case (Some ss)
  then show ?thesis
    by (simp add: set_builder_contains_def hash [OF assms(2)] sets.lookup [OF assms(1) Some assms(2)] domIff del: not_None_eq)
qed

lemma HashSetBuilder_of_ok:
  assumes "\<forall>n. squareRoot n < 2 ^ 63" "\<forall>k \<in> set ks. valid k" "length ks < 2 ^ 64"
  shows "\<exists>B. HashSetBuilder_of squareRoot hash eq ks = Returns B \<and> sets.table B \<and> dom (sets.find_entry B) = content ` set ks
    \<and> length (entries B) \<le> length ks"
proof (cases "ks = []")
  case True
  then show ?thesis using new_table by (simp add: HashSetBuilder_of_def table_new)
next
  case False
  then have "(of_nat (length ks) :: 64 word) > 0" using assms(3) by (simp add: word_less_nat_alt unat_of_nat)
  from sets.reallocate_ok [OF new_table(3) assms(1) this] obtain B where
    B: "reallocate squareRoot (of_nat (length ks)) newBuilder = Returns B" "sets.table B" "Slots B \<noteq> None"
      "sets.find_entry B = Map.empty" "Length B = 0" by (auto simp: new_table newBuilder_length newBuilder_slots)
  from set_elements_ok [OF B(2,3) assms(2)] assms(3) B False show ?thesis by (auto simp: HashSetBuilder_of_def sets.table_def)
qed

lemma HashSet_of_ok:
  assumes "sets.table B" and small: "length (entries B) \<le> firstCapacity elem_size"
  shows "\<exists>H. HashSet_of elem_size B = Returns H \<and> (\<forall>k. valid k \<longrightarrow> set_contains hash eq k H = Returns (content k \<in> dom (sets.find_entry B)))"
proof (cases "Length B = 0")
  case True
  then have "entries B = []" using assms by (simp add: sets.table_def)
  then show ?thesis using True by (simp add: HashSet_of_def set_contains_def sets.find_entry_def domIff)
next
  case False
  then have "unat (Length B) \<noteq> 0" by (simp add: word_unat_eq_iff)
  then obtain ss where ss: "Slots B = Some ss" using assms by (cases "Slots B") (auto simp: sets.table_def entries_def)
  have ne: "ss \<noteq> []" and len: "length ss < 2 ^ 64" using assms ss by (simp_all add: sets.table_def sets.placed_def)
  have "set_contains hash eq k (Some (map (map slotValue) ss)) = Returns (content k \<in> dom (sets.find_entry B))" if k: "valid k" for k
    using sets.lookup(3) [OF assms(1) ss k] sets.slot_in_range [OF ne len, of "code (content k)"]
    by (simp add: set_contains_def hash [OF k] slotNumber_def ne find_vector [where key = "\<lambda>v. v"] sets.lookup(2) [OF assms(1) ss k] domIff del: not_None_eq)
  then show ?thesis using False ss gatherSlots_eq [of ss elem_size "\<lambda>v. v"] small by (simp add: HashSet_of_def entries_def)
qed

end

section \<open>Strings as keys\<close>

definition string_content :: "address \<Rightarrow> bytes" where
  "string_content s = (case get_buffer s of Returns (Some bs) \<Rightarrow> bs | _ \<Rightarrow> [])"

definition string_key :: "address \<Rightarrow> bool" where
  "string_key s \<longleftrightarrow> (\<exists>bs. bs \<noteq> [] \<and> length bs < 2 ^ 31 \<and> s = string_for bs)"

lemma string_content [simp]: "length bs < 2 ^ 31 \<Longrightarrow> string_content (string_for bs) = bs"
  by (simp add: string_content_def get_buffer_eq)

lemma string_key [simp]: "bs \<noteq> [] \<Longrightarrow> length bs < 2 ^ 31 \<Longrightarrow> string_key (string_for bs)"
  by (auto simp: string_key_def)

interpretation strings: hash_key hash_string equals string_key string_content fnv
  by unfold_locales (auto simp: string_key_def hash_eq equals_eq)

definition some_keys :: "bytes list \<Rightarrow> bool" where
  "some_keys ks \<longleftrightarrow> length ks < 2 ^ 63 \<and> (\<forall>bs \<in> set ks. bs \<noteq> [] \<and> length bs < 2 ^ 31)"

definition pair_of :: "bytes \<times> 'v \<Rightarrow> (address, 'v) KeyValuePair" where
  "pair_of kv = KeyValuePair (string_for (fst kv)) (snd kv)"

lemma some_keys_map:
  assumes "some_keys (map fst kvs)"
  shows "map (\<lambda>e. (string_content (kvKey e), kvValue e)) (map pair_of kvs) = kvs"
  using assms by (induction kvs) (auto simp: some_keys_def pair_of_def)

definition sample_pairs :: "(bytes \<times> bool) list" where
  "sample_pairs = [([97], True), ([98], False), ([97], False)]"

text \<open>C36. A hash map built of a vector of pairs of a string and a value is a map: a key has the first value it comes with, and
  \<open>contains\<close> says whether it has one. The table that is made of the builder answers the same, and its iterator reads the
  value of each key once, when there are no more pairs than the array of a slot has room for without growing. (A builder cannot
  grow either, see \<open>map_builder_add_cases\<close>; one made of a vector need not.)\<close>

theorem hash_map_lookup:
  assumes "\<forall>n. squareRoot n < 2 ^ 63" "some_keys (map fst kvs)"
  shows "\<exists>B. HashMapBuilder_of squareRoot hash_string equals (map pair_of kvs) = Returns B
    \<and> (\<forall>bs. some_keys [bs] \<longrightarrow> map_builder_get hash_string equals (string_for bs) B = Returns (map_of kvs bs)
        \<and> map_builder_contains hash_string equals (string_for bs) B = Returns (bs \<in> fst ` set kvs))
    \<and> (length kvs \<le> firstCapacity elem_size \<longrightarrow> (\<exists>H ks. HashMap_of elem_size B = Returns H
      \<and> (\<forall>bs. some_keys [bs] \<longrightarrow> map_get hash_string equals (string_for bs) H = Returns (map_of kvs bs)
          \<and> map_contains hash_string equals (string_for bs) H = Returns (bs \<in> fst ` set kvs))
      \<and> set ks = fst ` set kvs \<and> distinct ks
      \<and> nextValues (Suc (length ks)) (HashMapIterator_of H) = map (map_of kvs) ks @ [None]))"
proof -
  have "\<forall>e \<in> set (map pair_of kvs). string_key (kvKey e)" "length (map pair_of kvs) < 2 ^ 64"
    using assms(2) by (auto simp: some_keys_def pair_of_def)
  from strings.HashMapBuilder_of_ok [OF assms(1) this] obtain B where
    B: "HashMapBuilder_of squareRoot hash_string equals (map pair_of kvs) = Returns B" "strings.maps.table B"
      "strings.value_of B = map_of kvs" "length (entries B) \<le> length kvs"
    unfolding some_keys_map [OF assms(2)] by auto
  have val: "strings.value_of B c = map_of kvs c" for c using fun_cong [OF B(3), of c] .
  let ?ks = "map (\<lambda>item. string_content (kvKey (slotValue item))) (entries B)"
  have ks: "distinct ?ks" using B(2) by (simp add: strings.maps.table_def)
  have v: "map_of kvs (string_content (kvKey (slotValue item))) = Some (kvValue (slotValue item))" if "item \<in> set (entries B)" for item
  proof -
    have "strings.maps.find_entry B (string_content (kvKey (slotValue item))) = Some (slotValue item)"
      using strings.maps.find_entry_in [OF B(2)] that by blast
    then show ?thesis using val [of "string_content (kvKey (slotValue item))"] by simp
  qed
  have dom: "set ?ks = fst ` set kvs"
  proof (intro set_eqI iffI)
    fix c assume "c \<in> set ?ks"
    then have "map_of kvs c \<noteq> None" using v by auto
    then show "c \<in> fst ` set kvs" by (simp add: map_of_eq_None_iff del: not_None_eq)
  next
    fix c assume "c \<in> fst ` set kvs"
    then obtain x where "map_of kvs c = Some x" by (metis map_of_eq_None_iff not_None_eq)
    then have "strings.value_of B c = Some x" using val [of c] by simp
    then obtain e where "strings.maps.find_entry B c = Some e" by (cases "strings.maps.find_entry B c") auto
    then show "c \<in> set ?ks" using strings.maps.find_entry_in [OF B(2)] by force
  qed
  have table: "\<exists>H ks. HashMap_of elem_size B = Returns H
      \<and> (\<forall>bs. some_keys [bs] \<longrightarrow> map_get hash_string equals (string_for bs) H = Returns (map_of kvs bs)
          \<and> map_contains hash_string equals (string_for bs) H = Returns (bs \<in> fst ` set kvs))
      \<and> set ks = fst ` set kvs \<and> distinct ks
      \<and> nextValues (Suc (length ks)) (HashMapIterator_of H) = map (map_of kvs) ks @ [None]" if "length kvs \<le> firstCapacity elem_size"
  proof -
    have "length (entries B) \<le> firstCapacity elem_size" using B(4) that by simp
    from strings.HashMap_of_ok [OF B(2) this, unfolded val] obtain H where H: "HashMap_of elem_size B = Returns H"
      "\<forall>k. string_key k \<longrightarrow> map_get hash_string equals k H = Returns (map_of kvs (string_content k))
        \<and> map_contains hash_string equals k H = Returns (map_of kvs (string_content k) \<noteq> None)"
      "(case H of None \<Rightarrow> [] | Some ss \<Rightarrow> concat ss) = map slotValue (entries B)"
      by (elim exE conjE)
    have "nextValues (Suc (length ?ks)) (HashMapIterator_of H) = map (map_of kvs) ?ks @ [None]"
      using nextValues_table [of H] v by (simp add: H(3) o_def)
    moreover have "map_get hash_string equals (string_for bs) H = Returns (map_of kvs bs)
        \<and> map_contains hash_string equals (string_for bs) H = Returns (bs \<in> fst ` set kvs)" if "some_keys [bs]" for bs
      using that H(2) [rule_format, of "string_for bs"]
      by (simp add: some_keys_def map_of_eq_None_iff del: not_None_eq)
    ultimately show ?thesis using H(1) ks dom by blast
  qed
  have "map_builder_get hash_string equals (string_for bs) B = Returns (map_of kvs bs)
      \<and> map_builder_contains hash_string equals (string_for bs) B = Returns (bs \<in> fst ` set kvs)" if "some_keys [bs]" for bs
    using that strings.map_builder_lookup [OF B(2), of "string_for bs"] val [of bs]
    by (simp add: some_keys_def map_of_eq_None_iff del: not_None_eq)
  with B(1) table show ?thesis by blast
qed

theorem hash_map_lookup_witness:
  "\<exists>B H. HashMapBuilder_of (\<lambda>_. 0) hash_string equals (map pair_of sample_pairs) = Returns B
    \<and> HashMap_of 24 B = Returns H
    \<and> map_get hash_string equals (string_for [97]) H = Returns (Some True)
    \<and> map_get hash_string equals (string_for [99]) H = Returns None"
proof -
  have sq: "\<forall>n :: 64 word. (0 :: 64 word) < 2 ^ 63" and keys: "some_keys (map fst sample_pairs)"
    by (simp_all add: some_keys_def sample_pairs_def)
  have cap: "length sample_pairs \<le> firstCapacity 24" by (simp add: sample_pairs_def firstCapacity_def)
  obtain B H where r: "HashMapBuilder_of (\<lambda>_. 0) hash_string equals (map pair_of sample_pairs) = Returns B" "HashMap_of 24 B = Returns H"
    and *: "\<forall>bs. some_keys [bs] \<longrightarrow> map_get hash_string equals (string_for bs) H = Returns (map_of sample_pairs bs)
      \<and> map_contains hash_string equals (string_for bs) H = Returns (bs \<in> fst ` set sample_pairs)"
    using hash_map_lookup [OF sq keys, of 24] cap by (elim exE conjE) (drule (1) mp, elim exE conjE, rule that, assumption+)
  then show ?thesis using * [rule_format, of "[97]"] * [rule_format, of "[99]"]
    by (auto simp: some_keys_def sample_pairs_def)
qed

text \<open>A hash set made of a vector has exactly the elements of the vector, before and after it is turned into a table.\<close>

theorem hash_set_members:
  assumes "\<forall>n. squareRoot n < 2 ^ 63" "some_keys vs" "length vs \<le> firstCapacity elem_size"
  shows "\<exists>B H. HashSetBuilder_of squareRoot hash_string equals (map string_for vs) = Returns B
    \<and> HashSet_of elem_size B = Returns H
    \<and> (\<forall>bs. some_keys [bs] \<longrightarrow> set_builder_contains hash_string equals (string_for bs) B = Returns (bs \<in> set vs)
        \<and> set_contains hash_string equals (string_for bs) H = Returns (bs \<in> set vs))"
proof -
  have "\<forall>k \<in> set (map string_for vs). string_key k" "length (map string_for vs) < 2 ^ 64"
    using assms(2) by (auto simp: some_keys_def)
  from strings.HashSetBuilder_of_ok [OF assms(1) this] obtain B where
    B: "HashSetBuilder_of squareRoot hash_string equals (map string_for vs) = Returns B" "strings.sets.table B"
      "dom (strings.sets.find_entry B) = string_content ` set (map string_for vs)" "length (entries B) \<le> length (map string_for vs)" by blast
  have "string_content ` set (map string_for vs) = set vs"
    using assms(2) by (force simp: some_keys_def image_iff)
  then have dom: "dom (strings.sets.find_entry B) = set vs" using B(3) by simp
  have "length (entries B) \<le> firstCapacity elem_size" using B(4) assms(3) by simp
  from strings.HashSet_of_ok [OF B(2) this, unfolded dom] obtain H where H: "HashSet_of elem_size B = Returns H"
    "\<forall>k. string_key k \<longrightarrow> set_contains hash_string equals k H = Returns (string_content k \<in> set vs)" by (elim exE conjE)
  show ?thesis using B(1) H strings.set_lookup [OF B(2)] dom by (auto simp: some_keys_def)
qed

theorem hash_set_members_witness:
  "\<exists>B H. HashSetBuilder_of (\<lambda>_. 0) hash_string equals (map string_for (map fst sample_pairs)) = Returns B \<and> HashSet_of 16 B = Returns H
    \<and> set_contains hash_string equals (string_for [98]) H = Returns True
    \<and> set_contains hash_string equals (string_for [99]) H = Returns False"
proof -
  have "\<forall>n :: 64 word. (0 :: 64 word) < 2 ^ 63" "some_keys (map fst sample_pairs)" "length (map fst sample_pairs) \<le> firstCapacity 16"
    by (simp_all add: some_keys_def sample_pairs_def firstCapacity_def)
  from hash_set_members [OF this] obtain B H where r: "HashSetBuilder_of (\<lambda>_. 0) hash_string equals (map string_for (map fst sample_pairs)) = Returns B" "HashSet_of 16 B = Returns H"
    and *: "\<forall>bs. some_keys [bs] \<longrightarrow> set_contains hash_string equals (string_for bs) H = Returns (bs \<in> set (map fst sample_pairs))" by blast
  then show ?thesis using * [rule_format, of "[98]"] * [rule_format, of "[99]"]
    by (auto simp: some_keys_def sample_pairs_def)
qed

end
