(* ===== verification/Library_Pages.thy ===== *)
theory Library_Pages
  imports Library_Strings Word_Alignment
begin

text \<open>
  The memory of the runtime library of the older compiler: Page.cpp, PageList.cpp, PageListIterator.cpp,
  Object.cpp and Region.cpp of retired/packages/scaly/scaly/memory.

  Memory is what the library keeps in it: the headers of the pages and the nodes of the lists of
  exclusive pages, by address, with 0 as the null pointer. Reading where there is none, because
  nothing was written there or because it was freed, \<open>Faults\<close>. The C library is a parameter:
  \<open>aligned_alloc\<close> gives an address for a size, or 0, and depends on the blocks that
  are handed out; a header that nothing was written to holds \<open>garbage\<close>. The methods call each other
  down the chains of pages, as far as the fuel allows; \<open>Hangs\<close> is that it ran out.
\<close>

section \<open>Headers and nodes\<close>

record page =
  next_object :: "64 word"
  current_page :: "64 word"
  next_page :: "64 word"
  exclusive_pages :: "64 word"

record page_node =
  node_page :: "64 word"
  node_next :: "64 word"

record memory =
  Pages :: "64 word \<rightharpoonup> page"
  Nodes :: "64 word \<rightharpoonup> page_node"
  Blocks :: "(64 word \<times> 64 word) list"

record c_library =
  aligned_alloc :: "(64 word \<times> 64 word) list \<Rightarrow> 64 word \<Rightarrow> 64 word"
  garbage :: page

definition PAGE_SIZE :: "64 word" where
  "PAGE_SIZE = 0x1000"

text \<open>\<open>sizeof(Page)\<close> and \<open>sizeof(PageNode)\<close>: four and two pointers.\<close>

definition sizeofPage :: "64 word" where
  "sizeofPage = 32"

definition sizeofPageNode :: "64 word" where
  "sizeofPageNode = 16"

definition page_at :: "memory \<Rightarrow> 64 word \<Rightarrow> page run" where
  "page_at M p = (case Pages M p of None \<Rightarrow> Faults | Some P \<Rightarrow> Returns P)"

definition node_at :: "memory \<Rightarrow> 64 word \<Rightarrow> page_node run" where
  "node_at M a = (case Nodes M a of None \<Rightarrow> Faults | Some N \<Rightarrow> Returns N)"

definition set_page :: "64 word \<Rightarrow> page \<Rightarrow> memory \<Rightarrow> memory" where
  "set_page p P M = M\<lparr>Pages := (Pages M)(p \<mapsto> P)\<rparr>"

definition set_node :: "64 word \<Rightarrow> page_node \<Rightarrow> memory \<Rightarrow> memory" where
  "set_node a N M = M\<lparr>Nodes := (Nodes M)(a \<mapsto> N)\<rparr>"

text \<open>What the C library does: \<open>free\<close> takes a block and all that is in it.\<close>

definition handedOut :: "64 word \<Rightarrow> 64 word \<Rightarrow> memory \<Rightarrow> memory" where
  "handedOut p n M = M\<lparr>Blocks := (p, n) # Blocks M\<rparr>"

definition within :: "64 word \<Rightarrow> 64 word \<Rightarrow> 64 word \<Rightarrow> bool" where
  "within a p n \<longleftrightarrow> p \<le> a \<and> a - p < n"

definition free :: "64 word \<Rightarrow> memory \<Rightarrow> memory run" where
  "free p M = (case map_of (Blocks M) p of None \<Rightarrow> Faults
     | Some n \<Rightarrow> Returns \<lparr>Pages = (\<lambda>a. if within a p n then None else Pages M a),
         Nodes = (\<lambda>a. if within a p n then None else Nodes M a),
         Blocks = filter (\<lambda>(b, _). b \<noteq> p) (Blocks M)\<rparr>)"

section \<open>class Page\<close>

definition page_get :: "64 word \<Rightarrow> 64 word" where
  "page_get address = address AND NOT (PAGE_SIZE - 1)"

definition alignedLocation :: "page \<Rightarrow> 64 word \<Rightarrow> 64 word" where
  "alignedLocation P align = (next_object P + align - 1) AND NOT (align - 1)"

definition capacityAt :: "64 word \<Rightarrow> page \<Rightarrow> 64 word \<Rightarrow> 64 word" where
  "capacityAt p P align = p + PAGE_SIZE - alignedLocation P align"

definition get_capacity :: "memory \<Rightarrow> 64 word \<Rightarrow> 64 word \<Rightarrow> 64 word run" where
  "get_capacity M p align = andThenRun (page_at M p) (\<lambda>P. Returns (capacityAt p P align))"

definition reset_page :: "64 word \<Rightarrow> page" where
  "reset_page p = \<lparr>next_object = p + sizeofPage, current_page = 0, next_page = 0, exclusive_pages = 0\<rparr>"

definition allocate_page :: "c_library \<Rightarrow> memory \<Rightarrow> (64 word \<times> memory) run" where
  "allocate_page L M =
     (let p = aligned_alloc L (Blocks M) PAGE_SIZE in
      if p = 0 then Faults else Returns (p, set_page p (reset_page p) (handedOut p PAGE_SIZE M)))"

type_synonym allocator = "memory \<Rightarrow> 64 word \<Rightarrow> 64 word \<Rightarrow> 64 word \<Rightarrow> (64 word \<times> memory) run"

text \<open>\<open>Object::operator new\<close>, and \<open>exclusive_pages.add(rp, element)\<close> of the page \<open>p\<close>.\<close>

definition operator_new :: "allocator \<Rightarrow> memory \<Rightarrow> 64 word \<Rightarrow> 64 word \<Rightarrow> 64 word \<Rightarrow> (64 word \<times> memory) run" where
  "operator_new Allocate M p size' align = andThenRun (Allocate M p size' align) (\<lambda>(object, M).
     if object = 0 then Exits 16 else Returns (object, M))"

definition list_add :: "allocator \<Rightarrow> memory \<Rightarrow> 64 word \<Rightarrow> 64 word \<Rightarrow> 64 word \<Rightarrow> memory run" where
  "list_add Allocate M p rp element =
     andThenRun (operator_new Allocate M rp sizeofPageNode 8) (\<lambda>(new_node, M).
     andThenRun (page_at M p) (\<lambda>P.
       Returns (set_page p (P\<lparr>exclusive_pages := new_node\<rparr>)
         (set_node new_node \<lparr>node_page = element, node_next = exclusive_pages P\<rparr> M))))"

definition allocate_oversized :: "c_library \<Rightarrow> allocator \<Rightarrow> memory \<Rightarrow> 64 word \<Rightarrow> 64 word \<Rightarrow> (64 word \<times> memory) run" where
  "allocate_oversized L Allocate M p size' =
     (let rounded = (size' + PAGE_SIZE - 1) AND NOT (PAGE_SIZE - 1);
          a = aligned_alloc L (Blocks M) rounded in
      if a = 0 then Exits 1
      else andThenRun (list_add Allocate (set_page a ((garbage L)\<lparr>next_object := 0\<rparr>) (handedOut a rounded M)) p p a) (\<lambda>M.
        Returns (a + sizeofPage, M)))"

fun allocate :: "c_library \<Rightarrow> nat \<Rightarrow> allocator" where
  "allocate L 0 M p size' align = Hangs"
| "allocate L (Suc fuel) M p size' align =
     andThenRun (page_at M p) (\<lambda>P.
       let aligned_location = alignedLocation P align in
       if capacityAt p P align < size' then
         let gross_size = size' + sizeofPage in
         if gross_size > PAGE_SIZE then allocate_oversized L (allocate L fuel) M p gross_size
         else if current_page P \<noteq> 0 then
           andThenRun (allocate L fuel M (current_page P) size' align) (\<lambda>(object, M).
           andThenRun (page_at M p) (\<lambda>P.
             if page_get object \<noteq> current_page P then Returns (object, set_page p (P\<lparr>current_page := page_get object\<rparr>) M)
             else Returns (object, M)))
         else
           andThenRun (allocate_page L M) (\<lambda>(new, M).
             allocate L fuel (set_page p (P\<lparr>current_page := new, next_page := new\<rparr>) M) new size' align)
       else Returns (aligned_location, set_page p (P\<lparr>next_object := aligned_location + size'\<rparr>) M))"

definition allocate_exclusive_page :: "c_library \<Rightarrow> nat \<Rightarrow> memory \<Rightarrow> 64 word \<Rightarrow> (64 word \<times> memory) run" where
  "allocate_exclusive_page L fuel M p =
     andThenRun (allocate_page L M) (\<lambda>(new, M).
     andThenRun (list_add (allocate L fuel) M p new new) (\<lambda>M. Returns (new, M)))"

section \<open>Lists of pages and their end\<close>

text \<open>The loop of \<open>PageList::remove\<close>: the list that the page \<open>p\<close> heads, from \<open>node\<close> on, behind \<open>previous_node\<close>.\<close>

fun removeLoop :: "nat \<Rightarrow> memory \<Rightarrow> 64 word \<Rightarrow> 64 word \<Rightarrow> 64 word \<Rightarrow> 64 word \<Rightarrow> (bool \<times> memory) run" where
  "removeLoop 0 M p element previous_node node = Hangs"
| "removeLoop (Suc fuel) M p element previous_node node =
     (if node = 0 then Returns (False, M)
      else andThenRun (node_at M node) (\<lambda>N.
        if node_page N = element then
          andThenRun (if previous_node \<noteq> 0
              then andThenRun (node_at M previous_node) (\<lambda>Q. Returns (set_node previous_node (Q\<lparr>node_next := node_next N\<rparr>) M))
              else Returns M) (\<lambda>M.
          andThenRun (page_at M p) (\<lambda>P.
            Returns (True, if node = exclusive_pages P then set_page p (P\<lparr>exclusive_pages := 0\<rparr>) M else M)))
        else removeLoop fuel M p element node (node_next N)))"

definition list_remove :: "nat \<Rightarrow> memory \<Rightarrow> 64 word \<Rightarrow> 64 word \<Rightarrow> (bool \<times> memory) run" where
  "list_remove fuel M p element = andThenRun (page_at M p) (\<lambda>P. removeLoop fuel M p element 0 (exclusive_pages P))"

text \<open>The loop that frees the chain of next pages.\<close>

fun freeChain :: "nat \<Rightarrow> 64 word \<Rightarrow> memory \<Rightarrow> memory run" where
  "freeChain 0 p M = Hangs"
| "freeChain (Suc fuel) p M =
     (if p = 0 then Returns M
      else andThenRun (page_at M p) (\<lambda>P. andThenRun (free p M) (freeChain fuel (next_page P))))"

text \<open>\<open>deallocate_extensions\<close> and its loop over the exclusive pages; \<open>next\<close> of the iterator reads the node and steps on.\<close>

fun deallocate_extensions :: "nat \<Rightarrow> 64 word \<Rightarrow> memory \<Rightarrow> memory run"
  and freeExclusive :: "nat \<Rightarrow> 64 word \<Rightarrow> memory \<Rightarrow> memory run" where
  "deallocate_extensions 0 p M = Hangs"
| "deallocate_extensions (Suc fuel) p M =
     andThenRun (page_at M p) (\<lambda>P.
       if next_object P = 0 then Returns M
       else andThenRun (freeExclusive fuel (exclusive_pages P) M) (\<lambda>M.
         andThenRun (page_at M p) (\<lambda>P. freeChain fuel (next_page P) M)))"
| "freeExclusive 0 node M = Hangs"
| "freeExclusive (Suc fuel) node M =
     (if node = 0 then Returns M
      else andThenRun (node_at M node) (\<lambda>N.
        andThenRun (deallocate_extensions fuel (node_page N) M) (\<lambda>M.
        andThenRun (free (node_page N) M) (freeExclusive fuel (node_next N)))))"

definition deallocate_exclusive_page :: "nat \<Rightarrow> memory \<Rightarrow> 64 word \<Rightarrow> 64 word \<Rightarrow> memory run" where
  "deallocate_exclusive_page fuel M p page' =
     andThenRun (deallocate_extensions fuel page' M) (\<lambda>M.
     andThenRun (free page' M) (\<lambda>M.
     andThenRun (list_remove fuel M p page') (\<lambda>(removed, M).
       if \<not> removed then Exits 2 else Returns M)))"

section \<open>class Region\<close>

text \<open>The pointer of a region, 0 before its page is asked for, and the end of a region.\<close>

definition region_get_page :: "c_library \<Rightarrow> memory \<Rightarrow> 64 word \<Rightarrow> (64 word \<times> memory) run" where
  "region_get_page L M p = (if p = 0 then allocate_page L M else Returns (p, M))"

definition region_end :: "nat \<Rightarrow> memory \<Rightarrow> 64 word \<Rightarrow> memory run" where
  "region_end fuel M p =
     (if p \<noteq> 0 then andThenRun (deallocate_extensions fuel p M) (free p) else Returns M)"

end
