(* ===== verification/Library_Pages_Theorems.thy ===== *)
theory Library_Pages_Theorems
  imports Library_Pages
begin

text \<open>
  What the pages promise: memory that is aligned and in nobody else's use. \<open>pages_ok\<close> is the invariant of
  the headers, with a rank that shows that the chains of current pages end; \<open>objects\<close> says
  of the memory that was given out that it lies in the used part of pages and does not overlap.
\<close>

definition apart :: "64 word \<times> 64 word \<Rightarrow> 64 word \<times> 64 word \<Rightarrow> bool" where
  "apart x y \<longleftrightarrow> unat (fst x) + unat (snd x) \<le> unat (fst y) \<or> unat (fst y) + unat (snd y) \<le> unat (fst x)"

lemma apart_sym: "apart x y \<Longrightarrow> apart y x"
  by (auto simp: apart_def)

lemma apart_members: "sorted_wrt apart xs \<Longrightarrow> x \<in> set xs \<Longrightarrow> y \<in> set xs \<Longrightarrow> x \<noteq> y \<Longrightarrow> apart x y"
  by (induction xs) (auto intro: apart_sym)

text \<open>What the C library documents of \<open>aligned_alloc\<close>, for the alignment that the pages ask for.\<close>

definition c_ok :: "c_library \<Rightarrow> bool" where
  "c_ok L \<longleftrightarrow> (\<forall>bs n. let a = aligned_alloc L bs n in
     a \<noteq> 0 \<longrightarrow> 4096 dvd unat a \<and> unat a + unat n < 2 ^ 64 \<and> (\<forall>b \<in> set bs. apart (a, n) b))"

definition regular :: "memory \<Rightarrow> 64 word \<Rightarrow> bool" where
  "regular M p \<longleftrightarrow> (\<exists>P. Pages M p = Some P \<and> next_object P \<noteq> 0)"

definition header_ok :: "(64 word \<Rightarrow> nat) \<Rightarrow> memory \<Rightarrow> 64 word \<Rightarrow> page \<Rightarrow> bool" where
  "header_ok rank M p P \<longleftrightarrow> 4096 dvd unat p \<and> p \<noteq> 0 \<and>
     (if next_object P = 0 then \<exists>n. (p, n) \<in> set (Blocks M) \<and> 4096 \<le> unat n
      else (p, 4096) \<in> set (Blocks M) \<and> unat p + 32 \<le> unat (next_object P) \<and> unat (next_object P) \<le> unat p + 4096
        \<and> (current_page P \<noteq> 0 \<longrightarrow> regular M (current_page P) \<and> rank (current_page P) < rank p))"

definition pages_ok :: "(64 word \<Rightarrow> nat) \<Rightarrow> memory \<Rightarrow> bool" where
  "pages_ok rank M \<longleftrightarrow> sorted_wrt apart (Blocks M) \<and> (\<forall>(b, n) \<in> set (Blocks M). unat b + unat n < 2 ^ 64)
     \<and> (\<forall>p P. Pages M p = Some P \<longrightarrow> header_ok rank M p P)"

definition holds :: "memory \<Rightarrow> 64 word \<times> 64 word \<Rightarrow> bool" where
  "holds M x \<longleftrightarrow> (\<exists>p P. Pages M p = Some P \<and> unat p + 32 \<le> unat (fst x) \<and>
     (if next_object P = 0 then \<exists>n. (p, n) \<in> set (Blocks M) \<and> unat (fst x) + unat (snd x) \<le> unat p + unat n
      else unat (fst x) + unat (snd x) \<le> unat (next_object P)))"

definition objects :: "memory \<Rightarrow> (64 word \<times> 64 word) list \<Rightarrow> bool" where
  "objects M xs \<longleftrightarrow> sorted_wrt apart xs \<and> (\<forall>x \<in> set xs. holds M x)"

lemma block_of:
  assumes "header_ok rank M q Q"
  obtains n where "(q, n) \<in> set (Blocks M)" "4096 \<le> unat n" "next_object Q \<noteq> 0 \<longrightarrow> unat (next_object Q) \<le> unat q + unat n"
proof (cases "next_object Q = 0")
  case True
  then show ?thesis using assms that by (auto simp: header_ok_def)
next
  case False
  then show ?thesis using assms that [of 4096] by (auto simp: header_ok_def)
qed

lemma regular_header:
  assumes "pages_ok rank M" "Pages M p = Some P" "next_object P \<noteq> 0"
  shows "4096 dvd unat p" "p \<noteq> 0" "(p, 4096) \<in> set (Blocks M)" "unat p + 32 \<le> unat (next_object P)"
    "unat (next_object P) \<le> unat p + 4096" "current_page P \<noteq> 0 \<Longrightarrow> regular M (current_page P) \<and> rank (current_page P) < rank p"
proof -
  have "header_ok rank M p P" using assms(1,2) by (simp add: pages_ok_def)
  then show "4096 dvd unat p" "p \<noteq> 0" "(p, 4096) \<in> set (Blocks M)" "unat p + 32 \<le> unat (next_object P)"
    "unat (next_object P) \<le> unat p + 4096" "current_page P \<noteq> 0 \<Longrightarrow> regular M (current_page P) \<and> rank (current_page P) < rank p"
    using assms(3) by (simp_all add: header_ok_def)
qed

lemma page_bound:
  assumes "pages_ok rank M" "Pages M p = Some P" "next_object P \<noteq> 0"
  shows "unat p + 8192 \<le> 2 ^ 64"
proof -
  have "4096 dvd unat p" "(p, 4096) \<in> set (Blocks M)" using assms by (auto simp: pages_ok_def header_ok_def)
  then obtain k where "unat p = 4096 * k" "unat p + 4096 < 2 ^ 64" using assms(1) by (fastforce simp: pages_ok_def)
  then show ?thesis by simp
qed

section \<open>The steps\<close>

lemma set_page_simps [simp]:
  "Pages (set_page p P M) = (Pages M)(p \<mapsto> P)" "Blocks (set_page p P M) = Blocks M" "Nodes (set_page p P M) = Nodes M"
  "Pages (set_node a N M) = Pages M" "Blocks (set_node a N M) = Blocks M"
  "Pages (handedOut p n M) = Pages M" "Blocks (handedOut p n M) = (p, n) # Blocks M"
  by (simp_all add: set_page_def set_node_def handedOut_def)

lemma set_node_ok [simp]: "pages_ok rank (set_node a N M) = pages_ok rank M" "objects (set_node a N M) xs = objects M xs"
  by (simp_all add: pages_ok_def header_ok_def regular_def objects_def holds_def)

text \<open>A header that grows, or changes its lists.\<close>

lemma set_header:
  assumes "pages_ok rank M" "Pages M p = Some P" "next_object P \<noteq> 0"
    and "unat (next_object P) \<le> unat (next_object P')" "unat (next_object P') \<le> unat p + 4096"
    and "current_page P' \<noteq> 0 \<longrightarrow> regular M (current_page P') \<and> rank (current_page P') < rank p"
  shows "pages_ok rank (set_page p P' M)" "holds M x \<Longrightarrow> holds (set_page p P' M) x" "regular (set_page p P' M) = regular M"
proof -
  have p: "header_ok rank M p P" using assms(1,2) by (auto simp: pages_ok_def)
  have pos: "next_object P' \<noteq> 0" using assms(3,4) by (metis unat_eq_zero le_zero_eq)
  show reg: "regular (set_page p P' M) = regular M" using assms(2,3) pos by (auto simp: regular_def fun_eq_iff)
  have "header_ok rank (set_page p P' M) p P'" using p assms(3-6) pos reg by (auto simp: header_ok_def)
  moreover have "header_ok rank M q Q \<Longrightarrow> header_ok rank (set_page p P' M) q Q" for q Q
    using reg by (auto simp: header_ok_def)
  ultimately show "pages_ok rank (set_page p P' M)" using assms(1) by (auto simp: pages_ok_def)
  show "holds (set_page p P' M) x" if "holds M x"
  proof -
    from that obtain q Q where q: "Pages M q = Some Q" "unat q + 32 \<le> unat (fst x)"
      "if next_object Q = 0 then \<exists>n. (q, n) \<in> set (Blocks M) \<and> unat (fst x) + unat (snd x) \<le> unat q + unat n
      else unat (fst x) + unat (snd x) \<le> unat (next_object Q)" by (auto simp: holds_def)
    show ?thesis
    proof (cases "q = p")
      case True
      then show ?thesis using q assms(2,3,4) pos unfolding holds_def by (intro exI [of _ p] exI [of _ P']) auto
    next
      case False
      then show ?thesis using q unfolding holds_def by (intro exI [of _ q] exI [of _ Q]) auto
    qed
  qed
qed

lemma holds_block:
  assumes "pages_ok rank M" "holds M x"
  obtains q n where "(q, n) \<in> set (Blocks M)" "unat q \<le> unat (fst x)" "unat (fst x) + unat (snd x) \<le> unat q + unat n"
proof -
  from assms(2) obtain q Q where q: "Pages M q = Some Q" "unat q + 32 \<le> unat (fst x)"
    "if next_object Q = 0 then \<exists>n. (q, n) \<in> set (Blocks M) \<and> unat (fst x) + unat (snd x) \<le> unat q + unat n
      else unat (fst x) + unat (snd x) \<le> unat (next_object Q)" by (auto simp: holds_def)
  have "header_ok rank M q Q" using q(1) assms(1) by (auto simp: pages_ok_def)
  then obtain m where "(q, m) \<in> set (Blocks M)" "4096 \<le> unat m" "next_object Q \<noteq> 0 \<longrightarrow> unat (next_object Q) \<le> unat q + unat m"
    by (rule block_of)
  then show ?thesis using that q by (cases "next_object Q = 0") (auto dest: order_trans)
qed

lemma holds_regular:
  assumes "pages_ok rank M" "Pages M p = Some P" "next_object P \<noteq> 0" "holds M x"
    and "unat (next_object P) \<le> unat a" "unat a + unat s \<le> unat p + 4096"
  shows "apart (a, s) x"
proof -
  have p: "(p, 4096) \<in> set (Blocks M)" "unat p \<le> unat (next_object P)" using regular_header [OF assms(1-3)] by simp_all
  from assms(4) obtain q Q where q: "Pages M q = Some Q" "unat q + 32 \<le> unat (fst x)"
    "if next_object Q = 0 then \<exists>n. (q, n) \<in> set (Blocks M) \<and> unat (fst x) + unat (snd x) \<le> unat q + unat n
      else unat (fst x) + unat (snd x) \<le> unat (next_object Q)" by (auto simp: holds_def)
  show ?thesis
  proof (cases "q = p")
    case True
    then show ?thesis using q assms(2,3,5) by (auto simp: apart_def)
  next
    case False
    have "header_ok rank M q Q" using q(1) assms(1) by (auto simp: pages_ok_def)
    then obtain m where m: "(q, m) \<in> set (Blocks M)" "4096 \<le> unat m" "next_object Q \<noteq> 0 \<longrightarrow> unat (next_object Q) \<le> unat q + unat m"
      by (rule block_of)
    then obtain n where n: "(q, n) \<in> set (Blocks M)" "unat (fst x) + unat (snd x) \<le> unat q + unat n"
      using q(3) by (cases "next_object Q = 0") (auto dest: order_trans)
    have "apart (p, 4096) (q, n)" using apart_members [OF _ p(1) n(1)] False assms(1) by (auto simp: pages_ok_def)
    then show ?thesis using n(2) q(2) p(2) assms(5,6) by (auto simp: apart_def)
  qed
qed

lemma page_get_eq:
  assumes "4096 dvd unat p" "unat p \<le> unat a" "unat a < unat p + 4096"
  shows "page_get a = p"
proof -
  have "PAGE_SIZE - 1 = mask 12" by (simp add: PAGE_SIZE_def mask_eq_exp_minus_1)
  then have "unat (page_get a) = unat a div 4096 * 4096" using unat_and_not_mask [of a 12] by (simp add: page_get_def)
  moreover obtain k where "unat p = 4096 * k" using assms(1) by blast
  moreover then have "unat a div 4096 = k" using assms(2,3) by (intro div_nat_eqI) simp_all
  ultimately show ?thesis by (simp add: word_unat_eq_iff)
qed

lemma alignUp_least:
  assumes "power_of_2 a" "unat x + unat a \<le> 2 ^ 64" "unat a dvd m" "unat x \<le> m"
  shows "unat (alignUp x a) \<le> m"
proof -
  obtain i j where ij: "unat (alignUp x a) = unat a * i" "m = unat a * j"
    using alignUp_bounds(1) [OF assms(1,2)] assms(3) by (auto elim!: dvdE)
  have "unat a * i < unat a * (j + 1)" using alignUp_bounds(3) [OF assms(1,2)] assms(4) ij by simp
  then have "i \<le> j" by (metis less_Suc_eq_le Suc_eq_plus1 mult_less_cancel1)
  then show ?thesis unfolding ij by simp
qed

lemma divides_page: "power_of_2 a \<Longrightarrow> unat a \<le> 32 \<Longrightarrow> unat a dvd 32 \<and> unat a dvd 4096"
proof -
  assume a: "power_of_2 a" "unat a \<le> 32"
  obtain k where k: "unat a = 2 ^ k" using power_of_2_unat [OF a(1)] by blast
  then have "(2 :: nat) ^ k \<le> 2 ^ 5" using a(2) by simp
  then have "k \<le> 5" using power_le_imp_le_exp [of "2 :: nat" k 5] by simp
  then have "(2 :: nat) ^ k dvd 2 ^ 5" by (rule le_imp_power_dvd)
  moreover have "(2 :: nat) ^ k dvd 2 ^ 12" using \<open>k \<le> 5\<close> by (intro le_imp_power_dvd) linarith
  ultimately show ?thesis by (simp add: k)
qed

text \<open>An object behind the last one of a page.\<close>

lemma aligned_location:
  assumes "pages_ok rank M" "Pages M p = Some P" "next_object P \<noteq> 0" "power_of_2 align" "unat align \<le> 32"
  shows "unat (next_object P) \<le> unat (alignedLocation P align)" "unat (alignedLocation P align) \<le> unat p + 4096"
    "unat align dvd unat (alignedLocation P align)" "unat (capacityAt p P align) = unat p + 4096 - unat (alignedLocation P align)"
proof -
  note h = regular_header [OF assms(1-3)] and b = page_bound [OF assms(1-3)]
  let ?a = "unat (alignedLocation P align)"
  have up: "unat align dvd ?a" "unat (next_object P) \<le> ?a" "?a < unat (next_object P) + unat align"
    using alignUp_bounds [OF assms(4), of "next_object P"] h(5) b assms(5) by (simp_all add: alignedLocation_def alignUp_def)
  have "unat align dvd unat p + 4096" using h(1) divides_page [OF assms(4,5)] by (metis dvd_add dvd_trans)
  then have le: "?a \<le> unat p + 4096"
    using alignUp_least [OF assms(4), of "next_object P" "unat p + 4096"] h(5) b assms(5) by (simp add: alignedLocation_def alignUp_def)
  show "unat (next_object P) \<le> ?a" "?a \<le> unat p + 4096" "unat align dvd ?a" by (fact up(2) le up(1))+
  have "unat (p + PAGE_SIZE) = unat p + 4096" using b by (simp add: PAGE_SIZE_def unat_plus_if')
  then show "unat (capacityAt p P align) = unat p + 4096 - ?a" using le by (simp add: capacityAt_def unat_sub_if')
qed

lemma bump:
  assumes "pages_ok rank M" "Pages M p = Some P" "next_object P \<noteq> 0" "power_of_2 align" "unat align \<le> 32"
    and "objects M xs" "0 < s" "\<not> capacityAt p P align < s"
    and "a = alignedLocation P align" "M' = set_page p (P\<lparr>next_object := a + s\<rparr>) M"
  shows "pages_ok rank M'" "objects M' ((a, s) # xs)" "unat align dvd unat a" "page_get a = p" "regular M' = regular M" "a \<noteq> 0"
proof -
  note h = regular_header [OF assms(1-3)] and b = page_bound [OF assms(1-3)] and l = aligned_location [OF assms(1-5), folded assms(9)]
  have s: "0 < unat s" using assms(7) by (simp add: word_less_nat_alt)
  have fits: "unat a + unat s \<le> unat p + 4096" using assms(8) l(2,4) by (simp add: word_less_nat_alt)
  then have sum: "unat (a + s) = unat a + unat s" using b by (simp add: unat_plus_if')
  let ?P' = "P\<lparr>next_object := a + s\<rparr>"
  have set: "pages_ok rank M'" "\<And>x. holds M x \<Longrightarrow> holds M' x" "regular M' = regular M"
    using set_header [OF assms(1-3), of ?P'] l(1) fits sum h(6) by (simp_all add: assms(10))
  show "pages_ok rank M'" "regular M' = regular M" "unat align dvd unat a" by (fact set(1) set(3) l(3))+
  show "page_get a = p" using page_get_eq [OF h(1), of a] l(1) h(4) fits s by simp
  show "a \<noteq> 0" using l(1) h(4) by auto
  have "next_object ?P' \<noteq> 0" using sum s by auto
  then have "holds M' (a, s)" using l(1) h(4) sum unfolding holds_def by (intro exI [of _ p] exI [of _ ?P']) (simp add: assms(10))
  moreover have "apart (a, s) x" if "x \<in> set xs" for x
    using holds_regular [OF assms(1-3) _ l(1) fits] assms(6) that by (simp add: objects_def)
  ultimately show "objects M' ((a, s) # xs)" using assms(6) set(2) by (simp add: objects_def)
qed

text \<open>A page or an oversized block from the C library.\<close>

lemma new_block:
  assumes "pages_ok rank M" "c_ok L" "r = aligned_alloc L (Blocks M) n" "r \<noteq> 0" "4096 \<le> unat n"
    and "next_object R = 0 \<or> next_object R = r + sizeofPage \<and> current_page R = 0 \<and> n = 4096"
    and "M' = set_page r R (handedOut r n M)" "rank' = (\<lambda>q. if q = r then 0 else rank q + 1)"
  shows "Pages M r = None" "pages_ok rank' M'" "holds M x \<Longrightarrow> holds M' x" "regular M q \<Longrightarrow> regular M' q"
    "unat (r + sizeofPage) = unat r + 32" "4096 dvd unat r"
proof -
  have c: "4096 dvd unat r" "unat r + unat n < 2 ^ 64" "\<forall>b \<in> set (Blocks M). apart (r, n) b"
    using assms(2-4) by (auto simp: c_ok_def Let_def)
  show "4096 dvd unat r" by (fact c(1))
  show fresh: "Pages M r = None"
  proof (rule ccontr)
    assume "Pages M r \<noteq> None"
    then obtain P where "header_ok rank M r P" using assms(1) by (auto simp: pages_ok_def)
    then obtain m where "(r, m) \<in> set (Blocks M)" "4096 \<le> unat m" by (rule block_of)
    then show False using c(3) assms(5) by (fastforce simp: apart_def)
  qed
  show sum: "unat (r + sizeofPage) = unat r + 32" using c(2) assms(5) by (simp add: sizeofPage_def unat_plus_if')
  then have pos: "r + sizeofPage \<noteq> 0" by auto
  show reg: "regular M q \<Longrightarrow> regular M' q" for q using fresh by (auto simp: regular_def assms(7))
  have "header_ok rank' M' r R" using assms(4-6) c(1) sum pos by (auto simp: header_ok_def assms(7))
  moreover have "header_ok rank' M' q Q" if "header_ok rank M q Q" "q \<noteq> r" for q Q
  proof -
    have "current_page Q \<noteq> r" if "regular M (current_page Q)" using that fresh by (auto simp: regular_def)
    then show ?thesis using that reg by (auto simp: header_ok_def assms(7,8) split: if_splits)
  qed
  ultimately show "pages_ok rank' M'" using assms(1) c by (auto simp: pages_ok_def assms(7))
  show "holds M' x" if "holds M x"
  proof -
    from that obtain p P where p: "Pages M p = Some P" "unat p + 32 \<le> unat (fst x)"
      "if next_object P = 0 then \<exists>n. (p, n) \<in> set (Blocks M) \<and> unat (fst x) + unat (snd x) \<le> unat p + unat n
        else unat (fst x) + unat (snd x) \<le> unat (next_object P)" by (auto simp: holds_def)
    moreover have "p \<noteq> r" using p(1) fresh by auto
    ultimately show ?thesis unfolding holds_def assms(7) by (intro exI [of _ p] exI [of _ P]) auto
  qed
qed

section \<open>Allocation\<close>

lemma small_sum: "unat s \<le> 4064 \<Longrightarrow> unat (s + sizeofPage) = unat s + 32" "s + sizeofPage > PAGE_SIZE \<longleftrightarrow> unat (s + sizeofPage) > 4096"
  by (simp_all add: sizeofPage_def PAGE_SIZE_def unat_plus_if' word_less_nat_alt)

text \<open>An object that fits into a page: it goes to the last page of the chain, or to a new one behind it.\<close>

lemma allocate_small:
  assumes "pages_ok rank M" "c_ok L" "regular M p" "power_of_2 align" "unat align \<le> 32"
    and "objects M xs" "0 < s" "unat s \<le> 4064" "aligned_alloc L (Blocks M) 4096 \<noteq> 0" "rank p + 1 < fuel"
  shows "\<exists>a M' rank' d. allocate L fuel M p s align = Returns (a, M') \<and> pages_ok rank' M' \<and> objects M' ((a, s) # xs)
    \<and> unat align dvd unat a \<and> a \<noteq> 0 \<and> regular M' (page_get a) \<and> rank' (page_get a) \<le> rank' p
    \<and> (\<forall>q. regular M q \<longrightarrow> regular M' q \<and> rank' q = rank q + d)"
  using assms
proof (induction fuel arbitrary: M p rank)
  case (Suc fuel)
  obtain P where P: "Pages M p = Some P" "next_object P \<noteq> 0" using Suc.prems(3) by (auto simp: regular_def)
  note h = regular_header [OF Suc.prems(1) P]
  have at: "page_at M p = Returns P" by (simp add: page_at_def P(1))
  have gross: "\<not> s + sizeofPage > PAGE_SIZE" using small_sum [of s] Suc.prems(8) by simp
  show ?case
  proof (cases "capacityAt p P align < s")
    case False
    note b = bump [OF Suc.prems(1) P Suc.prems(4,5,6,7) False refl refl]
    show ?thesis using b False Suc.prems(3) by (intro exI [of _ "alignedLocation P align"] exI exI [of _ rank] exI [of _ 0]) (auto simp: at Let_def)
  next
    case full: True
    show ?thesis
    proof (cases "current_page P = 0")
      case False
      let ?q = "current_page P"
      have q: "regular M ?q" "rank ?q < rank p" using h(6) False by blast+
      then have "rank ?q + 1 < fuel" using Suc.prems(10) by simp
      from Suc.IH [OF Suc.prems(1,2) q(1) Suc.prems(4-9) this] obtain a M' rank' d where
        a: "allocate L fuel M ?q s align = Returns (a, M')" "pages_ok rank' M'" "objects M' ((a, s) # xs)"
          "unat align dvd unat a" "a \<noteq> 0" "regular M' (page_get a)" "rank' (page_get a) \<le> rank' ?q"
          "\<forall>q. regular M q \<longrightarrow> regular M' q \<and> rank' q = rank q + d" by blast
      have less: "rank' (page_get a) < rank' p" using a(7,8) q Suc.prems(3) by fastforce
      obtain P' where P': "Pages M' p = Some P'" "next_object P' \<noteq> 0" using a(8) Suc.prems(3) by (auto simp: regular_def)
      let ?M = "set_page p (P'\<lparr>current_page := page_get a\<rparr>) M'"
      have set: "pages_ok rank' ?M" "\<And>x. holds M' x \<Longrightarrow> holds ?M x" "regular ?M = regular M'"
        using set_header [OF a(2) P', of "P'\<lparr>current_page := page_get a\<rparr>"] regular_header(5) [OF a(2) P'] a(6) less by simp_all
      have "objects ?M ((a, s) # xs)" using a(3) set(2) by (auto simp: objects_def)
      then show ?thesis
        using full gross False a set less P' at
        by (cases "page_get a = current_page P'")
          (intro exI [of _ a] exI [of _ M'] exI [of _ rank'] exI [of _ d], simp add: page_at_def Let_def,
           intro exI [of _ a] exI [of _ ?M] exI [of _ rank'] exI [of _ d], simp add: page_at_def Let_def)
    next
      case True
      define r where "r = aligned_alloc L (Blocks M) PAGE_SIZE"
      have r: "r = aligned_alloc L (Blocks M) 4096" "r \<noteq> 0" using Suc.prems(9) by (simp_all add: r_def PAGE_SIZE_def)
      define M1 where "M1 = set_page r (reset_page r) (handedOut r 4096 M)"
      define rank1 where "rank1 = (\<lambda>q. if q = r then 0 else rank q + 1)"
      have R: "next_object (reset_page r) = r + sizeofPage" "current_page (reset_page r) = 0" by (simp_all add: reset_page_def)
      note n = new_block [OF Suc.prems(1,2) r, of "reset_page r" M1 rank1, OF _ _ M1_def rank1_def]
      have n: "Pages M r = None" "pages_ok rank1 M1" "\<And>x. holds M x \<Longrightarrow> holds M1 x" "\<And>q. regular M q \<Longrightarrow> regular M1 q"
        "unat (r + sizeofPage) = unat r + 32" "4096 dvd unat r" using n R by simp_all
      have ne: "p \<noteq> r" using n(1) P(1) by auto
      have pos: "next_object (reset_page r) \<noteq> 0" using R n(5) by auto
      have M1: "Pages M1 p = Some P" "Pages M1 r = Some (reset_page r)" using P(1) ne by (simp_all add: M1_def)
      let ?P = "P\<lparr>current_page := r, next_page := r\<rparr>"
      define M2 where "M2 = set_page p ?P M1"
      have "regular M1 r" "rank1 r < rank1 p" using M1(2) pos ne by (auto simp: regular_def rank1_def)
      then have s2: "pages_ok rank1 M2" "\<And>x. holds M1 x \<Longrightarrow> holds M2 x" "regular M2 = regular M1"
        using set_header [OF n(2) M1(1) P(2), of ?P] h(5) unfolding M2_def by simp_all
      have M2: "Pages M2 r = Some (reset_page r)" using M1 ne by (simp add: M2_def)
      have "objects M2 xs" using Suc.prems(6) n(3) s2(2) by (auto simp: objects_def)
      have "unat align dvd unat r + 32" using divides_page [OF Suc.prems(4,5)] n(6) by (meson dvd_add dvd_trans)
      then have "unat (alignedLocation (reset_page r) align) \<le> unat r + 32"
        using alignUp_least [OF Suc.prems(4), of "r + sizeofPage" "unat r + 32"] n(5)
          page_bound [OF s2(1) M2 pos] Suc.prems(5) by (simp add: alignedLocation_def alignUp_def R)
      then have room: "\<not> capacityAt r (reset_page r) align < s"
        using aligned_location(4) [OF s2(1) M2 pos Suc.prems(4,5)] Suc.prems(8) by (simp add: word_less_nat_alt)
      obtain f where f: "fuel = Suc f" using Suc.prems(10) by (cases fuel) auto
      let ?a = "alignedLocation (reset_page r) align"
      note b = bump [OF s2(1) M2 pos Suc.prems(4,5) \<open>objects M2 xs\<close> Suc.prems(7) room refl refl]
      have "allocate_page L M = Returns (r, M1)" using r(2) by (simp add: allocate_page_def Let_def M1_def r_def PAGE_SIZE_def)
      then have "allocate L (Suc fuel) M p s align = allocate L fuel M2 r s align"
        using full gross True at by (simp add: Let_def M2_def)
      also have "\<dots> = Returns (?a, set_page r ((reset_page r)\<lparr>next_object := ?a + s\<rparr>) M2)"
        using room M2 by (simp add: f page_at_def Let_def)
      finally have run: "allocate L (Suc fuel) M p s align = \<dots>" .
      have old: "\<forall>q. regular M q \<longrightarrow> regular (set_page r ((reset_page r)\<lparr>next_object := ?a + s\<rparr>) M2) q \<and> rank1 q = rank q + 1"
        using n(1,4) s2(3) b(5) by (auto simp: regular_def rank1_def)
      have "rank1 r \<le> rank1 p" by (simp add: rank1_def)
      then show ?thesis using run b(1-3,6) old \<open>regular M1 r\<close> [folded s2(3), folded b(5)]
        by (intro exI [of _ ?a] exI [of _ "set_page r ((reset_page r)\<lparr>next_object := ?a + s\<rparr>) M2"] exI [of _ rank1] exI [of _ 1] conjI) (simp_all only: b(4) not_False_eq_True)
    qed
  qed
qed simp

text \<open>An object that is larger than a page has a block of its own, and a node in a page.\<close>

definition roundedSize :: "64 word \<Rightarrow> 64 word" where
  "roundedSize s = alignUp (s + sizeofPage) PAGE_SIZE"

lemma objects_swap: "objects M (x # y # xs) \<Longrightarrow> objects M (y # x # xs)"
  by (auto simp: objects_def apart_sym)

lemma allocate_large:
  assumes "pages_ok rank M" "c_ok L" "regular M p" "power_of_2 align" "unat align \<le> 32"
    and "objects M xs" "4064 < unat s" "unat s < 2 ^ 63" "rank p + 3 < fuel"
    and "b = aligned_alloc L (Blocks M) (roundedSize s)" "b \<noteq> 0" "aligned_alloc L ((b, roundedSize s) # Blocks M) 4096 \<noteq> 0"
  shows "\<exists>a M' rank' x. allocate L fuel M p s align = Returns (a, M') \<and> pages_ok rank' M' \<and> objects M' ((a, s) # x # xs)
    \<and> unat align dvd unat a \<and> a \<noteq> 0 \<and> regular M' p"
proof -
  obtain f where f: "fuel = Suc f" "rank p + 2 < f" using assms(9) by (cases fuel) auto
  obtain P where P: "Pages M p = Some P" "next_object P \<noteq> 0" using assms(3) by (auto simp: regular_def)
  have at: "page_at M p = Returns P" by (simp add: page_at_def P(1))
  have gross: "unat (s + sizeofPage) = unat s + 32" using assms(8) by (simp add: sizeofPage_def unat_plus_if')
  have large: "s + sizeofPage > PAGE_SIZE" using gross assms(7) by (simp add: PAGE_SIZE_def word_less_nat_alt)
  have full: "capacityAt p P align < s"
    using aligned_location [OF assms(1) P assms(4,5)] regular_header(4) [OF assms(1) P] assms(7) by (simp add: word_less_nat_alt)
  have "power_of_2 PAGE_SIZE" unfolding power_of_2_def PAGE_SIZE_def by (intro exI [of _ 12]) simp
  then have rounded: "unat s + 32 \<le> unat (roundedSize s)"
    using alignUp_bounds(2) [of PAGE_SIZE "s + sizeofPage"] gross assms(8) by (simp add: roundedSize_def PAGE_SIZE_def)
  define R where "R = (garbage L)\<lparr>next_object := 0\<rparr>"
  define M1 where "M1 = set_page b R (handedOut b (roundedSize s) M)"
  define rank1 where "rank1 = (\<lambda>q. if q = b then 0 else rank q + 1)"
  have n: "Pages M b = None" "pages_ok rank1 M1" "\<And>x. holds M x \<Longrightarrow> holds M1 x" "\<And>q. regular M q \<Longrightarrow> regular M1 q"
    "unat (b + sizeofPage) = unat b + 32" "4096 dvd unat b"
    using new_block [OF assms(1,2,10,11), of R M1 rank1, OF _ _ M1_def rank1_def] rounded assms(7) by (simp_all add: R_def)
  have "holds M1 (b + sizeofPage, s)"
    using rounded n(5) unfolding holds_def by (intro exI [of _ b] exI [of _ R]) (auto simp: M1_def R_def)
  moreover have "apart (b + sizeofPage, s) x" if "x \<in> set xs" for x
  proof -
    have "holds M x" using assms(6) that by (simp add: objects_def)
    then obtain q m where q: "(q, m) \<in> set (Blocks M)" "unat q \<le> unat (fst x)" "unat (fst x) + unat (snd x) \<le> unat q + unat m"
      by (rule holds_block [OF assms(1)])
    then have "apart (b, roundedSize s) (q, m)" using assms(2,10,11) by (auto simp: c_ok_def Let_def)
    then show ?thesis using q rounded n(5) by (auto simp: apart_def)
  qed
  ultimately have o1: "objects M1 ((b + sizeofPage, s) # xs)" using assms(6) n(3) by (auto simp: objects_def)
  have "rank1 p + 1 < f" using f by (simp add: rank1_def)
  moreover have "aligned_alloc L (Blocks M1) 4096 \<noteq> 0" using assms(12) by (simp add: M1_def)
  ultimately obtain a M2 rank2 d where a: "allocate L f M1 p sizeofPageNode 8 = Returns (a, M2)" "pages_ok rank2 M2"
    "objects M2 ((a, sizeofPageNode) # (b + sizeofPage, s) # xs)" "a \<noteq> 0" "regular M2 p"
    using allocate_small [OF n(2) assms(2) n(4) [OF assms(3)] _ _ o1, of 8 sizeofPageNode f] n(4) [OF assms(3)]
    by (auto simp: sizeofPageNode_def)
  obtain P2 where P2: "Pages M2 p = Some P2" "next_object P2 \<noteq> 0" using a(5) by (auto simp: regular_def)
  define M3 where "M3 = set_page p (P2\<lparr>exclusive_pages := a\<rparr>) (set_node a \<lparr>node_page = b, node_next = exclusive_pages P2\<rparr> M2)"
  have ok2: "pages_ok rank2 (set_node a N M2)" "Pages (set_node a N M2) p = Some P2" for N using a(2) P2(1) by simp_all
  have M3: "pages_ok rank2 M3" "\<And>x. holds (set_node a \<lparr>node_page = b, node_next = exclusive_pages P2\<rparr> M2) x \<Longrightarrow> holds M3 x"
      "regular M3 = regular (set_node a \<lparr>node_page = b, node_next = exclusive_pages P2\<rparr> M2)"
    using set_header [OF ok2 P2(2), of "P2\<lparr>exclusive_pages := a\<rparr>"] regular_header(5,6) [OF a(2) P2]
    unfolding M3_def by (simp_all add: regular_def)
  have "objects (set_node a N M2) ((a, sizeofPageNode) # (b + sizeofPage, s) # xs)" for N using a(3) by simp
  then have "objects M3 ((a, sizeofPageNode) # (b + sizeofPage, s) # xs)" using M3(2) by (simp add: objects_def)
  moreover have "regular M3 p" using a(5) M3(3) by (simp add: regular_def)
  moreover have "unat align dvd unat (b + sizeofPage)" "b + sizeofPage \<noteq> 0"
    using divides_page [OF assms(4,5)] n(5,6) by (auto intro: dvd_add dvd_trans)
  moreover have "allocate_oversized L (allocate L f) M p (s + sizeofPage) = Returns (b + sizeofPage, M3)"
    using a(1,4) P2(1) assms(10,11)
    by (simp add: allocate_oversized_def Let_def list_add_def operator_new_def page_at_def M3_def M1_def R_def roundedSize_def alignUp_def)
  then have "allocate L fuel M p s align = Returns (b + sizeofPage, M3)" using at full large f(1) by (simp add: Let_def)
  ultimately show ?thesis using M3(1) objects_swap by blast
qed

text \<open>C39. A page gives out memory that is aligned, lies in blocks of the C library, and overlaps nothing that was given
  out before and nothing that the page itself keeps, and the headers stay well-formed, whether the object fits into the page, goes to
  the last page of the chain or a new one, or is larger than a page; and it always comes to an end with a call for each page of the chain.\<close>
theorem page_allocation:
  assumes "c_ok L" "pages_ok rank M" "objects M xs" "regular M p"
    and "power_of_2 align" "unat align \<le> 32" "0 < s" "unat s < 2 ^ 63" "rank p + 3 < fuel"
    and "aligned_alloc L (Blocks M) 4096 \<noteq> 0"
    and "b = aligned_alloc L (Blocks M) (roundedSize s)" "b \<noteq> 0" "aligned_alloc L ((b, roundedSize s) # Blocks M) 4096 \<noteq> 0"
  shows "\<exists>a M' rank' ys. allocate L fuel M p s align = Returns (a, M') \<and> unat align dvd unat a \<and> a \<noteq> 0
    \<and> pages_ok rank' M' \<and> objects M' ((a, s) # ys @ xs) \<and> regular M' p"
proof (cases "unat s \<le> 4064")
  case True
  have "rank p + 1 < fuel" using assms(9) by simp
  from allocate_small [OF assms(2,1,4,5,6,3,7) True assms(10) this] obtain a M' rank' d where
    "allocate L fuel M p s align = Returns (a, M')" "pages_ok rank' M'" "objects M' ((a, s) # xs)" "unat align dvd unat a"
    "a \<noteq> 0" "\<forall>q. regular M q \<longrightarrow> regular M' q \<and> rank' q = rank q + d" by blast
  then show ?thesis using assms(4)
    by (intro exI [of _ a] exI [of _ M'] exI [of _ rank'] exI [of _ "[]"]) simp
next
  case False
  then have "4064 < unat s" by simp
  from allocate_large [OF assms(2,1,4,5,6,3) this assms(8,9,11,12,13)] obtain a M' rank' x where
    "allocate L fuel M p s align = Returns (a, M')" "pages_ok rank' M'" "objects M' ((a, s) # x # xs)" "unat align dvd unat a"
    "a \<noteq> 0" "regular M' p" by blast
  then show ?thesis by (intro exI [of _ a] exI [of _ M'] exI [of _ rank'] exI [of _ "[x]"]) simp
qed

text \<open>A C library that hands out the memory behind all blocks, as long as there is some, and a page that it gave.\<close>

definition endOf :: "(64 word \<times> 64 word) list \<Rightarrow> nat" where
  "endOf bs = foldr (\<lambda>(b, n) e. max (unat b + unat n) e) bs 1"

definition sample_library :: c_library where
  "sample_library = \<lparr>aligned_alloc = (\<lambda>bs n. let a = (endOf bs + 4095) div 4096 * 4096 in
     if a + unat n < 2 ^ 64 then of_nat a else 0), garbage = reset_page 0\<rparr>"

lemma of_nat_small: "m < 2 ^ 64 \<Longrightarrow> unat (of_nat m :: 64 word) = m"
  by (simp add: unat_of_nat)

lemma endOf_block: "b \<in> set bs \<Longrightarrow> unat (fst b) + unat (snd b) \<le> endOf bs"
  by (induction bs) (auto simp: endOf_def)

lemma sample_library_ok: "c_ok sample_library"
proof -
  have "4096 dvd unat a \<and> unat a + unat n < 2 ^ 64 \<and> (\<forall>b \<in> set bs. apart (a, n) b)"
    if "a = aligned_alloc sample_library bs n" "a \<noteq> 0" for a bs n
  proof -
    let ?a = "(endOf bs + 4095) div 4096 * 4096"
    have less: "?a + unat n < 2 ^ 64" and a: "a = of_nat ?a"
      using that by (auto simp: sample_library_def Let_def split: if_splits)
    have "?a < 2 ^ 64" using less by simp
    then have u: "unat a = ?a" unfolding a by (rule of_nat_small)
    have "endOf bs \<le> ?a" by (simp add: dividend_less_times_div less_imp_le_nat)
    then have "unat (fst b) + unat (snd b) \<le> unat a" if "b \<in> set bs" for b using endOf_block [OF that] u by simp
    then show ?thesis using u less by (auto simp: apart_def)
  qed
  then show ?thesis by (simp add: c_ok_def Let_def)
qed

definition sample_memory :: memory where
  "sample_memory = \<lparr>Pages = [4096 \<mapsto> reset_page 4096], Nodes = Map.empty, Blocks = [(4096, 4096)]\<rparr>"

lemma sample_memory_ok: "pages_ok (\<lambda>_. 0) sample_memory" "objects sample_memory []" "regular sample_memory 4096"
  by (auto simp: sample_memory_def pages_ok_def header_ok_def objects_def regular_def reset_page_def sizeofPage_def)

theorem page_allocation_witness:
  "(\<exists>a M' rank' ys. allocate sample_library 4 sample_memory 4096 5000 8 = Returns (a, M') \<and> unat (8 :: 64 word) dvd unat a \<and> a \<noteq> 0
    \<and> pages_ok rank' M' \<and> objects M' ((a, 5000) # ys @ []) \<and> regular M' 4096)"
proof (rule page_allocation [OF sample_library_ok sample_memory_ok])
  have r: "roundedSize 5000 = 8192" by (simp add: roundedSize_def alignUp_def sizeofPage_def PAGE_SIZE_def)
  show "aligned_alloc sample_library (Blocks sample_memory) (roundedSize 5000) = aligned_alloc sample_library (Blocks sample_memory) (roundedSize 5000)"
    by (rule refl)
  show "aligned_alloc sample_library (Blocks sample_memory) (roundedSize 5000) \<noteq> 0" "aligned_alloc sample_library (Blocks sample_memory) 4096 \<noteq> 0"
    "aligned_alloc sample_library ((aligned_alloc sample_library (Blocks sample_memory) (roundedSize 5000), roundedSize 5000) # Blocks sample_memory) 4096 \<noteq> 0"
    unfolding r by (simp_all add: sample_library_def sample_memory_def endOf_def Let_def)
qed simp_all

text \<open>A page that was allocated as exclusive cannot be given back alone: its node lies in it, and is read after it is freed.\<close>

theorem exclusive_page_freed:
  assumes "c_ok L" "pages_ok rank M" "regular M p" "aligned_alloc L (Blocks M) 4096 \<noteq> 0"
  shows "andThenRun (allocate_exclusive_page L (Suc fuel) M p) (\<lambda>(q, M'). deallocate_exclusive_page (Suc (Suc n)) M' p q) = Faults"
proof -
  define r where "r = aligned_alloc L (Blocks M) PAGE_SIZE"
  have r: "r = aligned_alloc L (Blocks M) 4096" "r \<noteq> 0" using assms(4) by (simp_all add: r_def PAGE_SIZE_def)
  define M1 where "M1 = set_page r (reset_page r) (handedOut r 4096 M)"
  define rank1 where "rank1 = (\<lambda>q. if q = r then 0 else rank q + 1)"
  have R: "next_object (reset_page r) = r + sizeofPage" "current_page (reset_page r) = 0" by (simp_all add: reset_page_def)
  have n: "Pages M r = None" "pages_ok rank1 M1" "regular M1 p" "unat (r + sizeofPage) = unat r + 32" "4096 dvd unat r"
    using new_block [OF assms(2,1) r, of "reset_page r" M1 rank1, OF _ _ M1_def rank1_def] R assms(3) by simp_all
  have pos: "next_object (reset_page r) \<noteq> 0" using R n(4) by auto
  have M1: "Pages M1 r = Some (reset_page r)" by (simp add: M1_def)
  have eight: "power_of_2 8" "unat (8 :: 64 word) \<le> 32" by simp_all
  let ?a = "alignedLocation (reset_page r) 8"
  note l = aligned_location [OF n(2) M1 pos eight]
  obtain k where "unat r = 4096 * k" using n(5) by blast
  then have "unat r + 32 = 8 * (512 * k + 4)" by simp
  then have "8 dvd unat r + 32" by (rule dvdI)
  then have "unat ?a \<le> unat r + 32"
    using alignUp_least [OF eight(1), of "r + sizeofPage" "unat r + 32"] n(4) page_bound [OF n(2) M1 pos]
    by (simp add: alignedLocation_def alignUp_def R)
  then have a: "?a = r + sizeofPage" using l(1) n(4) R by (simp add: word_unat_eq_iff)
  have cap: "\<not> capacityAt r (reset_page r) 8 < sizeofPageNode"
    using l(4) unfolding a by (simp add: n(4) word_less_nat_alt sizeofPageNode_def)
  obtain P where P: "Pages M1 p = Some P" "next_object P \<noteq> 0" using n(3) by (auto simp: regular_def)
  have ne: "p \<noteq> r" using assms(3) n(1) by (auto simp: regular_def)
  define M2 where "M2 = set_page r ((reset_page r)\<lparr>next_object := r + sizeofPage + sizeofPageNode\<rparr>) M1"
  have alloc: "allocate L (Suc fuel) M1 r sizeofPageNode 8 = Returns (r + sizeofPage, M2)"
    using M1 cap a by (simp add: page_at_def Let_def M2_def)
  have nonzero: "r + sizeofPage \<noteq> 0" "r + sizeofPage + sizeofPageNode \<noteq> 0"
    using n(4) page_bound [OF n(2) M1 pos] by (auto simp: word_unat_eq_iff unat_plus_if' sizeofPageNode_def)
  define M3 where "M3 = set_page p (P\<lparr>exclusive_pages := r + sizeofPage\<rparr>)
    (set_node (r + sizeofPage) \<lparr>node_page = r, node_next = exclusive_pages P\<rparr> M2)"
  have "allocate_page L M = Returns (r, M1)" using r(2) by (simp add: allocate_page_def Let_def M1_def r_def PAGE_SIZE_def)
  then have new: "allocate_exclusive_page L (Suc fuel) M p = Returns (r, M3)"
    using alloc P(1) ne nonzero by (simp add: allocate_exclusive_page_def list_add_def operator_new_def page_at_def M2_def M3_def del: allocate.simps)
  have "deallocate_extensions (Suc (Suc n)) r M3 = Returns M3" for n
    using ne nonzero by (simp add: page_at_def M3_def M2_def reset_page_def)
  moreover have "map_of (Blocks M3) r = Some 4096" by (simp add: M3_def M2_def M1_def)
  moreover have "apart (p, 4096) (r, 4096)"
    using apart_members [OF _ regular_header(3) [OF n(2) P] regular_header(3) [OF n(2) M1 pos]] n(2) ne by (auto simp: pages_ok_def)
  then have "\<not> within p r 4096" by (auto simp: within_def apart_def word_le_nat_alt word_less_nat_alt unat_sub_if')
  moreover have "within (r + sizeofPage) r 4096"
    using n(4) by (simp add: within_def word_le_nat_alt) (simp add: sizeofPage_def word_less_nat_alt)
  ultimately show ?thesis unfolding new
    using nonzero by (simp add: deallocate_exclusive_page_def free_def list_remove_def page_at_def node_at_def M3_def)
qed

end
