(* ===== verification/Plan_Modules.thy ===== *)
theory Plan_Modules
  imports Planner_Inference
begin

text \<open>
  The rest of retired/scalyc0/Plan.h: what is planned of namespaces, concepts and modules, the plan
  as a whole, and the merging of plans. A namespace contains modules and concepts, and a module concepts:
  \<open>'co\<close> stands for concepts until \<open>planned_concept\<close> closes the cycle, as in Model.
\<close>

datatype 'co planned_module_of = PlannedModule
  (pm_File: string)
  (pm_Name: string)
  (pm_Modules: "'co planned_module_of list")
  (pm_Concepts: "'co list")
  (pm_Functions: "planned_function list")
  (pm_Operators: "planned_operator list")

datatype 'co planned_namespace_of = PlannedNamespace
  (pn_Loc: span)
  (pn_Name: string)
  (pn_MangledName: string)
  (pn_Modules: "'co planned_module_of list")
  (pn_Functions: "planned_function list")
  (pn_Operators: "planned_operator list")
  (pn_Concepts: "'co list")

datatype 'co planned_definition_of =
    PDef_Structure planned_structure
  | PDef_Union planned_union
  | PDef_Namespace "'co planned_namespace_of"
  | PDef_Global planned_global
  | PDef_Type planned_type

datatype planned_concept = PlannedConcept
  (pco_Loc: span)
  (pco_Name: string)
  (pco_MangledName: string)
  (pco_Attributes: "planned_attribute list")
  (pco_Definition: "planned_concept planned_definition_of")
  (pco_Origin: "instantiation_info option")

type_synonym planned_module = "planned_concept planned_module_of"
type_synonym planned_namespace = "planned_concept planned_namespace_of"
type_synonym planned_definition = "planned_concept planned_definition_of"

text \<open>The plan; the state of the type inference is what \<open>inference\<close> has.\<close>

record plan = inference +
  MainModule :: planned_module
  PlanStatements :: "planned_statement list"
  PlanStructures :: "(string \<times> planned_structure) list"
  PlanUnions :: "(string \<times> planned_union) list"
  PlanFunctions :: "(string \<times> planned_function) list"
  PlanGlobals :: "(string \<times> planned_global) list"

text \<open>\<open>Target[Name] = Value\<close> for each entry of another map.\<close>

definition put_all :: "('k::linorder \<times> 'v) list \<Rightarrow> ('k \<times> 'v) list \<Rightarrow> ('k \<times> 'v) list" where
  "put_all Source' Target = foldl (\<lambda>m (k, v). map_put k v m) Target Source'"

definition mergePlans :: "plan \<Rightarrow> plan \<Rightarrow> plan" where
  "mergePlans Target Source' = Target\<lparr>
     PlanStructures := put_all (PlanStructures Source') (PlanStructures Target),
     PlanUnions := put_all (PlanUnions Source') (PlanUnions Target),
     PlanFunctions := put_all (PlanFunctions Source') (PlanFunctions Target),
     PlanGlobals := put_all (PlanGlobals Source') (PlanGlobals Target)\<rparr>"

lemma map_of_put_all: "distinct (map fst Source') \<Longrightarrow> map_of (put_all Source' Target) = map_of Target ++ map_of Source'"
proof (induction Source' arbitrary: Target)
  case (Cons e Source')
  obtain k v where e: "e = (k, v)" by (cases e)
  then have "map_of Source' k = None" using Cons.prems by (simp add: map_of_eq_None_iff)
  then show ?case using Cons e by (auto simp: put_all_def fun_eq_iff map_add_def split: option.split)
qed (simp add: put_all_def)

lemma ordered_put_all: "ordered Target \<Longrightarrow> ordered (put_all Source' Target)"
  by (induction Source' arbitrary: Target) (auto simp: put_all_def ordered_put split: prod.splits)

text \<open>The merged plan has the entries of both, those of the second where both have one.\<close>

lemma mergePlans_maps:
  assumes "ordered (PlanStructures B)" "ordered (PlanUnions B)" "ordered (PlanFunctions B)" "ordered (PlanGlobals B)"
  shows "map_of (PlanStructures (mergePlans A B)) = map_of (PlanStructures A) ++ map_of (PlanStructures B)"
    "map_of (PlanUnions (mergePlans A B)) = map_of (PlanUnions A) ++ map_of (PlanUnions B)"
    "map_of (PlanFunctions (mergePlans A B)) = map_of (PlanFunctions A) ++ map_of (PlanFunctions B)"
    "map_of (PlanGlobals (mergePlans A B)) = map_of (PlanGlobals A) ++ map_of (PlanGlobals B)"
  using assms by (simp_all add: mergePlans_def map_of_put_all ordered_distinct)

end
