(* ===== verification/Planner_Generics.thy ===== *)
theory Planner_Generics
  imports Planner_Operators Planner_Scopes Plan_Modules
begin

text \<open>
  Types in the planner of retired/scalyc0/Planner.cpp: how the name of a type becomes a planned type, how a
  generic concept is instantiated for its arguments and kept in the caches, and the planning of items,
  properties, variants, structures, unions and concepts that this needs; and the copies of
  attributes (\<open>cloneModel\<close> and its helpers).

  The parts of class Planner that these methods read and change are the record \<open>generics_state\<close>, with any
  further fields. \<open>CurrentStructureProperties\<close> always points at the properties of \<open>CurrentStructure\<close>.
  The methods that plan code and search modules are the fields of \<open>planner_world\<close>; so are the values
  that the language leaves open: the fields of a default constructed \<open>PlannedUnion\<close> and \<open>Item\<close> that have no initializer, and
  a string that was moved away.

  The methods call each other through \<open>resolveType\<close>, which nothing in the code bounds: they take it as the
  argument \<open>R\<close>, and \<open>resolveTypeUpTo\<close> closes the recursion with fuel, \<open>None\<close> when it runs out.
\<close>

section \<open>State and outcomes\<close>

text \<open>What \<open>CurrentStructure\<close> points at: a structure that is being put together, or an entry of the cache.\<close>

datatype structure_pointer =
    Being_Built planned_structure
  | Cache_Entry string

record generics_state = operator_state +
  Concepts :: "(string \<times> concept) list"
  TypeSubstitutions :: "(string \<times> planned_type) list"
  LocalScopes :: "(string \<times> local_binding) list list"
  InstantiatedFunctions :: "(string \<times> planned_function) list"
  PlannedGlobals :: "(string \<times> planned_global) list"
  ExpectedTypeContext :: "planned_type option"
  CurrentStructureName :: string
  CurrentStructure :: "structure_pointer option"
  CurrentNamespaceName :: string

text \<open>An error of PlannerError.h, or an \<open>llvm::StringError\<close>.\<close>

datatype plan_error =
    Planner_Error planner_error
  | Message_Error string

type_synonym 'x planning_state = "'x generics_state_scheme"
type_synonym ('s, 'a) planning = "'s \<Rightarrow> ((plan_error + 'a) \<times> 's) option"
type_synonym 's resolver = "type_ref \<Rightarrow> span \<Rightarrow> ('s, planned_type) planning"

record 's planner_world =
  lookupConcept :: "string \<Rightarrow> ('s, concept option) planning"
  planOperand :: "operand \<Rightarrow> ('s, planned_operand) planning"
  planOperands :: "operand list \<Rightarrow> ('s, planned_operand list) planning"
  planInitializer :: "initializer_m \<Rightarrow> planned_type \<Rightarrow> ('s, planned_initializer) planning"
  planDeInitializer :: "deinitializer \<Rightarrow> planned_type \<Rightarrow> ('s, planned_deinitializer) planning"
  planFunction :: "function_m \<Rightarrow> planned_type option \<Rightarrow> ('s, planned_function) planning"
  planOperator :: "operator_m \<Rightarrow> planned_type option \<Rightarrow> ('s, planned_operator) planning"
  planNamespace :: "(module, concept) namespace_m \<Rightarrow> string \<Rightarrow> ('s, planned_namespace) planning"
  planAction :: "action \<Rightarrow> ('s, planned_action) planning"
  uninitialized :: planned_union
  uninitializedItem :: item
  movedString :: string

definition plans :: "'a \<Rightarrow> ('s, 'a) planning" where
  "plans a s = Some (Inr a, s)"

definition planFails :: "planner_error \<Rightarrow> ('s, 'a) planning" where
  "planFails e s = Some (Inl (Planner_Error e), s)"

definition planSays :: "string \<Rightarrow> ('s, 'a) planning" where
  "planSays Message s = Some (Inl (Message_Error Message), s)"

definition thenPlan :: "('s, 'a) planning \<Rightarrow> ('a \<Rightarrow> ('s, 'b) planning) \<Rightarrow> ('s, 'b) planning" where
  "thenPlan m k s = (case m s of
     None \<Rightarrow> None
   | Some (Inl e, s) \<Rightarrow> Some (Inl e, s)
   | Some (Inr a, s) \<Rightarrow> k a s)"

text \<open>What is done to the state behind a step, whether it succeeds or not, or only when it fails.\<close>

definition afterwards :: "('s \<Rightarrow> 's) \<Rightarrow> ('s, 'a) planning \<Rightarrow> ('s, 'a) planning" where
  "afterwards f m s = (case m s of None \<Rightarrow> None | Some (r, s) \<Rightarrow> Some (r, f s))"

definition onError :: "('s \<Rightarrow> 's) \<Rightarrow> ('s, 'a) planning \<Rightarrow> ('s, 'a) planning" where
  "onError f m s = (case m s of
     None \<Rightarrow> None
   | Some (Inl e, s) \<Rightarrow> Some (Inl e, f s)
   | Some (Inr a, s) \<Rightarrow> Some (Inr a, s))"

text \<open>An error that is consumed.\<close>

definition ignoringErrors :: "('s, 'a) planning \<Rightarrow> ('s, unit) planning" where
  "ignoringErrors m s = (case m s of None \<Rightarrow> None | Some (r, s) \<Rightarrow> Some (Inr (), s))"

fun eachPlan :: "('a \<Rightarrow> ('s, 'b) planning) \<Rightarrow> 'a list \<Rightarrow> ('s, 'b list) planning" where
  "eachPlan f [] = plans []"
| "eachPlan f (x # xs) = thenPlan (f x) (\<lambda>y. thenPlan (eachPlan f xs) (\<lambda>ys. plans (y # ys)))"

fun firstSome :: "('a \<Rightarrow> 'b option) \<Rightarrow> 'a list \<Rightarrow> 'b option" where
  "firstSome f [] = None"
| "firstSome f (x # xs) = (case f x of Some y \<Rightarrow> Some y | None \<Rightarrow> firstSome f xs)"

section \<open>Copies of attributes\<close>

fun cloneType :: "type_ref \<Rightarrow> type_ref" where
  "cloneType (Type Loc Name Generics Life) = Type Loc Name (map_option (map cloneType) Generics) Life"

text \<open>Matrices, expressions and models whose operands and attributes are copies already.\<close>

fun cloneMatrix :: "matrix \<Rightarrow> matrix" where
  "cloneMatrix (Matrix Loc Operations Life) = Matrix Loc Operations UnspecifiedLifetime"

definition cloneExpression :: "expression \<Rightarrow> expression" where
  "cloneExpression E = (case E of
     Expr_Constant C \<Rightarrow> Expr_Constant C
   | Expr_Type T \<Rightarrow> Expr_Type (cloneType T)
   | Expr_Tuple T \<Rightarrow> Expr_Tuple T
   | Expr_Matrix M \<Rightarrow> Expr_Matrix (cloneMatrix M)
   | _ \<Rightarrow> Expr_Constant (BooleanConstant (Span 0 0) False))"

definition cloneModel :: "model \<Rightarrow> model" where
  "cloneModel M = (case M of
     Model_Constant C \<Rightarrow> Model_Constant C
   | Model_Variable V \<Rightarrow> Model_Variable V
   | Model_Tuple T \<Rightarrow> Model_Tuple T
   | Model_Matrix M \<Rightarrow> Model_Matrix (cloneMatrix M))"

primrec cloneOperand :: "operand \<Rightarrow> operand" and cloneAttribute :: "attribute \<Rightarrow> attribute" where
  "cloneOperand (Operand Loc Expr MemberAccess) =
     Operand Loc (cloneExpression (map_expression_m cloneOperand cloneAttribute Expr)) MemberAccess"
| "cloneAttribute (Attribute Loc Name Value) =
     Attribute Loc Name (cloneModel (map_model_m cloneOperand cloneAttribute Value))"

text \<open>What this makes of the parts of an operand.\<close>

definition cloneOperands :: "operand list \<Rightarrow> operand list" where
  "cloneOperands Ops = map cloneOperand Ops"

fun cloneComponent :: "component \<Rightarrow> component" where
  "cloneComponent (Component Loc Name Value Attributes) =
     Component Loc Name (cloneOperands Value) (map cloneAttribute Attributes)"

fun cloneTuple :: "tuple \<Rightarrow> tuple" where
  "cloneTuple (Tuple Loc Components) = Tuple Loc (map cloneComponent Components)"

lemma cloneOperand_tuple: "cloneOperand (Operand Loc (Expr_Tuple T) MemberAccess) = Operand Loc (Expr_Tuple (cloneTuple T)) MemberAccess"
proof -
  have "map_component_m cloneOperand cloneAttribute C = cloneComponent C" for C by (cases C) (simp add: cloneOperands_def)
  then show ?thesis by (cases T) (simp add: cloneExpression_def)
qed

definition planAttribute :: "attribute \<Rightarrow> planned_attribute" where
  "planAttribute A = (case cloneAttribute A of Attribute Loc Name Value \<Rightarrow> PlannedAttribute Loc Name Value)"

section \<open>Items, properties and variants\<close>

definition resolveOptional :: "'s resolver \<Rightarrow> type_ref option \<Rightarrow> span \<Rightarrow> ('s, planned_type option) planning" where
  "resolveOptional R T Loc = (case T of None \<Rightarrow> plans None | Some T \<Rightarrow> thenPlan (R T Loc) (\<lambda>T. plans (Some T)))"

fun planItem :: "'s resolver \<Rightarrow> item \<Rightarrow> ('s, planned_item) planning" where
  "planItem R (Item Loc Private Name ItemType Attributes) =
     thenPlan (resolveOptional R ItemType Loc) (\<lambda>T.
       plans \<lparr>it_Loc = Loc, it_Private = Private, it_Name = Name, it_Type = T, it_Attributes = map planAttribute Attributes\<rparr>)"

fun planProperty :: "'s planner_world \<Rightarrow> 's resolver \<Rightarrow> property \<Rightarrow> ('s, planned_property) planning" where
  "planProperty W R (Property Loc Private Name PropType Initializer Attributes) =
     thenPlan (R PropType Loc) (\<lambda>T.
     thenPlan (case Initializer of None \<Rightarrow> plans None
         | Some Ops \<Rightarrow> thenPlan (planOperands W Ops) (\<lambda>Ops. plans (Some Ops))) (\<lambda>Init.
       plans (PlannedProperty Loc Private Name (encodeName Name) T Init (map planAttribute Attributes) 0)))"

fun planVariant :: "'s resolver \<Rightarrow> variant_m \<Rightarrow> int \<Rightarrow> ('s, planned_variant) planning" where
  "planVariant R (Variant Loc Name VarType Attributes) Tag =
     thenPlan (resolveOptional R VarType Loc) (\<lambda>T.
       plans \<lparr>pv_Loc = Loc, pv_Name = Name, pv_MangledName = encodeName Name, pv_Type = T,
         pv_Attributes = map planAttribute Attributes, pv_Tag = Tag\<rparr>)"

section \<open>Structures and unions\<close>

definition newStructure :: planned_structure where
  "newStructure = \<lparr>st_Loc = Span 0 0, st_Private = False, st_IsGenericPlaceholder = False, st_Name = [],
     st_MangledName = [], st_Properties = [], st_Initializers = [], st_Deinitializer = None, st_Methods = [],
     st_Operators = [], st_Size = 0, st_Alignment = 0, st_Origin = None, st_DeferredInfo = None\<rparr>"

definition newUnion :: "'s planner_world \<Rightarrow> planned_union" where
  "newUnion W = (uninitialized W)\<lparr>un_Loc := Span 0 0, un_Name := [], un_MangledName := [], un_Variants := [],
     un_Methods := [], un_Operators := [], un_Origin := None, un_DeferredInfo := None\<rparr>"

definition typeOrigin :: "span \<Rightarrow> planned_type list \<Rightarrow> instantiation_info option" where
  "typeOrigin Loc GenericArgs =
     (if GenericArgs = [] then None else Some (InstantiationInfo Loc (Span 0 0) (map getReadableName GenericArgs)))"

definition parentOf :: "string \<Rightarrow> string \<Rightarrow> planned_type list \<Rightarrow> planned_type" where
  "parentOf Name Mangled GenericArgs =
     PlannedType (Span 0 0) Name Mangled GenericArgs UnspecifiedLifetime None [] None"

text \<open>\<open>Name.rfind('.') != 0\<close> where there is a dot: the last one is not the first character.\<close>

definition fullStructureName :: "string \<Rightarrow> planned_type list \<Rightarrow> string" where
  "fullStructureName Name GenericArgs =
     (if GenericArgs = [] \<or> CHR ''.'' \<in> set (tl Name) then Name
      else Name @ ''.'' @ joined ''.'' (map (\<lambda>T. stripPackagePrefix (pt_Name T)) GenericArgs))"

text \<open>A member is planned while \<open>CurrentStructure\<close> points at what there is of the structure.\<close>

definition building :: "planned_structure \<Rightarrow> ('x planning_state, 'a) planning \<Rightarrow> ('x planning_state, 'a) planning" where
  "building Result m s = m (s\<lparr>CurrentStructure := Some (Being_Built Result)\<rparr>)"

definition registerFunction :: "planned_function \<Rightarrow> 'x planning_state \<Rightarrow> 'x planning_state" where
  "registerFunction F s = s\<lparr>InstantiatedFunctions := map_put (pf_MangledName F) F (InstantiatedFunctions s)\<rparr>"

definition registering :: "planned_function \<Rightarrow> ('x planning_state, unit) planning" where
  "registering F s = Some (Inr (), registerFunction F s)"

fun planInitializers :: "'x planning_state planner_world \<Rightarrow> planned_type \<Rightarrow> initializer_m list \<Rightarrow> planned_structure \<Rightarrow>
    ('x planning_state, planned_structure) planning" where
  "planInitializers W Parent [] Result = plans Result"
| "planInitializers W Parent (Init # Inits) Result =
     thenPlan (building Result (planInitializer W Init Parent)) (\<lambda>P.
       planInitializers W Parent Inits (Result\<lparr>st_Initializers := st_Initializers Result @ [P]\<rparr>))"

fun planStructMembers :: "'x planning_state planner_world \<Rightarrow> planned_type \<Rightarrow> concept struct_member list \<Rightarrow> planned_structure \<Rightarrow>
    ('x planning_state, planned_structure) planning" where
  "planStructMembers W Parent [] Result = plans Result"
| "planStructMembers W Parent (Member # Members) Result = (case Member of
     StructMember_Function Fn \<Rightarrow>
       thenPlan (building Result (planFunction W Fn (Some Parent))) (\<lambda>P.
       thenPlan (registering P) (\<lambda>_.
         planStructMembers W Parent Members (Result\<lparr>st_Methods := st_Methods Result @ [P]\<rparr>)))
   | StructMember_Operator Op \<Rightarrow>
       thenPlan (building Result (planOperator W Op (Some Parent))) (\<lambda>P.
         planStructMembers W Parent Members (Result\<lparr>st_Operators := st_Operators Result @ [P]\<rparr>))
   | StructMember_Concept _ \<Rightarrow> planStructMembers W Parent Members Result)"

definition deferred :: "'de \<Rightarrow> planned_type list \<Rightarrow> 'x planning_state \<Rightarrow> 'de deferred_info" where
  "deferred Original GenericArgs s = \<lparr>df_Original = Original, df_GenericArgs = GenericArgs,
     df_TypeSubstitutions = TypeSubstitutions s, df_File = PlannerFile s, df_PlannedMethods = []\<rparr>"

definition keepSubstitutions :: "'x planning_state \<Rightarrow> 'x planning_state \<Rightarrow> 'x planning_state" where
  "keepSubstitutions s t = t\<lparr>TypeSubstitutions := TypeSubstitutions s\<rparr>"

definition keepStructure :: "'x planning_state \<Rightarrow> 'x planning_state \<Rightarrow> 'x planning_state" where
  "keepStructure s t = t\<lparr>CurrentStructureName := CurrentStructureName s, CurrentStructure := CurrentStructure s\<rparr>"

text \<open>The initializers, the deinitializer and the members of a structure that is not planned lazily.\<close>

definition planStructureBody :: "'x planning_state planner_world \<Rightarrow> (module, concept) structure_m \<Rightarrow> string \<Rightarrow>
    planned_type list \<Rightarrow> planned_structure \<Rightarrow> ('x planning_state, planned_structure) planning" where
  "planStructureBody W Struct Name GenericArgs Result s =
     (case Struct of Structure Loc Private Properties Modules Uses Initializers Deinitializer Members Symbols \<Rightarrow>
      (let Parent = parentOf Name (st_MangledName Result) GenericArgs in
       afterwards (keepStructure s)
         (thenPlan (planInitializers W Parent Initializers Result) (\<lambda>Result.
          thenPlan (case Deinitializer of None \<Rightarrow> plans Result
              | Some D \<Rightarrow> thenPlan (building Result (planDeInitializer W D Parent)) (\<lambda>P.
                  plans (Result\<lparr>st_Deinitializer := Some P\<rparr>)))
            (planStructMembers W Parent Members)))
         (s\<lparr>CurrentStructureName := fullStructureName Name GenericArgs\<rparr>)))"

definition planStructure :: "'x planning_state planner_world \<Rightarrow> 'x planning_state resolver \<Rightarrow> (module, concept) structure_m \<Rightarrow>
    string \<Rightarrow> planned_type list \<Rightarrow> bool \<Rightarrow> ('x planning_state, planned_structure) planning" where
  "planStructure W R Struct Name GenericArgs lazy s =
     (case Struct of Structure Loc Private Properties Modules Uses Initializers Deinitializer Members Symbols \<Rightarrow>
      afterwards (keepSubstitutions s)
        (thenPlan (eachPlan (planProperty W R) Properties) (\<lambda>Props s.
          let Result = (computeStructLayout (layout_caches.truncate s) (newStructure\<lparr>st_Loc := Loc, st_Private := Private,
                st_Name := Name, st_MangledName := mangleStructure Name GenericArgs, st_Properties := Props\<rparr>))
              \<lparr>st_Origin := typeOrigin Loc GenericArgs\<rparr> in
          if lazy then plans (Result\<lparr>st_DeferredInfo := Some (deferred Struct GenericArgs s)\<rparr>) s
          else planStructureBody W Struct Name GenericArgs Result s)) s)"

fun planVariants :: "'s resolver \<Rightarrow> variant_m list \<Rightarrow> int \<Rightarrow> ('s, planned_variant list) planning" where
  "planVariants R [] Tag = plans []"
| "planVariants R (Var # Vars) Tag =
     thenPlan (planVariant R Var Tag) (\<lambda>V. thenPlan (planVariants R Vars (Tag + 1)) (\<lambda>Vs. plans (V # Vs)))"

fun planUnionMembers :: "'x planning_state planner_world \<Rightarrow> planned_type \<Rightarrow> concept struct_member list \<Rightarrow> planned_union \<Rightarrow>
    ('x planning_state, planned_union) planning" where
  "planUnionMembers W Parent [] Result = plans Result"
| "planUnionMembers W Parent (Member # Members) Result = (case Member of
     StructMember_Function Fn \<Rightarrow>
       thenPlan (planFunction W Fn (Some Parent)) (\<lambda>P.
       thenPlan (registering P) (\<lambda>_.
         planUnionMembers W Parent Members (Result\<lparr>un_Methods := un_Methods Result @ [P]\<rparr>)))
   | StructMember_Operator Op \<Rightarrow>
       thenPlan (planOperator W Op (Some Parent)) (\<lambda>P.
         planUnionMembers W Parent Members (Result\<lparr>un_Operators := un_Operators Result @ [P]\<rparr>))
   | StructMember_Concept _ \<Rightarrow> planUnionMembers W Parent Members Result)"

text \<open>The variants are entered into a placeholder before methods are planned, under a key
  made of the readable names of the arguments.\<close>

definition enterVariants :: "string \<Rightarrow> planned_type list \<Rightarrow> planned_variant list \<Rightarrow> 'x planning_state \<Rightarrow> 'x planning_state" where
  "enterVariants Name GenericArgs Variants s =
     (let CacheKey = Name @ concat (map (\<lambda>Arg. ''.'' @ stripPackagePrefix (pt_Name Arg)) GenericArgs) in
      if GenericArgs = [] then s
      else case map_of (InstantiatedUnions s) CacheKey of
        None \<Rightarrow> s
      | Some U \<Rightarrow> if un_Variants U = []
          then s\<lparr>InstantiatedUnions := map_put CacheKey (U\<lparr>un_Variants := Variants\<rparr>) (InstantiatedUnions s)\<rparr> else s)"

definition planUnion :: "'x planning_state planner_world \<Rightarrow> 'x planning_state resolver \<Rightarrow> (module, concept) union_m \<Rightarrow>
    string \<Rightarrow> planned_type list \<Rightarrow> bool \<Rightarrow> ('x planning_state, planned_union) planning" where
  "planUnion W R Un' Name GenericArgs lazy s =
     (case Un' of UnionDef Loc Private Variants Members Symbols \<Rightarrow>
      afterwards (keepSubstitutions s)
        (thenPlan (planVariants R Variants 0) (\<lambda>Vars s.
          let Result = computeUnionLayout (layout_caches.truncate s) ((newUnion W)\<lparr>un_Loc := Loc, un_Private := Private,
                un_Name := Name, un_MangledName := mangleStructure Name GenericArgs, un_Variants := Vars\<rparr>);
              s = enterVariants Name GenericArgs (un_Variants Result) s;
              Result = Result\<lparr>un_Origin := typeOrigin Loc GenericArgs\<rparr> in
          if lazy then plans (Result\<lparr>un_DeferredInfo := Some (deferred Un' GenericArgs s)\<rparr>) s
          else planUnionMembers W (parentOf Name (un_MangledName Result) GenericArgs) Members Result s)) s)"

section \<open>Concepts\<close>

definition put_structure :: "string \<Rightarrow> planned_structure \<Rightarrow> 'x planning_state \<Rightarrow> 'x planning_state" where
  "put_structure Key S s = s\<lparr>InstantiatedStructures := map_put Key S (InstantiatedStructures s)\<rparr>"

definition erase_structure :: "string \<Rightarrow> 'x planning_state \<Rightarrow> 'x planning_state" where
  "erase_structure Key s = s\<lparr>InstantiatedStructures := map_erase Key (InstantiatedStructures s)\<rparr>"

definition put_union :: "string \<Rightarrow> planned_union \<Rightarrow> 'x planning_state \<Rightarrow> 'x planning_state" where
  "put_union Key U s = s\<lparr>InstantiatedUnions := map_put Key U (InstantiatedUnions s)\<rparr>"

definition erase_union :: "string \<Rightarrow> 'x planning_state \<Rightarrow> 'x planning_state" where
  "erase_union Key s = s\<lparr>InstantiatedUnions := map_erase Key (InstantiatedUnions s)\<rparr>"

definition planStructureConcept :: "'x planning_state planner_world \<Rightarrow> 'x planning_state resolver \<Rightarrow> string \<Rightarrow>
    (module, concept) structure_m \<Rightarrow> ('x planning_state, planned_definition) planning" where
  "planStructureConcept W R Name Def s = (case map_of (InstantiatedStructures s) Name of
     Some Existing \<Rightarrow> plans (PDef_Structure Existing) s
   | None \<Rightarrow>
      thenPlan (onError (erase_structure Name) (planStructure W R Def Name [] False)) (\<lambda>Planned s.
        plans (PDef_Structure Planned) (put_structure Name Planned s))
      (put_structure Name (newStructure\<lparr>st_Name := Name, st_MangledName := encodeName Name\<rparr>) s))"

definition planUnionConcept :: "'x planning_state planner_world \<Rightarrow> 'x planning_state resolver \<Rightarrow> string \<Rightarrow>
    (module, concept) union_m \<Rightarrow> ('x planning_state, planned_definition) planning" where
  "planUnionConcept W R Name Def s =
     (let UnionKey = (if CurrentNamespaceName s = [] then Name else CurrentNamespaceName s @ ''::'' @ Name);
          plan = thenPlan (onError (erase_union UnionKey) (planUnion W R Def Name [] False)) (\<lambda>Planned s.
            let s = put_union UnionKey Planned s in
            plans (PDef_Union Planned) (if CurrentNamespaceName s = [] then put_union Name Planned s else s))
          (put_union UnionKey ((newUnion W)\<lparr>un_Name := Name, un_MangledName := encodeName Name\<rparr>) s) in
      case map_of (InstantiatedUnions s) UnionKey of
        Some Existing \<Rightarrow> if un_Variants Existing \<noteq> [] then plans (PDef_Union Existing) s else plan
      | None \<Rightarrow> plan)"

definition newGlobal :: "span \<Rightarrow> string \<Rightarrow> planned_global" where
  "newGlobal Loc Name = \<lparr>pg_Loc = Loc, pg_Name = Name, pg_MangledName = encodeName Name, pg_Type = emptyType,
     pg_Value = [], pg_Mutable = False\<rparr>"

definition planDefinition :: "'x planning_state planner_world \<Rightarrow> 'x planning_state resolver \<Rightarrow> span \<Rightarrow> string \<Rightarrow>
    (module, concept) definition_m \<Rightarrow> ('x planning_state, planned_definition) planning" where
  "planDefinition W R Loc Name Def = (case Def of
     Definition_Structure Def \<Rightarrow> planStructureConcept W R Name Def
   | Definition_Union Def \<Rightarrow> planUnionConcept W R Name Def
   | Definition_Namespace Def \<Rightarrow> thenPlan (planNamespace W Def Name) (\<lambda>N. plans (PDef_Namespace N))
   | Definition_Type T \<Rightarrow> thenPlan (R T Loc) (\<lambda>T. plans (PDef_Type T))
   | Definition_Global (Global GLoc GlobalType Value) \<Rightarrow>
       thenPlan (R GlobalType GLoc) (\<lambda>T.
       thenPlan (eachPlan (planOperand W) Value) (\<lambda>Value.
         plans (PDef_Global ((newGlobal Loc Name)\<lparr>pg_Type := T, pg_Value := Value\<rparr>))))
   | Definition_Intrinsic _ \<Rightarrow> plans (PDef_Global (newGlobal Loc Name)))"

definition cacheGlobal :: "string \<Rightarrow> planned_definition \<Rightarrow> 'x planning_state \<Rightarrow> 'x planning_state" where
  "cacheGlobal Name Def s = (case Def of
     PDef_Global G \<Rightarrow> s\<lparr>PlannedGlobals := map_put Name G (PlannedGlobals s)\<rparr>
   | _ \<Rightarrow> s)"

text \<open>The mangled name of a generic concept is read from the placeholder after that was moved away.\<close>

definition planConcept :: "'x planning_state planner_world \<Rightarrow> 'x planning_state resolver \<Rightarrow> concept \<Rightarrow>
    ('x planning_state, planned_concept) planning" where
  "planConcept W R Conc s = (case Conc of Concept Loc Name Parameters Attributes Def \<Rightarrow>
     (let s = s\<lparr>Concepts := map_put Name Conc (Concepts s)\<rparr> in
      if Parameters \<noteq> [] then
        plans (PlannedConcept Loc Name (movedString W) []
          (PDef_Structure (newStructure\<lparr>st_Loc := Loc, st_Name := Name, st_MangledName := encodeName Name,
             st_IsGenericPlaceholder := True\<rparr>)) None) s
      else thenPlan (planDefinition W R Loc Name Def) (\<lambda>D s.
        plans (PlannedConcept Loc Name (mangleStructure Name []) (map planAttribute Attributes) D None)
          (cacheGlobal Name D s)) s))"

section \<open>Instances of generic concepts\<close>

fun parameterName :: "generic_parameter \<Rightarrow> string" where
  "parameterName (GenericParameter Loc Name Attributes) = Name"

definition substitute :: "generic_parameter list \<Rightarrow> planned_type list \<Rightarrow> 'x planning_state \<Rightarrow> 'x planning_state" where
  "substitute Parameters Args s = s\<lparr>TypeSubstitutions :=
     foldl (\<lambda>m (Name, Arg). map_put Name Arg m) (TypeSubstitutions s) (zip (map parameterName Parameters) Args)\<rparr>"

text \<open>The scopes of the caller are put away while an instance is planned.\<close>

definition withoutScopes :: "'x planning_state \<Rightarrow> 'x planning_state" where
  "withoutScopes s = s\<lparr>LocalScopes := []\<rparr>"

definition keepContext :: "'x planning_state \<Rightarrow> 'x planning_state \<Rightarrow> 'x planning_state" where
  "keepContext s t = t\<lparr>TypeSubstitutions := TypeSubstitutions s, LocalScopes := LocalScopes s\<rparr>"

text \<open>The type that stands for an instance, and the planning of one that is not in the caches.\<close>

definition instanceType :: "span \<Rightarrow> string \<Rightarrow> planned_type list \<Rightarrow> instantiation_info option \<Rightarrow> planned_type" where
  "instanceType Loc Name Args Origin =
     PlannedType Loc Name (mangleStructure Name Args) Args UnspecifiedLifetime Origin [] None"

definition planInstance :: "'x planning_state planner_world \<Rightarrow> 'x planning_state resolver \<Rightarrow> (module, concept) definition_m \<Rightarrow>
    string \<Rightarrow> planned_type list \<Rightarrow> span \<Rightarrow> instantiation_info option \<Rightarrow> ('x planning_state, planned_type) planning" where
  "planInstance W R Def Name Args InstantiationLoc Origin s =
     (let CacheKey = mangleStructure Name Args in
      case Def of
        Definition_Structure Struct \<Rightarrow>
          thenPlan (onError (erase_structure CacheKey) (planStructure W R Struct Name Args True)) (\<lambda>Planned s.
            plans (instanceType InstantiationLoc Name Args Origin) (put_structure CacheKey (Planned\<lparr>st_Origin := Origin\<rparr>) s))
          (put_structure CacheKey (newStructure\<lparr>st_Name := Name, st_MangledName := CacheKey\<rparr>) s)
      | Definition_Union Un' \<Rightarrow>
          thenPlan (onError (erase_union CacheKey) (planUnion W R Un' Name Args True)) (\<lambda>Planned s.
            plans (instanceType InstantiationLoc Name Args Origin) (put_union CacheKey (Planned\<lparr>un_Origin := Origin\<rparr>) s))
          (put_union CacheKey ((newUnion W)\<lparr>un_Name := Name, un_MangledName := CacheKey\<rparr>) s)
      | Definition_Type T \<Rightarrow> R T InstantiationLoc s
      | _ \<Rightarrow> planFails (PlannerNotImplementedError (PlannerFile s) InstantiationLoc
          ''generic instantiation for this definition kind'') s)"

definition inCaches :: "string \<Rightarrow> 'x planning_state \<Rightarrow> bool" where
  "inCaches Key s \<longleftrightarrow> map_of (InstantiatedStructures s) Key \<noteq> None \<or> map_of (InstantiatedUnions s) Key \<noteq> None"

definition instantiateGeneric :: "'x planning_state planner_world \<Rightarrow> 'x planning_state resolver \<Rightarrow> concept \<Rightarrow>
    planned_type list \<Rightarrow> span \<Rightarrow> ('x planning_state, planned_type) planning" where
  "instantiateGeneric W R Generic Args InstantiationLoc s =
     (case Generic of Concept Loc Name Parameters Attributes Def \<Rightarrow>
      if length Args \<noteq> length Parameters
      then planFails (GenericArityError (PlannerFile s) InstantiationLoc Name (length Parameters) (length Args)) s
      else if inCaches (mangleStructure Name Args) s then plans (instanceType InstantiationLoc Name Args None) s
      else afterwards (keepContext s)
        (planInstance W R Def Name Args InstantiationLoc (Some (InstantiationInfo Loc InstantiationLoc (map pt_Name Args))))
        (withoutScopes (substitute Parameters Args s)))"

section \<open>resolveType\<close>

text \<open>\<open>std::stoull\<close>: white space, a sign, and digits in front; an exception when there are none
  or the number does not fit.\<close>

definition stoull_succeeds :: "string \<Rightarrow> bool" where
  "stoull_succeeds s =
     (let s = dropWhile (\<lambda>C. C \<in> {CHR '' '', CHR 0x09, CHR 0x0A, CHR 0x0B, CHR 0x0C, CHR 0x0D}) s;
          s = (case s of C # Rest \<Rightarrow> if C \<in> {CHR ''+'', CHR ''-''} then Rest else s | [] \<Rightarrow> []);
          Digits = takeWhile decimal_digit s in
      Digits \<noteq> [] \<and> read_decimal Digits < 2 ^ 64)"

definition signed_string :: "64 word \<Rightarrow> string" where
  "signed_string Value =
     (if sint Value < 0 then CHR ''-'' # to_string (nat (- sint Value)) else to_string (nat (sint Value)))"

definition arraySize :: "'x planning_state \<Rightarrow> string \<Rightarrow> string" where
  "arraySize s SizeName =
     (if stoull_succeeds SizeName then SizeName
      else case map_of (PlannedGlobals s) SizeName of
        None \<Rightarrow> SizeName
      | Some Global' \<Rightarrow> (case pg_Value Global' of
          [] \<Rightarrow> SizeName
        | ValueOp # _ \<Rightarrow> (case po_Expr ValueOp of
            PExpr_Constant (IntegerConstant _ Value) \<Rightarrow> signed_string Value
          | _ \<Rightarrow> SizeName)))"

definition isPrimitiveName :: "string \<Rightarrow> bool" where
  "isPrimitiveName Name \<longleftrightarrow> Name \<in> set [''char'', ''int'', ''bool'', ''size_t'', ''float'', ''double'',
     ''i8'', ''i16'', ''i32'', ''i64'', ''u8'', ''u16'', ''u32'', ''u64'']"

definition arrayType :: "'x planning_state \<Rightarrow> span \<Rightarrow> string \<Rightarrow> lifetime \<Rightarrow> string \<Rightarrow> planned_type" where
  "arrayType s Loc Name Life SizeName =
     (let Mangled = mangleType (PlannedType Loc Name [] [] UnspecifiedLifetime None [] None) in
      PlannedType Loc ''pointer'' (''P'' @ Mangled)
        [PlannedType Loc Name Mangled [] UnspecifiedLifetime None [] None] Life None (arraySize s SizeName) None)"

fun moduleName :: "module \<Rightarrow> string" where
  "moduleName (Module Private FileName Name Modules Uses Members Symbols) = Name"

fun conceptMember :: "string \<Rightarrow> member \<Rightarrow> concept option" where
  "conceptMember Name (ModuleMember_Concept (Concept Loc N Parameters Attributes Def)) =
     (if N = Name then Some (Concept Loc N Parameters Attributes Def) else None)"
| "conceptMember Name _ = None"

definition conceptNamed :: "string \<Rightarrow> module \<Rightarrow> concept option" where
  "conceptNamed Name Mod = firstSome (conceptMember Name) (membersOf Mod)"

fun nestedModule :: "string list \<Rightarrow> module \<Rightarrow> module option" where
  "nestedModule [] Mod = Some Mod"
| "nestedModule (N # Ns) Mod = (case find (\<lambda>M. moduleName M = N) (subModules Mod) of
     None \<Rightarrow> None
   | Some M \<Rightarrow> nestedModule Ns M)"

text \<open>The concept at the end of a path that begins with a module on the stack's modules.\<close>

definition qualifiedConcept :: "module list \<Rightarrow> string list \<Rightarrow> concept option" where
  "qualifiedConcept Stack Path =
     (if length Path > 1 then
        firstSome (\<lambda>Mod. firstSome (\<lambda>SubMod.
            if moduleName SubMod = hd Path
            then Option.bind (nestedModule (butlast (tl Path)) SubMod) (conceptNamed (last Path)) else None)
          (subModules Mod)) (rev Stack)
      else None)"

definition findConcept :: "'x planning_state planner_world \<Rightarrow> string list \<Rightarrow> ('x planning_state, concept option) planning" where
  "findConcept W Path = thenPlan (lookupConcept W (joined ''.'' Path)) (\<lambda>Found s.
     plans (case Found of Some Conc \<Rightarrow> Some Conc | None \<Rightarrow> qualifiedConcept (ModuleStack s) Path) s)"

text \<open>A concept without parameters is planned unless it is in the cache, and entered under its qualified name too.\<close>

definition alsoStructure :: "string \<Rightarrow> string \<Rightarrow> 'x planning_state \<Rightarrow> 'x planning_state" where
  "alsoStructure Name ConcName s = (case map_of (InstantiatedStructures s) ConcName of
     Some S \<Rightarrow> if Name \<noteq> ConcName \<and> map_of (InstantiatedStructures s) Name = None then put_structure Name S s else s
   | None \<Rightarrow> s)"

definition alsoUnion :: "string \<Rightarrow> string \<Rightarrow> 'x planning_state \<Rightarrow> 'x planning_state" where
  "alsoUnion Name ConcName s = (case map_of (InstantiatedUnions s) ConcName of
     Some U \<Rightarrow> if Name \<noteq> ConcName \<and> map_of (InstantiatedUnions s) Name = None then put_union Name U s else s
   | None \<Rightarrow> s)"

definition whenMissing :: "bool \<Rightarrow> ('s, unit) planning \<Rightarrow> ('s, unit) planning" where
  "whenMissing missing m = (if missing then m else plans ())"

definition inferredArguments :: "string \<Rightarrow> nat \<Rightarrow> planned_type list \<Rightarrow> planned_type option \<Rightarrow> planned_type list option" where
  "inferredArguments Name Arity Args Expected =
     (if Args \<noteq> [] then Some Args
      else case Expected of
        Some E \<Rightarrow> if pt_Name E = Name \<and> pt_Generics E \<noteq> [] \<and> length (pt_Generics E) = Arity then Some (pt_Generics E) else None
      | None \<Rightarrow> None)"

text \<open>What becomes of the name of a type whose arguments are resolved.\<close>

definition resolveNamed :: "'x planning_state planner_world \<Rightarrow> 'x planning_state resolver \<Rightarrow> span \<Rightarrow> string list \<Rightarrow>
    lifetime \<Rightarrow> planned_type list \<Rightarrow> span \<Rightarrow> ('x planning_state, planned_type) planning" where
  "resolveNamed W R Loc Path Life Args InstantiationLoc s =
     (let Name = joined ''.'' Path;
          Result = (\<lambda>Mangled. PlannedType Loc Name Mangled Args Life None [] None) in
      if Name = ''pointer'' \<and> length Args = 1 then plans (Result (''P'' @ pt_MangledName (hd Args))) s
      else if Name = ''pointer'' \<and> Args = [] then planFails (GenericArityError (PlannerFile s) Loc Name 1 0) s
      else if Name = ''ref'' \<and> length Args = 1 then plans (Result (''R'' @ pt_MangledName (hd Args))) s
      else if Name = ''ref'' \<and> Args = [] then planFails (GenericArityError (PlannerFile s) Loc Name 1 0) s
      else if isPrimitiveName Name \<and> Args \<noteq> [] then plans (arrayType s Loc Name Life (pt_Name (hd Args))) s
      else thenPlan (findConcept W Path) (\<lambda>Found.
        let otherwise = plans (Result (if Args = [] then mangleType (Result []) else mangleStructure Name Args)) in
        case Found of
          None \<Rightarrow> otherwise
        | Some Conc \<Rightarrow> (case Conc of Concept CLoc ConcName Parameters Attributes Def \<Rightarrow>
            if Parameters \<noteq> [] then (\<lambda>s.
              case inferredArguments Name (length Parameters) Args (ExpectedTypeContext s) of
                Some Args \<Rightarrow> instantiateGeneric W R Conc Args InstantiationLoc s
              | None \<Rightarrow> planFails (GenericArityError (PlannerFile s) Loc Name (length Parameters) 0) s)
            else case Def of
              Definition_Structure _ \<Rightarrow> (\<lambda>s.
                thenPlan (whenMissing (map_of (InstantiatedStructures s) ConcName = None) (ignoringErrors (planConcept W R Conc)))
                  (\<lambda>_ s. plans (Result (encodeName Name)) (alsoStructure Name ConcName s)) s)
            | Definition_Union _ \<Rightarrow> (\<lambda>s.
                thenPlan (whenMissing (map_of (InstantiatedUnions s) ConcName = None) (ignoringErrors (planConcept W R Conc)))
                  (\<lambda>_ s. plans (Result (encodeName Name)) (alsoUnion Name ConcName s)) s)
            | _ \<Rightarrow> otherwise)) s)"

fun set_Loc :: "span \<Rightarrow> planned_type \<Rightarrow> planned_type" where
  "set_Loc Loc (PlannedType _ Name Mangled Generics Life Origin ArraySize Variable) =
     PlannedType Loc Name Mangled Generics Life Origin ArraySize Variable"

text \<open>\<open>resolveType\<close>, with its recursive calls as \<open>R\<close>.\<close>

fun resolveType_step :: "'x planning_state planner_world \<Rightarrow> 'x planning_state resolver \<Rightarrow> 'x planning_state resolver" where
  "resolveType_step W R (Type Loc Path Generics Life) InstantiationLoc s =
     (case map_of (TypeSubstitutions s) (joined ''.'' Path) of
        Some T \<Rightarrow> plans (set_Loc Loc T) s
      | None \<Rightarrow>
         thenPlan (eachPlan (\<lambda>Arg. R Arg InstantiationLoc) (case Generics of None \<Rightarrow> [] | Some Gs \<Rightarrow> Gs))
           (\<lambda>Args. resolveNamed W R Loc Path Life Args InstantiationLoc) s)"

fun resolveTypeUpTo :: "'x planning_state planner_world \<Rightarrow> nat \<Rightarrow> 'x planning_state resolver" where
  "resolveTypeUpTo W 0 T Loc s = None"
| "resolveTypeUpTo W (Suc fuel) T Loc s = resolveType_step W (resolveTypeUpTo W fuel) T Loc s"

end
