(* ===== verification/Planner_Lookup.thy ===== *)
theory Planner_Lookup
  imports Planner_Generics Modeler_Modules
begin

text \<open>
  How the planner of retired/scalyc0/Planner.cpp finds what a name stands for: concepts and functions in the
  modules it is in, in those a \<open>use\<close> names, in other programs and in packages, and the reading of the files
  of modules and packages that were not read before, by the parser and the modeler.

  A module is known by its contents: where the code compares pointers to modules, to enter each only once,
  modules with the same contents count as one, which makes no difference to what is found in them. The
  argument \<open>n\<close> is the fuel of the modeler, \<open>F\<close> its world.
\<close>

section \<open>State\<close>

record lookup_state = generics_state +
  Functions :: "(string \<times> function_m list) list"
  SiblingPrograms :: "program list"
  LoadedPackages :: "(string \<times> module) list"
  OnDemandPackages :: "program list"
  LoadedModulePaths :: "(string \<times> module option) list"
  AccessedPackageModules :: "module list"
  CurrentNamespaceModules :: "module list"
  CurrentNamespace :: "(module, concept) namespace_m option"
  RuntimeFunctionsRegistered :: bool
  BuiltinFunctions :: "function_m list"

type_synonym 'x lookup = "'x lookup_state_scheme"
type_synonym ('s, 'a) search = "('s, 'a option) planning"

text \<open>A search that goes on when one place has nothing, and a search through many places.\<close>

definition orSearch :: "('s, 'a) search \<Rightarrow> ('s, 'a) search \<Rightarrow> ('s, 'a) search" where
  "orSearch m k = thenPlan m (\<lambda>Found. case Found of Some x \<Rightarrow> plans (Some x) | None \<Rightarrow> k)"

fun searchEach :: "('a \<Rightarrow> ('s, 'b) search) \<Rightarrow> 'a list \<Rightarrow> ('s, 'b) search" where
  "searchEach f [] = plans None"
| "searchEach f (x # xs) = orSearch (f x) (searchEach f xs)"

definition changing :: "('s \<Rightarrow> 's) \<Rightarrow> ('s, unit) planning" where
  "changing f s = Some (Inr (), f s)"

section \<open>Reading modules and packages\<close>

definition addSiblingProgram :: "program \<Rightarrow> 'x lookup \<Rightarrow> 'x lookup" where
  "addSiblingProgram Prog s = s\<lparr>SiblingPrograms := SiblingPrograms s @ [Prog]\<rparr>"

text \<open>A new modeler for a file, with the search paths of the planner.\<close>

definition modelerFor :: "world \<Rightarrow> string \<Rightarrow> world" where
  "modelerFor F Path = F\<lparr>handlers := (handlers F)\<lparr>File := Path\<rparr>, EnablePrelude := True\<rparr>"

fun mainModule :: "program \<Rightarrow> module" where
  "mainModule (Program Packages Main Statements) = Main"

text \<open>The program in a file, or \<open>None\<close> when it cannot be read, parsed to its end or modelled.\<close>

definition readProgram :: "nat \<Rightarrow> world \<Rightarrow> string \<Rightarrow> ('x lookup, program) search" where
  "readProgram n F Path s = (case getFile F Path of
     None \<Rightarrow> plans None s
   | Some Text \<Rightarrow> (case parseAll parseProgram [] Path Text of
       Inl Message \<Rightarrow> plans None s
     | Inr Syntax \<Rightarrow> (case buildProgram n (modelerFor F Path) Syntax newModelerState of
         None \<Rightarrow> None
       | Some (Inl e, m) \<Rightarrow> plans None s
       | Some (Inr Prog, m) \<Rightarrow> plans (Some Prog) (s\<lparr>OnDemandPackages := OnDemandPackages s @ [Prog]\<rparr>))))"

definition onDemandPaths :: "world \<Rightarrow> string \<Rightarrow> string list" where
  "onDemandPaths F FileName =
     (let LocalPath = remove_filename F FileName in
      ''packages'' # path_append F LocalPath ''packages'' # walkUp F 10 LocalPath @ PackageSearchPaths F)"

fun tryPackage :: "nat \<Rightarrow> world \<Rightarrow> string \<Rightarrow> string \<Rightarrow> ('x lookup, module) search" where
  "tryPackage n F PackageName Base =
     (let PkgPath = packagePath F PackageName \<lparr>Major = 0, Minor = 1, Patch = 0\<rparr> Base in
      if file_exists F PkgPath
      then thenPlan (readProgram n F PkgPath) (\<lambda>Prog. case Prog of
          None \<Rightarrow> plans None
        | Some Prog \<Rightarrow> thenPlan (changing (\<lambda>s. s\<lparr>LoadedPackages := map_put PackageName (mainModule Prog) (LoadedPackages s)\<rparr>))
            (\<lambda>_. plans (Some (mainModule Prog))))
      else plans None)"

definition loadPackageOnDemand :: "nat \<Rightarrow> world \<Rightarrow> string \<Rightarrow> ('x lookup, module) search" where
  "loadPackageOnDemand n F PackageName s = (case map_of (LoadedPackages s) PackageName of
     Some Root \<Rightarrow> plans (Some Root) s
   | None \<Rightarrow> searchEach (tryPackage n F PackageName) (onDemandPaths F (PlannerFile s)) s)"

definition cacheModule :: "string \<Rightarrow> module option \<Rightarrow> ('x lookup, unit) planning" where
  "cacheModule PathKey Mod = changing (\<lambda>s. s\<lparr>LoadedModulePaths := map_put PathKey Mod (LoadedModulePaths s)\<rparr>)"

definition loadIntraPackageModule :: "nat \<Rightarrow> world \<Rightarrow> string \<Rightarrow> string \<Rightarrow> ('x lookup, module) search" where
  "loadIntraPackageModule n F BasePath ModuleName s =
     (let ModulePath = path_append F BasePath (ModuleName @ ''.scaly'') in
      case map_of (LoadedModulePaths s) ModulePath of
        Some Cached \<Rightarrow> plans Cached s
      | None \<Rightarrow>
          thenPlan (cacheModule ModulePath None) (\<lambda>_.
          if file_exists F ModulePath
          then thenPlan (readProgram n F ModulePath) (\<lambda>Prog. case Prog of
              None \<Rightarrow> plans None
            | Some Prog \<Rightarrow> thenPlan (cacheModule ModulePath (Some (mainModule Prog))) (\<lambda>_. plans (Some (mainModule Prog))))
          else plans None) s)"

section \<open>The functions of the C runtime\<close>

definition externFunction :: "string \<Rightarrow> item list \<Rightarrow> type_ref option \<Rightarrow> function_m" where
  "externFunction Name Input Returns = \<lparr>fn_Loc = Span 0 0, fn_Private = False, fn_Pure = False, fn_Name = Name,
     fn_Parameters = [], fn_PageParameter = None, fn_Input = Input, fn_Returns = Returns, fn_Throws = None,
     fn_Life = UnspecifiedLifetime, fn_Impl = Impl_Extern (Span 0 0)\<rparr>"

definition plainType :: "string \<Rightarrow> type_ref list option \<Rightarrow> type_ref" where
  "plainType Name Generics = Type (Span 0 0) [Name] Generics UnspecifiedLifetime"

text \<open>The position of such a parameter and whether it is private are not initialized: they are those of \<open>blank\<close>.\<close>

fun parameter :: "item \<Rightarrow> string \<Rightarrow> type_ref \<Rightarrow> item" where
  "parameter (Item Loc Private _ _ _) Name T = Item Loc Private (Some Name) (Some T) []"

definition runtimeFunctions :: "item \<Rightarrow> function_m list" where
  "runtimeFunctions blank =
     (let pointerToVoid = plainType ''pointer'' (Some [plainType ''void'' None]) in
      [externFunction ''aligned_alloc''
         [parameter blank ''alignment'' (plainType ''size_t'' None), parameter blank ''size'' (plainType ''size_t'' None)]
         (Some pointerToVoid),
       externFunction ''free'' [parameter blank ''ptr'' pointerToVoid] None,
       externFunction ''exit'' [parameter blank ''code'' (plainType ''int'' None)] None])"

definition addFunction :: "function_m \<Rightarrow> 'x lookup \<Rightarrow> 'x lookup" where
  "addFunction Fn s = s\<lparr>
     Functions := map_put (fn_Name Fn) ((case map_of (Functions s) (fn_Name Fn) of None \<Rightarrow> [] | Some Fns \<Rightarrow> Fns) @ [Fn]) (Functions s),
     BuiltinFunctions := BuiltinFunctions s @ [Fn]\<rparr>"

definition registerRuntimeFunctions :: "item \<Rightarrow> 'x lookup \<Rightarrow> 'x lookup" where
  "registerRuntimeFunctions blank s =
     (if RuntimeFunctionsRegistered s then s
      else foldl (\<lambda>s Fn. addFunction Fn s) (s\<lparr>RuntimeFunctionsRegistered := True\<rparr>) (runtimeFunctions blank))"

section \<open>Where concepts are found\<close>

fun moduleFileName :: "module \<Rightarrow> string" where
  "moduleFileName (Module Private FileName Name Modules Uses Members Symbols) = FileName"

fun modulePrivate :: "module \<Rightarrow> bool" where
  "modulePrivate (Module Private FileName Name Modules Uses Members Symbols) = Private"

fun usesOf :: "module \<Rightarrow> use_m list" where
  "usesOf (Module Private FileName Name Modules Uses Members Symbols) = Uses"

fun conceptName :: "concept \<Rightarrow> string" where
  "conceptName (Concept Loc Name Parameters Attributes Def) = Name"

fun namespaceOf :: "concept \<Rightarrow> (module, concept) namespace_m option" where
  "namespaceOf (Concept Loc Name Parameters Attributes (Definition_Namespace NS)) = Some NS"
| "namespaceOf _ = None"

fun namespaceModules :: "(module, concept) namespace_m \<Rightarrow> module list" where
  "namespaceModules (Namespace Loc Modules Members Symbols) = Modules"

fun namespaceMembers :: "(module, concept) namespace_m \<Rightarrow> concept struct_member list" where
  "namespaceMembers (Namespace Loc Modules Members Symbols) = Members"

text \<open>The concept of a module's own name, and the modules in a definition.\<close>

definition namesake :: "string \<Rightarrow> module \<Rightarrow> concept option" where
  "namesake Name Mod = (if moduleName Mod = Name then conceptNamed Name Mod else None)"

fun definitionModules :: "concept \<Rightarrow> module list" where
  "definitionModules (Concept Loc Name Parameters Attributes (Definition_Structure
     (Structure SLoc Private Properties Modules Uses Initializers Deinitializer Members Symbols))) = Modules"
| "definitionModules (Concept Loc Name Parameters Attributes (Definition_Namespace NS)) = namespaceModules NS"
| "definitionModules _ = []"

fun withConcept :: "(concept \<Rightarrow> 'a option) \<Rightarrow> member \<Rightarrow> 'a option" where
  "withConcept f (ModuleMember_Concept Conc) = f Conc"
| "withConcept f _ = None"

definition orElse :: "'a option \<Rightarrow> 'a option \<Rightarrow> 'a option" where
  "orElse a b = (case a of None \<Rightarrow> b | Some x \<Rightarrow> Some x)"

text \<open>In a module that was used before: its concepts and, in a module of a name in
  its namespaces or itself, the concept of that name.\<close>

definition accessedConcept :: "string \<Rightarrow> module \<Rightarrow> concept option" where
  "accessedConcept Name Mod = orElse
     (firstSome (withConcept (\<lambda>Conc. if conceptName Conc = Name then Some Conc
        else Option.bind (namespaceOf Conc) (\<lambda>NS. firstSome (namesake Name) (namespaceModules NS)))) (membersOf Mod))
     (firstSome (namesake Name) (subModules Mod))"

text \<open>In a module on the stack: its concepts, any concept of a module in its definitions, and in a
  module in it the one of that name, or any one if the module is not private.\<close>

definition stackConcept :: "string \<Rightarrow> module \<Rightarrow> concept option" where
  "stackConcept Name Mod = orElse
     (firstSome (withConcept (\<lambda>Conc. if conceptName Conc = Name then Some Conc
        else firstSome (conceptNamed Name) (definitionModules Conc))) (membersOf Mod))
     (firstSome (\<lambda>SubMod. orElse (namesake Name SubMod)
        (if modulePrivate SubMod then None else conceptNamed Name SubMod)) (subModules Mod))"

definition siblingConcept :: "string \<Rightarrow> program \<Rightarrow> concept option" where
  "siblingConcept Name Sibling = orElse (conceptNamed Name (mainModule Sibling))
     (firstSome (conceptNamed Name) (subModules (mainModule Sibling)))"

definition conceptOrNamesake :: "string \<Rightarrow> module \<Rightarrow> concept option" where
  "conceptOrNamesake Name Mod = orElse (conceptNamed Name Mod) (firstSome (namesake Name) (subModules Mod))"

section \<open>Following the path of a use\<close>

text \<open>A module without members may stand for a file that was not read.\<close>

definition unstubbed :: "nat \<Rightarrow> world \<Rightarrow> string \<Rightarrow> string \<Rightarrow> module \<Rightarrow> ('x lookup, module) planning" where
  "unstubbed n F FileName Folder SubMod =
     (if membersOf SubMod = [] then
        thenPlan (loadIntraPackageModule n F (path_append F (remove_filename F FileName) Folder) (moduleName SubMod))
          (\<lambda>Loaded. plans (case Loaded of None \<Rightarrow> SubMod | Some Loaded \<Rightarrow> Loaded))
      else plans SubMod)"

text \<open>Through a namespace in a module of the stack: \<open>CurrentNS\<close> and \<open>CurrentMod\<close> at the
  elements of the path between first and last; \<open>None\<close> when one is not found.\<close>

fun namespacePath :: "nat \<Rightarrow> world \<Rightarrow> string \<Rightarrow> string \<Rightarrow> string list \<Rightarrow>
    (module, concept) namespace_m option \<Rightarrow> module option \<Rightarrow> ('x lookup, module) search" where
  "namespacePath n F ParentFile Head [] CurrentNS CurrentMod = plans CurrentMod"
| "namespacePath n F ParentFile Head (Elem # Path) CurrentNS CurrentMod =
     (case Option.bind CurrentNS (\<lambda>NS. find (\<lambda>M. moduleName M = Elem) (namespaceModules NS)) of
        Some SubMod \<Rightarrow> thenPlan (unstubbed n F ParentFile Head SubMod) (\<lambda>Mod.
          namespacePath n F ParentFile Head Path None (Some Mod))
      | None \<Rightarrow> (case CurrentMod of
          None \<Rightarrow> plans None
        | Some Mod \<Rightarrow> (case find (\<lambda>M. moduleName M = Elem) (subModules Mod) of
            None \<Rightarrow> plans None
          | Some SubMod \<Rightarrow> thenPlan (if moduleFileName Mod = [] then plans SubMod
                else unstubbed n F (moduleFileName Mod) (moduleName Mod) SubMod) (\<lambda>SubMod.
              namespacePath n F ParentFile Head Path CurrentNS (Some SubMod)))))"

definition usedInStack :: "nat \<Rightarrow> world \<Rightarrow> string \<Rightarrow> string list \<Rightarrow> module \<Rightarrow> ('x lookup, concept) search" where
  "usedInStack n F Name Path ParentMod = searchEach (\<lambda>Member.
     case withConcept (\<lambda>Conc. if conceptName Conc = hd Path then Some Conc else None) Member of
       None \<Rightarrow> plans None
     | Some Conc \<Rightarrow> (case namespaceOf Conc of
         None \<Rightarrow> plans None
       | Some NS \<Rightarrow> thenPlan (namespacePath n F (moduleFileName ParentMod) (hd Path) (butlast (tl Path)) (Some NS) None)
           (\<lambda>Mod. plans (Option.bind Mod (conceptOrNamesake Name))))) (membersOf ParentMod)"

text \<open>In another program of the compilation whose main module has the first name of the path.\<close>

definition usedInSibling :: "string \<Rightarrow> string list \<Rightarrow> program \<Rightarrow> concept option" where
  "usedInSibling Name Path Sibling =
     (if length Path \<ge> 2 \<and> moduleName (mainModule Sibling) = hd Path
      then Option.bind (nestedModule (butlast (tl Path)) (mainModule Sibling)) (conceptOrNamesake Name) else None)"

text \<open>Through a package: a namespace of the package's name in its root module, then modules. A module that is found
  in \<open>CurrentMod\<close> leaves \<open>CurrentNS\<close> as it is.\<close>

definition packageNamespace :: "string \<Rightarrow> module \<Rightarrow> (module, concept) namespace_m option" where
  "packageNamespace Name Root = firstSome (withConcept (\<lambda>Conc.
     if conceptName Conc = Name then namespaceOf Conc else None)) (membersOf Root)"

fun packageModule :: "string list \<Rightarrow> (module, concept) namespace_m option \<Rightarrow> module \<Rightarrow> module option" where
  "packageModule [] CurrentNS CurrentMod = Some CurrentMod"
| "packageModule (Elem # Path) CurrentNS CurrentMod =
     (case Option.bind CurrentNS (\<lambda>NS. find (\<lambda>M. moduleName M = Elem) (namespaceModules NS)) of
        Some SubMod \<Rightarrow> packageModule Path None SubMod
      | None \<Rightarrow> (case find (\<lambda>M. moduleName M = Elem) (subModules CurrentMod) of
          None \<Rightarrow> None
        | Some SubMod \<Rightarrow> packageModule Path CurrentNS SubMod))"

definition addAccessed :: "module \<Rightarrow> 'x lookup \<Rightarrow> 'x lookup" where
  "addAccessed Mod s = s\<lparr>AccessedPackageModules := AccessedPackageModules s @ [Mod]\<rparr>"

definition noteAccessed :: "module \<Rightarrow> ('x lookup, unit) planning" where
  "noteAccessed Mod = changing (\<lambda>s. if Mod \<in> set (AccessedPackageModules s) then s else addAccessed Mod s)"

text \<open>In a module of a package: its concepts, the modules of that name in its namespaces, which
  may have to be read, and those in itself.\<close>

definition namespaceTarget :: "nat \<Rightarrow> world \<Rightarrow> string \<Rightarrow> module \<Rightarrow> string \<Rightarrow> module \<Rightarrow> ('x lookup, concept) search" where
  "namespaceTarget n F Name Mod Folder SubMod =
     (if moduleName SubMod = Name then
        thenPlan (if moduleFileName Mod = [] then plans SubMod else unstubbed n F (moduleFileName Mod) Folder SubMod) (\<lambda>Target.
        thenPlan (noteAccessed Target) (\<lambda>_. plans (conceptNamed Name Target)))
      else plans None)"

definition packageTarget :: "nat \<Rightarrow> world \<Rightarrow> string \<Rightarrow> module \<Rightarrow> ('x lookup, concept) search" where
  "packageTarget n F Name Mod =
     thenPlan (noteAccessed Mod) (\<lambda>_.
     orSearch (plans (conceptNamed Name Mod))
     (orSearch (searchEach (\<lambda>Member. case withConcept (\<lambda>Conc. map_option (\<lambda>NS. (conceptName Conc, NS)) (namespaceOf Conc)) Member of
          None \<Rightarrow> plans None
        | Some (Folder, NS) \<Rightarrow> searchEach (namespaceTarget n F Name Mod Folder) (namespaceModules NS)) (membersOf Mod))
     (searchEach (\<lambda>SubMod. if moduleName SubMod = Name
        then thenPlan (noteAccessed SubMod) (\<lambda>_. plans (conceptNamed Name SubMod)) else plans None) (subModules Mod))))"

definition usedInPackage :: "nat \<Rightarrow> world \<Rightarrow> string \<Rightarrow> string list \<Rightarrow> ('x lookup, concept) search" where
  "usedInPackage n F Name Path =
     thenPlan (loadPackageOnDemand n F (hd Path)) (\<lambda>Root. case Root of
       None \<Rightarrow> plans None
     | Some Root \<Rightarrow> (case packageModule (butlast (tl Path)) (packageNamespace (hd Path) Root) Root of
         None \<Rightarrow> plans None
       | Some Mod \<Rightarrow> packageTarget n F Name Mod))"

text \<open>What a \<open>use\<close> in a module of the stack says, when it ends with the name.\<close>

definition usedConcept :: "nat \<Rightarrow> world \<Rightarrow> string \<Rightarrow> string list \<Rightarrow> ('x lookup, concept) search" where
  "usedConcept n F Name Path =
     (if Path \<noteq> [] \<and> last Path = Name \<and> length Path \<ge> 2 then
        orSearch (\<lambda>s. searchEach (usedInStack n F Name Path) (rev (ModuleStack s)) s)
        (orSearch (\<lambda>s. plans (firstSome (usedInSibling Name Path) (SiblingPrograms s)) s)
          (usedInPackage n F Name Path))
      else plans None)"

section \<open>The lookup of a concept\<close>

definition noteConcept :: "string \<Rightarrow> concept \<Rightarrow> 'x lookup \<Rightarrow> 'x lookup" where
  "noteConcept Name Conc s = s\<lparr>Concepts := map_put Name Conc (Concepts s)\<rparr>"

text \<open>A concept that was found is entered into the cache.\<close>

definition noting :: "string \<Rightarrow> ('x lookup, concept) search \<Rightarrow> ('x lookup, concept) search" where
  "noting Name m = thenPlan m (\<lambda>Found. case Found of
     None \<Rightarrow> plans None
   | Some Conc \<Rightarrow> thenPlan (changing (noteConcept Name Conc)) (\<lambda>_. plans (Some Conc)))"

text \<open>A dotted name leads through the members of namespaces; what is no namespace ends the way.\<close>

fun throughNamespaces :: "string list \<Rightarrow> concept \<Rightarrow> concept option" where
  "throughNamespaces [] Outer = Some Outer"
| "throughNamespaces (Next # Rest) Outer = (case namespaceOf Outer of
     None \<Rightarrow> Some Outer
   | Some NS \<Rightarrow> Option.bind (firstSome (\<lambda>Member. case Member of
         StructMember_Concept Conc \<Rightarrow> if conceptName Conc = Next then Some Conc else None
       | _ \<Rightarrow> None) (namespaceMembers NS)) (throughNamespaces Rest))"

text \<open>The parts of a name between dots, except an empty one at its end.\<close>

function dotted_parts :: "string \<Rightarrow> string list" where
  "dotted_parts [] = []"
| "dotted_parts (C # s) = takeWhile (\<lambda>C. C \<noteq> CHR ''.'') (C # s) #
     dotted_parts (drop 1 (dropWhile (\<lambda>C. C \<noteq> CHR ''.'') (C # s)))"
  by pat_completeness auto
termination
proof (relation "measure length")
  fix C :: char and s :: string
  have "length (dropWhile (\<lambda>C. C \<noteq> CHR ''.'') s) \<le> length s" by (rule length_dropWhile_le)
  then show "(drop 1 (dropWhile (\<lambda>C. C \<noteq> CHR ''.'') (C # s)), C # s) \<in> measure length" by auto
qed simp

text \<open>The module that a \<open>use\<close> in the first module of the stack has behind its last name, read from the
  same directory. All its concepts are entered into the cache.\<close>

definition noteMember :: "member \<Rightarrow> 'x lookup \<Rightarrow> 'x lookup" where
  "noteMember Member s = (case withConcept Some Member of None \<Rightarrow> s | Some Conc \<Rightarrow> noteConcept (conceptName Conc) Conc s)"

definition fallbackUse :: "nat \<Rightarrow> world \<Rightarrow> string \<Rightarrow> string \<Rightarrow> string list \<Rightarrow> ('x lookup, concept) search" where
  "fallbackUse n F Name BasePath Path =
     (if Path \<noteq> [] \<and> last Path = Name \<and> length Path \<ge> 2 then
        thenPlan (loadIntraPackageModule n F BasePath (Path ! (length Path - 2))) (\<lambda>Loaded. case Loaded of
          None \<Rightarrow> plans None
        | Some Mod \<Rightarrow> thenPlan (changing (\<lambda>s. addAccessed Mod (foldl (\<lambda>s Member. noteMember Member s) s (membersOf Mod))))
            (\<lambda>_. plans (firstSome (conceptMember Name) (rev (membersOf Mod)))))
      else plans None)"

definition fallback :: "nat \<Rightarrow> world \<Rightarrow> string \<Rightarrow> ('x lookup, concept) search" where
  "fallback n F Name s = (case ModuleStack s of
     [] \<Rightarrow> plans None s
   | MainMod # _ \<Rightarrow>
       if moduleFileName MainMod = [] then plans None s
       else searchEach (\<lambda>U. fallbackUse n F Name (remove_filename F (moduleFileName MainMod)) (usePath U)) (usesOf MainMod) s)"

text \<open>The places in the order of the code, without and with the cache; \<open>R\<close> looks up what is in front of a dot.\<close>

definition dottedConcept :: "(string \<Rightarrow> ('x lookup, concept) search) \<Rightarrow> string \<Rightarrow> ('x lookup, concept) search" where
  "dottedConcept R Name =
     (if CHR ''.'' \<in> set Name then
        thenPlan (R (takeWhile (\<lambda>C. C \<noteq> CHR ''.'') Name)) (\<lambda>Outer. plans (Option.bind Outer
          (throughNamespaces (dotted_parts (drop 1 (dropWhile (\<lambda>C. C \<noteq> CHR ''.'') Name))))))
      else plans None)"

definition conceptPlaces :: "(string \<Rightarrow> ('x lookup, concept) search) \<Rightarrow> nat \<Rightarrow> world \<Rightarrow> string \<Rightarrow> ('x lookup, concept) search" where
  "conceptPlaces R n F Name =
     orSearch (dottedConcept R Name)
     (orSearch (\<lambda>s. plans (firstSome (namesake Name) (CurrentNamespaceModules s)) s)
     (orSearch (\<lambda>s. plans (firstSome (accessedConcept Name) (AccessedPackageModules s)) s)
     (orSearch (\<lambda>s. plans (firstSome (stackConcept Name) (rev (ModuleStack s))) s)
     (orSearch (\<lambda>s. searchEach (\<lambda>Mod. searchEach (\<lambda>U. usedConcept n F Name (usePath U)) (usesOf Mod)) (rev (ModuleStack s)) s)
       (\<lambda>s. plans (firstSome (siblingConcept Name) (SiblingPrograms s)) s)))))"

definition lookupConceptBy :: "(string \<Rightarrow> ('x lookup, concept) search) \<Rightarrow> nat \<Rightarrow> world \<Rightarrow> string \<Rightarrow> ('x lookup, concept) search" where
  "lookupConceptBy R n F Name s = (case map_of (Concepts s) Name of
     Some Conc \<Rightarrow> plans (Some Conc) s
   | None \<Rightarrow> orSearch (noting Name (conceptPlaces R n F Name)) (fallback n F Name) s)"

text \<open>What is in front of the first dot has no dot: the method calls itself at most once.\<close>

definition findsConcept :: "nat \<Rightarrow> world \<Rightarrow> string \<Rightarrow> ('x lookup, concept) search" where
  "findsConcept n F = lookupConceptBy (lookupConceptBy (\<lambda>_. plans None) n F) n F"

lemma undotted_lookup:
  assumes "CHR ''.'' \<notin> set Name"
  shows "lookupConceptBy Q n F Name = lookupConceptBy Q' n F Name"
proof -
  have "conceptPlaces Q n F Name = conceptPlaces Q' n F Name" using assms by (simp add: conceptPlaces_def dottedConcept_def)
  then show ?thesis unfolding lookupConceptBy_def by (simp only:)
qed

lemma findsConcept_eq: "(findsConcept n F Name :: ('x lookup, concept) search) = lookupConceptBy (findsConcept n F) n F Name"
proof -
  have front: "CHR ''.'' \<notin> set (takeWhile (\<lambda>C. C \<noteq> CHR ''.'') Name)"
    by (auto dest: set_takeWhileD)
  have "dottedConcept (lookupConceptBy (\<lambda>_. plans None) n F) Name = (dottedConcept (findsConcept n F) Name :: ('x lookup, concept) search)"
    unfolding dottedConcept_def findsConcept_def
    by (simp only: undotted_lookup [OF front, of "\<lambda>_. plans None" n F "lookupConceptBy (\<lambda>_. plans None) n F"])
  then show ?thesis
    unfolding findsConcept_def [of n F] lookupConceptBy_def [of _ n F Name] conceptPlaces_def by (simp only: findsConcept_def [symmetric])
qed

section \<open>The lookup of functions\<close>

fun functionMember :: "string \<Rightarrow> member \<Rightarrow> function_m option" where
  "functionMember Name (ModuleMember_Function Fn) = (if fn_Name Fn = Name then Some Fn else None)"
| "functionMember Name _ = None"

fun methodMember :: "string \<Rightarrow> concept struct_member \<Rightarrow> function_m option" where
  "methodMember Name (StructMember_Function Fn) = (if fn_Name Fn = Name then Some Fn else None)"
| "methodMember Name _ = None"

definition functionsNamed :: "string \<Rightarrow> module \<Rightarrow> function_m list" where
  "functionsNamed Name Mod = List.map_filter (functionMember Name) (membersOf Mod)"

fun structureMembers :: "concept \<Rightarrow> concept struct_member list" where
  "structureMembers (Concept Loc Name Parameters Attributes (Definition_Structure
     (Structure SLoc Private Properties Modules Uses Initializers Deinitializer Members Symbols))) = Members"
| "structureMembers _ = []"

text \<open>The structure the planner is in, without the arguments of a generic one.\<close>

definition baseName :: "string \<Rightarrow> string" where
  "baseName Name = takeWhile (\<lambda>C. C \<noteq> CHR ''.'') Name"

definition functionKey :: "string \<Rightarrow> string \<Rightarrow> string" where
  "functionKey Structure' Name = (if Structure' = [] then Name else Name @ ''@'' @ baseName Structure')"

definition siblingFunctions :: "string \<Rightarrow> program \<Rightarrow> function_m list" where
  "siblingFunctions Name Sibling = functionsNamed Name (mainModule Sibling) @
     concat (map (functionsNamed Name) (subModules (mainModule Sibling)))"

text \<open>Functions in the modules that the \<open>use\<close>s of one module name, and of the first module on the stack that has some.\<close>

fun usedFunctions :: "nat \<Rightarrow> world \<Rightarrow> string \<Rightarrow> string \<Rightarrow> use_m list \<Rightarrow> ('x lookup, function_m list) planning" where
  "usedFunctions n F Name BasePath [] = plans []"
| "usedFunctions n F Name BasePath (U # Us) =
     (let Path = usePath U in
      thenPlan (if Path \<noteq> [] \<and> last Path = Name \<and> length Path \<ge> 2 then
          thenPlan (loadIntraPackageModule n F BasePath (Path ! (length Path - 2))) (\<lambda>Loaded. case Loaded of
            None \<Rightarrow> plans []
          | Some Mod \<Rightarrow> thenPlan (changing (addAccessed Mod)) (\<lambda>_. plans (functionsNamed Name Mod)))
        else plans []) (\<lambda>Fns.
      thenPlan (usedFunctions n F Name BasePath Us) (\<lambda>Rest. plans (Fns @ Rest))))"

fun useFunctions :: "nat \<Rightarrow> world \<Rightarrow> string \<Rightarrow> module list \<Rightarrow> ('x lookup, function_m list) planning" where
  "useFunctions n F Name [] = plans []"
| "useFunctions n F Name (Mod # Mods) =
     (if moduleFileName Mod = [] then useFunctions n F Name Mods
      else thenPlan (usedFunctions n F Name (remove_filename F (moduleFileName Mod)) (usesOf Mod)) (\<lambda>Fns.
        if Fns \<noteq> [] then plans Fns else useFunctions n F Name Mods))"

definition methodsInside :: "nat \<Rightarrow> world \<Rightarrow> string \<Rightarrow> ('x lookup, function_m list) planning" where
  "methodsInside n F Name s =
     (if CurrentStructureName s = [] then plans [] s
      else thenPlan (findsConcept n F (baseName (CurrentStructureName s))) (\<lambda>Conc. plans (case Conc of
          None \<Rightarrow> []
        | Some Conc \<Rightarrow> List.map_filter (methodMember Name) (structureMembers Conc))) s)"

definition lookupFunction :: "nat \<Rightarrow> world \<Rightarrow> string \<Rightarrow> ('x lookup, function_m list) planning" where
  "lookupFunction n F Name s =
     (let CacheKey = functionKey (CurrentStructureName s) Name in
      case orElse (map_of (Functions s) CacheKey) (map_of (Functions s) Name) of
        Some Fns \<Rightarrow> plans Fns s
      | None \<Rightarrow>
          thenPlan (methodsInside n F Name) (\<lambda>Methods s.
            let Result = concat (map (functionsNamed Name) (rev (ModuleStack s))) @ Methods;
                Result = (if Result = [] then concat (map (siblingFunctions Name) (SiblingPrograms s)) else Result) in
            thenPlan (if Result = [] then useFunctions n F Name (rev (ModuleStack s)) else plans Result) (\<lambda>Result.
            thenPlan (changing (\<lambda>s. if Result = [] then s else s\<lparr>Functions := map_put CacheKey Result (Functions s)\<rparr>)) (\<lambda>_.
            plans Result)) s) s)"

definition isFunction :: "nat \<Rightarrow> world \<Rightarrow> string \<Rightarrow> ('x lookup, bool) planning" where
  "isFunction n F Name = thenPlan (lookupFunction n F Name) (\<lambda>Fns. plans (Fns \<noteq> []))"

definition isNamespaceSiblingFunction :: "'x lookup \<Rightarrow> string \<Rightarrow> bool" where
  "isNamespaceSiblingFunction s Name \<longleftrightarrow> CurrentNamespaceName s \<noteq> [] \<and> (case CurrentNamespace s of
     None \<Rightarrow> False
   | Some NS \<Rightarrow> \<exists>Member \<in> set (namespaceMembers NS). methodMember Name Member \<noteq> None)"

section \<open>Functions of packages\<close>

definition namespaceNamed :: "string \<Rightarrow> member \<Rightarrow> (module, concept) namespace_m option" where
  "namespaceNamed Name = withConcept (\<lambda>Conc. if conceptName Conc = Name then namespaceOf Conc else None)"

fun memberNamespace :: "string \<Rightarrow> concept struct_member \<Rightarrow> (module, concept) namespace_m option" where
  "memberNamespace Name (StructMember_Concept Conc) = (if conceptName Conc = Name then namespaceOf Conc else None)"
| "memberNamespace Name _ = None"

text \<open>One element of the path: the namespace and the module behind it.\<close>

definition packageStep :: "string \<Rightarrow> (module, concept) namespace_m option \<times> module \<Rightarrow>
    ((module, concept) namespace_m option \<times> module) option" where
  "packageStep Elem here = (case here of
     (Some NS, Mod) \<Rightarrow> (case find (\<lambda>M. moduleName M = Elem) (namespaceModules NS) of
         Some SubMod \<Rightarrow> Some (firstSome (namespaceNamed Elem) (membersOf SubMod), SubMod)
       | None \<Rightarrow> map_option (\<lambda>NS. (Some NS, Mod)) (firstSome (memberNamespace Elem) (namespaceMembers NS)))
   | (None, Mod) \<Rightarrow> (case find (\<lambda>M. moduleName M = Elem) (subModules Mod) of
         Some SubMod \<Rightarrow> Some (None, SubMod)
       | None \<Rightarrow> map_option (\<lambda>NS. (Some NS, Mod)) (firstSome (namespaceNamed Elem) (membersOf Mod))))"

fun packageWalk :: "string list \<Rightarrow> (module, concept) namespace_m option \<times> module \<Rightarrow>
    ((module, concept) namespace_m option \<times> module) option" where
  "packageWalk [] here = Some here"
| "packageWalk (Elem # Path) here = Option.bind (packageStep Elem here) (packageWalk Path)"

definition lookupPackageFunction :: "string list \<Rightarrow> 'x lookup \<Rightarrow> function_m option" where
  "lookupPackageFunction Path s =
     (if length Path < 2 then None
      else case map_of (LoadedPackages s) (hd Path) of
        None \<Rightarrow> None
      | Some Root \<Rightarrow> (case packageWalk (butlast (tl Path)) (packageNamespace (hd Path) Root, Root) of
          None \<Rightarrow> None
        | Some (Some NS, Mod) \<Rightarrow> firstSome (methodMember (last Path)) (namespaceMembers NS)
        | Some (None, Mod) \<Rightarrow> firstSome (functionMember (last Path)) (membersOf Mod)))"

end
