(* ===== verification/Planner_Routines.thy ===== *)
theory Planner_Routines
  imports Planner_Lookup
begin

text \<open>
  The planning of routines in retired/scalyc0/Planner.cpp: functions, operators, initializers and deinitializers,
  the methods of generic types that are planned when they are first called, and the instances of generic
  functions. The scopes are those of Planner_Scopes; what is planned of a body, \<open>planAction\<close>, is a field of \<open>planner_world\<close>.

  \<open>FunctionsBeingPlanned\<close> is a set of pointers to functions; functions with the same contents count as one.
\<close>

section \<open>State\<close>

record routine_state = lookup_state +
  LocalScopeInfos :: "bool list"
  CurrentFunctionUsesLocalLifetime :: bool
  FunctionsBeingPlanned :: "function_m list"

type_synonym 'x routines = "'x routine_state_scheme"

text \<open>The operations of Planner_Scopes on the scopes of the planner.\<close>

definition onScopes :: "(scopes \<Rightarrow> scopes) \<Rightarrow> 'x routines \<Rightarrow> 'x routines" where
  "onScopes f s = (let P = f \<lparr>Scopes = LocalScopes s, ScopeInfoStack = LocalScopeInfos s\<rparr> in
     s\<lparr>LocalScopes := Scopes P, LocalScopeInfos := ScopeInfoStack P\<rparr>)"

definition inScope :: "('x routines, 'a) planning \<Rightarrow> ('x routines, 'a) planning" where
  "inScope m s = afterwards (onScopes popScope) m (onScopes pushScope s)"

definition defining :: "string \<Rightarrow> planned_type \<Rightarrow> ('x routines, unit) planning" where
  "defining Name T = changing (onScopes (defineParameter Name T))"

definition pointerTo :: "planned_type \<Rightarrow> planned_type" where
  "pointerTo T = PlannedType (pt_Loc T) ''pointer'' (''P'' @ pt_MangledName T) [T] UnspecifiedLifetime None [] None"

definition pagePointer :: "span \<Rightarrow> planned_type" where
  "pagePointer Loc = PlannedType Loc ''pointer'' ''PN4scaly6memory4PageE''
     [PlannedType Loc ''scaly.memory.Page'' ''N4scaly6memory4PageE'' [] UnspecifiedLifetime None [] None] UnspecifiedLifetime None [] None"

definition definingPage :: "span \<Rightarrow> string option \<Rightarrow> ('x routines, unit) planning" where
  "definingPage Loc Page = (case Page of None \<Rightarrow> plans () | Some Name \<Rightarrow> defining Name (pagePointer Loc))"

section \<open>Parameters\<close>

definition this_without_type :: string where
  "this_without_type = CHR 0x27 # ''this'' @ CHR 0x27 # '' parameter without enclosing type''"

text \<open>A parameter enters the scope, \<open>this\<close> as a pointer.\<close>

definition enteringParameter :: "bool \<Rightarrow> planned_item \<Rightarrow> ('x routines, planned_item) planning" where
  "enteringParameter ThisIsPointer P = (case (it_Name P, it_Type P) of
     (Some Name, Some T) \<Rightarrow> thenPlan (defining Name (if ThisIsPointer \<and> Name = ''this'' then pointerTo T else T)) (\<lambda>_. plans P)
   | _ \<Rightarrow> plans P)"

definition planParameter :: "'x routines resolver \<Rightarrow> planned_type option \<Rightarrow> item \<Rightarrow> ('x routines, planned_item) planning" where
  "planParameter R Parent Param = thenPlan (planItem R Param) (\<lambda>P.
     if it_Name P = Some ''this'' \<and> it_Type P = None then (case Parent of
         None \<Rightarrow> planSays this_without_type
       | Some T \<Rightarrow> enteringParameter True (P\<lparr>it_Type := Some T\<rparr>))
     else enteringParameter True P)"

text \<open>The region of a function whose result lives where one of its arguments does.\<close>

definition regionParameter :: "lifetime \<Rightarrow> ('x routines, planned_item list) planning" where
  "regionParameter Life = (case Life of
     ReferenceLifetime Loc Location \<Rightarrow>
       (let T = PlannedType Loc ''pointer'' ''P4Page'' [PlannedType Loc ''Page'' ''4Page'' [] UnspecifiedLifetime None [] None]
              UnspecifiedLifetime None [] None in
        thenPlan (defining (CHR ''_'' # Location) T) (\<lambda>_.
        thenPlan (defining Location T) (\<lambda>_.
        plans [\<lparr>it_Loc = Loc, it_Private = False, it_Name = Some (CHR ''_'' # Location), it_Type = Some T, it_Attributes = []\<rparr>])))
   | _ \<Rightarrow> plans [])"

section \<open>Implementations\<close>

definition planImplementation :: "'s planner_world \<Rightarrow> implementation \<Rightarrow> ('s, planned_implementation) planning" where
  "planImplementation W Impl = (case Impl of
     Impl_Action A \<Rightarrow> thenPlan (planAction W A) (\<lambda>A. plans (PImpl_Action A))
   | Impl_Extern Loc \<Rightarrow> plans (PImpl_Extern Loc)
   | Impl_Instruction Loc \<Rightarrow> plans (PImpl_Instruction Loc)
   | Impl_Intrinsic Loc \<Rightarrow> plans (PImpl_Intrinsic Loc))"

definition noImplementation :: planned_implementation where
  "noImplementation = PImpl_Action (PlannedAction [] [] emptyType)"

section \<open>Functions\<close>

definition implicitPage :: "function_m \<Rightarrow> string option" where
  "implicitPage Fn = (if fn_PageParameter Fn = None \<and> needsImplicitReturnPage Fn then Some ''_rp'' else fn_PageParameter Fn)"

definition functionParameters :: "'x routines resolver \<Rightarrow> function_m \<Rightarrow> planned_type option \<Rightarrow> ('x routines, planned_item list) planning" where
  "functionParameters R Fn Parent =
     thenPlan (definingPage (fn_Loc Fn) (implicitPage Fn)) (\<lambda>_.
     thenPlan (regionParameter (fn_Life Fn)) (\<lambda>Region.
     thenPlan (eachPlan (planParameter R Parent) (fn_Input Fn)) (\<lambda>Input. plans (Region @ Input))))"

definition functionName :: "function_m \<Rightarrow> planned_item list \<Rightarrow> planned_type option \<Rightarrow> string" where
  "functionName Fn Input Parent = (case fn_Impl Fn of
     Impl_Extern _ \<Rightarrow> fn_Name Fn
   | _ \<Rightarrow> mangleFunction (fn_Name Fn) Input Parent (implicitPage Fn \<noteq> None))"

fun isLocal :: "lifetime \<Rightarrow> bool" where
  "isLocal (LocalLifetime _) = True" | "isLocal _ = False"

fun typeSpan :: "type_ref \<Rightarrow> span" where
  "typeSpan (Type Loc _ _ _) = Loc"

text \<open>A result may not be local.\<close>

definition planReturns :: "'x planning_state resolver \<Rightarrow> type_ref option \<Rightarrow> span \<Rightarrow> ('x planning_state, planned_type option) planning" where
  "planReturns R Returns Loc = (case Returns of
     None \<Rightarrow> plans None
   | Some Ref \<Rightarrow> thenPlan (R Ref Loc) (\<lambda>T s.
       if isLocal (pt_Life T) then planFails (LocalReturnError (PlannerFile s) (typeSpan Ref)) s else plans (Some T) s))"

text \<open>A result on a page of the caller needs the structure \<open>Page\<close>, which is planned unless it was.\<close>

definition plansPage :: "'x routines planner_world \<Rightarrow> 'x routines resolver \<Rightarrow> ('x routines, unit) planning" where
  "plansPage W R s = whenMissing (map_of (InstantiatedStructures s) ''Page'' = None)
     (thenPlan (changing (registerRuntimeFunctions (uninitializedItem W))) (\<lambda>_.
      thenPlan (lookupConcept W ''Page'') (\<lambda>Found. case Found of
          None \<Rightarrow> plans ()
        | Some Conc \<Rightarrow> ignoringErrors (planConcept W R Conc)))) s"

definition ensurePage :: "'x routines planner_world \<Rightarrow> 'x routines resolver \<Rightarrow> planned_type option \<Rightarrow> ('x routines, unit) planning" where
  "ensurePage W R Returns s = (case map_option pt_Life Returns of
     Some (CallLifetime _) \<Rightarrow> plansPage W R s
   | Some (ReferenceLifetime _ _) \<Rightarrow> plansPage W R s
   | _ \<Rightarrow> plans () s)"

definition newFunction :: "function_m \<Rightarrow> string \<Rightarrow> string \<Rightarrow> planned_item list \<Rightarrow> planned_type option \<Rightarrow> planned_type option \<Rightarrow> planned_function" where
  "newFunction Fn FileName Mangled Input Returns Throws = \<lparr>pf_Loc = fn_Loc Fn, pf_Private = fn_Private Fn, pf_Pure = fn_Pure Fn,
     pf_Name = fn_Name Fn, pf_MangledName = Mangled, pf_PageParameter = implicitPage Fn, pf_Input = Input, pf_Returns = Returns,
     pf_Throws = Throws, pf_Life = fn_Life Fn, pf_Impl = noImplementation, pf_Origin = None, pf_NeedsLocalPage = False,
     pf_CanThrow = (Throws \<noteq> None), pf_File = FileName, pf_Scheme = None\<rparr>"

definition usesLocal :: "bool \<Rightarrow> 'x routines \<Rightarrow> 'x routines" where
  "usesLocal b s = s\<lparr>CurrentFunctionUsesLocalLifetime := b\<rparr>"

definition enterFunction :: "function_m \<Rightarrow> 'x routines \<Rightarrow> 'x routines" where
  "enterFunction Fn s = s\<lparr>FunctionsBeingPlanned := List.insert Fn (FunctionsBeingPlanned s)\<rparr>"

definition leaveFunction :: "function_m \<Rightarrow> 'x routines \<Rightarrow> 'x routines" where
  "leaveFunction Fn s = s\<lparr>FunctionsBeingPlanned := removeAll Fn (FunctionsBeingPlanned s)\<rparr>"

text \<open>The body of a function whose signature is in the cache: \<open>saved\<close> is what
  \<open>CurrentFunctionUsesLocalLifetime\<close> was outside. A page is needed when the body says so.\<close>

definition planBody :: "'x routines planner_world \<Rightarrow> bool \<Rightarrow> implementation \<Rightarrow> planned_function \<Rightarrow> ('x routines, planned_function) planning" where
  "planBody W saved Impl Result = thenPlan (onError (usesLocal saved) (planImplementation W Impl)) (\<lambda>Impl s.
     let Result = Result\<lparr>pf_Impl := Impl, pf_NeedsLocalPage := CurrentFunctionUsesLocalLifetime s\<rparr> in
     plans Result (registerFunction Result (usesLocal saved s)))"

definition planFunctionBy :: "'x routines planner_world \<Rightarrow> 'x routines resolver \<Rightarrow> function_m \<Rightarrow> planned_type option \<Rightarrow>
    ('x routines, planned_function) planning" where
  "planFunctionBy W R Fn Parent s =
     (let saved = CurrentFunctionUsesLocalLifetime s in
      afterwards (leaveFunction Fn) (inScope
        (thenPlan (functionParameters R Fn Parent) (\<lambda>Input s.
          case map_of (InstantiatedFunctions s) (functionName Fn Input Parent) of
            Some Cached \<Rightarrow> plans Cached (usesLocal saved s)
          | None \<Rightarrow>
              thenPlan (planReturns R (fn_Returns Fn) (fn_Loc Fn)) (\<lambda>Returns.
              thenPlan (ensurePage W R Returns) (\<lambda>_.
              thenPlan (resolveOptional R (fn_Throws Fn) (fn_Loc Fn)) (\<lambda>Throws s.
              let Result = newFunction Fn (PlannerFile s) (functionName Fn Input Parent) Input Returns Throws in
              thenPlan (registering Result) (\<lambda>_. planBody W saved (fn_Impl Fn) Result) s))) s)))
      (usesLocal False (enterFunction Fn s)))"

section \<open>Operators, initializers and deinitializers\<close>

definition hasThis :: "item list \<Rightarrow> bool" where
  "hasThis Input \<longleftrightarrow> (\<exists>Param \<in> set Input. case Param of Item Loc Private Name T Attributes \<Rightarrow> Name = Some ''this'')"

text \<open>An operator of a structure has \<open>this\<close> in front unless it names it itself.\<close>

definition implicitThis :: "operator_m \<Rightarrow> planned_type option \<Rightarrow> ('x routines, planned_item list) planning" where
  "implicitThis Op Parent = (case Parent of
     Some T \<Rightarrow> if hasThis (op_Input Op) then plans []
       else thenPlan (defining ''this'' (pointerTo T)) (\<lambda>_.
         plans [\<lparr>it_Loc = op_Loc Op, it_Private = False, it_Name = Some ''this'', it_Type = Some T, it_Attributes = []\<rparr>])
   | None \<Rightarrow> plans [])"

definition planOperatorBy :: "'x routines planner_world \<Rightarrow> 'x routines resolver \<Rightarrow> operator_m \<Rightarrow> planned_type option \<Rightarrow>
    ('x routines, planned_operator) planning" where
  "planOperatorBy W R Op Parent = inScope
     (thenPlan (implicitThis Op Parent) (\<lambda>This.
      thenPlan (eachPlan (planParameter R Parent) (op_Input Op)) (\<lambda>Input.
      thenPlan (planReturns R (op_Returns Op) (op_Loc Op)) (\<lambda>Returns.
      thenPlan (resolveOptional R (op_Throws Op) (op_Loc Op)) (\<lambda>Throws.
      thenPlan (planImplementation W (op_Impl Op)) (\<lambda>Impl.
      plans \<lparr>pop_Loc = op_Loc Op, pop_Private = op_Private Op, pop_Name = op_Name Op,
        pop_MangledName = mangleOperator (op_Name Op) (This @ Input) Parent, pop_Input = This @ Input, pop_Returns = Returns,
        pop_Throws = Throws, pop_Impl = Impl, pop_Origin = None, pop_Scheme = None\<rparr>))))))"

definition initializerName :: "planned_type \<Rightarrow> string option \<Rightarrow> planned_item list \<Rightarrow> string" where
  "initializerName Parent Page Input = ''_ZN'' @ encodeType Parent @ ''C1E'' @
     (if Page \<noteq> None then ''PN4scaly6memory4PageE'' else []) @
     concat (map (\<lambda>P. case it_Type P of None \<Rightarrow> [] | Some T \<Rightarrow> encodeType T) Input) @
     (if Page \<noteq> None \<or> Input \<noteq> [] then [] else ''v'')"

text \<open>The parameters of an initializer need no type; \<open>this\<close> is defined behind them.\<close>

definition planInitializerBy :: "'x routines planner_world \<Rightarrow> 'x routines resolver \<Rightarrow> initializer_m \<Rightarrow> planned_type \<Rightarrow>
    ('x routines, planned_initializer) planning" where
  "planInitializerBy W R Init Parent s =
     (let saved = CurrentFunctionUsesLocalLifetime s in
      thenPlan (inScope
        (thenPlan (definingPage (init_Loc Init) (init_PageParameter Init)) (\<lambda>_.
         thenPlan (eachPlan (\<lambda>Param. thenPlan (planItem R Param) (enteringParameter False)) (init_Input Init)) (\<lambda>Input.
         thenPlan (defining ''this'' (pointerTo Parent)) (\<lambda>_.
         thenPlan (planImplementation W (init_Impl Init)) (\<lambda>Impl. plans (Input, Impl)))))))
        (\<lambda>(Input, Impl) s. plans \<lparr>pi_Loc = init_Loc Init, pi_Private = init_Private Init, pi_PageParameter = init_PageParameter Init,
           pi_MangledName = initializerName Parent (init_PageParameter Init) Input, pi_Input = Input, pi_Impl = Impl,
           pi_NeedsLocalPage = CurrentFunctionUsesLocalLifetime s\<rparr> (usesLocal saved s))
        (usesLocal False s))"

fun planDeInitializerBy :: "'x routines planner_world \<Rightarrow> deinitializer \<Rightarrow> planned_type \<Rightarrow>
    ('x routines, planned_deinitializer) planning" where
  "planDeInitializerBy W (DeInitializer Loc Impl) Parent = inScope
     (thenPlan (defining ''this'' (pointerTo Parent)) (\<lambda>_.
      thenPlan (planImplementation W Impl) (\<lambda>Impl.
      plans (PlannedDeInitializer Loc (''_ZN'' @ encodeType Parent @ ''D1Ev'') Impl))))"

section \<open>Methods planned when they are called\<close>

text \<open>The structure or union is the entry of the cache under \<open>Key\<close>, which the planning of the method may change.\<close>

definition keepMethod :: "'x routines \<Rightarrow> 'x routines \<Rightarrow> 'x routines" where
  "keepMethod s t = t\<lparr>LocalScopes := LocalScopes s, TypeSubstitutions := TypeSubstitutions s, PlannerFile := PlannerFile s\<rparr>"

definition deferredName :: "string \<Rightarrow> planned_type list \<Rightarrow> string" where
  "deferredName Name GenericArgs = (if GenericArgs = [] then Name
     else Name @ ''.'' @ joined ''.'' (map (\<lambda>T. stripPackagePrefix (pt_Name T)) GenericArgs))"

definition deferredContext :: "'de deferred_info \<Rightarrow> 'x routines \<Rightarrow> 'x routines" where
  "deferredContext D s = s\<lparr>LocalScopes := [], TypeSubstitutions := df_TypeSubstitutions D, PlannerFile := df_File D\<rparr>"

definition structureContext :: "string \<Rightarrow> string \<Rightarrow> 'x routines \<Rightarrow> 'x routines" where
  "structureContext Key Name s = s\<lparr>CurrentStructureName := Name, CurrentStructure := Some (Cache_Entry Key)\<rparr>"

definition addMethod :: "string \<Rightarrow> planned_function \<Rightarrow> planned_structure \<Rightarrow> planned_structure" where
  "addMethod MethodName Method S = S\<lparr>st_Methods := st_Methods S @ [Method],
     st_DeferredInfo := map_option (\<lambda>D. D\<lparr>df_PlannedMethods := List.insert MethodName (df_PlannedMethods D)\<rparr>) (st_DeferredInfo S)\<rparr>"

definition addUnionMethod :: "string \<Rightarrow> planned_function \<Rightarrow> planned_union \<Rightarrow> planned_union" where
  "addUnionMethod MethodName Method U = U\<lparr>un_Methods := un_Methods U @ [Method],
     un_DeferredInfo := map_option (\<lambda>D. D\<lparr>df_PlannedMethods := List.insert MethodName (df_PlannedMethods D)\<rparr>) (un_DeferredInfo U)\<rparr>"

definition structMembersOf :: "(module, concept) structure_m \<Rightarrow> concept struct_member list" where
  "structMembersOf Struct = (case Struct of
     Structure Loc Private Properties Modules Uses Initializers Deinitializer Members Symbols \<Rightarrow> Members)"

definition unionMembersOf :: "(module, concept) union_m \<Rightarrow> concept struct_member list" where
  "unionMembersOf Un' = (case Un' of UnionDef Loc Private Variants Members Symbols \<Rightarrow> Members)"

definition planDeferredStructMethod :: "'x routines planner_world \<Rightarrow> string \<Rightarrow> string \<Rightarrow> ('x routines, planned_function) search" where
  "planDeferredStructMethod W Key MethodName s = (case map_of (InstantiatedStructures s) Key of
     None \<Rightarrow> plans None s
   | Some S \<Rightarrow> (case st_DeferredInfo S of
       None \<Rightarrow> plans None s
     | Some D \<Rightarrow>
         if MethodName \<in> set (df_PlannedMethods D) then plans (find (\<lambda>Method. pf_Name Method = MethodName) (st_Methods S)) s
         else case firstSome (methodMember MethodName) (structMembersOf (df_Original D)) of
           None \<Rightarrow> plans None s
         | Some Fn \<Rightarrow>
             thenPlan (afterwards (\<lambda>t. keepStructure s (keepMethod s t)) (planFunction W Fn (Some (parentOf (st_Name S) (st_MangledName S) (df_GenericArgs D)))))
               (\<lambda>Method. thenPlan (registering Method) (\<lambda>_.
                thenPlan (changing (\<lambda>s. case map_of (InstantiatedStructures s) Key of
                    None \<Rightarrow> s | Some S \<Rightarrow> put_structure Key (addMethod MethodName Method S) s)) (\<lambda>_. plans (Some Method))))
               (structureContext Key (deferredName (st_Name S) (df_GenericArgs D)) (deferredContext D s))))"

definition planDeferredUnionMethod :: "'x routines planner_world \<Rightarrow> string \<Rightarrow> string \<Rightarrow> ('x routines, planned_function) search" where
  "planDeferredUnionMethod W Key MethodName s = (case map_of (InstantiatedUnions s) Key of
     None \<Rightarrow> plans None s
   | Some U \<Rightarrow> (case un_DeferredInfo U of
       None \<Rightarrow> plans None s
     | Some D \<Rightarrow>
         if MethodName \<in> set (df_PlannedMethods D) then plans (find (\<lambda>Method. pf_Name Method = MethodName) (un_Methods U)) s
         else case firstSome (methodMember MethodName) (unionMembersOf (df_Original D)) of
           None \<Rightarrow> plans None s
         | Some Fn \<Rightarrow>
             thenPlan (afterwards (keepMethod s) (planFunction W Fn (Some (parentOf (un_Name U) (un_MangledName U) (df_GenericArgs D)))))
               (\<lambda>Method. thenPlan (registering Method) (\<lambda>_.
                thenPlan (changing (\<lambda>s. case map_of (InstantiatedUnions s) Key of
                    None \<Rightarrow> s | Some U \<Rightarrow> put_union Key (addUnionMethod MethodName Method U) s)) (\<lambda>_. plans (Some Method))))
               (deferredContext D s)))"

section \<open>Generic functions\<close>

definition genericFunctionKey :: "string \<Rightarrow> planned_type list \<Rightarrow> string" where
  "genericFunctionKey Name TypeArgs = Name @ concat (map (\<lambda>Arg. CHR ''.'' # pt_Name Arg) TypeArgs)"

definition instantiateGenericFunction :: "'x routines planner_world \<Rightarrow> function_m \<Rightarrow> planned_type list \<Rightarrow> span \<Rightarrow>
    ('x routines, planned_function) planning" where
  "instantiateGenericFunction W Fn TypeArgs InstantiationLoc s =
     (let CacheKey = genericFunctionKey (fn_Name Fn) TypeArgs in
      if length TypeArgs \<noteq> length (fn_Parameters Fn)
      then planFails (GenericArityError (PlannerFile s) InstantiationLoc (fn_Name Fn) (length (fn_Parameters Fn)) (length TypeArgs)) s
      else case map_of (InstantiatedFunctions s) CacheKey of
        Some Cached \<Rightarrow> plans Cached s
      | None \<Rightarrow>
          thenPlan (afterwards (keepSubstitutions s) (planFunction W Fn None)) (\<lambda>Planned s.
            let Planned = Planned\<lparr>pf_Name := CacheKey, pf_MangledName := mangleFunction CacheKey (pf_Input Planned) None False,
                  pf_Origin := Some (InstantiationInfo (fn_Loc Fn) InstantiationLoc (map pt_Name TypeArgs))\<rparr> in
            plans Planned (s\<lparr>InstantiatedFunctions := map_put CacheKey Planned (InstantiatedFunctions s)\<rparr>))
          (substitute (fn_Parameters Fn) TypeArgs s))"

text \<open>Each parameter whose declared type is a type parameter gives it the type of its argument.\<close>

definition conflict_text :: "string \<Rightarrow> planned_type \<Rightarrow> planned_type \<Rightarrow> string" where
  "conflict_text Name T U = ''conflicting type inference for '' @ Name @ '': '' @ pt_Name T @ '' vs '' @ pt_Name U"

fun typeParameterOf :: "generic_parameter list \<Rightarrow> item \<Rightarrow> string option" where
  "typeParameterOf Parameters (Item Loc Private Name (Some (Type TLoc [TypeName] Generics Life)) Attributes) =
     (if TypeName \<in> set (map parameterName Parameters) then Some TypeName else None)"
| "typeParameterOf Parameters _ = None"

fun inferLoop :: "generic_parameter list \<Rightarrow> (item \<times> planned_type) list \<Rightarrow> (string \<times> planned_type) list \<Rightarrow>
    string + (string \<times> planned_type) list" where
  "inferLoop Parameters [] Inferred = Inr Inferred"
| "inferLoop Parameters ((Param, ArgType) # Rest) Inferred = (case typeParameterOf Parameters Param of
     None \<Rightarrow> inferLoop Parameters Rest Inferred
   | Some Name \<Rightarrow> (case map_of Inferred Name of
       None \<Rightarrow> inferLoop Parameters Rest (map_put Name ArgType Inferred)
     | Some T \<Rightarrow> if typesEqual T ArgType then inferLoop Parameters Rest Inferred else Inl (conflict_text Name T ArgType)))"

fun inferredInOrder :: "(string \<times> planned_type) list \<Rightarrow> string list \<Rightarrow> string + planned_type list" where
  "inferredInOrder Inferred [] = Inr []"
| "inferredInOrder Inferred (Name # Names) = (case map_of Inferred Name of
     None \<Rightarrow> Inl (''could not infer type for parameter '' @ Name)
   | Some T \<Rightarrow> map_sum id ((#) T) (inferredInOrder Inferred Names))"

definition inferTypeArguments :: "function_m \<Rightarrow> planned_type list \<Rightarrow> span \<Rightarrow> ('x planning_state, planned_type list) planning" where
  "inferTypeArguments Fn ArgTypes Loc s =
     (case (case inferLoop (fn_Parameters Fn) (zip (fn_Input Fn) ArgTypes) [] of
          Inl Message \<Rightarrow> Inl Message
        | Inr Inferred \<Rightarrow> inferredInOrder Inferred (map parameterName (fn_Parameters Fn))) of
        Inl Message \<Rightarrow> planFails (PlannerNotImplementedError (PlannerFile s) Loc Message) s
      | Inr Result \<Rightarrow> plans Result s)"

text \<open>A path without resolution.\<close>

definition resolveTypePath :: "string list \<Rightarrow> span \<Rightarrow> ('x planning_state, planned_type) planning" where
  "resolveTypePath Path Loc s =
     (if Path = [] then planFails (UndefinedTypeError (PlannerFile s) Loc ''<empty>'') s
      else let Result = PlannedType Loc (joined ''.'' Path) [] [] UnspecifiedLifetime None [] None in
        plans (PlannedType Loc (joined ''.'' Path) (mangleType Result) [] UnspecifiedLifetime None [] None) s)"

end
