(* ===== verification/Planner_Generics_Theorems.thy ===== *)
theory Planner_Generics_Theorems
  imports Planner_Generics
begin

text \<open>
  What the resolution of types keeps and what it enters into the caches, whatever the methods do that
  plan code. \<open>kept P x\<close> says of an outcome that its state satisfies \<open>P\<close>, with one rule for each way of combining steps.
\<close>

section \<open>What a step keeps\<close>

definition kept :: "('s \<Rightarrow> bool) \<Rightarrow> ((plan_error + 'a) \<times> 's) option \<Rightarrow> bool" where
  "kept P x \<longleftrightarrow> (case x of None \<Rightarrow> True | Some (r, t) \<Rightarrow> P t)"

named_theorems kept_intros "rules for what a step keeps"

lemma kept_weaken: "kept P x \<Longrightarrow> (\<And>t. P t \<Longrightarrow> Q t) \<Longrightarrow> kept Q x"
  by (auto simp: kept_def split: option.splits)

lemma kept_plans [simp]: "kept P (plans a s) = P s" "kept P (planFails e s) = P s" "kept P (planSays m s) = P s"
  by (simp_all add: kept_def plans_def planFails_def planSays_def)

lemma kept_thenPlan [kept_intros]:
  "kept P (m s) \<Longrightarrow> (\<And>a t. P t \<Longrightarrow> kept P (k a t)) \<Longrightarrow> kept P (thenPlan m k s)"
  unfolding thenPlan_def by (cases "m s") (auto simp: kept_def split: sum.split)

lemma kept_afterwards [kept_intros]: "kept (\<lambda>t. P (f t)) (m s) \<Longrightarrow> kept P (afterwards f m s)"
  by (auto simp: kept_def afterwards_def split: option.splits)

lemma kept_onError [kept_intros]: "kept (\<lambda>t. P t \<and> P (f t)) (m s) \<Longrightarrow> kept P (onError f m s)"
  by (auto simp: kept_def onError_def split: option.splits sum.splits)

lemma kept_ignoring [kept_intros]: "kept P (m s) \<Longrightarrow> kept P (ignoringErrors m s)"
  by (auto simp: kept_def ignoringErrors_def split: option.splits)

lemma kept_when [kept_intros]: "P s \<Longrightarrow> kept P (m s) \<Longrightarrow> kept P (whenMissing b m s)"
  by (simp add: whenMissing_def)

lemma kept_each [kept_intros]:
  "P s \<Longrightarrow> (\<And>x t. x \<in> set xs \<Longrightarrow> P t \<Longrightarrow> kept P (f x t)) \<Longrightarrow> kept P (eachPlan f xs s)"
  by (induction xs arbitrary: s) (auto intro!: kept_intros)

lemma kept_trivial [simp]: "kept (\<lambda>t. True) x"
  by (simp add: kept_def split: option.split)

lemma keptD: "kept P x \<Longrightarrow> x = Some (r, t) \<Longrightarrow> P t"
  by (auto simp: kept_def)

text \<open>The substitutions of type parameters are those of the caller.\<close>

definition same :: "'x planning_state \<Rightarrow> 'x planning_state \<Rightarrow> bool" where
  "same s t \<longleftrightarrow> TypeSubstitutions t = TypeSubstitutions s"

lemma same_refl [simp]: "same s s"
  by (simp add: same_def)

lemma same_trans: "same s t \<Longrightarrow> same t u \<Longrightarrow> same s u"
  by (simp add: same_def)

lemma kept_same: "same s t \<Longrightarrow> kept (same t) x \<Longrightarrow> kept (same s) x"
  by (erule kept_weaken) (rule same_trans)

lemma same_updates [simp]:
  "same s (t\<lparr>Concepts := C\<rparr>) = same s t"
  "same s (put_structure Key S t) = same s t" "same s (erase_structure Key t) = same s t"
  "same s (put_union Key U' t) = same s t" "same s (erase_union Key t) = same s t"
  "same s (cacheGlobal Name D t) = same s t"
  "same s (alsoStructure Name ConcName t) = same s t" "same s (alsoUnion Name ConcName t) = same s t"
  by (simp_all add: same_def put_structure_def erase_structure_def put_union_def erase_union_def cacheGlobal_def
    alsoStructure_def alsoUnion_def split: planned_definition_of.split option.split)

lemma same_restored [simp]: "same s (keepSubstitutions s t)" "same s (keepContext s t)"
  by (simp_all add: same_def keepSubstitutions_def keepContext_def)

section \<open>Resolving types keeps the substitutions\<close>

text \<open>The planning of a structure, a union or an instance puts them back behind it, whatever it does with them.\<close>

lemma kept_structure: "kept (same s) (planStructure W R Struct Name GenericArgs lazy s)"
  by (cases Struct) (simp add: planStructure_def, rule kept_afterwards, simp)

lemma kept_union: "kept (same s) (planUnion W R U Name GenericArgs lazy s)"
  by (cases U) (simp add: planUnion_def, rule kept_afterwards, simp)

lemma kept_instantiateGeneric: "kept (same s) (instantiateGeneric W R Generic Args Loc s)"
  by (cases Generic) (auto simp: instantiateGeneric_def intro!: kept_afterwards)

lemma kept_structure_concept: "kept (same s) (planStructureConcept W R Name Def s)"
proof -
  have "kept (same s) (planStructure W R Def Name [] False (put_structure Name Q s))" for Q
    by (rule kept_same [OF _ kept_structure]) simp
  then show ?thesis by (auto simp: planStructureConcept_def split: option.split intro!: kept_thenPlan kept_onError)
qed

lemma kept_union_concept: "kept (same s) (planUnionConcept W R Name Def s)"
proof -
  have "kept (same s) (planUnion W R Def Name [] False (put_union Key Q s))" for Key Q
    by (rule kept_same [OF _ kept_union]) simp
  then show ?thesis by (auto simp: planUnionConcept_def Let_def split: option.split intro!: kept_thenPlan kept_onError)
qed

lemma kept_concept:
  assumes "Def = Definition_Structure D \<or> Def = Definition_Union D'"
  shows "kept (same s) (planConcept W R (Concept Loc Name Parameters Attributes Def) s)"
proof -
  have "kept (same s) (planDefinition W R Loc Name Def (s\<lparr>Concepts := C\<rparr>))" for C
    using assms by (auto simp: planDefinition_def
      intro!: kept_same [OF _ kept_structure_concept] kept_same [OF _ kept_union_concept])
  then show ?thesis by (auto simp: planConcept_def Let_def intro!: kept_thenPlan)
qed

text \<open>The lookup of concepts, of which Planner_Lookup_Theorems shows this, and a resolver.\<close>

definition lookup_same :: "'x planning_state planner_world \<Rightarrow> bool" where
  "lookup_same W \<longleftrightarrow> (\<forall>Name s. kept (same s) (lookupConcept W Name s))"

definition resolver_same :: "'x planning_state resolver \<Rightarrow> bool" where
  "resolver_same R \<longleftrightarrow> (\<forall>T Loc s. kept (same s) (R T Loc s))"

lemma resolver_from: "resolver_same R \<Longrightarrow> same s t \<Longrightarrow> kept (same s) (R T Loc t)"
  unfolding resolver_same_def by (rule kept_same) blast+

lemma kept_findConcept: "lookup_same W \<Longrightarrow> kept (same s) (findConcept W Path s)"
  unfolding findConcept_def by (intro kept_thenPlan) (simp_all add: lookup_same_def)

lemma kept_resolveNamed:
  assumes "lookup_same W" "same s t"
  shows "kept (same s) (resolveNamed W R Loc Path Life Args InstantiationLoc t)"
proof (rule kept_same [OF assms(2)])
  note steps = kept_same [OF _ kept_concept] kept_same [OF _ kept_instantiateGeneric]
  show "kept (same t) (resolveNamed W R Loc Path Life Args InstantiationLoc t)"
    unfolding resolveNamed_def Let_def
    by (auto intro!: kept_thenPlan kept_findConcept [OF assms(1)] kept_when kept_ignoring steps
      split: option.split concept.split definition_m.split)
qed

lemma resolver_step:
  assumes "lookup_same W" "resolver_same R"
  shows "resolver_same (resolveType_step W R)"
  unfolding resolver_same_def
proof (intro allI)
  fix T Loc s
  show "kept (same s) (resolveType_step W R T Loc s)"
    by (cases T) (auto intro!: kept_thenPlan kept_each resolver_from [OF assms(2)] kept_resolveNamed [OF assms(1)]
      split: option.split)
qed

lemma resolveTypeUpTo_same: "lookup_same W \<Longrightarrow> resolver_same (resolveTypeUpTo W fuel)"
proof (induction fuel)
  case (Suc fuel)
  have "resolveTypeUpTo W (Suc fuel) = resolveType_step W (resolveTypeUpTo W fuel)" by (intro ext) simp
  then show ?case using Suc resolver_step by simp
qed (simp add: resolver_same_def kept_def)

section \<open>What is entered into the caches\<close>

fun propertyName :: "property \<Rightarrow> string" where
  "propertyName (Property Loc Private Name PropType Initializer Attributes) = Name"

fun initializerOf :: "property \<Rightarrow> operand list option" where
  "initializerOf (Property Loc Private Name PropType Initializer Attributes) = Initializer"

text \<open>The properties up to the first one with an initializer: their types are resolved before any operand is planned.\<close>

fun beforeOperands :: "property list \<Rightarrow> property list" where
  "beforeOperands [] = []"
| "beforeOperands (Prop # Props) = Prop # (if initializerOf Prop = None then beforeOperands Props else [])"

fun propertiesOf :: "(module, concept) structure_m \<Rightarrow> property list" where
  "propertiesOf (Structure Loc Private Properties Modules Uses Initializers Deinitializer Members Symbols) = Properties"

lemma thenPlan_Inr: "thenPlan m k s = Some (Inr b, u) \<longleftrightarrow> (\<exists>a t. m s = Some (Inr a, t) \<and> k a t = Some (Inr b, u))"
  by (auto simp: thenPlan_def split: option.splits sum.splits prod.splits)

lemma plans_Inr [simp]: "plans a s = Some (Inr b, t) \<longleftrightarrow> a = b \<and> s = t"
  by (auto simp: plans_def)

lemma afterwards_Some: "afterwards f m s = Some (r, u) \<longleftrightarrow> (\<exists>t. m s = Some (r, t) \<and> u = f t)"
  by (auto simp: afterwards_def split: option.splits)

lemma onError_Inr [simp]: "onError f m s = Some (Inr a, t) \<longleftrightarrow> m s = Some (Inr a, t)"
  by (auto simp: onError_def split: option.splits sum.splits)

lemma onError_Inl: "onError f m s = Some (Inl e, u) \<longleftrightarrow> (\<exists>t. m s = Some (Inl e, t) \<and> u = f t)"
  by (auto simp: onError_def split: option.splits sum.splits)

lemma thenPlan_Inl:
  "thenPlan m k s = Some (Inl e, u) \<longleftrightarrow> m s = Some (Inl e, u) \<or> (\<exists>a t. m s = Some (Inr a, t) \<and> k a t = Some (Inl e, u))"
  by (auto simp: thenPlan_def split: option.splits sum.splits prod.splits)

lemma set_Offset_name [simp]: "prop_Name (set_Offset x P) = prop_Name P"
  by (simp add: set_Offset_def)

lemma substitute_map: "map_of (foldl (\<lambda>m (k, v). map_put k v m) m (zip ks vs)) = (map_of m)(ks [\<mapsto>] vs)"
proof (induction ks arbitrary: vs m)
  case (Cons k ks)
  then show ?case by (cases vs) (simp_all add: fun_upd_def)
qed simp

fun propertyType :: "property \<Rightarrow> type_ref" where
  "propertyType (Property Loc Private Name PropType Initializer Attributes) = PropType"

text \<open>A property that is declared of a type parameter has the type of its argument.\<close>

definition typed_as :: "(string \<Rightarrow> planned_type option) \<Rightarrow> property \<Rightarrow> planned_type \<Rightarrow> bool" where
  "typed_as \<sigma> Prop U \<longleftrightarrow> (\<forall>Loc Path Generics Life T. propertyType Prop = Type Loc Path Generics Life \<longrightarrow>
     \<sigma> (joined ''.'' Path) = Some T \<longrightarrow> U = set_Loc Loc T)"

lemma planProperty_as:
  assumes "planProperty W (resolveTypeUpTo W fuel) Prop s = Some (Inr P, t)"
  shows "prop_Name P = propertyName Prop \<and> typed_as (map_of (TypeSubstitutions s)) Prop (prop_Type P)"
proof (cases Prop)
  case (Property Loc Private Name PropType Initializer Attributes)
  from assms obtain T u where "resolveTypeUpTo W fuel PropType Loc s = Some (Inr T, u)" "prop_Name P = Name" "prop_Type P = T"
    unfolding Property by (auto simp: thenPlan_Inr)
  then show ?thesis using Property by (cases fuel; cases PropType) (auto simp: typed_as_def)
qed

lemma kept_property:
  assumes "resolver_same R" "initializerOf Prop = None"
  shows "kept (same s) (planProperty W R Prop s)"
  using assms by (cases Prop) (auto intro!: kept_thenPlan resolver_from)

lemma planProperties_as:
  assumes "lookup_same W"
  shows "eachPlan (planProperty W (resolveTypeUpTo W fuel)) Props s = Some (Inr Ps, t) \<Longrightarrow>
    map prop_Name Ps = map propertyName Props \<and>
    list_all2 (typed_as (map_of (TypeSubstitutions s))) (beforeOperands Props) (take (length (beforeOperands Props)) (map prop_Type Ps)) \<and>
    ((\<forall>Prop\<in>set Props. initializerOf Prop = None) \<longrightarrow> same s t)"
proof (induction Props arbitrary: s Ps)
  case (Cons Prop Props)
  then obtain P Ps' u where *: "planProperty W (resolveTypeUpTo W fuel) Prop s = Some (Inr P, u)"
    "eachPlan (planProperty W (resolveTypeUpTo W fuel)) Props u = Some (Inr Ps', t)" "Ps = P # Ps'"
    by (auto simp: thenPlan_Inr)
  have u: "same s u" if "initializerOf Prop = None"
    using keptD [OF kept_property [OF resolveTypeUpTo_same [OF assms] that] *(1)] .
  then have "map_of (TypeSubstitutions u) = map_of (TypeSubstitutions s)" if "initializerOf Prop = None"
    using that by (simp add: same_def)
  then show ?case using Cons.IH [OF *(2)] planProperty_as [OF *(1)] *(3) u by (auto intro: same_trans)
qed simp

lemma layoutProperties_sel:
  "layoutProperties C Ps L = (Qs, L') \<Longrightarrow> map prop_Name Qs = map prop_Name Ps \<and> map prop_Type Qs = map prop_Type Ps"
  by (induction Ps arbitrary: L Qs) (auto simp: layoutProperty_def Let_def split: prod.splits)

lemma computeStructLayout_sel [simp]:
  "st_MangledName (computeStructLayout C S) = st_MangledName S" "st_Name (computeStructLayout C S) = st_Name S"
  "map prop_Name (st_Properties (computeStructLayout C S)) = map prop_Name (st_Properties S)"
  "map prop_Type (st_Properties (computeStructLayout C S)) = map prop_Type (st_Properties S)"
  by (auto simp: computeStructLayout_def dest: layoutProperties_sel split: prod.split)

text \<open>What is known of a structure that was planned lazily, under the substitution \<open>\<sigma>\<close>.\<close>

definition instance_of :: "(module, concept) structure_m \<Rightarrow> string \<Rightarrow> planned_type list \<Rightarrow> (string \<Rightarrow> planned_type option) \<Rightarrow>
    planned_structure \<Rightarrow> bool" where
  "instance_of Struct Name Args \<sigma> S \<longleftrightarrow> st_Name S = Name \<and> st_MangledName S = mangleStructure Name Args \<and>
     map prop_Name (st_Properties S) = map propertyName (propertiesOf Struct) \<and>
     list_all2 (typed_as \<sigma>) (beforeOperands (propertiesOf Struct))
       (take (length (beforeOperands (propertiesOf Struct))) (map prop_Type (st_Properties S))) \<and>
     (\<exists>d. st_DeferredInfo S = Some d \<and> df_Original d = Struct \<and> df_GenericArgs d = Args \<and> df_PlannedMethods d = [] \<and>
       ((\<forall>Prop\<in>set (propertiesOf Struct). initializerOf Prop = None) \<longrightarrow> map_of (df_TypeSubstitutions d) = \<sigma>))"

lemma planStructure_lazy:
  assumes "lookup_same W" "planStructure W (resolveTypeUpTo W fuel) Struct Name Args True s = Some (Inr S, t)"
  shows "instance_of Struct Name Args (map_of (TypeSubstitutions s)) S"
proof (cases Struct)
  case (Structure Loc Private Properties Modules Uses Initializers Deinitializer Members Symbols)
  from assms(2) obtain Ps u where *: "eachPlan (planProperty W (resolveTypeUpTo W fuel)) Properties s = Some (Inr Ps, u)"
    and S: "S = (computeStructLayout (layout_caches.truncate u) (newStructure\<lparr>st_Loc := Loc, st_Private := Private,
      st_Name := Name, st_MangledName := mangleStructure Name Args, st_Properties := Ps\<rparr>))
      \<lparr>st_Origin := typeOrigin Loc Args, st_DeferredInfo := Some (deferred Struct Args u)\<rparr>"
    unfolding Structure planStructure_def by (auto simp: thenPlan_Inr afterwards_Some Let_def)
  show ?thesis using planProperties_as [OF assms(1) *]
    by (auto simp: instance_of_def S Structure deferred_def same_def)
qed

lemma planInstance_entry:
  assumes "lookup_same W" "planInstance W (resolveTypeUpTo W fuel) (Definition_Structure Struct) Name Args Loc Origin s = Some (r, t)"
  shows "case r of
      Inl e \<Rightarrow> map_of (InstantiatedStructures t) (mangleStructure Name Args) = None
    | Inr T \<Rightarrow> T = instanceType Loc Name Args Origin \<and> (\<exists>S. map_of (InstantiatedStructures t) (mangleStructure Name Args) = Some S \<and>
        instance_of Struct Name Args (map_of (TypeSubstitutions s)) S \<and> st_Origin S = Origin)"
proof (cases r)
  case (Inl e)
  then show ?thesis using assms(2)
    by (auto simp: planInstance_def Let_def thenPlan_Inl onError_Inl erase_structure_def plans_def)
next
  case (Inr T)
  then obtain S u where *: "planStructure W (resolveTypeUpTo W fuel) Struct Name Args True
      (put_structure (mangleStructure Name Args) (newStructure\<lparr>st_Name := Name, st_MangledName := mangleStructure Name Args\<rparr>) s) = Some (Inr S, u)"
    "T = instanceType Loc Name Args Origin" "t = put_structure (mangleStructure Name Args) (S\<lparr>st_Origin := Origin\<rparr>) u"
    using assms(2) by (auto simp: planInstance_def Let_def thenPlan_Inr)
  have "instance_of Struct Name Args (map_of (TypeSubstitutions s)) S"
    using planStructure_lazy [OF assms(1) *(1)] by (simp add: put_structure_def)
  then show ?thesis using *(2,3) Inr by (simp add: put_structure_def instance_of_def)
qed

lemma instantiateGeneric_entry:
  assumes "lookup_same W" and "Generic = Concept CLoc Name Parameters Attributes (Definition_Structure Struct)"
    and "length Args = length Parameters" "\<not> inCaches (mangleStructure Name Args) s"
    and "instantiateGeneric W (resolveTypeUpTo W fuel) Generic Args Loc s = Some (r, t)"
  shows "TypeSubstitutions t = TypeSubstitutions s \<and> LocalScopes t = LocalScopes s \<and>
    (case r of
      Inl e \<Rightarrow> map_of (InstantiatedStructures t) (mangleStructure Name Args) = None
    | Inr T \<Rightarrow> pt_Name T = Name \<and> pt_Generics T = Args \<and> pt_MangledName T = mangleStructure Name Args \<and>
        (\<exists>S. map_of (InstantiatedStructures t) (mangleStructure Name Args) = Some S \<and>
          instance_of Struct Name Args ((map_of (TypeSubstitutions s))(map parameterName Parameters [\<mapsto>] Args)) S))"
proof -
  from assms(5) obtain u where
    "planInstance W (resolveTypeUpTo W fuel) (Definition_Structure Struct) Name Args Loc (Some (InstantiationInfo CLoc Loc (map pt_Name Args)))
      (withoutScopes (substitute Parameters Args s)) = Some (r, u)" "t = keepContext s u"
    using assms(3,4) unfolding assms(2) by (auto simp: instantiateGeneric_def afterwards_Some)
  from planInstance_entry [OF assms(1) this(1)] this(2) show ?thesis
    by (auto simp: withoutScopes_def substitute_def substitute_map keepContext_def instanceType_def split: sum.split)
qed

text \<open>An instance of a structure or union is in the caches when it was made.\<close>

lemma instantiateGeneric_cached:
  assumes "Generic = Concept CLoc Name Parameters Attributes Def"
    and "Def = Definition_Structure Struct \<or> Def = Definition_Union Un'"
    and "instantiateGeneric W R Generic Args Loc s = Some (Inr T, t)"
  shows "length Args = length Parameters" "inCaches (mangleStructure Name Args) t" "\<exists>Origin. T = instanceType Loc Name Args Origin"
proof -
  show l: "length Args = length Parameters"
    using assms(1,3) by (auto simp: instantiateGeneric_def planFails_def split: if_splits)
  have "inCaches (mangleStructure Name Args) t \<and> (\<exists>Origin. T = instanceType Loc Name Args Origin)"
    using assms(2,3) l unfolding assms(1)
    by (auto simp: instantiateGeneric_def afterwards_Some planInstance_def Let_def thenPlan_Inr inCaches_def put_structure_def
      put_union_def keepContext_def split: if_splits)
  then show "inCaches (mangleStructure Name Args) t" "\<exists>Origin. T = instanceType Loc Name Args Origin" by auto
qed

section \<open>Fuel\<close>

text \<open>More fuel gives the same outcome: each way of combining steps is monotone.\<close>

definition agrees :: "'a option \<Rightarrow> 'a option \<Rightarrow> bool" where
  "agrees x y \<longleftrightarrow> x = None \<or> x = y"

definition resolver_less :: "'s resolver \<Rightarrow> 's resolver \<Rightarrow> bool" where
  "resolver_less R R' \<longleftrightarrow> (\<forall>T Loc s. agrees (R T Loc s) (R' T Loc s))"

named_theorems more_fuel "rules for steps with more fuel"

lemma agrees_refl [more_fuel]: "agrees x x"
  by (simp add: agrees_def)

lemma agrees_resolver: "resolver_less R R' \<Longrightarrow> agrees (R T Loc s) (R' T Loc s)"
  by (simp add: resolver_less_def)

lemma agrees_thenPlan [more_fuel]:
  "agrees (m s) (m' s) \<Longrightarrow> (\<And>a t. agrees (k a t) (k' a t)) \<Longrightarrow> agrees (thenPlan m k s) (thenPlan m' k' s)"
proof (cases "m s")
  case (Some x)
  assume "agrees (m s) (m' s)" and k: "\<And>a t. agrees (k a t) (k' a t)"
  then have "m' s = Some x" using Some by (simp add: agrees_def)
  then show "agrees (thenPlan m k s) (thenPlan m' k' s)" using k Some
    by (cases x) (auto simp: thenPlan_def agrees_refl split: sum.split)
qed (simp add: thenPlan_def agrees_def)

lemma agrees_afterwards [more_fuel]: "agrees (m s) (m' s) \<Longrightarrow> agrees (afterwards f m s) (afterwards f m' s)"
  by (auto simp: agrees_def afterwards_def)

lemma agrees_onError [more_fuel]: "agrees (m s) (m' s) \<Longrightarrow> agrees (onError f m s) (onError f m' s)"
  by (auto simp: agrees_def onError_def)

lemma agrees_ignoring [more_fuel]: "agrees (m s) (m' s) \<Longrightarrow> agrees (ignoringErrors m s) (ignoringErrors m' s)"
  by (auto simp: agrees_def ignoringErrors_def)

lemma agrees_when [more_fuel]: "agrees (m s) (m' s) \<Longrightarrow> agrees (whenMissing b m s) (whenMissing b m' s)"
  by (auto simp: whenMissing_def agrees_def)

lemma agrees_each [more_fuel]: "(\<And>x t. agrees (f x t) (f' x t)) \<Longrightarrow> agrees (eachPlan f xs s) (eachPlan f' xs s)"
  by (induction xs arbitrary: s) (auto intro!: more_fuel)

lemma agrees_optional: "resolver_less R R' \<Longrightarrow> agrees (resolveOptional R T Loc s) (resolveOptional R' T Loc s)"
  by (auto simp: resolveOptional_def split: option.split intro!: more_fuel agrees_resolver [of R R'])

lemma agrees_property: "resolver_less R R' \<Longrightarrow> agrees (planProperty W R Prop s) (planProperty W R' Prop s)"
  by (cases Prop) (auto intro!: more_fuel agrees_resolver [of R R'])

lemma agrees_variants: "resolver_less R R' \<Longrightarrow> agrees (planVariants R Vars Tag s) (planVariants R' Vars Tag s)"
proof (induction Vars arbitrary: Tag s)
  case (Cons Var Vars)
  then show ?case by (cases Var) (auto intro!: more_fuel agrees_resolver [of R R'] agrees_optional)
qed (simp add: agrees_def)

lemma agrees_structure: "resolver_less R R' \<Longrightarrow> agrees (planStructure W R Struct Name Args lazy s) (planStructure W R' Struct Name Args lazy s)"
  unfolding planStructure_def by (cases Struct) (auto intro!: more_fuel agrees_resolver [of R R'] agrees_property)

lemma agrees_union: "resolver_less R R' \<Longrightarrow> agrees (planUnion W R U Name Args lazy s) (planUnion W R' U Name Args lazy s)"
  unfolding planUnion_def by (cases U) (auto intro!: more_fuel agrees_resolver [of R R'] agrees_variants)

lemma agrees_concept:
  assumes "resolver_less R R'"
  shows "agrees (planConcept W R Conc s) (planConcept W R' Conc s)"
proof (cases Conc)
  case (Concept Loc Name Parameters Attributes Def)
  have "agrees (planDefinition W R Loc Name Def t) (planDefinition W R' Loc Name Def t)" for t
    unfolding planDefinition_def planStructureConcept_def planUnionConcept_def Let_def
    by (auto intro!: more_fuel agrees_resolver [OF assms] agrees_structure agrees_union assms split: definition_m.split global_m.split option.split)
  then show ?thesis unfolding Concept planConcept_def Let_def by (auto intro!: more_fuel)
qed

lemma agrees_instance: "resolver_less R R' \<Longrightarrow> agrees (instantiateGeneric W R Generic Args Loc s) (instantiateGeneric W R' Generic Args Loc s)"
  unfolding instantiateGeneric_def planInstance_def Let_def
  by (auto intro!: more_fuel agrees_resolver [of R R'] agrees_structure agrees_union split: definition_m.split concept.split)

lemma agrees_named:
  "resolver_less R R' \<Longrightarrow> agrees (resolveNamed W R Loc Path Life Args L s) (resolveNamed W R' Loc Path Life Args L s)"
  unfolding resolveNamed_def Let_def
  by (auto intro!: more_fuel agrees_resolver [of R R'] agrees_instance agrees_concept split: definition_m.split concept.split option.split)

lemma step_less: "resolver_less R R' \<Longrightarrow> resolver_less (resolveType_step W R) (resolveType_step W R')"
  unfolding resolver_less_def [of "resolveType_step W R"]
proof (intro allI)
  fix T Loc s
  assume "resolver_less R R'"
  then show "agrees (resolveType_step W R T Loc s) (resolveType_step W R' T Loc s)"
    by (cases T) (auto intro!: more_fuel agrees_resolver [of R R'] agrees_named split: option.split)
qed

lemma resolveTypeUpTo_less: "resolver_less (resolveTypeUpTo W n) (resolveTypeUpTo W (n + k))"
proof (induction n)
  case (Suc n)
  have eq: "resolveTypeUpTo W (Suc m) = resolveType_step W (resolveTypeUpTo W m)" for m by (intro ext) simp
  show ?case using step_less [OF Suc] unfolding add_Suc eq .
qed (simp add: resolver_less_def agrees_def)

lemma resolveTypeUpTo_more:
  assumes "resolveTypeUpTo W n T Loc s = Some x" "n \<le> m"
  shows "resolveTypeUpTo W m T Loc s = Some x"
proof -
  have "agrees (resolveTypeUpTo W n T Loc s) (resolveTypeUpTo W m T Loc s)"
    using resolveTypeUpTo_less [of W n "m - n"] assms(2) by (simp add: resolver_less_def)
  then show ?thesis using assms(1) by (simp add: agrees_def)
qed

section \<open>Types that are never resolved\<close>

text \<open>A union in a namespace that points to itself: its placeholder is kept under a qualified name, where the search for it does
  not look, so the union is planned again each time its name is met.\<close>

definition treePath :: "type_ref" where
  "treePath = Type (Span 0 0) [''Tree''] None UnspecifiedLifetime"

definition treeUnion :: concept where
  "treeUnion = Concept (Span 0 0) ''Tree'' [] [] (Definition_Union (UnionDef (Span 0 0) False
     [Variant (Span 0 0) ''Node'' (Some (Type (Span 0 0) [''pointer''] (Some [treePath]) UnspecifiedLifetime)) []] [] []))"

lemma namespace_union:
  assumes "\<And>Name s. lookupConcept W Name s = plans (if Name = ''Tree'' then Some treeUnion else None) s"
  shows "CurrentNamespaceName s \<noteq> [] \<Longrightarrow> TypeSubstitutions s = [] \<Longrightarrow> map_of (InstantiatedUnions s) ''Tree'' = None \<Longrightarrow>
    (\<forall>U. map_of (InstantiatedUnions s) (CurrentNamespaceName s @ ''::Tree'') = Some U \<longrightarrow> un_Variants U = []) \<Longrightarrow>
    resolveTypeUpTo W fuel treePath Loc s = None"
proof (induction fuel arbitrary: s Loc rule: less_induct)
  case (less fuel)
  show ?case
  proof (cases fuel)
    case (Suc f)
    let ?key = "CurrentNamespaceName s @ ''::Tree''"
    have ne: "?key \<noteq> ''Tree''"
    proof
      assume "?key = ''Tree''"
      then have "length ?key = 4" by simp
      then show False by simp
    qed
    have none: "resolveTypeUpTo W f (Type (Span 0 0) [''pointer''] (Some [treePath]) UnspecifiedLifetime) L
        (put_union ?key U (s\<lparr>Concepts := C\<rparr>)) = None" if "un_Variants U = []" for L U C
    proof (cases f)
      case (Suc g)
      then have "resolveTypeUpTo W g treePath L (put_union ?key U (s\<lparr>Concepts := C\<rparr>)) = None"
        using less.prems \<open>fuel = Suc f\<close> ne that by (intro less.IH) (auto simp: put_union_def)
      then show ?thesis using Suc less.prems(2) by (simp add: thenPlan_def put_union_def)
    qed simp
    have "planConcept W (resolveTypeUpTo W f) treeUnion s = None"
      using less.prems none
      by (auto simp: treeUnion_def planConcept_def planDefinition_def planUnionConcept_def planUnion_def Let_def thenPlan_def
        afterwards_def onError_def resolveOptional_def newUnion_def split: option.split)
    then show ?thesis unfolding Suc treePath_def using less.prems(2,3) assms
      by (simp add: resolveNamed_def thenPlan_def plans_def findConcept_def isPrimitiveName_def whenMissing_def ignoringErrors_def treeUnion_def)
  qed simp
qed

section \<open>Examples\<close>

text \<open>A generic structure \<open>Box[T]\<close> with a \<open>T\<close> and a pointer to another box, and a planner with nothing planned that finds it.\<close>

definition boxStructure :: "(module, concept) structure_m" where
  "boxStructure = Structure (Span 0 0) False
     [Property (Span 0 0) False ''value'' (Type (Span 0 0) [''T''] None UnspecifiedLifetime) None [],
      Property (Span 0 0) False ''next'' (Type (Span 0 0) [''pointer''] (Some [Type (Span 0 0) [''Box'']
        (Some [Type (Span 0 0) [''T''] None UnspecifiedLifetime]) UnspecifiedLifetime]) UnspecifiedLifetime) None []]
     [] [] [] None [] []"

definition boxConcept :: concept where
  "boxConcept = Concept (Span 0 0) ''Box'' [GenericParameter (Span 0 0) ''T'' []] [] (Definition_Structure boxStructure)"

definition sample_error :: planner_error where
  "sample_error = UndefinedSymbolError [] (Span 0 0) []"

definition sample_union :: planned_union where
  "sample_union = \<lparr>un_Loc = Span 0 0, un_Private = False, un_Name = [], un_MangledName = [], un_Variants = [], un_Methods = [],
     un_Operators = [], un_Size = 0, un_Alignment = 0, un_Origin = None, un_DeferredInfo = None\<rparr>"

definition sample_world :: "'x planning_state planner_world" where
  "sample_world = \<lparr>lookupConcept = (\<lambda>Name. plans (if Name = ''Box'' then Some boxConcept else None)),
     planOperand = (\<lambda>_. planFails sample_error), planOperands = (\<lambda>_. planFails sample_error),
     planInitializer = (\<lambda>_ _. planFails sample_error), planDeInitializer = (\<lambda>_ _. planFails sample_error),
     planFunction = (\<lambda>_ _. planFails sample_error), planOperator = (\<lambda>_ _. planFails sample_error),
     planNamespace = (\<lambda>_ _. planFails sample_error), planAction = (\<lambda>_. planFails sample_error),
     uninitialized = sample_union, uninitializedItem = Item (Span 0 0) False None None [], movedString = []\<rparr>"

definition sample_state :: generics_state where
  "sample_state = \<lparr>InstantiatedStructures = [], InstantiatedUnions = [], Operators = [], ModuleStack = [], PlannerFile = ''box.scaly'',
     Concepts = [], TypeSubstitutions = [], LocalScopes = [[]], InstantiatedFunctions = [], PlannedGlobals = [],
     ExpectedTypeContext = None, CurrentStructureName = [], CurrentStructure = None, CurrentNamespaceName = []\<rparr>"

definition intType :: planned_type where
  "intType = PlannedType (Span 0 0) ''int'' ''_Zi'' [] UnspecifiedLifetime None [] None"

fun succeeds :: "((plan_error + 'a) \<times> 's) option \<Rightarrow> bool" where
  "succeeds (Some (Inr _, _)) = True"
| "succeeds _ = False"

lemma succeedsE: "succeeds x \<Longrightarrow> (\<And>a t. x = Some (Inr a, t) \<Longrightarrow> P) \<Longrightarrow> P"
  by (cases x rule: succeeds.cases) auto


lemma box_key: "mangleStructure ''Box'' [intType] = ''_Z3BoxIiE''"
proof -
  have "to_string (Suc (Suc (Suc 0))) = ''3''" by (subst to_string.simps) (simp add: char_of_def bit_Suc_0_iff)
  moreover have "encodeType intType = ''i''"
    by (subst encodeType.simps) (simp add: usedMangledName_def builtinCode_def intType_def decimal_digit_def less_eq_char_def)
  ultimately show ?thesis by (simp add: mangleStructure_def encodeName_def)
qed

end
