(* ===== verification/Planner_Lookup_Theorems.thy ===== *)
theory Planner_Lookup_Theorems
  imports Planner_Lookup Planner_Generics_Theorems
begin

text \<open>
  What a lookup changes: the caches of concepts, modules and packages and nothing else; that what was found or read once
  is found again without another search; what dotted names stand for; and, with this lookup, what the
  resolution of types and the instantiation of generics keep and enter.
\<close>

section \<open>What a lookup changes\<close>

definition reading :: "'x lookup \<Rightarrow> 'x lookup \<Rightarrow> bool" where
  "reading s t \<longleftrightarrow>
     t\<lparr>Concepts := Concepts s, LoadedPackages := LoadedPackages s, OnDemandPackages := OnDemandPackages s,
       LoadedModulePaths := LoadedModulePaths s, AccessedPackageModules := AccessedPackageModules s\<rparr> = s
     \<and> dom (map_of (Concepts s)) \<subseteq> dom (map_of (Concepts t))
     \<and> map_of (LoadedModulePaths s) \<subseteq>\<^sub>m map_of (LoadedModulePaths t)"

lemma reading_refl [simp]: "reading s s"
  by (simp add: reading_def)

lemma reading_steps:
  "reading s t \<Longrightarrow> reading s (noteConcept Name Conc t)" "reading s t \<Longrightarrow> reading s (addAccessed Mod t)"
  "reading s t \<Longrightarrow> reading s (t\<lparr>OnDemandPackages := P\<rparr>)" "reading s t \<Longrightarrow> reading s (t\<lparr>LoadedPackages := L\<rparr>)"
  by (auto simp: reading_def noteConcept_def addAccessed_def)

lemma reading_trans: "reading s t \<Longrightarrow> reading t u \<Longrightarrow> reading s u"
proof -
  assume a: "reading s t" "reading t u"
  then have "u\<lparr>Concepts := Concepts s, LoadedPackages := LoadedPackages s, OnDemandPackages := OnDemandPackages s,
      LoadedModulePaths := LoadedModulePaths s, AccessedPackageModules := AccessedPackageModules s\<rparr> =
    u\<lparr>Concepts := Concepts t, LoadedPackages := LoadedPackages t, OnDemandPackages := OnDemandPackages t,
      LoadedModulePaths := LoadedModulePaths t, AccessedPackageModules := AccessedPackageModules t\<rparr>
    \<lparr>Concepts := Concepts s, LoadedPackages := LoadedPackages s, OnDemandPackages := OnDemandPackages s,
      LoadedModulePaths := LoadedModulePaths s, AccessedPackageModules := AccessedPackageModules s\<rparr>" by simp
  with a show ?thesis unfolding reading_def by (auto intro: map_le_trans)
qed

lemma reading_same: "reading s t \<Longrightarrow> same s t"
proof -
  assume "reading s t"
  then have "t\<lparr>Concepts := Concepts s, LoadedPackages := LoadedPackages s, OnDemandPackages := OnDemandPackages s,
       LoadedModulePaths := LoadedModulePaths s, AccessedPackageModules := AccessedPackageModules s\<rparr> = s"
    by (simp add: reading_def)
  from arg_cong [OF this, of TypeSubstitutions] show ?thesis by (simp add: same_def)
qed

text \<open>Rules for searches.\<close>

lemma kept_changing [kept_intros]: "P (f s) \<Longrightarrow> kept P (changing f s)"
  by (simp add: changing_def kept_def)

lemma kept_orSearch [kept_intros]:
  "kept P (m s) \<Longrightarrow> (\<And>t. P t \<Longrightarrow> kept P (k t)) \<Longrightarrow> kept P (orSearch m k s)"
  unfolding orSearch_def by (rule kept_thenPlan) (auto split: option.split)

lemma kept_searchEach [kept_intros]:
  "P s \<Longrightarrow> (\<And>x t. P t \<Longrightarrow> kept P (f x t)) \<Longrightarrow> kept P (searchEach f xs s)"
  by (induction xs arbitrary: s) (auto intro!: kept_intros)

lemma kept_reading: "reading s t \<Longrightarrow> kept (reading t) x \<Longrightarrow> kept (reading s) x"
  by (erule kept_weaken) (rule reading_trans)

lemma kept_readProgram: "reading s t \<Longrightarrow> kept (reading s) (readProgram n F Path t)"
  by (auto simp: readProgram_def kept_def plans_def reading_steps split: option.split sum.split)

lemma kept_loadPackage: "reading s t \<Longrightarrow> kept (reading s) (loadPackageOnDemand n F Name t)"
  by (auto simp: loadPackageOnDemand_def Let_def intro!: kept_intros kept_readProgram reading_steps split: option.split)

lemma kept_loadModule: "reading s t \<Longrightarrow> kept (reading s) (loadIntraPackageModule n F BasePath Name t)"
proof (rule kept_reading, assumption)
  let ?path = "path_append F BasePath (Name @ ''.scaly'')"
  show "kept (reading t) (loadIntraPackageModule n F BasePath Name t)"
  proof (cases "map_of (LoadedModulePaths t) ?path")
    case None
    have enter: "reading t (u\<lparr>LoadedModulePaths := map_put ?path Mod (LoadedModulePaths u)\<rparr>)" if "reading t u" for Mod u
      using that None by (auto simp: reading_def map_le_def)
    show ?thesis using None
      by (auto simp: loadIntraPackageModule_def Let_def cacheModule_def intro!: kept_intros kept_readProgram enter split: option.split)
  qed (simp add: loadIntraPackageModule_def Let_def)
qed

lemma kept_unstubbed: "reading s t \<Longrightarrow> kept (reading s) (unstubbed n F FileName Folder Mod t)"
  by (auto simp: unstubbed_def intro!: kept_intros kept_loadModule)

lemma kept_namespacePath: "reading s t \<Longrightarrow> kept (reading s) (namespacePath n F ParentFile Head Path NS Mod t)"
  by (induction Path arbitrary: NS Mod t) (auto intro!: kept_intros kept_unstubbed split: option.split)

lemma kept_noteAccessed: "reading s t \<Longrightarrow> kept (reading s) (noteAccessed Mod t)"
  by (auto simp: noteAccessed_def intro!: kept_intros reading_steps)

lemma kept_usedInStack: "reading s t \<Longrightarrow> kept (reading s) (usedInStack n F Name Path Mod t)"
  by (auto simp: usedInStack_def intro!: kept_intros kept_namespacePath split: option.split)

lemma kept_packageTarget: "reading s t \<Longrightarrow> kept (reading s) (packageTarget n F Name Mod t)"
  by (auto simp: packageTarget_def namespaceTarget_def intro!: kept_intros kept_unstubbed kept_noteAccessed split: option.split)

lemma kept_usedConcept: "reading s t \<Longrightarrow> kept (reading s) (usedConcept n F Name Path t)"
  by (auto simp: usedConcept_def usedInPackage_def intro!: kept_intros kept_loadPackage kept_usedInStack kept_packageTarget split: option.split)

lemma reading_members: "reading s t \<Longrightarrow> reading s (foldl (\<lambda>s Member. noteMember Member s) t Members)"
  by (induction Members arbitrary: t) (auto simp: noteMember_def reading_steps split: option.split)

lemma kept_fallback: "reading s t \<Longrightarrow> kept (reading s) (fallback n F Name t)"
  by (auto simp: fallback_def fallbackUse_def intro!: kept_intros kept_loadModule reading_steps reading_members split: list.split option.split)

lemma kept_lookupBy:
  assumes "\<And>Name t. reading s t \<Longrightarrow> kept (reading s) (R Name t)" "reading s t"
  shows "kept (reading s) (lookupConceptBy R n F Name t)"
  using assms(2) unfolding lookupConceptBy_def conceptPlaces_def dottedConcept_def noting_def
  by (auto intro!: kept_intros assms(1) kept_usedConcept kept_fallback reading_steps split: option.split)

lemma kept_findsConcept: "reading s t \<Longrightarrow> kept (reading s) (findsConcept n F Name t)"
  unfolding findsConcept_def by (intro kept_lookupBy) auto

section \<open>Finding again\<close>

definition ends_noted :: "string \<Rightarrow> ((plan_error + concept option) \<times> 'x lookup) option \<Rightarrow> bool" where
  "ends_noted Name x \<longleftrightarrow> (\<forall>Conc t. x = Some (Inr (Some Conc), t) \<longrightarrow> map_of (Concepts t) Name = Some Conc)"

lemma ends_plans [simp]: "ends_noted Name (plans None s)" "ends_noted Name (plans (Some Conc) s) \<longleftrightarrow> map_of (Concepts s) Name = Some Conc"
  by (simp_all add: ends_noted_def plans_def)

lemma ends_thenPlan: "(\<And>a t. m s = Some (Inr a, t) \<Longrightarrow> ends_noted Name (k a t)) \<Longrightarrow> ends_noted Name (thenPlan m k s)"
  by (auto simp: ends_noted_def thenPlan_def split: option.splits sum.splits)

lemma ends_orSearch: "ends_noted Name (m s) \<Longrightarrow> (\<And>t. ends_noted Name (k t)) \<Longrightarrow> ends_noted Name (orSearch m k s)"
  unfolding orSearch_def by (rule ends_thenPlan) (auto simp: ends_noted_def plans_def split: option.splits)

lemma ends_searchEach: "(\<And>x t. ends_noted Name (f x t)) \<Longrightarrow> ends_noted Name (searchEach f xs s)"
  by (induction xs arbitrary: s) (auto intro!: ends_orSearch)

lemma ends_noting: "ends_noted Name (noting Name m s)"
  unfolding noting_def by (rule ends_thenPlan) (auto simp: ends_noted_def thenPlan_def changing_def noteConcept_def plans_def split: option.splits)

lemma noteMember_cache:
  "map_of (Concepts (noteMember Member s)) Name = orElse (conceptMember Name Member) (map_of (Concepts s) Name)"
proof (cases Member)
  case (ModuleMember_Concept Conc)
  then show ?thesis by (cases Conc) (simp add: noteMember_def noteConcept_def orElse_def)
qed (simp_all add: noteMember_def orElse_def)

lemma firstSome_append: "firstSome f (xs @ ys) = orElse (firstSome f xs) (firstSome f ys)"
  by (induction xs) (auto simp: orElse_def split: option.split)

lemma noteMembers_cache:
  "map_of (Concepts (foldl (\<lambda>s Member. noteMember Member s) s Members)) Name =
    orElse (firstSome (conceptMember Name) (rev Members)) (map_of (Concepts s) Name)"
  by (induction Members arbitrary: s) (auto simp: noteMember_cache firstSome_append orElse_def split: option.splits)

lemma ends_fallback: "ends_noted Name (fallback n F Name s)"
proof -
  have "ends_noted Name (fallbackUse n F Name BasePath Path t)" for BasePath Path t
    by (auto simp: fallbackUse_def thenPlan_def changing_def ends_noted_def plans_def addAccessed_def noteMembers_cache orElse_def
      split: option.splits sum.splits)
  then show ?thesis by (auto simp: fallback_def intro!: ends_searchEach split: list.split)
qed

lemma ends_findsConcept: "ends_noted Name (findsConcept n F Name s)"
  unfolding findsConcept_def lookupConceptBy_def [of _ n F Name]
  by (auto intro!: ends_orSearch ends_noting ends_fallback split: option.split)

lemma findsConcept_cached: "map_of (Concepts s) Name = Some Conc \<Longrightarrow> findsConcept n F Name s = Some (Inr (Some Conc), s)"
  by (simp add: findsConcept_def lookupConceptBy_def plans_def)

text \<open>C33. A concept that was found is found again: the second lookup, whatever the files hold by then, gives the same concept and
  changes nothing. The search itself leaves everything alone but the caches of concepts, modules and packages, and in these no module that
  was read is read again.\<close>
theorem lookup_again:
  assumes "findsConcept n F Name s = Some (Inr (Some Conc), t)"
  shows "findsConcept n' F' Name t = Some (Inr (Some Conc), t) \<and> reading s t"
  using ends_findsConcept [of Name n F s] kept_findsConcept [OF reading_refl, of s n F Name] assms
  by (simp add: findsConcept_cached ends_noted_def kept_def)

text \<open>A file of a module is read at most once: after an attempt to load it, whether that gave a module or not, another one gives the same
  answer from the cache.\<close>
theorem module_read_once:
  assumes "loadIntraPackageModule n F BasePath Name s = Some (r, t)"
  shows "(\<exists>Mod. r = Inr Mod \<and> map_of (LoadedModulePaths t) (path_append F BasePath (Name @ ''.scaly'')) = Some Mod) \<and>
    loadIntraPackageModule n' F BasePath Name t = Some (r, t)"
proof -
  let ?path = "path_append F BasePath (Name @ ''.scaly'')"
  have "\<exists>Mod. r = Inr Mod \<and> map_of (LoadedModulePaths t) ?path = Some Mod"
    using assms
    by (auto simp: loadIntraPackageModule_def Let_def cacheModule_def changing_def thenPlan_def readProgram_def plans_def
      split: option.splits sum.splits if_splits)
  then show ?thesis by (auto simp: loadIntraPackageModule_def plans_def)
qed

section \<open>Dotted names\<close>

text \<open>A name with a dot whose first part is a concept that is no namespace, such as a structure, stands for this concept, whatever comes
  behind the dot.\<close>
theorem dotted_structure:
  assumes "CHR ''.'' \<notin> set Head" "map_of (Concepts s) (Head @ CHR ''.'' # Rest) = None"
    and "findsConcept n F Head s = Some (Inr (Some Conc), t)" "namespaceOf Conc = None"
  shows "findsConcept n F (Head @ CHR ''.'' # Rest) s = Some (Inr (Some Conc), noteConcept (Head @ CHR ''.'' # Rest) Conc t)"
proof -
  have head: "takeWhile (\<lambda>C. C \<noteq> CHR ''.'') (Head @ CHR ''.'' # Rest) = Head"
    "drop 1 (dropWhile (\<lambda>C. C \<noteq> CHR ''.'') (Head @ CHR ''.'' # Rest)) = Rest"
    using assms(1) by (induction Head) auto
  have "throughNamespaces Path Conc = Some Conc" for Path using assms(4) by (cases Path) simp_all
  then have "dottedConcept (findsConcept n F) (Head @ CHR ''.'' # Rest) s = Some (Inr (Some Conc), t)"
    using assms(3) unfolding dottedConcept_def head by (simp add: thenPlan_def plans_def)
  then show ?thesis using assms(2)
    by (subst findsConcept_eq) (simp add: lookupConceptBy_def conceptPlaces_def orSearch_def noting_def thenPlan_def plans_def changing_def)
qed

section \<open>Types and instances\<close>

text \<open>A planner that looks concepts up in this way; \<open>W\<close> is whatever the methods do that plan code.\<close>

definition searching :: "nat \<Rightarrow> world \<Rightarrow> 'x lookup planner_world \<Rightarrow> 'x lookup planner_world" where
  "searching n F W = W\<lparr>lookupConcept := findsConcept n F\<rparr>"

lemma kept_lookup: "kept (same s) (findsConcept n F Name s)"
  using kept_findsConcept [OF reading_refl] by (rule kept_weaken) (rule reading_same)

lemma searching_same: "lookup_same (searching n F W)"
  by (simp add: lookup_same_def searching_def kept_lookup)

text \<open>C30. When a generic structure is instantiated for arguments for the first time, its instance is entered into the cache
  under its mangled name: it keeps the structure and the arguments for the planning of its methods, and has a property for each
  property of the structure, by name and in order; one that is declared of a parameter has the argument for its type, up to
  the first property with an initializer, before which no operand is planned. A failed attempt leaves no
  entry. In both cases the substitutions and the scopes are those of the caller. This holds whatever the planning of operands
  and functions does.\<close>

theorem instance_entered:
  assumes "Generic = Concept CLoc Name Parameters Attributes (Definition_Structure Struct)"
    and "length Args = length Parameters" "\<not> inCaches (mangleStructure Name Args) s"
    and "instantiateGeneric (searching n F W) (resolveTypeUpTo (searching n F W) fuel) Generic Args Loc s = Some (r, t)"
  shows "TypeSubstitutions t = TypeSubstitutions s \<and> LocalScopes t = LocalScopes s \<and>
    (case r of
      Inl e \<Rightarrow> map_of (InstantiatedStructures t) (mangleStructure Name Args) = None
    | Inr T \<Rightarrow> pt_Name T = Name \<and> pt_Generics T = Args \<and> pt_MangledName T = mangleStructure Name Args \<and>
        (\<exists>S. map_of (InstantiatedStructures t) (mangleStructure Name Args) = Some S \<and>
          instance_of Struct Name Args ((map_of (TypeSubstitutions s))(map parameterName Parameters [\<mapsto>] Args)) S))"
  by (rule instantiateGeneric_entry [OF searching_same assms])

text \<open>C31. A generic structure or union is instantiated once: when an instance was made, asking for it again finds it in the cache,
  whatever the methods do that plan code: nothing is planned or changed, and the answer differs from the first one in its
  place and origin alone, which the cached one does not have.\<close>

theorem instance_cached:
  assumes "Generic = Concept CLoc Name Parameters Attributes Def"
    and "Def = Definition_Structure Struct \<or> Def = Definition_Union Un'"
    and "instantiateGeneric W R Generic Args Loc s = Some (Inr T, t)"
  shows "instantiateGeneric W' R' Generic Args Again t = Some (Inr (instanceType Again Name Args None), t) \<and>
    (\<exists>Origin. T = instanceType Loc Name Args Origin)"
  using instantiateGeneric_cached [OF assms] unfolding assms(1) by (simp add: instantiateGeneric_def plans_def)

text \<open>C32. Resolving a type leaves the substitutions of type parameters as they were, whether it succeeds or fails and however many
  structures, unions and instances it plans on the way, and whatever the planning of their operands and functions does with
  them.\<close>

theorem resolve_keeps_substitutions:
  assumes "resolveTypeUpTo (searching n F W) fuel T Loc s = Some (r, t)"
  shows "TypeSubstitutions t = TypeSubstitutions s"
proof -
  have "kept (same s) (resolveTypeUpTo (searching n F W) fuel T Loc s)"
    using resolveTypeUpTo_same [OF searching_same, of n F W fuel] by (simp add: resolver_same_def)
  then show ?thesis using assms by (auto simp: same_def dest: keptD)
qed

section \<open>Examples\<close>

text \<open>A disk without files, and a planner inside a module that has a structure \<open>Point\<close>.\<close>

definition no_files :: world where
  "no_files = \<lparr>handlers = newModeler ''m.scaly'' (\<lambda>_. None), PackageSearchPaths = [], EnablePrelude = False,
     getFile = (\<lambda>_. None), file_exists = (\<lambda>_. False), is_directory = (\<lambda>_. False), path_append = (\<lambda>a b. a @ ''/'' @ b),
     remove_filename = (\<lambda>_. []), path_filename = (\<lambda>p. p), parent_path = (\<lambda>p. p), getAsInteger = (\<lambda>_. None)\<rparr>"

definition pointConcept :: concept where
  "pointConcept = Concept (Span 0 0) ''Point'' [] [] (Definition_Structure (Structure (Span 0 0) False [] [] [] [] None [] []))"

definition sample_lookup :: lookup_state where
  "sample_lookup = generics_state.extend sample_state \<lparr>Functions = [], SiblingPrograms = [], LoadedPackages = [], OnDemandPackages = [],
     LoadedModulePaths = [], AccessedPackageModules = [], CurrentNamespaceModules = [], CurrentNamespace = None,
     RuntimeFunctionsRegistered = False, BuiltinFunctions = []\<rparr>
     \<lparr>ModuleStack := [Module False [] ''m'' [] [] [ModuleMember_Concept pointConcept] []]\<rparr>"

lemma point_found: "findsConcept n F ''Point'' sample_lookup = Some (Inr (Some pointConcept), noteConcept ''Point'' pointConcept sample_lookup)"
  by (simp add: findsConcept_def lookupConceptBy_def conceptPlaces_def dottedConcept_def orSearch_def noting_def thenPlan_def plans_def
    changing_def sample_lookup_def sample_state_def generics_state.defs stackConcept_def orElse_def pointConcept_def)

theorem lookup_again_witness:
  "findsConcept 0 no_files ''Point'' (noteConcept ''Point'' pointConcept sample_lookup) =
    Some (Inr (Some pointConcept), noteConcept ''Point'' pointConcept sample_lookup)"
  using lookup_again [OF point_found [of 0 no_files], of 0 no_files] by (rule conjunct1)

theorem module_read_once_witness:
  "loadIntraPackageModule 0 no_files ''m'' ''List'' (sample_lookup\<lparr>LoadedModulePaths := [(''m/List.scaly'', None)]\<rparr>) =
    Some (Inr None, sample_lookup\<lparr>LoadedModulePaths := [(''m/List.scaly'', None)]\<rparr>)"
proof -
  have "loadIntraPackageModule 0 no_files ''m'' ''List'' sample_lookup = Some (Inr None, sample_lookup\<lparr>LoadedModulePaths := [(''m/List.scaly'', None)]\<rparr>)"
    by (simp add: loadIntraPackageModule_def no_files_def cacheModule_def changing_def thenPlan_def plans_def sample_lookup_def sample_state_def
      generics_state.defs)
  from module_read_once [OF this] show ?thesis by blast
qed

theorem dotted_structure_witness:
  "findsConcept 0 no_files ''Point.x'' sample_lookup =
    Some (Inr (Some pointConcept), noteConcept ''Point.x'' pointConcept (noteConcept ''Point'' pointConcept sample_lookup))"
proof -
  have "map_of (Concepts sample_lookup) (''Point'' @ CHR ''.'' # ''x'') = None"
    by (simp add: sample_lookup_def sample_state_def generics_state.defs)
  from dotted_structure [OF _ this point_found] show ?thesis by (simp add: pointConcept_def)
qed

text \<open>A planner that knows the generic \<open>Box\<close> and can plan no code.\<close>

definition box_lookup :: lookup_state where
  "box_lookup = sample_lookup\<lparr>Concepts := [(''Box'', boxConcept)]\<rparr>"

abbreviation box_world :: "lookup_state planner_world" where
  "box_world \<equiv> searching 0 no_files sample_world"

lemma box_new: "\<not> inCaches (mangleStructure ''Box'' [intType]) box_lookup"
  by (simp add: inCaches_def box_lookup_def sample_lookup_def sample_state_def generics_state.defs)

lemma box_instantiated:
  "succeeds (instantiateGeneric box_world (resolveTypeUpTo box_world (Suc (Suc (Suc 0)))) boxConcept [intType] (Span 3 9) box_lookup)"
  using box_key
  by (simp add: boxConcept_def boxStructure_def box_lookup_def sample_lookup_def sample_state_def generics_state.defs thenPlan_def plans_def
    resolveNamed_def findConcept_def findsConcept_cached searching_def
    sample_world_def qualifiedConcept_def isPrimitiveName_def inferredArguments_def intType_def Let_def instantiateGeneric_def
    inCaches_def afterwards_def planInstance_def planStructure_def onError_def withoutScopes_def substitute_def put_structure_def)

lemma box_instance:
  obtains T t where "instantiateGeneric box_world (resolveTypeUpTo box_world (Suc (Suc (Suc 0)))) boxConcept [intType] (Span 3 9) box_lookup = Some (Inr T, t)"
  by (rule succeedsE [OF box_instantiated])

theorem instance_entered_witness:
  "\<exists>T t S. instantiateGeneric box_world (resolveTypeUpTo box_world (Suc (Suc (Suc 0)))) boxConcept [intType] (Span 3 9) box_lookup = Some (Inr T, t)
    \<and> LocalScopes t = [[]] \<and> pt_MangledName T = ''_Z3BoxIiE'' \<and> map_of (InstantiatedStructures t) ''_Z3BoxIiE'' = Some S
    \<and> map prop_Name (st_Properties S) = [''value'', ''next''] \<and> prop_Type (hd (st_Properties S)) = intType"
proof -
  obtain T t where r: "instantiateGeneric box_world (resolveTypeUpTo box_world (Suc (Suc (Suc 0)))) boxConcept [intType] (Span 3 9) box_lookup = Some (Inr T, t)"
    by (rule box_instance)
  from instance_entered [OF boxConcept_def _ box_new r] obtain S where S: "LocalScopes t = [[]]" "pt_MangledName T = ''_Z3BoxIiE''"
      "map_of (InstantiatedStructures t) ''_Z3BoxIiE'' = Some S" "instance_of boxStructure ''Box'' [intType] [''T'' \<mapsto> intType] S"
    by (auto simp: box_key box_lookup_def sample_lookup_def sample_state_def generics_state.defs)
  then have names: "map prop_Name (st_Properties S) = [''value'', ''next'']"
    and "list_all2 (typed_as [''T'' \<mapsto> intType]) (beforeOperands (propertiesOf boxStructure)) (take 2 (map prop_Type (st_Properties S)))"
    by (simp_all add: instance_of_def boxStructure_def numeral_2_eq_2)
  then have "prop_Type (hd (st_Properties S)) = set_Loc (Span 0 0) intType"
    by (auto simp: boxStructure_def typed_as_def numeral_2_eq_2 Cons_eq_map_conv)
  with r S names show ?thesis by (auto simp: intType_def)
qed

theorem instance_cached_witness:
  "\<exists>t. instantiateGeneric sample_world (\<lambda>_ _ _. None) boxConcept [intType] (Span 20 28) t =
    Some (Inr (instanceType (Span 20 28) ''Box'' [intType] None), t :: lookup_state)"
proof -
  obtain T t where r: "instantiateGeneric box_world (resolveTypeUpTo box_world (Suc (Suc (Suc 0)))) boxConcept [intType] (Span 3 9) box_lookup = Some (Inr T, t)"
    by (rule box_instance)
  from instance_cached [OF boxConcept_def disjI1 [OF refl] r] show ?thesis by blast
qed

definition box_of_T :: type_ref where
  "box_of_T = Type (Span 3 9) [''Box''] (Some [Type (Span 0 0) [''T''] None UnspecifiedLifetime]) UnspecifiedLifetime"

lemma box_resolved:
  "succeeds (resolveTypeUpTo box_world (Suc (Suc (Suc (Suc 0)))) box_of_T (Span 3 9) (box_lookup\<lparr>TypeSubstitutions := [(''T'', intType)]\<rparr>))"
  using box_key
  by (simp add: box_of_T_def boxConcept_def boxStructure_def box_lookup_def sample_lookup_def sample_state_def generics_state.defs thenPlan_def plans_def
    resolveNamed_def findConcept_def findsConcept_cached searching_def
    sample_world_def qualifiedConcept_def isPrimitiveName_def inferredArguments_def intType_def Let_def instantiateGeneric_def
    inCaches_def afterwards_def planInstance_def planStructure_def onError_def withoutScopes_def substitute_def put_structure_def)

theorem resolve_keeps_substitutions_witness:
  "\<exists>T t. resolveTypeUpTo box_world (Suc (Suc (Suc (Suc 0)))) box_of_T (Span 3 9) (box_lookup\<lparr>TypeSubstitutions := [(''T'', intType)]\<rparr>) =
      Some (Inr T, t) \<and> TypeSubstitutions t = [(''T'', intType)]"
proof -
  obtain T t where r: "resolveTypeUpTo box_world (Suc (Suc (Suc (Suc 0)))) box_of_T (Span 3 9)
      (box_lookup\<lparr>TypeSubstitutions := [(''T'', intType)]\<rparr>) = Some (Inr T, t)"
    by (rule succeedsE [OF box_resolved])
  from resolve_keeps_substitutions [OF this] r show ?thesis by simp
qed

end
