(* ===== verification/Planner_Routines_Theorems.thy ===== *)
theory Planner_Routines_Theorems
  imports Planner_Routines Planner_Lookup_Theorems
begin

text \<open>
  What a planned function is and where the cache has it, which functions share a cache entry, and what the inference of
  type arguments finds.
\<close>

section \<open>Planned functions\<close>

lemma register_flags [simp]:
  "InstantiatedFunctions (leaveFunction Fn s) = InstantiatedFunctions s"
  "InstantiatedFunctions (onScopes f s) = InstantiatedFunctions s"
  "InstantiatedFunctions (usesLocal b s) = InstantiatedFunctions s"
  "CurrentFunctionUsesLocalLifetime (leaveFunction Fn s) = CurrentFunctionUsesLocalLifetime s"
  "CurrentFunctionUsesLocalLifetime (onScopes f s) = CurrentFunctionUsesLocalLifetime s"
  "CurrentFunctionUsesLocalLifetime (enterFunction Fn s) = CurrentFunctionUsesLocalLifetime s"
  "CurrentFunctionUsesLocalLifetime (registerFunction F s) = CurrentFunctionUsesLocalLifetime s"
  "FunctionsBeingPlanned (leaveFunction Fn s) = removeAll Fn (FunctionsBeingPlanned s)"
  by (simp_all add: leaveFunction_def onScopes_def usesLocal_def enterFunction_def registerFunction_def Let_def)

lemma usesLocal_flag [simp]: "CurrentFunctionUsesLocalLifetime (usesLocal b s) = b"
  by (simp add: usesLocal_def)

lemma functions_register [simp]:
  "InstantiatedFunctions (registerFunction F s) = map_put (pf_MangledName F) F (InstantiatedFunctions s)"
  by (simp add: registerFunction_def)

lemma optional_Inr: "resolveOptional R T Loc s = Some (Inr U, t) \<Longrightarrow> U = None \<longleftrightarrow> T = None"
  by (auto simp: resolveOptional_def thenPlan_Inr split: option.splits)

lemma planReturns_Inr:
  "planReturns R T Loc s = Some (Inr U, t) \<Longrightarrow> (U = None \<longleftrightarrow> T = None) \<and> (\<forall>V. U = Some V \<longrightarrow> \<not> isLocal (pt_Life V))"
  by (auto simp: planReturns_def thenPlan_Inr planFails_def split: option.splits if_splits)

text \<open>The signature of a function, which is in the cache when its body is planned.\<close>

definition signature_of :: "function_m \<Rightarrow> string \<Rightarrow> planned_item list \<Rightarrow> planned_function \<Rightarrow> bool" where
  "signature_of Fn Mangled Input F \<longleftrightarrow> pf_Name F = fn_Name Fn \<and> pf_MangledName F = Mangled \<and> pf_Input F = Input \<and>
     pf_PageParameter F = implicitPage Fn \<and> pf_Life F = fn_Life Fn \<and>
     (pf_Returns F = None \<longleftrightarrow> fn_Returns Fn = None) \<and> (\<forall>T. pf_Returns F = Some T \<longrightarrow> \<not> isLocal (pt_Life T)) \<and>
     (pf_Throws F = None \<longleftrightarrow> fn_Throws Fn = None) \<and> (pf_CanThrow F \<longleftrightarrow> fn_Throws Fn \<noteq> None)"

text \<open>C34. A function that was planned is in the cache under its mangled name. When its name was there already, the answer is
  that function and no body is planned. Otherwise its body was planned after its signature had been entered, so that calls of itself
  find it: it has the parameters that were planned, a result exactly when it was declared with one and never a local one, it
  can throw exactly when it was declared so, and it needs a page of its own when the planning of its
  body said so. The function is no longer among those being planned, and the flag for local values is that of the function around
  it. This holds whatever the resolution of types and the planning of bodies do.\<close>

theorem function_planned:
  assumes "planFunctionBy W R Fn Parent s = Some (Inr F, t)"
  shows "\<exists>Input u. functionParameters R Fn Parent (onScopes pushScope (usesLocal False (enterFunction Fn s))) = Some (Inr Input, u) \<and>
    map_of (InstantiatedFunctions t) (functionName Fn Input Parent) = Some F \<and>
    (case map_of (InstantiatedFunctions u) (functionName Fn Input Parent) of
       Some Cached \<Rightarrow> F = Cached \<and> InstantiatedFunctions t = InstantiatedFunctions u
     | None \<Rightarrow> (\<exists>Sig v Impl w. signature_of Fn (functionName Fn Input Parent) Input Sig \<and>
         map_of (InstantiatedFunctions v) (functionName Fn Input Parent) = Some Sig \<and>
         planImplementation W (fn_Impl Fn) v = Some (Inr Impl, w) \<and>
         F = Sig\<lparr>pf_Impl := Impl, pf_NeedsLocalPage := CurrentFunctionUsesLocalLifetime w\<rparr>)) \<and>
    Fn \<notin> set (FunctionsBeingPlanned t) \<and> CurrentFunctionUsesLocalLifetime t = CurrentFunctionUsesLocalLifetime s"
proof -
  let ?saved = "CurrentFunctionUsesLocalLifetime s"
  from assms obtain Input u v where u: "functionParameters R Fn Parent (onScopes pushScope (usesLocal False (enterFunction Fn s))) = Some (Inr Input, u)"
    and v: "(case map_of (InstantiatedFunctions u) (functionName Fn Input Parent) of
        Some Cached \<Rightarrow> plans Cached (usesLocal ?saved u)
      | None \<Rightarrow>
          thenPlan (planReturns R (fn_Returns Fn) (fn_Loc Fn)) (\<lambda>Returns.
          thenPlan (ensurePage W R Returns) (\<lambda>_.
          thenPlan (resolveOptional R (fn_Throws Fn) (fn_Loc Fn)) (\<lambda>Throws s.
          let Result = newFunction Fn (PlannerFile s) (functionName Fn Input Parent) Input Returns Throws in
          thenPlan (registering Result) (\<lambda>_. planBody W ?saved (fn_Impl Fn) Result) s))) u) = Some (Inr F, v)"
    and t: "t = leaveFunction Fn (onScopes popScope v)"
    unfolding planFunctionBy_def Let_def inScope_def afterwards_Some thenPlan_Inr by blast
  show ?thesis
  proof (cases "map_of (InstantiatedFunctions u) (functionName Fn Input Parent)")
    case (Some Cached)
    then show ?thesis using u v t by auto
  next
    case None
    with v obtain Returns Throws x y z where r: "planReturns R (fn_Returns Fn) (fn_Loc Fn) u = Some (Inr Returns, x)"
      and th: "resolveOptional R (fn_Throws Fn) (fn_Loc Fn) y = Some (Inr Throws, z)"
      and b: "planBody W ?saved (fn_Impl Fn) (newFunction Fn (PlannerFile z) (functionName Fn Input Parent) Input Returns Throws)
        (registerFunction (newFunction Fn (PlannerFile z) (functionName Fn Input Parent) Input Returns Throws) z) = Some (Inr F, v)"
      by (auto simp: thenPlan_Inr Let_def registering_def)
    let ?Sig = "newFunction Fn (PlannerFile z) (functionName Fn Input Parent) Input Returns Throws"
    from b obtain Impl w where w: "planImplementation W (fn_Impl Fn) (registerFunction ?Sig z) = Some (Inr Impl, w)"
      and F: "F = ?Sig\<lparr>pf_Impl := Impl, pf_NeedsLocalPage := CurrentFunctionUsesLocalLifetime w\<rparr>"
      and v: "v = registerFunction F (usesLocal ?saved w)"
      by (auto simp: planBody_def thenPlan_Inr Let_def)
    have name: "pf_MangledName ?Sig = functionName Fn Input Parent" "pf_MangledName F = functionName Fn Input Parent"
      by (simp_all add: F newFunction_def)
    have "signature_of Fn (functionName Fn Input Parent) Input ?Sig"
      using planReturns_Inr [OF r] optional_Inr [OF th] by (auto simp: signature_of_def newFunction_def)
    moreover have "map_of (InstantiatedFunctions (registerFunction ?Sig z)) (functionName Fn Input Parent) = Some ?Sig"
      by (simp add: name)
    ultimately have planned: "\<exists>Sig v Impl w. signature_of Fn (functionName Fn Input Parent) Input Sig \<and>
         map_of (InstantiatedFunctions v) (functionName Fn Input Parent) = Some Sig \<and>
         planImplementation W (fn_Impl Fn) v = Some (Inr Impl, w) \<and>
         F = Sig\<lparr>pf_Impl := Impl, pf_NeedsLocalPage := CurrentFunctionUsesLocalLifetime w\<rparr>"
      using w F by blast
    have "map_of (InstantiatedFunctions t) (functionName Fn Input Parent) = Some F"
      "CurrentFunctionUsesLocalLifetime t = ?saved" "Fn \<notin> set (FunctionsBeingPlanned t)"
      by (simp_all add: t v name)
    with planned show ?thesis using u None by (intro exI [of _ Input] exI [of _ u]) simp
  qed
qed

section \<open>Instances of generic functions\<close>

text \<open>Instances of a generic function are told apart by the names of their type arguments alone: once there is one, another
  request whose arguments have the same names gets it too, whatever their own arguments are, so \<open>f[Box[int]]\<close> and
  \<open>f[Box[char]]\<close> are one function.\<close>
theorem generic_function_shared:
  assumes "length TypeArgs = length (fn_Parameters Fn)" "map pt_Name TypeArgs' = map pt_Name TypeArgs"
    and "instantiateGenericFunction W Fn TypeArgs Loc s = Some (Inr F, t)"
  shows "instantiateGenericFunction W Fn TypeArgs' Loc' t = Some (Inr F, t)"
proof -
  have l: "length TypeArgs' = length (fn_Parameters Fn)" using assms(1) arg_cong [OF assms(2), of length] by simp
  have "map (\<lambda>Arg. CHR ''.'' # pt_Name Arg) TypeArgs' = map ((#) CHR ''.'') (map pt_Name TypeArgs')" by simp
  also have "\<dots> = map (\<lambda>Arg. CHR ''.'' # pt_Name Arg) TypeArgs" unfolding assms(2) by simp
  finally have "genericFunctionKey (fn_Name Fn) TypeArgs' = genericFunctionKey (fn_Name Fn) TypeArgs"
    by (simp only: genericFunctionKey_def)
  moreover have "map_of (InstantiatedFunctions t) (genericFunctionKey (fn_Name Fn) TypeArgs) = Some F"
    using assms(3,1) by (auto simp: instantiateGenericFunction_def Let_def thenPlan_def plans_def split: option.splits sum.splits)
  ultimately show ?thesis using l by (simp add: instantiateGenericFunction_def plans_def)
qed

text \<open>A function whose result type cannot be resolved leaves the flag of the function around it reset, so an
  allocation with \<open>$\<close> before it is forgotten there when the error is consumed.\<close>

lemma flag_lost:
  assumes "fn_Returns Fn = Some Ref" "\<And>u. R Ref (fn_Loc Fn) u = Some (Inl e, u)"
    and "functionParameters R Fn Parent (onScopes pushScope (usesLocal False (enterFunction Fn s))) = Some (Inr Input, u)"
    and "map_of (InstantiatedFunctions u) (functionName Fn Input Parent) = None" "\<not> CurrentFunctionUsesLocalLifetime u"
  shows "\<exists>t. planFunctionBy W R Fn Parent s = Some (Inl e, t) \<and> \<not> CurrentFunctionUsesLocalLifetime t"
  using assms by (auto simp: planFunctionBy_def Let_def inScope_def afterwards_def thenPlan_def planReturns_def leaveFunction_def onScopes_def)

section \<open>Inference of type arguments\<close>

lemma typesEqual_equiv: "typesEqual T T" "typesEqual T U \<Longrightarrow> typesEqual U T" "typesEqual T U \<Longrightarrow> typesEqual U V \<Longrightarrow> typesEqual T V"
  by (simp_all add: typesEqual_shape)

text \<open>Each type parameter of an argument has a type, and each has it from an argument.\<close>

definition explained :: "generic_parameter list \<Rightarrow> (item \<times> planned_type) list \<Rightarrow> (string \<times> planned_type) list \<Rightarrow>
    (string \<times> planned_type) list \<Rightarrow> bool" where
  "explained ps xs I J \<longleftrightarrow> map_of I \<subseteq>\<^sub>m map_of J
     \<and> (\<forall>P A N. (P, A) \<in> set xs \<longrightarrow> typeParameterOf ps P = Some N \<longrightarrow> (\<exists>T. map_of J N = Some T \<and> typesEqual T A))
     \<and> (\<forall>N T. map_of J N = Some T \<longrightarrow> map_of I N = Some T \<or> (\<exists>P. (P, T) \<in> set xs \<and> typeParameterOf ps P = Some N))"

lemma explained_skip: "explained ps xs I J \<Longrightarrow> typeParameterOf ps P = None \<Longrightarrow> explained ps ((P, A) # xs) I J"
  unfolding explained_def by (simp, metis)

lemma explained_new:
  assumes "explained ps xs (map_put N A I) J" "typeParameterOf ps P = Some N" "map_of I N = None"
  shows "explained ps ((P, A) # xs) I J"
proof -
  have "map_of J N = Some A" using assms(1) by (auto simp: explained_def map_le_def dom_def)
  moreover have "map_of I \<subseteq>\<^sub>m map_of J" using assms(1,3) by (auto simp: explained_def map_le_def dom_def split: if_splits)
  ultimately show ?thesis using assms(1,2) typesEqual_equiv(1) [of A] unfolding explained_def
    by (simp, metis option.inject)
qed

lemma explained_old:
  assumes "explained ps xs I J" "typeParameterOf ps P = Some N" "map_of I N = Some T" "typesEqual T A"
  shows "explained ps ((P, A) # xs) I J"
proof -
  have "map_of J N = Some T" using assms(1,3) by (auto simp: explained_def map_le_def dom_def)
  then show ?thesis using assms(1,2,4) unfolding explained_def by (simp, metis)
qed

lemma inferLoop_explained: "inferLoop ps xs I = Inr J \<Longrightarrow> explained ps xs I J"
proof (induction ps xs I rule: inferLoop.induct)
  case (2 ps P A xs I)
  show ?case
  proof (cases "typeParameterOf ps P")
    case None
    then show ?thesis using 2 by (simp add: explained_skip)
  next
    case (Some N)
    then show ?thesis using 2 by (cases "map_of I N") (auto intro: explained_new explained_old split: if_splits)
  qed
qed (simp add: explained_def)

lemma inferLoop_sound:
  assumes "inferLoop ps xs I = Inr J"
  shows "(P, A) \<in> set xs \<Longrightarrow> typeParameterOf ps P = Some N \<Longrightarrow> \<exists>T. map_of J N = Some T \<and> typesEqual T A"
    and "map_of J N = Some T \<Longrightarrow> map_of I N = Some T \<or> (\<exists>P. (P, T) \<in> set xs \<and> typeParameterOf ps P = Some N)"
  using inferLoop_explained [OF assms] unfolding explained_def by blast+

text \<open>Arguments agree when those of the same type parameter have the same type.\<close>

definition agreeing :: "generic_parameter list \<Rightarrow> (item \<times> planned_type) list \<Rightarrow> bool" where
  "agreeing ps xs \<longleftrightarrow> (\<forall>P A Q B N. (P, A) \<in> set xs \<longrightarrow> (Q, B) \<in> set xs \<longrightarrow>
     typeParameterOf ps P = Some N \<longrightarrow> typeParameterOf ps Q = Some N \<longrightarrow> typesEqual A B)"

lemma agreeing_Cons: "agreeing ps (x # xs) \<Longrightarrow> agreeing ps xs"
  unfolding agreeing_def by (meson list.set_intros(2))

lemma inferLoop_complete:
  assumes "agreeing ps xs" "\<forall>(P, A) \<in> set xs. \<forall>N T. typeParameterOf ps P = Some N \<and> map_of I N = Some T \<longrightarrow> typesEqual T A"
  shows "\<exists>J. inferLoop ps xs I = Inr J"
  using assms
proof (induction xs arbitrary: I)
  case (Cons x xs)
  obtain P A where x: "x = (P, A)" by (cases x)
  have sub: "agreeing ps xs" using Cons.prems(1) by (rule agreeing_Cons)
  have old: "\<exists>J. inferLoop ps xs I = Inr J"
    using Cons.IH [OF sub] Cons.prems(2) by auto
  show ?case
  proof (cases "typeParameterOf ps P")
    case None
    then show ?thesis using old x by simp
  next
    case (Some N)
    have "\<forall>(Q, B) \<in> set xs. \<forall>M T. typeParameterOf ps Q = Some M \<and> map_of (map_put N A I) M = Some T \<longrightarrow> typesEqual T B"
    proof (clarify)
      fix Q B M T
      assume q: "(Q, B) \<in> set xs" "typeParameterOf ps Q = Some M" "map_of (map_put N A I) M = Some T"
      show "typesEqual T B"
      proof (cases "M = N")
        case True
        then have "T = A" using q(3) by simp
        then show ?thesis using Cons.prems(1) q(1,2) True Some x unfolding agreeing_def by (metis list.set_intros)
      next
        case False
        then show ?thesis using Cons.prems(2) q by auto
      qed
    qed
    from Cons.IH [OF sub this] have "\<exists>J. inferLoop ps xs (map_put N A I) = Inr J" .
    moreover have "typesEqual T A" if "map_of I N = Some T" for T using Cons.prems(2) that Some x by auto
    ultimately show ?thesis using x Some old by (auto split: option.split)
  qed
qed simp

lemma inferLoop_agreeing:
  assumes "inferLoop ps xs I = Inr J"
  shows "agreeing ps xs"
  unfolding agreeing_def
proof (intro allI impI)
  fix P A Q B N
  assume "(P, A) \<in> set xs" "(Q, B) \<in> set xs" "typeParameterOf ps P = Some N" "typeParameterOf ps Q = Some N"
  from inferLoop_sound(1) [OF assms this(1,3)] inferLoop_sound(1) [OF assms this(2,4)]
  obtain T where "typesEqual T A" "typesEqual T B" by auto
  then show "typesEqual A B" by (simp add: typesEqual_shape)
qed

lemma inferredInOrder_iff:
  "inferredInOrder I Names = Inr Ts \<longleftrightarrow> map (map_of I) Names = map Some Ts"
proof (induction Names arbitrary: Ts)
  case (Cons Name Names)
  show ?case
  proof (cases "map_of I Name")
    case (Some T)
    then show ?thesis using Cons [of "tl Ts"] by (cases "inferredInOrder I Names"; cases Ts) auto
  qed (cases Ts; simp)
qed auto

lemma inferredInOrder_ex: "(\<exists>Ts. inferredInOrder I Names = Inr Ts) \<longleftrightarrow> (\<forall>Name \<in> set Names. map_of I Name \<noteq> None)"
proof -
  have "map (map_of I) Names = map Some (map (\<lambda>Name. the (map_of I Name)) Names)" if "\<forall>Name \<in> set Names. map_of I Name \<noteq> None"
    using that by (auto simp: comp_def)
  moreover have "\<forall>Name \<in> set Names. map_of I Name \<noteq> None" if "map (map_of I) Names = map Some Ts" for Ts
    using that by (induction Names arbitrary: Ts) auto
  ultimately show ?thesis unfolding inferredInOrder_iff by blast
qed

text \<open>C35. The inference of type arguments succeeds exactly when each type parameter is the declared type of some parameter
  with an argument, and arguments for the same type parameter have the same type. Then each type parameter gets the type
  of an argument for it, and every argument for it has that type.\<close>
theorem type_arguments_inferred:
  assumes "Pairs = zip (fn_Input Fn) ArgTypes" and "Names = map parameterName (fn_Parameters Fn)"
    and "inferTypeArguments Fn ArgTypes Loc s = Some (r, t)"
  shows "t = s \<and> (isl r \<longleftrightarrow> \<not> (agreeing (fn_Parameters Fn) Pairs \<and>
      (\<forall>Name \<in> set Names. \<exists>(P, A) \<in> set Pairs. typeParameterOf (fn_Parameters Fn) P = Some Name))) \<and>
    (\<forall>Result. r = Inr Result \<longrightarrow> list_all2 (\<lambda>Name T.
      (\<exists>P. (P, T) \<in> set Pairs \<and> typeParameterOf (fn_Parameters Fn) P = Some Name) \<and>
      (\<forall>(P, A) \<in> set Pairs. typeParameterOf (fn_Parameters Fn) P = Some Name \<longrightarrow> typesEqual T A)) Names Result)"
proof (cases "inferLoop (fn_Parameters Fn) Pairs []")
  case (Inl Message)
  then have "\<not> agreeing (fn_Parameters Fn) Pairs" using inferLoop_complete [of _ Pairs "[]"] by fastforce
  then show ?thesis using Inl assms by (auto simp: inferTypeArguments_def planFails_def)
next
  case (Inr J)
  let ?ps = "fn_Parameters Fn"
  have covered: "map_of J Name \<noteq> None \<longleftrightarrow> (\<exists>(P, A) \<in> set Pairs. typeParameterOf ?ps P = Some Name)" for Name
    using inferLoop_sound [OF Inr, where N = Name] by (cases "map_of J Name") auto
  have types: "list_all2 (\<lambda>Name T. (\<exists>P. (P, T) \<in> set Pairs \<and> typeParameterOf ?ps P = Some Name) \<and>
      (\<forall>(P, A) \<in> set Pairs. typeParameterOf ?ps P = Some Name \<longrightarrow> typesEqual T A)) Names Result"
    if "inferredInOrder J Names = Inr Result" for Result
  proof (rule list_all2_mono [of "\<lambda>Name T. map_of J Name = Some T"])
    show "list_all2 (\<lambda>Name T. map_of J Name = Some T) Names Result"
      using that unfolding inferredInOrder_iff by (auto simp: list_all2_conv_all_nth list_eq_iff_nth_eq)
    fix Name T
    assume T: "map_of J Name = Some T"
    have "typesEqual T A" if "(P, A) \<in> set Pairs" "typeParameterOf ?ps P = Some Name" for P A
      using inferLoop_sound(1) [OF Inr that] T by simp
    then show "(\<exists>P. (P, T) \<in> set Pairs \<and> typeParameterOf ?ps P = Some Name) \<and>
        (\<forall>(P, A) \<in> set Pairs. typeParameterOf ?ps P = Some Name \<longrightarrow> typesEqual T A)"
      using inferLoop_sound(2) [OF Inr T] by auto
  qed
  have "inferTypeArguments Fn ArgTypes Loc s = (case inferredInOrder J Names of
      Inl Message \<Rightarrow> planFails (PlannerNotImplementedError (PlannerFile s) Loc Message) s
    | Inr Result \<Rightarrow> plans Result s)"
    using Inr unfolding assms(1,2) by (simp add: inferTypeArguments_def)
  moreover have "isl (inferredInOrder J Names) \<longleftrightarrow> \<not> (\<forall>Name \<in> set Names. \<exists>(P, A) \<in> set Pairs. typeParameterOf ?ps P = Some Name)"
    unfolding covered [symmetric] using inferredInOrder_ex [of J Names] by (cases "inferredInOrder J Names") auto
  ultimately show ?thesis using assms(3) types inferLoop_agreeing [OF Inr]
    by (cases "inferredInOrder J Names") (auto simp: planFails_def plans_def)
qed

section \<open>Examples\<close>

text \<open>A generic function \<open>first[A, B](x: A, y: B, z: A)\<close>.\<close>

definition parameterOfType :: "string \<Rightarrow> string \<Rightarrow> item" where
  "parameterOfType Name T = Item (Span 0 0) False (Some Name) (Some (Type (Span 0 0) [T] None UnspecifiedLifetime)) []"

definition firstFunction :: function_m where
  "firstFunction = (externFunction ''first'' [parameterOfType ''x'' ''A'', parameterOfType ''y'' ''B'', parameterOfType ''z'' ''A''] None)
     \<lparr>fn_Parameters := [GenericParameter (Span 0 0) ''A'' [], GenericParameter (Span 0 0) ''B'' []]\<rparr>"

theorem type_arguments_inferred_witness:
  "inferTypeArguments firstFunction [intType, set_Name ''bool'' intType, intType] (Span 0 0) sample_state =
      Some (Inr [intType, set_Name ''bool'' intType], sample_state) \<and>
    agreeing (fn_Parameters firstFunction) (zip (fn_Input firstFunction) [intType, set_Name ''bool'' intType, intType])"
proof -
  have "inferTypeArguments firstFunction [intType, set_Name ''bool'' intType, intType] (Span 0 0) sample_state =
      Some (Inr [intType, set_Name ''bool'' intType], sample_state)"
    by (simp add: inferTypeArguments_def firstFunction_def externFunction_def parameterOfType_def plans_def typesEqual_equiv)
  from this type_arguments_inferred [OF refl refl this] show ?thesis by simp
qed

text \<open>A function without parameters and result, planned in the world of the examples of Planner_Generics_Theorems.\<close>

definition sample_routines :: routine_state where
  "sample_routines = lookup_state.extend sample_lookup
     \<lparr>LocalScopeInfos = [False], CurrentFunctionUsesLocalLifetime = True, FunctionsBeingPlanned = []\<rparr>"

lemma extern_parameters:
  "functionParameters R (externFunction ''f'' [] None) None s = Some (Inr [], s)"
  by (simp add: functionParameters_def thenPlan_def definingPage_def implicitPage_def
      externFunction_def needsImplicitReturnPage_def plans_def regionParameter_def)

theorem function_planned_witness:
  "\<exists>F t. planFunctionBy sample_world (resolveTypeUpTo sample_world 1) (externFunction ''f'' [] None) None sample_routines = Some (Inr F, t) \<and>
     map_of (InstantiatedFunctions t) ''f'' = Some F \<and> pf_Returns F = None \<and> \<not> pf_CanThrow F \<and> CurrentFunctionUsesLocalLifetime t"
proof -
  have "succeeds (planFunctionBy sample_world (resolveTypeUpTo sample_world 1) (externFunction ''f'' [] None) None sample_routines)"
    by (simp add: planFunctionBy_def inScope_def afterwards_def thenPlan_def functionParameters_def definingPage_def implicitPage_def
      externFunction_def needsImplicitReturnPage_def plans_def regionParameter_def planReturns_def ensurePage_def resolveOptional_def
      registering_def planBody_def onError_def planImplementation_def Let_def split: option.split)
  then obtain F t where f: "planFunctionBy sample_world (resolveTypeUpTo sample_world 1) (externFunction ''f'' [] None) None sample_routines = Some (Inr F, t)"
    by (rule succeedsE)
  have fresh: "InstantiatedFunctions (enterFunction Fn sample_routines) = []" for Fn
    by (simp add: enterFunction_def sample_routines_def sample_lookup_def sample_state_def lookup_state.defs generics_state.defs)
  have name: "functionName (externFunction ''f'' [] None) [] None = ''f''" by (simp add: functionName_def externFunction_def)
  have decl: "fn_Returns (externFunction ''f'' [] None) = None" "fn_Throws (externFunction ''f'' [] None) = None"
    by (simp_all add: externFunction_def)
  have flag: "CurrentFunctionUsesLocalLifetime sample_routines"
    by (simp add: sample_routines_def lookup_state.defs)
  from function_planned [OF f] have "map_of (InstantiatedFunctions t) ''f'' = Some F \<and> pf_Returns F = None \<and> \<not> pf_CanThrow F \<and>
      CurrentFunctionUsesLocalLifetime t"
    by (auto simp: extern_parameters fresh name signature_of_def decl flag)
  with f show ?thesis by blast
qed

end
