(* ===== verification/Spec2Isabelle.thy ===== *)
theory Spec2Isabelle
  imports Parser_Theorems Modeler_Theorems Modeler_Modules_Theorems Planner_Inference_Theorems Planner_Layout Planner_Mangling Planner_Scopes
    Planner_Escape_Theorems Planner_Collapse_Theorems Library_Maps_Theorems
    Library_Pages_Theorems Planner_Routines_Theorems
begin

text \<open>
  The stage-0 compiler of Scaly, retired/scalyc0, from the source text to the parts of the planner
  that stand on their own, and the memory, strings and hash tables of the runtime library that the older
  compiler was built on, retired/packages/scaly/scaly.

  The compiler is a pipeline. Lexer.cpp makes tokens of a text, one behind the other, on request of
  Parser.cpp, which makes the tree of Syntax.h. Modeler.cpp makes of a tree the semantic model of
  Model.h: it gives literals their values, cuts operations into statements, gathers the members of
  modules, and reads the modules and packages that a file names. Planner.cpp makes of the model
  the plan of Plan.h, a program without generics, and Emitter.cpp turns that into LLVM IR.
  An error at any stage ends the run; ModelError.cpp and PlannerError.cpp turn it into a message
  with the line it is about.

  Conventions. A struct of C++ is a record where methods update its fields and a datatype
  with its fields in their order where it is only built and read; a \<open>std::variant\<close> is
  a datatype with a constructor for each alternative. \<open>llvm::Expected\<close> is a sum with the error on
  the left. \<open>std::string\<close> is a list of characters, each a byte. \<open>size_t\<close> and the values of literals
  are 64 bit words where they can wrap (the layout, the literals), natural numbers where they are
  positions in a text or a vector. A \<open>std::map\<close> is an association list in the order of the keys
  where the code iterates over it, else a map. A loop is a recursive function beside the
  one it belongs to, named after it. Names are those of the code.

  The lexer. Lexer is class Lexer of Lexer.h: the record \<open>lexer\<close> has its fields, with the pointer
  as the rest of the text it points at, \<open>None\<close> for the null pointer at the end.
  Lexer_Props and Lexer_Inv tie pointer, offsets and token to the source in an invariant of every
  state that the class can be in and show that advancing makes progress; Lexer_Theorems says which
  token a text gives (numbers, words, nested comments, quoted text, line feeds in
  brackets); Lexer_Roundtrip reads back a printed sequence of tokens.

  The parser. Syntax is Syntax.h. Parser_Core has a combinator for each of the statements
  that Parser.cpp repeats; Parser_Types, Parser_Expressions and Parser_Declarations have
  a definition for each method, which reads like the method line by line. The methods are mutually
  recursive through parseType, parseExpression, parseModel and parseDefinition, which take a bound
  on the depth: the bound is one more than the number of characters left to read (\<open>lexMeasure\<close>),
  and Parser_Contract and Parser_Theorems show that it is never reached, that each method
  satisfies the equation of the code without it, and that parsing a program always ends with a
  program or an error inside the source.

  The modeler. Model is Model.h. Modeler has the handlers of types, literals, expressions,
  statements and attributes; Modeler_Props shows that the recursion over a tree of operands
  is that of the code. Modeler_Routines has items, parameters, initializers, functions and operators.
  Modeler_Modules has definitions, bodies, namespaces, modules, packages, the prelude and programs;
  the record \<open>loading\<close> has the fields of class Modeler that resolving packages changes, and \<open>world\<close>
  has what it asks of the outside: the contents of files, and the functions
  of \<open>llvm::sys::path\<close>. Reading modules may never end, so these methods take fuel and
  answer \<open>None\<close> when it runs out; Modeler_Modules_Props shows that more fuel gives the same answer,
  and Modeler_Modules_Theorems that packages are resolved with fuel for each package that can
  be asked for, but that two modules which declare each other exhaust any fuel. Modeler_Theorems
  and Modeler_Modules_Theorems hold the properties: the values of literals at their width,
  statements, page parameters, the members of a module, the resolution of packages.

  Errors. Diagnostics is ModelError.cpp, PlannerError.cpp and the messages of Parser.cpp: line and
  column of an offset, the line with carets under the span, and the text of each error.

  The planner. Plan is Plan.h and PlannerError.h, Planner_Types has its predicates on types.
  Planner_Inference has substitutions, unification and the solver of constraints;
  \<open>applySubstitution\<close> follows a cyclic substitution for ever and is a partial function, whose
  domain Planner_Inference_Theorems describes beside the soundness of unification. Planner_Layout has
  the layout of structures and unions in 64 bit arithmetic, Planner_Mangling the mangled names, which
  agree exactly for types that denote the same type of the language, for names outside of packages (of a qualified generic the
  encoding keeps the part before the first dot), Planner_Scopes the stack of scopes as a refinement of
  a stack of environments. Planner_Escape is the check of references that outlive the page they
  point into, with Planner_Escape_Theorems reducing its walk to the calls and stores in their order.
  Planner_Operators finds the function that an operator stands for, Planner_Collapse turns
  a sequence of operands and operators into calls, and Planner_Collapse_Theorems shows that
  this is what precedence and left associativity ask for. Plan_Modules has the plan of concepts and modules. Planner_Generics resolves
  the names of types, which instantiates generic concepts and plans structures, unions and concepts on
  the way; its state \<open>generics_state\<close> has the caches, substitutions and scopes of class Planner, and the steps are those
  of a monad over it. These methods call each other through \<open>resolveType\<close>, which recurs as deep as the concepts of the
  program nest: \<open>resolveTypeUpTo\<close> takes fuel, more of it gives the same answer, and for a union that
  mentions itself in a namespace none is enough. Planner_Generics_Theorems has what types are made of while they are
  resolved: what is kept for the caller and what is entered into the caches, whatever the planning of code does. Planner_Lookup finds what a name stands for, concepts, functions and functions of
  packages: in the caches, in the modules around, through a \<open>use\<close>, and in files that it reads with the models of the parser and
  the modeler, whose fuel \<open>n\<close> and world \<open>F\<close> it takes. Planner_Routines has functions, operators, initializers, deinitializers, the methods
  of generic types that are planned when they are called, and generic functions; it runs the operations of Planner_Scopes on
  the scopes of the planner. Planner_Lookup_Theorems shows that what was
  found or read once is found again, and, for the planner that looks up concepts with this lookup (\<open>searching\<close>), that an instance of a generic
  type is entered under its own name and taken from the cache the next time, and that resolving a type keeps the substitutions
  of the caller. Planner_Routines_Theorems shows where a planned function is found and what it was planned of,
  and what the inference of type arguments answers.

  The runtime library, in folders memory and containers. Library_Strings is String.cpp, StringIterator.cpp
  and hashing.cpp: a string is a pointer to its packed length and its bytes, so the methods run on
  the bytes behind a pointer, and a \<open>run\<close> \<open>Returns\<close>, \<open>Exits\<close> with a
  code, \<open>Faults\<close> where C++ leaves it undefined what happens, or \<open>Hangs\<close> in a loop that never ends; a string gives
  back what it was made of. Library_Maps has the builders of sets, maps and multimaps
  and the tables made of them, over any type of keys with a hash and an equality. A builder whose slots are full
  frees their page with a call that reads pages which are not its own (Library_Pages_Theorems has the fault), so it \<open>Faults\<close> there, and so does
  an array that outgrows its first capacity.
  Library_Maps_Theorems shows that the map built of a vector of pairs is the partial map of these pairs, as long as there is room;
  multimaps are modelled without a property. Library_Pages is Page.cpp, PageList.cpp,
  Object.cpp and Region.cpp over a memory of headers and nodes by address; a page calls the next one of its chain,
  with fuel for each and \<open>Hangs\<close> when it runs out, and Library_Pages_Theorems shows that three more than the length
  of the chain is enough, and that memory given out is aligned and in nobody else's use. Word_Alignment has the rounding
  that pages and layouts share.

  Interfaces. The token source of the parser, the contract of its recursive methods, the relation that
  every step of loading keeps, the map of scopes, the lookup of operators and the hash and equality of the keys of a table are locales,
  each interpreted on the definitions of the component that provides it.

  What is a parameter. \<open>strtod\<close>, the path and file functions of LLVM, and \<open>StringRef::getAsInteger\<close>
  are not defined here; the properties say what they need of them. So are the parts of the planner that the
  operators call: the resolution of a type, the lookup of a method, and what an operand holds
  once it was moved away. The record \<open>planner_world\<close> has what the planning of types and routines asks of the rest of the planner:
  the lookup of a concept (\<open>findsConcept\<close> is one), the planning of
  routines (\<open>planFunctionBy\<close> and its like are), of operands, actions and namespaces. The properties
  assume nothing of it: they hold for every value of the record, with the lookup of concepts replaced by the modelled one where they say so. In the library, so are \<open>aligned_alloc\<close>, of which \<open>c_ok\<close> states what the C standard promises, what memory
  holds before it is written, and the square root.

  Not modelled. The planning of modules, statements and operands in
  Planner.cpp, with the resolution of calls and members; Emitter.cpp, whose effect is that of
  the builder of LLVM; main.cpp, SyntaxDump.h and the tests. The memory of the compiler is not modelled: allocation does
  not fail there, the stack has no end, and the assertions of \<open>llvm::Error\<close> about unchecked errors
  are left out. In the library the lists that the tables use are the lists of their
  elements, and an array is the list of its elements until it would have to be allocated anew; console, files, directories and the reader of JSON are left out. Of the other C++ in the repository the compilers under retired/packages and
  retired/scalycpp are emitted from the Scaly files beside them, and the files under packages are
  wrappers of system calls.
\<close>

end
